(* ===== verification/Kv_Prelude.thy ===== *)
theory Kv_Prelude
  imports Main "HOL-Library.Word" "HOL-Library.Monad_Syntax"
begin

text \<open>
  The prelude of the development: names for the machine integers of the sources, byte
  strings, the little-endian codec behind every \<open>memcpy\<close> between an integer and a buffer,
  bounded writes into buffers, and the theorem collections the component theories share.

  The host is little-endian (x86-64: the sources read the time stamp counter with
  \<open>rdtsc\<close>), so copying the first four bytes of a key into an \<open>uint32_t\<close> reads them
  with the least significant byte first, and \<open>htobe32\<close> reverses the bytes of its argument.
\<close>

unbundle bit_operations_syntax

type_synonym byte = "8 word"
type_synonym u8 = "8 word"
type_synonym u16 = "16 word"
type_synonym u32 = "32 word"
type_synonym u64 = "64 word"

named_theorems mem_simps \<open>reads and writes of byte buffers\<close>
named_theorems le_simps \<open>little-endian encoding and decoding\<close>
named_theorems op_defs \<open>the definitions of the operations of a component\<close>
named_theorems inv_intros \<open>preservation of the invariants\<close>

section \<open>Undefined behaviour\<close>

text \<open>
  An operation that can leave the bounds of an array or buffer returns an option, and \<open>None\<close>
  is the run that does so. \<open>require\<close> states the condition an access needs.
\<close>

definition require :: "bool \<Rightarrow> unit option" where
  "require b = (if b then Some () else None)"

lemma require_bind [simp]: "require b \<bind> f = (if b then f () else None)"
  by (simp add: require_def)

section \<open>Calls in sequence\<close>

text \<open>A call returns, waits for another thread, or is undefined.\<close>

datatype 'a call = Returns 'a | Waits | Undefined

definition andThen :: "'a call \<Rightarrow> ('a \<Rightarrow> 'b call) \<Rightarrow> 'b call" where
  "andThen c f = (case c of Returns x \<Rightarrow> f x | Waits \<Rightarrow> Waits | Undefined \<Rightarrow> Undefined)"

lemma andThen_simps [simp]:
  "andThen (Returns x) f = f x" "andThen Waits f = Waits" "andThen Undefined f = Undefined"
  by (simp_all add: andThen_def)

definition defined :: "'a option \<Rightarrow> 'a call" where
  "defined c = (case c of Some x \<Rightarrow> Returns x | None \<Rightarrow> Undefined)"

lemma defined_simps [simp]: "defined (Some x) = Returns x" "defined None = Undefined"
  by (simp_all add: defined_def)

section \<open>Little-endian integers\<close>

fun le_val :: "byte list \<Rightarrow> nat" where
  "le_val [] = 0"
| "le_val (b # bs) = unat b + 256 * le_val bs"

fun le_bytes :: "nat \<Rightarrow> nat \<Rightarrow> byte list" where
  "le_bytes 0 v = []"
| "le_bytes (Suc n) v = word_of_nat v # le_bytes n (v div 256)"

text \<open>\<open>memcpy(&x, p, 4)\<close> into an \<open>uint32_t\<close>, and the bytes of an \<open>uint32_t\<close> in memory.\<close>

definition read_u32 :: "byte list \<Rightarrow> u32" where
  "read_u32 bs = word_of_nat (le_val (take 4 bs))"

definition u32_bytes :: "u32 \<Rightarrow> byte list" where
  "u32_bytes w = le_bytes 4 (unat w)"

text \<open>\<open>htobe32\<close> on a little-endian host: the four bytes in the other order.\<close>

definition htobe32 :: "u32 \<Rightarrow> u32" where
  "htobe32 w = word_of_nat (le_val (rev (u32_bytes w)))"

text \<open>\<open>memcpy(buf + off, src, n)\<close>, with the \<open>n\<close> bytes given as a list.\<close>

definition mem_write :: "byte list \<Rightarrow> nat \<Rightarrow> byte list \<Rightarrow> byte list" where
  "mem_write buf off bs = take off buf @ bs @ drop (off + length bs) buf"

lemma length_le_bytes [simp, le_simps]: "length (le_bytes n v) = n"
  by (induction n arbitrary: v) auto

lemma unat_byte_less [simp]: "unat (b :: byte) < 256"
  using unsigned_less [of b, where ?'a = nat] by simp

lemma byte_256 [simp]: "(256 :: byte) = 0"
  by (simp add: word_unat_eq_iff)

lemma le_val_bound: "le_val bs < 256 ^ length bs"
proof (induction bs)
  case Nil
  then show ?case by simp
next
  case (Cons b bs)
  have "unat b + 256 * le_val bs < 256 * (le_val bs + 1)" by simp
  also have "\<dots> \<le> 256 * 256 ^ length bs" using Cons by (intro mult_le_mono2) simp
  finally show ?case by simp
qed

lemma unat_of_nat_byte [simp]: "unat (word_of_nat v :: byte) = v mod 256"
  by (simp add: unat_of_nat)

lemma le_val_le_bytes [simp, le_simps]: "le_val (le_bytes n v) = v mod 256 ^ n"
  by (induction n arbitrary: v) (simp_all add: mod_mult2_eq)

lemma le_bytes_le_val [simp, le_simps]: "le_bytes (length bs) (le_val bs) = bs"
  by (induction bs) auto

lemma le_val_inject:
  assumes "length as = length bs" and "le_val as = le_val bs"
  shows "as = bs"
  using assms by (metis le_bytes_le_val)

text \<open>Reading four bytes is injective on four-byte strings and undoes \<open>u32_bytes\<close>.\<close>

lemma unat_read_u32: "unat (read_u32 bs) = le_val (take 4 bs)"
proof -
  have "le_val (take 4 bs) < 256 ^ length (take 4 bs)" by (rule le_val_bound)
  also have "\<dots> \<le> 256 ^ 4" by (rule power_increasing) simp_all
  finally show ?thesis by (simp add: read_u32_def unat_of_nat)
qed

lemma read_u32_inject:
  assumes "4 \<le> length as" and "4 \<le> length bs" and "read_u32 as = read_u32 bs"
  shows "take 4 as = take 4 bs"
proof (rule le_val_inject)
  show "length (take 4 as) = length (take 4 bs)" using assms by simp
  show "le_val (take 4 as) = le_val (take 4 bs)" using assms(3) by (metis unat_read_u32)
qed

lemma length_u32_bytes [simp, le_simps]: "length (u32_bytes w) = 4"
  by (simp add: u32_bytes_def)

lemma unat_u32_less: "unat (w :: u32) < 256 ^ 4"
  using unsigned_less [of w, where ?'a = nat] by simp

lemma read_u32_u32_bytes [simp, le_simps]: "read_u32 (u32_bytes w @ bs) = w"
  using unat_u32_less [of w] by (simp add: read_u32_def u32_bytes_def)

lemma u32_bytes_read_u32 [simp, le_simps]:
  "4 \<le> length bs \<Longrightarrow> u32_bytes (read_u32 bs) = take 4 bs"
proof -
  assume "4 \<le> length bs"
  then have "le_bytes (length (take 4 bs)) (le_val (take 4 bs)) = le_bytes 4 (le_val (take 4 bs))"
    by simp
  then show ?thesis by (simp add: u32_bytes_def unat_read_u32 del: length_take)
qed

lemma u32_bytes_eval:
  "u32_bytes w = (let v = unat w in [word_of_nat v, word_of_nat (v div 256),
     word_of_nat (v div 65536), word_of_nat (v div 16777216)])"
proof -
  have "(4 :: nat) = Suc (Suc (Suc (Suc 0)))" by simp
  then show ?thesis by (simp only: u32_bytes_def le_bytes.simps Let_def div_mult2_eq [symmetric]) simp
qed

text \<open>\<open>htobe32\<close> is an involution: converting twice gives the value back.\<close>

lemma htobe32_htobe32 [simp, le_simps]: "htobe32 (htobe32 w) = w"
proof -
  have "u32_bytes (htobe32 w) = rev (u32_bytes w)"
    using u32_bytes_read_u32 [of "rev (u32_bytes w)"] by (simp add: htobe32_def read_u32_def)
  then have "htobe32 (htobe32 w) = read_u32 (u32_bytes w @ [])"
    by (simp add: htobe32_def read_u32_def)
  then show ?thesis by (simp only: read_u32_u32_bytes)
qed

section \<open>Writes into buffers\<close>

lemma length_mem_write [simp, mem_simps]:
  "off + length bs \<le> length buf \<Longrightarrow> length (mem_write buf off bs) = length buf"
  by (simp add: mem_write_def)

lemma mem_write_read [simp, mem_simps]:
  "off \<le> length buf \<Longrightarrow> take (length bs) (drop off (mem_write buf off bs)) = bs"
  by (simp add: mem_write_def)

lemma mem_write_Nil [simp, mem_simps]: "mem_write buf off [] = buf"
  by (simp add: mem_write_def)

lemma take_mem_write [simp, mem_simps]:
  "n \<le> off \<Longrightarrow> off \<le> length buf \<Longrightarrow> take n (mem_write buf off bs) = take n buf"
  by (simp add: mem_write_def min_def)

lemma take_mem_write_end [simp, mem_simps]:
  "off \<le> length buf \<Longrightarrow> take (off + length bs) (mem_write buf off bs) = take off buf @ bs"
  by (simp add: mem_write_def)

end
