(* ===== verification/Std_Map.thy ===== *)
theory Std_Map
  imports Kv_Prelude
begin

text \<open>
  The ordered containers of the sources: \<open>std::map<K, V, Cmp>\<close> as the list of its pairs in
  the order of \<open>Cmp\<close>. An iterator is a split of that list, the pairs before it and the
  pairs from it to \<open>end()\<close>. The operations take the comparison as an argument and call it
  exactly the way the C++ standard describes: \<open>lower_bound\<close> skips the keys that compare
  less, and \<open>find\<close> accepts the first remaining key unless the searched key is less than it.

  The locale \<open>key_order\<close> states what a comparison has to satisfy on the keys that occur (a
  strict total order on the valid keys); inside it the operations are proved to implement a
  finite map. It is interpreted for the comparisons the emulator uses.
\<close>

section \<open>Operations\<close>

definition std_before :: "('k \<Rightarrow> 'k \<Rightarrow> bool) \<Rightarrow> 'k \<Rightarrow> ('k \<times> 'v) list \<Rightarrow> ('k \<times> 'v) list" where
  "std_before lt k m = takeWhile (\<lambda>p. lt (fst p) k) m"

definition std_lower_bound :: "('k \<Rightarrow> 'k \<Rightarrow> bool) \<Rightarrow> 'k \<Rightarrow> ('k \<times> 'v) list \<Rightarrow> ('k \<times> 'v) list" where
  "std_lower_bound lt k m = dropWhile (\<lambda>p. lt (fst p) k) m"

definition std_find :: "('k \<Rightarrow> 'k \<Rightarrow> bool) \<Rightarrow> 'k \<Rightarrow> ('k \<times> 'v) list \<Rightarrow> ('k \<times> 'v) option" where
  "std_find lt k m =
     (case std_lower_bound lt k m of
        [] \<Rightarrow> None
      | p # _ \<Rightarrow> if lt k (fst p) then None else Some p)"

text \<open>\<open>emplace\<close> leaves the map alone when an equivalent key is present.\<close>

definition std_emplace :: "('k \<Rightarrow> 'k \<Rightarrow> bool) \<Rightarrow> 'k \<Rightarrow> 'v \<Rightarrow> ('k \<times> 'v) list \<Rightarrow> ('k \<times> 'v) list" where
  "std_emplace lt k v m =
     (case std_find lt k m of
        Some _ \<Rightarrow> m
      | None \<Rightarrow> std_before lt k m @ (k, v) # std_lower_bound lt k m)"

text \<open>\<open>it->second = v\<close> and \<open>erase(it)\<close> for the iterator that \<open>find\<close> returned.\<close>

definition std_assign :: "('k \<Rightarrow> 'k \<Rightarrow> bool) \<Rightarrow> 'k \<Rightarrow> 'v \<Rightarrow> ('k \<times> 'v) list \<Rightarrow> ('k \<times> 'v) list" where
  "std_assign lt k v m =
     (case std_find lt k m of
        None \<Rightarrow> m
      | Some p \<Rightarrow> std_before lt k m @ (fst p, v) # tl (std_lower_bound lt k m))"

definition std_erase :: "('k \<Rightarrow> 'k \<Rightarrow> bool) \<Rightarrow> 'k \<Rightarrow> ('k \<times> 'v) list \<Rightarrow> ('k \<times> 'v) list" where
  "std_erase lt k m =
     (case std_find lt k m of
        None \<Rightarrow> m
      | Some _ \<Rightarrow> std_before lt k m @ tl (std_lower_bound lt k m))"

text \<open>The class invariant of the container: keys valid and strictly increasing.\<close>

definition std_ordered :: "('k \<Rightarrow> 'k \<Rightarrow> bool) \<Rightarrow> ('k \<Rightarrow> bool) \<Rightarrow> ('k \<times> 'v) list \<Rightarrow> bool" where
  "std_ordered lt valid m \<longleftrightarrow> sorted_wrt lt (map fst m) \<and> list_all (\<lambda>p. valid (fst p)) m"

lemma std_split: "std_before lt k m @ std_lower_bound lt k m = m"
  by (simp add: std_before_def std_lower_bound_def)

lemma std_ordered_Nil [simp]: "std_ordered lt valid []"
  by (simp add: std_ordered_def)

lemma std_ordered_append:
  "std_ordered lt valid (xs @ ys) \<longleftrightarrow>
     std_ordered lt valid xs \<and> std_ordered lt valid ys \<and>
     (\<forall>x \<in> set xs. \<forall>y \<in> set ys. lt (fst x) (fst y))"
  by (auto simp: std_ordered_def sorted_wrt_append)

lemma std_ordered_Cons:
  "std_ordered lt valid (p # m) \<longleftrightarrow>
     valid (fst p) \<and> (\<forall>q \<in> set m. lt (fst p) (fst q)) \<and> std_ordered lt valid m"
  by (auto simp: std_ordered_def)

lemma std_ordered_keys:
  "std_ordered lt valid m \<longleftrightarrow> sorted_wrt lt (map fst m) \<and> list_all valid (map fst m)"
  by (simp add: std_ordered_def list_all_iff)

lemma std_ordered_filter:
  "std_ordered lt valid m \<Longrightarrow> std_ordered lt valid (filter P m)"
  by (induction m) (auto simp: std_ordered_Cons)

lemma std_before_lt: "p \<in> set (std_before lt k m) \<Longrightarrow> lt (fst p) k"
  by (auto simp: std_before_def dest: set_takeWhileD)

section \<open>The laws of an ordered map\<close>

locale key_order =
  fixes lt :: "'k \<Rightarrow> 'k \<Rightarrow> bool"
    and valid :: "'k \<Rightarrow> bool"
  assumes lt_irrefl: "valid a \<Longrightarrow> \<not> lt a a"
    and lt_trans: "valid a \<Longrightarrow> valid b \<Longrightarrow> valid c \<Longrightarrow> lt a b \<Longrightarrow> lt b c \<Longrightarrow> lt a c"
    and lt_total: "valid a \<Longrightarrow> valid b \<Longrightarrow> a \<noteq> b \<Longrightarrow> lt a b \<or> lt b a"
begin

lemma lt_asym: "valid a \<Longrightarrow> valid b \<Longrightarrow> lt a b \<Longrightarrow> \<not> lt b a"
  using lt_irrefl lt_trans by blast

lemma ordered_valid: "std_ordered lt valid m \<Longrightarrow> p \<in> set m \<Longrightarrow> valid (fst p)"
  by (simp add: std_ordered_def list_all_iff)

lemma ordered_distinct: "std_ordered lt valid m \<Longrightarrow> distinct (map fst m)"
  by (induction m) (force simp: std_ordered_Cons dest: lt_irrefl)+

text \<open>On an ordered map \<open>lower_bound\<close> is a filter: every key from it on is not less.\<close>

lemma lower_bound_filter:
  assumes "std_ordered lt valid m" and "valid k"
  shows "std_lower_bound lt k m = filter (\<lambda>p. \<not> lt (fst p) k) m"
  using assms(1)
proof (induction m)
  case Nil
  then show ?case by (simp add: std_lower_bound_def)
next
  case (Cons p m)
  then have m: "std_ordered lt valid m" and p: "valid (fst p)"
    and le: "\<And>q. q \<in> set m \<Longrightarrow> lt (fst p) (fst q)"
    by (auto simp: std_ordered_Cons)
  have "\<not> lt (fst q) k" if "\<not> lt (fst p) k" "q \<in> set m" for q
    using lt_trans [OF p ordered_valid [OF m that(2)] assms(2) le [OF that(2)]] that by blast
  then show ?case using Cons.IH [OF m]
    by (auto simp: std_lower_bound_def intro!: filter_True [symmetric])
qed

lemma before_filter:
  assumes "std_ordered lt valid m" and "valid k"
  shows "std_before lt k m = filter (\<lambda>p. lt (fst p) k) m"
proof -
  have "m = std_before lt k m @ std_lower_bound lt k m" by (simp add: std_split)
  then have "filter (\<lambda>p. lt (fst p) k) m =
      filter (\<lambda>p. lt (fst p) k) (std_before lt k m) @
      filter (\<lambda>p. lt (fst p) k) (std_lower_bound lt k m)"
    by (metis filter_append)
  also have "\<dots> = std_before lt k m"
    using assms by (simp add: lower_bound_filter std_before_lt)
  finally show ?thesis by simp
qed

lemma ordered_before: "std_ordered lt valid m \<Longrightarrow> std_ordered lt valid (std_before lt k m)"
  by (metis std_split std_ordered_append)

lemma ordered_lower_bound:
  "std_ordered lt valid m \<Longrightarrow> std_ordered lt valid (std_lower_bound lt k m)"
  by (metis std_split std_ordered_append)

text \<open>\<open>find\<close> is the lookup of the finite map the list represents.\<close>

lemma find_map_of:
  assumes "std_ordered lt valid m" and "valid k"
  shows "std_find lt k m = map_option (Pair k) (map_of m k)"
  using assms(1)
proof (induction m)
  case Nil
  then show ?case by (simp add: std_find_def std_lower_bound_def)
next
  case (Cons p m)
  obtain a v where pav: "p = (a, v)" by (cases p)
  from Cons.prems have m: "std_ordered lt valid m" and a: "valid a"
    and le: "\<And>q. q \<in> set m \<Longrightarrow> lt a (fst q)"
    by (auto simp: std_ordered_Cons pav)
  consider (less) "lt a k" | (eq) "a = k" | (greater) "a \<noteq> k" "lt k a" "\<not> lt a k"
    using lt_total [OF a assms(2)] lt_asym [OF a assms(2)] by blast
  then show ?case
  proof cases
    case less
    then have "a \<noteq> k" using lt_irrefl [OF assms(2)] by auto
    with less show ?thesis using Cons.IH [OF m]
      by (simp add: pav std_find_def std_lower_bound_def)
  next
    case eq
    then show ?thesis using lt_irrefl [OF assms(2)]
      by (simp add: pav std_find_def std_lower_bound_def)
  next
    case greater
    have "k \<notin> fst ` set m"
      using le greater lt_asym [OF a assms(2)] by auto
    then have "map_of m k = None" by (simp add: map_of_eq_None_iff)
    with greater show ?thesis by (simp add: pav std_find_def std_lower_bound_def)
  qed
qed

lemma found_split:
  assumes "std_ordered lt valid m" and "valid k" and "map_of m k = Some v"
  shows "std_lower_bound lt k m = (k, v) # tl (std_lower_bound lt k m)"
proof -
  from assms have "std_find lt k m = Some (k, v)" by (simp add: find_map_of)
  then show ?thesis by (auto simp: std_find_def split: list.splits if_splits)
qed

lemma not_found_gt:
  assumes "std_ordered lt valid m" and "valid k" and "map_of m k = None"
    and "p \<in> set (std_lower_bound lt k m)"
  shows "lt k (fst p)"
proof -
  from assms(1,2,4) have p: "p \<in> set m" "\<not> lt (fst p) k"
    by (auto simp: lower_bound_filter)
  moreover have "fst p \<noteq> k" using p(1) assms(3) by (auto simp: map_of_eq_None_iff)
  ultimately show ?thesis using lt_total [OF assms(2) ordered_valid [OF assms(1) p(1)]] by blast
qed

lemma ordered_emplace:
  assumes "std_ordered lt valid m" and "valid k"
  shows "std_ordered lt valid (std_emplace lt k v m)"
proof (cases "map_of m k")
  case (Some w)
  with assms show ?thesis by (simp add: std_emplace_def find_map_of)
next
  case None
  have "lt (fst x) (fst y)"
    if "x \<in> set (std_before lt k m)" "y \<in> set (std_lower_bound lt k m)" for x y
    using that assms(1) by (metis std_split std_ordered_append)
  with None assms show ?thesis
    by (auto simp: std_emplace_def find_map_of std_ordered_append std_ordered_Cons
        ordered_before ordered_lower_bound std_before_lt not_found_gt)
qed

lemma map_of_emplace:
  assumes "std_ordered lt valid m" and "valid k" and "map_of m k = None"
  shows "map_of (std_emplace lt k v m) = (map_of m)(k \<mapsto> v)"
proof -
  have "map_of (std_before lt k m @ (k, v) # std_lower_bound lt k m) k' =
      ((map_of (std_before lt k m @ std_lower_bound lt k m))(k \<mapsto> v)) k'" for k'
  proof -
    have "map_of (std_before lt k m) k = None"
      using assms(3) by (metis std_split map_of_append map_add_None)
    then show ?thesis by (auto simp: map_add_def split: option.splits)
  qed
  with assms show ?thesis by (auto simp: std_emplace_def find_map_of std_split)
qed

lemma map_of_split_found:
  assumes "std_ordered lt valid m" and "valid k" and "map_of m k = Some v"
  shows "m = std_before lt k m @ (k, v) # tl (std_lower_bound lt k m)"
    and "k \<notin> fst ` set (std_before lt k m)"
    and "k \<notin> fst ` set (tl (std_lower_bound lt k m))"
proof -
  show m: "m = std_before lt k m @ (k, v) # tl (std_lower_bound lt k m)"
    using found_split [OF assms] by (metis std_split)
  have "distinct (map fst (std_before lt k m @ (k, v) # tl (std_lower_bound lt k m)))"
    using ordered_distinct [OF assms(1)] m by simp
  then show "k \<notin> fst ` set (std_before lt k m)"
    and "k \<notin> fst ` set (tl (std_lower_bound lt k m))" by auto
qed

lemma map_of_assign:
  assumes "std_ordered lt valid m" and "valid k" and "map_of m k = Some v"
  shows "map_of (std_assign lt k w m) = (map_of m)(k \<mapsto> w)"
proof -
  note s = map_of_split_found [OF assms]
  have none: "map_of (std_before lt k m) k = None" using s(2) by (simp add: map_of_eq_None_iff)
  have "map_of (std_assign lt k w m) =
      map_of (std_before lt k m @ (k, w) # tl (std_lower_bound lt k m))"
    using assms by (simp add: std_assign_def find_map_of)
  also have "\<dots> = (map_of (std_before lt k m @ (k, v) # tl (std_lower_bound lt k m)))(k \<mapsto> w)"
    using none by (auto simp: map_add_def fun_eq_iff split: option.splits)
  finally show ?thesis using s(1) by simp
qed

lemma map_of_erase:
  assumes "std_ordered lt valid m" and "valid k"
  shows "map_of (std_erase lt k m) = (map_of m)(k := None)"
proof (cases "map_of m k")
  case None
  with assms show ?thesis by (auto simp: std_erase_def find_map_of)
next
  case (Some v)
  note s = map_of_split_found [OF assms Some]
  have none: "map_of (std_before lt k m) k = None"
    "map_of (tl (std_lower_bound lt k m)) k = None"
    using s(2,3) by (simp_all add: map_of_eq_None_iff)
  have "map_of (std_erase lt k m) = map_of (std_before lt k m @ tl (std_lower_bound lt k m))"
    using assms Some by (simp add: std_erase_def find_map_of)
  also have "\<dots> = (map_of (std_before lt k m @ (k, v) # tl (std_lower_bound lt k m)))(k := None)"
    using none by (auto simp: map_add_def fun_eq_iff split: option.splits)
  finally show ?thesis using s(1) by simp
qed

lemma ordered_assign:
  assumes "std_ordered lt valid m" and "valid k"
  shows "std_ordered lt valid (std_assign lt k w m)"
proof (cases "map_of m k")
  case None
  with assms show ?thesis by (simp add: std_assign_def find_map_of)
next
  case (Some v)
  have "map fst (std_assign lt k w m) =
      map fst (std_before lt k m @ (k, v) # tl (std_lower_bound lt k m))"
    using assms Some by (simp add: std_assign_def find_map_of)
  then have keys: "map fst (std_assign lt k w m) = map fst m"
    using map_of_split_found(1) [OF assms Some] by simp
  with assms(1) show ?thesis by (simp add: std_ordered_keys)
qed

lemma ordered_erase:
  assumes "std_ordered lt valid m" and "valid k"
  shows "std_ordered lt valid (std_erase lt k m)"
proof (cases "map_of m k")
  case None
  with assms show ?thesis by (simp add: std_erase_def find_map_of)
next
  case (Some v)
  have "std_ordered lt valid (std_before lt k m @ (k, v) # tl (std_lower_bound lt k m))"
    using map_of_split_found(1) [OF assms Some] assms(1) by simp
  then show ?thesis using assms Some
    by (simp add: std_erase_def find_map_of std_ordered_append std_ordered_Cons)
qed

text \<open>Summing a weight over the pairs, as the space accounting of the emulator does.\<close>

lemma sum_split: "sum_list (map f (std_before lt k m)) + sum_list (map f (std_lower_bound lt k m)) =
    (sum_list (map f m) :: nat)"
  by (metis std_split map_append sum_list_append)

lemma sum_emplace:
  assumes "std_ordered lt valid m" and "valid k" and "map_of m k = None"
  shows "sum_list (map f (std_emplace lt k v m)) = (f (k, v) + sum_list (map f m) :: nat)"
  using assms sum_split [of f k m] by (simp add: std_emplace_def find_map_of)

lemma sum_found:
  assumes "std_ordered lt valid m" and "valid k" and "map_of m k = Some v"
  shows "(sum_list (map f m) :: nat) = f (k, v) + sum_list (map f (std_erase lt k m))"
    and "sum_list (map f (std_assign lt k w m)) + f (k, v) = f (k, w) + sum_list (map f m)"
proof -
  have m: "sum_list (map f m) = sum_list (map f (std_before lt k m)) + f (k, v) +
      sum_list (map f (tl (std_lower_bound lt k m)))"
    using map_of_split_found(1) [OF assms] by (metis map_append list.map(2) sum_list.append
        sum_list.Cons add.assoc)
  show "sum_list (map f m) = f (k, v) + sum_list (map f (std_erase lt k m))"
    using assms m by (simp add: std_erase_def find_map_of)
  show "sum_list (map f (std_assign lt k w m)) + f (k, v) = f (k, w) + sum_list (map f m)"
    using assms m by (simp add: std_assign_def find_map_of)
qed

lemma length_emplace_le: "length (std_emplace lt k v m) \<le> Suc (length m)"
proof -
  have "length (std_before lt k m) + length (std_lower_bound lt k m) = length m"
    by (metis std_split length_append)
  then show ?thesis by (simp add: std_emplace_def split: option.split)
qed

text \<open>The lower bound of a key that is present is its own position.\<close>

lemma lower_bound_split:
  assumes "std_ordered lt valid (xs @ p # ys)"
  shows "std_lower_bound lt (fst p) (xs @ p # ys) = p # ys"
    and "std_before lt (fst p) (xs @ p # ys) = xs"
proof -
  have "valid (fst p)" "\<forall>x \<in> set xs. lt (fst x) (fst p)"
    using assms by (auto simp: std_ordered_append std_ordered_Cons)
  then have "\<not> lt (fst p) (fst p)" "\<forall>x \<in> set xs. lt (fst x) (fst p)" using lt_irrefl by blast+
  then show "std_lower_bound lt (fst p) (xs @ p # ys) = p # ys"
    "std_before lt (fst p) (xs @ p # ys) = xs"
    by (simp_all add: std_lower_bound_def std_before_def dropWhile_append2 takeWhile_append2)
qed

end

end
