(* ===== verification/Kv_Adi_Types.thy ===== *)
theory Kv_Adi_Types
  imports Kv_Prelude
begin

text \<open>
  The data of the abstract device interface, from
  \<open>PDK/core/src/device_abstract_layer/include/kvs_adi.h\<close> and
  \<open>include/private/kvs_adi_internal.h\<close>: result codes, options, keys and values,
  iterator records, device, namespace and queue descriptions, the limits of the device, and
  the request validation of \<open>include/private/kvs_utils.h\<close>.

  A pointer that may be \<open>NULL\<close> is an option; a pointer to a buffer is the list of the bytes
  of that buffer. A buffer may be longer than the length field that goes with it, and the
  code reads only its first bytes. Fields keep the width of the source's type.
\<close>

section \<open>Result codes\<close>

datatype kv_result =
    KV_SUCCESS
  | KV_WRN_MORE
  | KV_ERR_DEV_CAPACITY
  | KV_ERR_DEV_INIT
  | KV_ERR_DEV_INITIALIZED
  | KV_ERR_DEV_NOT_EXIST
  | KV_ERR_DEV_SANITIZE_FAILED
  | KV_ERR_ITERATOR_NOT_EXIST
  | KV_ERR_ITERATOR_ALREADY_OPEN
  | KV_ERR_KEY_INVALID
  | KV_ERR_KEY_LENGTH_INVALID
  | KV_ERR_KEY_NOT_EXIST
  | KV_ERR_NS_DEFAULT
  | KV_ERR_NS_INVALID
  | KV_ERR_OPTION_INVALID
  | KV_ERR_PARAM_INVALID
  | KV_ERR_PURGE_IN_PRGRESS
  | KV_ERR_SYS_IO
  | KV_ERR_VALUE_LENGTH_INVALID
  | KV_ERR_VALUE_LENGTH_MISALIGNED
  | KV_ERR_VALUE_OFFSET_INVALID
  | KV_ERR_VENDOR
  | KV_ERR_PERMISSION
  | KV_ERR_MISALIGNED_VALUE_OFFSET
  | KV_ERR_BUFFER_SMALL
  | KV_ERR_DEV_MAX_NS
  | KV_ERR_ITERATOR_COND_INVALID
  | KV_ERR_KEY_EXIST
  | KV_ERR_NS_ATTAHED
  | KV_ERR_NS_CAPACITY
  | KV_ERR_NS_NOT_ATTACHED
  | KV_ERR_QUEUE_CQID_INVALID
  | KV_ERR_QUEUE_SQID_INVALID
  | KV_ERR_QUEUE_DELETION_INVALID
  | KV_ERR_QUEUE_MAX_QUEUE
  | KV_ERR_QUEUE_QID_INVALID
  | KV_ERR_QUEUE_QSIZE_INVALID
  | KV_ERR_TIMEOUT
  | KV_ERR_UNCORRECTIBLE
  | KV_ERR_QUEUE_IN_SHUTDOWN
  | KV_ERR_QUEUE_IS_FULL
  | KV_ERR_COMMAND_SUBMITTED
  | KV_ERR_TOO_MANY_ITERATORS_OPEN
  | KV_ERR_SYS_BUSY
  | KV_ERR_COMMAND_INITIALIZED
  | KV_ERR_DD_UNSUPPORTED_CMD
  | KV_ERR_ITERATE_REQUEST_FAIL
  | KV_ERR_DD_UNSUPPORTED
  | KV_ERR_KEYSPACE_INVALID

text \<open>The numbers the header gives the codes.\<close>

fun kv_result_code :: "kv_result \<Rightarrow> nat" where
  "kv_result_code KV_SUCCESS = 0"
| "kv_result_code KV_WRN_MORE = 61440"
| "kv_result_code KV_ERR_DEV_CAPACITY = 4"
| "kv_result_code KV_ERR_DEV_INIT = 5"
| "kv_result_code KV_ERR_DEV_INITIALIZED = 6"
| "kv_result_code KV_ERR_DEV_NOT_EXIST = 7"
| "kv_result_code KV_ERR_DEV_SANITIZE_FAILED = 8"
| "kv_result_code KV_ERR_ITERATOR_NOT_EXIST = 12"
| "kv_result_code KV_ERR_ITERATOR_ALREADY_OPEN = 13"
| "kv_result_code KV_ERR_KEY_INVALID = 15"
| "kv_result_code KV_ERR_KEY_LENGTH_INVALID = 16"
| "kv_result_code KV_ERR_KEY_NOT_EXIST = 17"
| "kv_result_code KV_ERR_NS_DEFAULT = 770"
| "kv_result_code KV_ERR_NS_INVALID = 771"
| "kv_result_code KV_ERR_OPTION_INVALID = 18"
| "kv_result_code KV_ERR_PARAM_INVALID = 19"
| "kv_result_code KV_ERR_PURGE_IN_PRGRESS = 20"
| "kv_result_code KV_ERR_SYS_IO = 30"
| "kv_result_code KV_ERR_VALUE_LENGTH_INVALID = 33"
| "kv_result_code KV_ERR_VALUE_LENGTH_MISALIGNED = 34"
| "kv_result_code KV_ERR_VALUE_OFFSET_INVALID = 35"
| "kv_result_code KV_ERR_VENDOR = 37"
| "kv_result_code KV_ERR_PERMISSION = 38"
| "kv_result_code KV_ERR_MISALIGNED_VALUE_OFFSET = 524"
| "kv_result_code KV_ERR_BUFFER_SMALL = 1"
| "kv_result_code KV_ERR_DEV_MAX_NS = 772"
| "kv_result_code KV_ERR_ITERATOR_COND_INVALID = 10"
| "kv_result_code KV_ERR_KEY_EXIST = 14"
| "kv_result_code KV_ERR_NS_ATTAHED = 768"
| "kv_result_code KV_ERR_NS_CAPACITY = 769"
| "kv_result_code KV_ERR_NS_NOT_ATTACHED = 773"
| "kv_result_code KV_ERR_QUEUE_CQID_INVALID = 21"
| "kv_result_code KV_ERR_QUEUE_SQID_INVALID = 28"
| "kv_result_code KV_ERR_QUEUE_DELETION_INVALID = 22"
| "kv_result_code KV_ERR_QUEUE_MAX_QUEUE = 25"
| "kv_result_code KV_ERR_QUEUE_QID_INVALID = 26"
| "kv_result_code KV_ERR_QUEUE_QSIZE_INVALID = 27"
| "kv_result_code KV_ERR_TIMEOUT = 31"
| "kv_result_code KV_ERR_UNCORRECTIBLE = 32"
| "kv_result_code KV_ERR_QUEUE_IN_SHUTDOWN = 23"
| "kv_result_code KV_ERR_QUEUE_IS_FULL = 24"
| "kv_result_code KV_ERR_COMMAND_SUBMITTED = 3"
| "kv_result_code KV_ERR_TOO_MANY_ITERATORS_OPEN = 11"
| "kv_result_code KV_ERR_SYS_BUSY = 29"
| "kv_result_code KV_ERR_COMMAND_INITIALIZED = 2"
| "kv_result_code KV_ERR_DD_UNSUPPORTED_CMD = 517"
| "kv_result_code KV_ERR_ITERATE_REQUEST_FAIL = 521"
| "kv_result_code KV_ERR_DD_UNSUPPORTED = 44"
| "kv_result_code KV_ERR_KEYSPACE_INVALID = 49"

section \<open>Limits\<close>

abbreviation (input) SAMSUNG_KV_MIN_KEY_LEN :: nat where "SAMSUNG_KV_MIN_KEY_LEN \<equiv> 4"
abbreviation (input) SAMSUNG_KV_MAX_KEY_LEN :: nat where "SAMSUNG_KV_MAX_KEY_LEN \<equiv> 255"
abbreviation (input) SAMSUNG_KV_MIN_VALUE_LEN :: nat where "SAMSUNG_KV_MIN_VALUE_LEN \<equiv> 0"
abbreviation (input) SAMSUNG_KV_MAX_VALUE_LEN :: nat where "SAMSUNG_KV_MAX_VALUE_LEN \<equiv> 2097152"
abbreviation (input) SAMSUNG_MAX_ITERATORS :: nat where "SAMSUNG_MAX_ITERATORS \<equiv> 16"
abbreviation (input) SAMSUNG_MAX_KEYSPACE_CNT :: nat where "SAMSUNG_MAX_KEYSPACE_CNT \<equiv> 2"
abbreviation (input) KV_ALIGNMENT_UNIT :: u32 where "KV_ALIGNMENT_UNIT \<equiv> 512"
abbreviation (input) KV_NAMESPACE_DEFAULT :: u32 where "KV_NAMESPACE_DEFAULT \<equiv> 0"

section \<open>Operation codes and options\<close>

datatype cmd_opcode_t =
    KV_OPC_FLUSH
  | KV_OPC_GET
  | KV_OPC_STORE
  | KV_OPC_DELETE
  | KV_OPC_PURGE
  | KV_OPC_CHECK_KEY_EXIST
  | KV_OPC_OPEN_ITERATOR
  | KV_OPC_CLOSE_ITERATOR
  | KV_OPC_ITERATE_NEXT
  | KV_OPC_SANITIZE_DEVICE
  | KV_OPC_LIST_ITERATOR
  | KV_OPC_DELETE_GROUP
  | KV_OPC_ITERATE_NEXT_SINGLE_KV

text \<open>
  An option reaches the lower layers as an integer, so it may be none of the enumerators:
  the constructor \<open>..._OTHER\<close> stands for every such value.
\<close>

datatype kv_delete_option = KV_DELETE_OPT_DEFAULT | KV_DELETE_OPT_ERROR | KV_DELETE_OPT_OTHER

datatype kv_iterator_option =
  KV_ITERATOR_OPT_KEY | KV_ITERATOR_OPT_KV | KV_ITERATOR_OPT_KV_WITH_DELETE
  | KV_ITERATOR_OPT_OTHER

datatype kv_purge_option =
  KV_PURGE_OPT_DEFAULT | KV_PURGE_OPT_KV_ERASE | KV_PURGE_OPT_CRYPTO_ERASE
  | KV_PURGE_OPT_OTHER

datatype kv_retrieve_option =
  KV_RETRIEVE_OPT_DEFAULT | KV_RETRIEVE_OPT_DELETE | KV_RETRIEVE_OPT_OTHER

datatype kv_sanitize_option =
  SANITIZE_RESERVED | SANITIZE_RESERVED1 | KV_SANITIZE_OPT_KV_ERASE
  | KV_SANITIZE_OPT_OVERWRITE | KV_SANITIZE_OPT_CRYPTO_ERASE
  | KV_SANITIZE_OPT_OTHER

datatype kv_store_option =
  KV_STORE_OPT_DEFAULT | KV_STORE_OPT_COMPRESS | KV_STORE_OPT_IDEMPOTENT
  | KV_STORE_OPT_UPDATE_ONLY | KV_STORE_OPT_APPEND | KV_STORE_OPT_OTHER

datatype queue_type_t = SUBMISSION_Q_TYPE | COMPLETION_Q_TYPE | OTHER_Q_TYPE

section \<open>Keys, values and group conditions\<close>

record kv_key =
  key_ptr :: "byte list option"
  key_length :: u16

record kv_value =
  value_ptr :: "byte list option"
  value_length :: u32
  actual_value_size :: u32
  value_offset :: u32

record kv_group_condition =
  gc_bitmask :: u32
  gc_bit_pattern :: u32

text \<open>The bytes a key or a value denotes: the first \<open>length\<close> bytes of its buffer.\<close>

definition ptr_bytes :: "byte list option \<Rightarrow> byte list" where
  "ptr_bytes p = (case p of None \<Rightarrow> [] | Some b \<Rightarrow> b)"

definition key_bytes :: "kv_key \<Rightarrow> byte list" where
  "key_bytes k = take (unat (key_length k)) (ptr_bytes (key_ptr k))"

definition value_bytes :: "kv_value \<Rightarrow> byte list" where
  "value_bytes v = take (unat (value_length v)) (ptr_bytes (value_ptr v))"

text \<open>The buffers are as long as their length fields say.\<close>

definition key_readable :: "kv_key \<Rightarrow> bool" where
  "key_readable k \<longleftrightarrow> unat (key_length k) \<le> length (ptr_bytes (key_ptr k))"

definition value_readable :: "kv_value \<Rightarrow> bool" where
  "value_readable v \<longleftrightarrow> unat (value_length v) \<le> length (ptr_bytes (value_ptr v))"

section \<open>Iterators\<close>

record kv_iterator =
  it_handle_id :: u8
  it_status :: u8
  it_type :: kv_iterator_option
  it_keyspace_id :: u8
  it_prefix :: u32
  it_bitmask :: u32
  it_is_eof :: u8

record kv_iterator_list =
  num_entries :: u32
  list_end :: bool
  list_size :: u32
  it_list :: "byte list"

text \<open>
  \<open>struct _kv_iterator_handle\<close>: the saved position is the first \<open>keylength\<close> bytes of the
  255-byte array \<open>current_key\<close>. The 32 KB scratch buffer, which no code uses, is left out.
\<close>

record kv_iterator_handle_t =
  ih_id :: int
  current_key :: "byte list"
  keylength :: nat
  ih_nsid :: u32
  ih_ksid :: u8
  ih_it_op :: kv_iterator_option
  ih_it_cond :: kv_group_condition
  has_fixed_keylen :: bool
  ih_end :: bool

section \<open>Namespaces and queues\<close>

record kv_namespace =
  ns_nsid :: u32
  ns_attached :: bool
  ns_capacity :: u64

record kv_namespace_stat =
  nst_nsid :: u32
  nst_attached :: bool
  nst_capacity :: u64
  nst_unallocated_capacity :: u64

record kv_queue =
  queue_id :: u16
  queue_size :: u16
  completion_queue_id :: u16
  queue_type :: queue_type_t

section \<open>Request validation\<close>

text \<open>\<open>validate_key_value\<close> of \<open>kvs_utils.h\<close>; the value pointer may be \<open>NULL\<close>.\<close>

definition validate_key_value :: "kv_key \<Rightarrow> kv_value option \<Rightarrow> kv_result" where
  "validate_key_value k vo =
     (if key_ptr k = None then KV_ERR_KEY_INVALID
      else if unat (key_length k) > SAMSUNG_KV_MAX_KEY_LEN
           \<or> unat (key_length k) < SAMSUNG_KV_MIN_KEY_LEN
      then KV_ERR_KEY_LENGTH_INVALID
      else case vo of
        None \<Rightarrow> KV_SUCCESS
      | Some v \<Rightarrow>
          if unat (value_length v) < SAMSUNG_KV_MIN_VALUE_LEN
             \<or> unat (value_length v) > SAMSUNG_KV_MAX_VALUE_LEN
          then KV_ERR_VALUE_LENGTH_INVALID
          else if value_offset v AND (KV_ALIGNMENT_UNIT - 1) \<noteq> 0
          then KV_ERR_MISALIGNED_VALUE_OFFSET
          else KV_SUCCESS)"

text \<open>The check every entry point makes on a key space id.\<close>

definition ks_id_invalid :: "u8 \<Rightarrow> bool" where
  "ks_id_invalid ks \<longleftrightarrow> unat ks \<ge> SAMSUNG_MAX_KEYSPACE_CNT"

lemma key_bytes_length [simp]: "key_readable k \<Longrightarrow> length (key_bytes k) = unat (key_length k)"
  by (simp add: key_readable_def key_bytes_def)

lemma value_bytes_length [simp]:
  "value_readable v \<Longrightarrow> length (value_bytes v) = unat (value_length v)"
  by (simp add: value_readable_def value_bytes_def)

lemma ks_id_invalid_iff: "ks_id_invalid ks \<longleftrightarrow> ks \<noteq> 0 \<and> ks \<noteq> 1"
proof -
  have "2 \<le> unat ks \<longleftrightarrow> unat ks \<noteq> unat (0 :: u8) \<and> unat ks \<noteq> unat (1 :: u8)"
    unfolding unat_0 unat_1 by arith
  then show ?thesis by (simp only: ks_id_invalid_def word_unat_eq_iff)
qed

lemma validate_success:
  assumes "validate_key_value k vo = KV_SUCCESS"
  shows "key_ptr k \<noteq> None" and "4 \<le> unat (key_length k)" and "unat (key_length k) \<le> 255"
    and "\<And>v. vo = Some v \<Longrightarrow> unat (value_length v) \<le> SAMSUNG_KV_MAX_VALUE_LEN"
  using assms by (auto simp: validate_key_value_def split: if_splits option.splits)

end
