(* ===== verification/Kv_Key_Order.thy ===== *)
theory Kv_Key_Order
  imports Std_Map Kv_Adi_Types
begin

text \<open>
  The order in which the emulator keeps its keys: \<open>struct CmpEmulPrefix\<close> of
  \<open>PDK/core/src/device_abstract_layer/include/private/kv_emulator.hpp\<close>. A key of the
  emulator is a private copy whose buffer has exactly \<open>length\<close> bytes, so the key is its
  byte list. The comparison reads four bytes of both keys without looking at their length;
  it is a strict total order on the keys that have four bytes.

  Two instances of \<open>key_order\<close> are provided here: the keys of a key space and the
  \<open>int32_t\<close> identifiers of the open iterators.
\<close>

text \<open>The C library's \<open>memcmp\<close> on two blocks of the same size: the sign decides.\<close>

fun memcmp :: "byte list \<Rightarrow> byte list \<Rightarrow> int" where
  "memcmp (a # as) (b # bs) = (if a < b then -1 else if b < a then 1 else memcmp as bs)"
| "memcmp _ _ = 0"

definition CmpEmulPrefix :: "byte list \<Rightarrow> byte list \<Rightarrow> bool" where
  "CmpEmulPrefix a b =
     (let intA = read_u32 a; intB = read_u32 b in
      if intA = intB then
        (if length a < length b then True
         else if length a > length b then False
         else memcmp (drop 4 a) (drop 4 b) < 0)
      else intA < intB)"

definition emul_key_valid :: "byte list \<Rightarrow> bool" where
  "emul_key_valid k \<longleftrightarrow> SAMSUNG_KV_MIN_KEY_LEN \<le> length k \<and> length k \<le> SAMSUNG_KV_MAX_KEY_LEN"

section \<open>Facts on \<open>memcmp\<close>\<close>

lemma memcmp_refl [simp]: "memcmp a a = 0"
  by (induction a) auto

lemma memcmp_neg_pos:
  "length a = length b \<Longrightarrow> memcmp a b < 0 \<longleftrightarrow> memcmp b a > 0"
  by (induction a b rule: memcmp.induct) auto

lemma memcmp_zero: "length a = length b \<Longrightarrow> memcmp a b = 0 \<Longrightarrow> a = b"
  by (induction a b rule: memcmp.induct) (auto split: if_splits)

lemma memcmp_trans:
  assumes "length a = length b" and "length b = length c"
    and "memcmp a b < 0" and "memcmp b c < 0"
  shows "memcmp a c < 0"
  using assms
proof (induction a b arbitrary: c rule: memcmp.induct)
  case (1 a as b bs)
  then obtain x xs where "c = x # xs" by (cases c) auto
  with 1 show ?case by (auto split: if_splits)
qed auto

section \<open>\<open>CmpEmulPrefix\<close> is a strict total order\<close>

lemma CmpEmulPrefix_irrefl: "\<not> CmpEmulPrefix a a"
  by (simp add: CmpEmulPrefix_def)

lemma CmpEmulPrefix_trans:
  assumes "CmpEmulPrefix a b" and "CmpEmulPrefix b c"
  shows "CmpEmulPrefix a c"
  using assms memcmp_trans [of "drop 4 a" "drop 4 b" "drop 4 c"]
  by (auto simp: CmpEmulPrefix_def Let_def split: if_splits)

lemma CmpEmulPrefix_total:
  assumes "4 \<le> length a" and "4 \<le> length b" and "a \<noteq> b"
  shows "CmpEmulPrefix a b \<or> CmpEmulPrefix b a"
proof (rule ccontr)
  assume "\<not> ?thesis"
  then have i: "read_u32 a = read_u32 b" and l: "length a = length b"
    and m: "\<not> memcmp (drop 4 a) (drop 4 b) < 0" "\<not> memcmp (drop 4 b) (drop 4 a) < 0"
    by (auto simp: CmpEmulPrefix_def Let_def split: if_splits)
  have len: "length (drop 4 a) = length (drop 4 b)" using l by simp
  from m memcmp_neg_pos [OF len [symmetric]] have "memcmp (drop 4 a) (drop 4 b) = 0" by linarith
  with len have "drop 4 a = drop 4 b" by (rule memcmp_zero)
  moreover have "take 4 a = take 4 b" using assms(1,2) i by (rule read_u32_inject)
  ultimately have "a = b" by (metis append_take_drop_id)
  with assms(3) show False by simp
qed

interpretation emul_keys: key_order CmpEmulPrefix emul_key_valid
  by unfold_locales
    (use CmpEmulPrefix_irrefl CmpEmulPrefix_trans CmpEmulPrefix_total
      in \<open>auto simp: emul_key_valid_def\<close>)

text \<open>The order groups the keys by their first four bytes, as iterators need.\<close>

lemma CmpEmulPrefix_prefix: "CmpEmulPrefix a b \<Longrightarrow> read_u32 a \<le> read_u32 b"
  by (auto simp: CmpEmulPrefix_def Let_def split: if_splits)

lemma CmpEmulPrefix_prefix_less: "read_u32 a < read_u32 b \<Longrightarrow> CmpEmulPrefix a b"
  by (auto simp: CmpEmulPrefix_def)

text \<open>A key that is only its four prefix bytes comes first in its group.\<close>

lemma CmpEmulPrefix_four:
  assumes "length p = 4" and "4 \<le> length k"
  shows "CmpEmulPrefix k p \<longleftrightarrow> read_u32 k < read_u32 p"
  using assms by (auto simp: CmpEmulPrefix_def Let_def)

interpretation it_ids: key_order "(<) :: int \<Rightarrow> int \<Rightarrow> bool" "\<lambda>_. True"
  by unfold_locales auto

end
