(* ===== verification/Kv_History.thy ===== *)
theory Kv_History
  imports Kv_Prelude
begin

text \<open>
  The workload statistics of
  \<open>PDK/core/src/device_abstract_layer/include/private/history.hpp\<close>: \<open>op_history\<close> counts the
  operation types of the last \<open>size\<close> operations and \<open>value_history\<close> sums their value sizes,
  both in a ring buffer of \<open>size + 1\<close> cells with a running total. \<open>kv_history\<close> has one of
  each with \<open>size = 16\<close>.

  The ring is proved to hold the window of the most recent values, and the running totals to
  be the totals of that window. The latency model on top of them computes with \<open>double\<close> and
  only delays the worker thread; it is left out.

  The cells of a new buffer are not initialised by the constructors: they are an argument.
\<close>

section \<open>The ring buffer\<close>

text \<open>The cells from \<open>tail\<close> up to, and without, \<open>front\<close>, oldest first.\<close>

definition ring_length :: "nat \<Rightarrow> nat \<Rightarrow> nat \<Rightarrow> nat" where
  "ring_length bsize front tail = (if tail \<le> front then front - tail else front + bsize - tail)"

definition ring_window :: "nat \<Rightarrow> 'a list \<Rightarrow> nat \<Rightarrow> nat \<Rightarrow> 'a list" where
  "ring_window bsize buf front tail =
     map (\<lambda>i. buf ! ((tail + i) mod bsize)) [0..<ring_length bsize front tail]"

definition ring_ok :: "nat \<Rightarrow> 'a list \<Rightarrow> nat \<Rightarrow> nat \<Rightarrow> bool" where
  "ring_ok bsize buf front tail \<longleftrightarrow> 1 < bsize \<and> length buf = bsize \<and> front < bsize \<and> tail < bsize"

section \<open>\<open>op_history\<close>\<close>

datatype op_type = STAT_READ | STAT_UPDATE | STAT_INSERT | STAT_DELETE

fun stat_index :: "op_type \<Rightarrow> nat" where
  "stat_index STAT_READ = 0"
| "stat_index STAT_UPDATE = 1"
| "stat_index STAT_INSERT = 2"
| "stat_index STAT_DELETE = 3"

record op_history =
  oh_buffersize :: nat
  oh_buffer :: "op_type list"
  oh_front :: nat
  oh_tail :: nat
  oh_counters :: "int list"
  oh_length :: int

definition op_history_new :: "nat \<Rightarrow> op_type list \<Rightarrow> op_history" where
  "op_history_new n cells =
     \<lparr>oh_buffersize = n + 1, oh_buffer = cells, oh_front = 0, oh_tail = 0,
      oh_counters = [0, 0, 0, 0], oh_length = 0\<rparr>"

definition op_history_add :: "op_history \<Rightarrow> op_type \<Rightarrow> op_history" where
  "op_history_add h value =
     (let buffer = (oh_buffer h)[oh_front h := value];
          counters = (oh_counters h)[stat_index value := oh_counters h ! stat_index value + 1];
          front = (oh_front h + 1) mod oh_buffersize h;
          len = oh_length h + 1
      in if front = oh_tail h then
           (let old = stat_index (buffer ! oh_tail h) in
            h\<lparr>oh_buffer := buffer, oh_front := front,
              oh_counters := counters[old := counters ! old - 1],
              oh_tail := (oh_tail h + 1) mod oh_buffersize h, oh_length := len - 1\<rparr>)
         else
           h\<lparr>oh_buffer := buffer, oh_front := front, oh_counters := counters, oh_length := len\<rparr>)"

section \<open>\<open>value_history\<close>\<close>

record value_history =
  vh_sum :: u32
  vh_buffersize :: nat
  vh_buffer :: "int list"
  vh_front :: nat
  vh_tail :: nat
  vh_length :: int

definition value_history_new :: "nat \<Rightarrow> int list \<Rightarrow> value_history" where
  "value_history_new n cells =
     \<lparr>vh_sum = 0, vh_buffersize = n + 1, vh_buffer = cells, vh_front = 0, vh_tail = 0,
      vh_length = 0\<rparr>"

definition value_history_add :: "value_history \<Rightarrow> int \<Rightarrow> value_history" where
  "value_history_add h value =
     (let buffer = (vh_buffer h)[vh_front h := value];
          sum = vh_sum h + word_of_int value;
          front = (vh_front h + 1) mod vh_buffersize h;
          len = vh_length h + 1
      in if front = vh_tail h then
           h\<lparr>vh_buffer := buffer, vh_front := front,
             vh_sum := sum - word_of_int (buffer ! vh_tail h),
             vh_tail := (vh_tail h + 1) mod vh_buffersize h, vh_length := len - 1\<rparr>
         else
           h\<lparr>vh_buffer := buffer, vh_front := front, vh_sum := sum, vh_length := len\<rparr>)"

section \<open>\<open>kv_history\<close>\<close>

record kv_history =
  op_window :: op_history
  val_window :: value_history

definition kv_history_new :: "op_type list \<Rightarrow> int list \<Rightarrow> kv_history" where
  "kv_history_new ocells vcells =
     \<lparr>op_window = op_history_new 16 ocells, val_window = value_history_new 16 vcells\<rparr>"

definition collect :: "kv_history \<Rightarrow> op_type \<Rightarrow> int \<Rightarrow> kv_history" where
  "collect s type valuesize =
     s\<lparr>op_window := op_history_add (op_window s) type,
       val_window := value_history_add (val_window s) valuesize\<rparr>"

section \<open>The window\<close>

text \<open>The specification: the last \<open>size\<close> values of what was added.\<close>

definition last_n :: "nat \<Rightarrow> 'a list \<Rightarrow> 'a list" where
  "last_n n xs = drop (length xs - n) xs"

lemma last_n_snoc: "last_n n (xs @ [x]) = last_n n (last_n n xs @ [x])"
  by (cases "length xs \<le> n") (auto simp: last_n_def Suc_diff_le)

lemma ring_length_less: "ring_ok b buf f t \<Longrightarrow> ring_length b f t < b"
  by (auto simp: ring_ok_def ring_length_def)

lemma mod_less_double: "x < 2 * (b :: nat) \<Longrightarrow> x mod b = (if x < b then x else x - b)"
  by (simp add: mod_if)

lemma ring_full_iff:
  "ring_ok b buf f t \<Longrightarrow> (f + 1) mod b = t \<longleftrightarrow> ring_length b f t = b - 1"
  by (auto simp: ring_ok_def ring_length_def mod_less_double)

lemma ring_cell:
  assumes "ring_ok b buf f t" and "i < ring_length b f t"
  shows "(t + i) mod b \<noteq> f"
  using assms by (auto simp: ring_ok_def ring_length_def mod_less_double split: if_splits)

lemma ring_last:
  assumes "ring_ok b buf f t"
  shows "(t + ring_length b f t) mod b = f"
  using assms by (auto simp: ring_ok_def ring_length_def mod_less_double split: if_splits)

lemma ring_length_front:
  "ring_ok b buf f t \<Longrightarrow> (f + 1) mod b \<noteq> t \<Longrightarrow>
    ring_length b ((f + 1) mod b) t = Suc (ring_length b f t)"
  by (auto simp: ring_ok_def ring_length_def mod_less_double split: if_splits)

lemma ring_length_tail:
  "ring_ok b buf f t \<Longrightarrow> (f + 1) mod b = t \<Longrightarrow>
    ring_length b t ((t + 1) mod b) = b - 1"
  by (auto simp: ring_ok_def ring_length_def mod_less_double split: if_splits)

lemma ring_push:
  assumes "ring_ok b buf f t" and "(f + 1) mod b \<noteq> t"
  shows "ring_window b (buf[f := v]) ((f + 1) mod b) t = ring_window b buf f t @ [v]"
proof -
  have "buf[f := v] ! ((t + i) mod b) = buf ! ((t + i) mod b)" if "i < ring_length b f t" for i
    using ring_cell [OF assms(1) that] by simp
  moreover have "buf[f := v] ! f = v" using assms(1) by (simp add: ring_ok_def)
  ultimately show ?thesis
    unfolding ring_window_def ring_length_front [OF assms] upt_Suc_append [OF zero_le]
    by (simp add: ring_last [OF assms(1)])
qed

lemma ring_push_drop:
  assumes "ring_ok b buf f t" and "(f + 1) mod b = t"
  shows "ring_window b (buf[f := v]) t ((t + 1) mod b) = tl (ring_window b buf f t) @ [v]"
proof (rule nth_equalityI)
  have n: "ring_length b f t = b - 1" using assms ring_full_iff by blast
  have m: "ring_length b t (Suc t mod b) = b - 1" using ring_length_tail [OF assms] by simp
  have b: "1 < b" "f < b" "length buf = b" using assms(1) by (auto simp: ring_ok_def)
  show "length (ring_window b (buf[f := v]) t ((t + 1) mod b)) =
      length (tl (ring_window b buf f t) @ [v])"
    using b by (simp add: ring_window_def n m)
  fix i assume "i < length (ring_window b (buf[f := v]) t ((t + 1) mod b))"
  then have i: "i < b - 1" by (simp add: ring_window_def m)
  have e: "(Suc t mod b + i) mod b = Suc (t + i) mod b" by (simp add: mod_simps)
  show "ring_window b (buf[f := v]) t ((t + 1) mod b) ! i = (tl (ring_window b buf f t) @ [v]) ! i"
  proof (cases "Suc i < b - 1")
    case True
    with ring_cell [OF assms(1), of "Suc i"] n have "Suc (t + i) mod b \<noteq> f" by simp
    moreover have "i < b - Suc (Suc 0)" using True by simp
    ultimately show ?thesis
      using True i by (simp add: ring_window_def n m e nth_append nth_tl)
  next
    case False
    with i have s: "Suc i = b - 1" by simp
    have "Suc (t + i) mod b = f" using ring_last [OF assms(1)] unfolding n s [symmetric] by simp
    moreover have "\<not> i < b - Suc (Suc 0)" using s by simp
    ultimately show ?thesis
      using s b i by (simp add: ring_window_def n m e nth_append)
  qed
qed

lemma ring_hd:
  assumes "ring_ok b buf f t" and "(f + 1) mod b = t"
  shows "ring_window b buf f t \<noteq> []" and "buf[f := v] ! t = hd (ring_window b buf f t)"
proof -
  have n: "ring_length b f t = b - 1" using assms ring_full_iff by blast
  have b: "1 < b" "t < b" using assms(1) by (auto simp: ring_ok_def)
  then have "f \<noteq> t" using ring_cell [OF assms(1), of 0] n by auto
  with b n show "ring_window b buf f t \<noteq> []" "buf[f := v] ! t = hd (ring_window b buf f t)"
    by (auto simp: ring_window_def hd_map)
qed

section \<open>The totals are the totals of the window\<close>

definition op_history_window :: "op_history \<Rightarrow> op_type list" where
  "op_history_window h = ring_window (oh_buffersize h) (oh_buffer h) (oh_front h) (oh_tail h)"

definition value_history_window :: "value_history \<Rightarrow> int list" where
  "value_history_window h = ring_window (vh_buffersize h) (vh_buffer h) (vh_front h) (vh_tail h)"

definition op_counts :: "op_type list \<Rightarrow> int list" where
  "op_counts w =
     map (\<lambda>c. int (count_list w c)) [STAT_READ, STAT_UPDATE, STAT_INSERT, STAT_DELETE]"

definition op_history_ok :: "op_history \<Rightarrow> bool" where
  "op_history_ok h \<longleftrightarrow>
     ring_ok (oh_buffersize h) (oh_buffer h) (oh_front h) (oh_tail h) \<and>
     oh_counters h = op_counts (op_history_window h) \<and>
     oh_length h = int (length (op_history_window h))"

definition value_history_ok :: "value_history \<Rightarrow> bool" where
  "value_history_ok h \<longleftrightarrow>
     ring_ok (vh_buffersize h) (vh_buffer h) (vh_front h) (vh_tail h) \<and>
     vh_sum h = word_of_int (sum_list (value_history_window h)) \<and>
     vh_length h = int (length (value_history_window h))"

lemma op_counts_snoc:
  "op_counts (w @ [v]) = (op_counts w)[stat_index v := op_counts w ! stat_index v + 1]"
  by (cases v) (simp_all add: op_counts_def)

lemma op_counts_tl:
  "w \<noteq> [] \<Longrightarrow> op_counts (tl w) = (op_counts w)[stat_index (hd w) := op_counts w ! stat_index (hd w) - 1]"
  by (cases w; cases "hd w") (simp_all add: op_counts_def)

lemma ring_ok_step:
  assumes "ring_ok b buf f t"
  shows "ring_ok b (buf[f := v]) ((f + 1) mod b) t"
    and "ring_ok b (buf[f := v]) ((f + 1) mod b) ((t + 1) mod b)"
  using assms by (auto simp: ring_ok_def)

lemma ring_window_step:
  assumes "ring_ok b buf f t"
  shows "ring_window b (buf[f := v]) ((f + 1) mod b)
           (if (f + 1) mod b = t then (t + 1) mod b else t) =
         last_n (b - 1) (ring_window b buf f t @ [v])"
proof (cases "(f + 1) mod b = t")
  case True
  then have "length (ring_window b buf f t) = b - 1"
    using ring_full_iff [OF assms] by (simp add: ring_window_def)
  moreover have "1 < b" using assms by (simp add: ring_ok_def)
  ultimately show ?thesis
    using True ring_push_drop [OF assms True] ring_hd(1) [OF assms True]
    by (simp add: last_n_def drop_Suc)
next
  case False
  then have "length (ring_window b buf f t) < b - 1"
    using ring_full_iff [OF assms] ring_length_less [OF assms] by (simp add: ring_window_def)
  with False ring_push [OF assms False] show ?thesis by (simp add: last_n_def)
qed

lemma op_history_add_window:
  assumes "op_history_ok h"
  shows "op_history_window (op_history_add h v) =
    last_n (oh_buffersize h - 1) (op_history_window h @ [v])"
  using ring_window_step [of "oh_buffersize h" "oh_buffer h" "oh_front h" "oh_tail h" v] assms
  by (auto simp: op_history_ok_def op_history_window_def op_history_add_def Let_def)

lemma value_history_add_window:
  assumes "value_history_ok h"
  shows "value_history_window (value_history_add h v) =
    last_n (vh_buffersize h - 1) (value_history_window h @ [v])"
  using ring_window_step [of "vh_buffersize h" "vh_buffer h" "vh_front h" "vh_tail h" v] assms
  by (auto simp: value_history_ok_def value_history_window_def value_history_add_def Let_def)

lemma op_history_add_ok [inv_intros]:
  assumes "op_history_ok h"
  shows "op_history_ok (op_history_add h v)"
proof -
  let ?f = "oh_front h" and ?t = "oh_tail h" and ?b = "oh_buffersize h"
  have r: "ring_ok ?b (oh_buffer h) ?f ?t" and c: "oh_counters h = op_counts (op_history_window h)"
    and l: "oh_length h = int (length (op_history_window h))"
    using assms by (auto simp: op_history_ok_def)
  show ?thesis
  proof (cases "(?f + 1) mod ?b = ?t")
    case True
    note h = ring_hd [OF r True]
    have "op_counts (tl (op_history_window h @ [v])) =
        (let cs = op_counts (op_history_window h @ [v]); i = stat_index (hd (op_history_window h)) in
         cs[i := cs ! i - 1])"
      using op_counts_tl [of "op_history_window h @ [v]"] h(1) by (simp add: op_history_window_def Let_def)
    with True h ring_push_drop [OF r True] ring_ok_step [OF r] c l show ?thesis
      by (simp add: op_history_ok_def op_history_window_def op_history_add_def Let_def op_counts_snoc)
  next
    case False
    with ring_push [OF r False] ring_ok_step [OF r] c l show ?thesis
      by (simp add: op_history_ok_def op_history_window_def op_history_add_def Let_def op_counts_snoc)
  qed
qed

lemma sum_list_tl: "w \<noteq> [] \<Longrightarrow> sum_list (tl w) = sum_list w - (hd w :: int)"
  by (cases w) simp_all

lemma value_history_add_ok [inv_intros]:
  assumes "value_history_ok h"
  shows "value_history_ok (value_history_add h v)"
proof -
  let ?f = "vh_front h" and ?t = "vh_tail h" and ?b = "vh_buffersize h"
  have r: "ring_ok ?b (vh_buffer h) ?f ?t"
    and c: "vh_sum h = word_of_int (sum_list (value_history_window h))"
    and l: "vh_length h = int (length (value_history_window h))"
    using assms by (auto simp: value_history_ok_def)
  show ?thesis
  proof (cases "(?f + 1) mod ?b = ?t")
    case True
    with ring_hd [OF r True] ring_push_drop [OF r True] ring_ok_step [OF r] c l show ?thesis
      by (simp add: value_history_ok_def value_history_window_def value_history_add_def Let_def
          sum_list_tl)
  next
    case False
    with ring_push [OF r False] ring_ok_step [OF r] c l show ?thesis
      by (simp add: value_history_ok_def value_history_window_def value_history_add_def Let_def)
  qed
qed

lemma history_buffersize [simp]:
  "oh_buffersize (op_history_add h v) = oh_buffersize h"
  "vh_buffersize (value_history_add g w) = vh_buffersize g"
  by (simp_all add: op_history_add_def value_history_add_def Let_def)

lemma history_new_ok:
  "1 \<le> n \<Longrightarrow> length oc = n + 1 \<Longrightarrow> op_history_ok (op_history_new n oc)"
  "1 \<le> n \<Longrightarrow> length vc = n + 1 \<Longrightarrow> value_history_ok (value_history_new n vc)"
  by (simp_all add: op_history_ok_def op_history_new_def value_history_ok_def value_history_new_def
      ring_ok_def op_history_window_def value_history_window_def ring_window_def ring_length_def
      op_counts_def)

definition collect_all :: "kv_history \<Rightarrow> (op_type \<times> int) list \<Rightarrow> kv_history" where
  "collect_all s xs = foldl (\<lambda>s x. collect s (fst x) (snd x)) s xs"

lemma collect_all_window:
  assumes "length oc = 17" and "length vc = 17"
  defines "s \<equiv> \<lambda>xs. collect_all (kv_history_new oc vc) xs"
  shows "op_history_ok (op_window (s xs)) \<and> value_history_ok (val_window (s xs)) \<and>
    oh_buffersize (op_window (s xs)) = 17 \<and> vh_buffersize (val_window (s xs)) = 17 \<and>
    op_history_window (op_window (s xs)) = last_n 16 (map fst xs) \<and>
    value_history_window (val_window (s xs)) = last_n 16 (map snd xs)"
proof (induction xs rule: rev_induct)
  case Nil
  have "op_history_ok (op_history_new 16 oc)" "value_history_ok (value_history_new 16 vc)"
    using assms(1,2) by (auto intro: history_new_ok)
  then show ?case
    by (simp add: s_def collect_all_def kv_history_new_def op_history_new_def value_history_new_def
        op_history_window_def value_history_window_def ring_window_def ring_length_def last_n_def)
next
  case (snoc x xs)
  have "s (xs @ [x]) = collect (s xs) (fst x) (snd x)" by (simp add: s_def collect_all_def)
  with snoc show ?case
    by (simp add: collect_def op_history_add_ok value_history_add_ok op_history_add_window
        value_history_add_window last_n_snoc [of 16 "map fst xs"] last_n_snoc [of 16 "map snd xs"])
qed

end
