(* ===== verification/Kv_Spec.thy ===== *)
theory Kv_Spec
  imports Kv_Adi_Types
begin

text \<open>
  What a key-value device promises: the abstract specification of the operations on single
  keys, over the contents of a device as a finite map from keys to values for each key
  space. The specification computes with natural numbers and maps only; the layers of the
  emulator compute with machine integers and ordered containers.

  The locale \<open>kv_api\<close> is the interface \<open>kv_device_api\<close> of
  \<open>include/private/kvs_adi_internal.h\<close>: a provider has an invariant and an abstraction to
  the contents, and each of its operations on a well-formed request gives the
  specification's reply, moves to the specification's contents and keeps the invariant. Its
  lemmas are what a client may use: sequences of requests, round trips, independence of
  different keys. It is interpreted for the emulator and for the namespace above it.
\<close>

type_synonym kv_contents = "u8 \<Rightarrow> byte list \<Rightarrow> byte list option"

definition contents_upd :: "kv_contents \<Rightarrow> u8 \<Rightarrow> byte list \<Rightarrow> byte list option \<Rightarrow> kv_contents" where
  "contents_upd C ks k v = C(ks := (C ks)(k := v))"

definition contents_empty :: kv_contents where
  "contents_empty = (\<lambda>_ _. None)"

section \<open>Requests and replies\<close>

datatype kv_request =
    ReqStore u8 kv_key kv_value kv_store_option
  | ReqRetrieve u8 kv_key kv_value kv_retrieve_option
  | ReqExist u8 "kv_key list" u32 "byte list" u32
  | ReqDelete u8 kv_key kv_delete_option
  | ReqPurge u8 kv_purge_option

datatype kv_reply =
    RepResult kv_result
  | RepValue kv_result kv_value
  | RepExist kv_result "byte list" u32

text \<open>A request that stays within its own buffers and names an existing key space.\<close>

definition key_ok :: "kv_key \<Rightarrow> bool" where
  "key_ok k \<longleftrightarrow> key_ptr k \<noteq> None \<and> key_readable k
     \<and> SAMSUNG_KV_MIN_KEY_LEN \<le> unat (key_length k)
     \<and> unat (key_length k) \<le> SAMSUNG_KV_MAX_KEY_LEN"

fun request_ok :: "kv_request \<Rightarrow> bool" where
  "request_ok (ReqStore ks k v opt) \<longleftrightarrow> \<not> ks_id_invalid ks \<and> key_ok k \<and> value_readable v"
| "request_ok (ReqRetrieve ks k v opt) \<longleftrightarrow> \<not> ks_id_invalid ks \<and> key_ok k \<and> value_readable v"
| "request_ok (ReqExist ks keys cnt buf bsize) \<longleftrightarrow>
     \<not> ks_id_invalid ks \<and> list_all key_ok keys \<and> unat cnt \<le> length keys \<and> unat cnt < 2 ^ 31
     \<and> unat bsize \<le> length buf"
| "request_ok (ReqDelete ks k opt) \<longleftrightarrow> \<not> ks_id_invalid ks \<and> key_ok k"
| "request_ok (ReqPurge ks opt) \<longleftrightarrow> \<not> ks_id_invalid ks"

section \<open>The specification\<close>

definition spec_store ::
    "u8 \<Rightarrow> kv_key \<Rightarrow> kv_value \<Rightarrow> kv_store_option \<Rightarrow> kv_contents \<Rightarrow> kv_result \<times> kv_contents" where
  "spec_store ks k v opt C =
     (if opt \<noteq> KV_STORE_OPT_DEFAULT \<and> opt \<noteq> KV_STORE_OPT_IDEMPOTENT then (KV_ERR_OPTION_INVALID, C)
      else if opt = KV_STORE_OPT_IDEMPOTENT \<and> C ks (key_bytes k) \<noteq> None then (KV_ERR_KEY_EXIST, C)
      else (KV_SUCCESS, contents_upd C ks (key_bytes k) (Some (value_bytes v))))"

text \<open>
  A retrieve copies what fits of the stored value from the offset on into the caller's
  buffer, and says whether all of it fitted.
\<close>

definition spec_retrieve ::
    "u8 \<Rightarrow> kv_key \<Rightarrow> kv_value \<Rightarrow> kv_retrieve_option \<Rightarrow> kv_contents \<Rightarrow> kv_result \<times> kv_value" where
  "spec_retrieve ks k v opt C =
     (if opt \<noteq> KV_RETRIEVE_OPT_DEFAULT then (KV_ERR_OPTION_INVALID, v)
      else case C ks (key_bytes k) of
        None \<Rightarrow> (KV_ERR_KEY_NOT_EXIST, v)
      | Some d \<Rightarrow>
          let off = unat (value_offset v); room = unat (value_length v); rest = drop off d in
          if off \<noteq> 0 \<and> length d \<le> off then (KV_ERR_VALUE_OFFSET_INVALID, v)
          else
            (if room < length rest then KV_ERR_BUFFER_SMALL else KV_SUCCESS,
             v\<lparr>value_ptr := map_option (\<lambda>b. mem_write b 0 (take room rest)) (value_ptr v),
               value_length := word_of_nat (min room (length rest)),
               actual_value_size := word_of_nat (length d)\<rparr>))"

text \<open>Byte \<open>j\<close> of the answer holds the presence bits of the keys \<open>8 * j\<close> to \<open>8 * j + 7\<close>.\<close>

definition exist_bytes :: "bool list \<Rightarrow> byte list" where
  "exist_bytes bs =
     map (\<lambda>j. horner_sum of_bool 2 (take 8 (drop (8 * j) bs))) [0..<(length bs + 7) div 8]"

definition spec_exist ::
    "u8 \<Rightarrow> kv_key list \<Rightarrow> u32 \<Rightarrow> byte list \<Rightarrow> u32 \<Rightarrow> kv_contents \<Rightarrow> kv_result \<times> byte list \<times> u32" where
  "spec_exist ks keys cnt buf bsize C =
     (if cnt = 0 then (KV_SUCCESS, buf, bsize)
      else
        let present = exist_bytes (map (\<lambda>k. C ks (key_bytes k) \<noteq> None) (take (unat cnt) keys)) in
        if length present > unat bsize then (KV_ERR_BUFFER_SMALL, buf, bsize)
        else (KV_SUCCESS, mem_write buf 0 present, word_of_nat (length present)))"

definition spec_delete ::
    "u8 \<Rightarrow> kv_key \<Rightarrow> kv_delete_option \<Rightarrow> kv_contents \<Rightarrow> kv_result \<times> kv_contents" where
  "spec_delete ks k opt C =
     (if opt \<noteq> KV_DELETE_OPT_DEFAULT \<and> opt \<noteq> KV_DELETE_OPT_ERROR then (KV_ERR_OPTION_INVALID, C)
      else if opt = KV_DELETE_OPT_ERROR \<and> C ks (key_bytes k) = None then (KV_ERR_KEY_NOT_EXIST, C)
      else (KV_SUCCESS, contents_upd C ks (key_bytes k) None))"

definition spec_purge :: "u8 \<Rightarrow> kv_purge_option \<Rightarrow> kv_contents \<Rightarrow> kv_result \<times> kv_contents" where
  "spec_purge ks opt C =
     (if opt \<noteq> KV_PURGE_OPT_DEFAULT then (KV_ERR_OPTION_INVALID, C)
      else (KV_SUCCESS, C(ks := (\<lambda>_. None))))"

fun spec_step :: "kv_request \<Rightarrow> kv_contents \<Rightarrow> kv_reply \<times> kv_contents" where
  "spec_step (ReqStore ks k v opt) C = (case spec_store ks k v opt C of (r, C') \<Rightarrow> (RepResult r, C'))"
| "spec_step (ReqRetrieve ks k v opt) C =
     (case spec_retrieve ks k v opt C of (r, v') \<Rightarrow> (RepValue r v', C))"
| "spec_step (ReqExist ks keys cnt buf bsize) C =
     (case spec_exist ks keys cnt buf bsize C of (r, buf', n) \<Rightarrow> (RepExist r buf' n, C))"
| "spec_step (ReqDelete ks k opt) C = (case spec_delete ks k opt C of (r, C') \<Rightarrow> (RepResult r, C'))"
| "spec_step (ReqPurge ks opt) C = (case spec_purge ks opt C of (r, C') \<Rightarrow> (RepResult r, C'))"

fun spec_run :: "kv_request list \<Rightarrow> kv_contents \<Rightarrow> kv_reply list \<times> kv_contents" where
  "spec_run [] C = ([], C)"
| "spec_run (q # qs) C =
     (case spec_step q C of (a, C') \<Rightarrow> case spec_run qs C' of (as, C'') \<Rightarrow> (a # as, C''))"

section \<open>Running a provider\<close>

fun api_run :: "(kv_request \<Rightarrow> 's \<Rightarrow> (kv_reply \<times> 's) option) \<Rightarrow> kv_request list \<Rightarrow> 's \<Rightarrow>
    (kv_reply list \<times> 's) option" where
  "api_run step [] s = Some ([], s)"
| "api_run step (q # qs) s =
     do { (a, s') \<leftarrow> step q s; (as, s'') \<leftarrow> api_run step qs s'; Some (a # as, s'') }"

locale kv_api =
  fixes inv :: "'s \<Rightarrow> bool"
    and contents :: "'s \<Rightarrow> kv_contents"
    and step :: "kv_request \<Rightarrow> 's \<Rightarrow> (kv_reply \<times> 's) option"
  assumes step_refines:
    "inv s \<Longrightarrow> request_ok q \<Longrightarrow>
      \<exists>s'. step q s = Some (fst (spec_step q (contents s)), s') \<and> inv s'
        \<and> contents s' = snd (spec_step q (contents s))"
begin

text \<open>Every sequence of well-formed requests gets the replies of the specification.\<close>

lemma run_refines:
  assumes "inv s" and "list_all request_ok qs"
  shows "\<exists>s'. api_run step qs s = Some (fst (spec_run qs (contents s)), s') \<and> inv s'
    \<and> contents s' = snd (spec_run qs (contents s))"
  using assms
proof (induction qs arbitrary: s)
  case Nil
  then show ?case by simp
next
  case (Cons q qs)
  then obtain s1 where s1: "step q s = Some (fst (spec_step q (contents s)), s1)" "inv s1"
    "contents s1 = snd (spec_step q (contents s))"
    using step_refines [of s q] by auto
  with Cons obtain s2 where "api_run step qs s1 = Some (fst (spec_run qs (contents s1)), s2)"
    "inv s2" "contents s2 = snd (spec_run qs (contents s1))" by fastforce
  with s1 show ?case by (auto split: prod.splits)
qed

lemma step_total: "inv s \<Longrightarrow> request_ok q \<Longrightarrow> step q s \<noteq> None"
  using step_refines [of s q] by auto

text \<open>A stored value is read back whole by a retrieve with enough room.\<close>

lemma store_then_retrieve:
  assumes "inv s" and "request_ok (ReqStore ks k v KV_STORE_OPT_DEFAULT)"
    and "request_ok (ReqRetrieve ks k w KV_RETRIEVE_OPT_DEFAULT)"
    and "value_offset w = 0" and "value_length v \<le> value_length w"
  shows "\<exists>s' w'. api_run step [ReqStore ks k v KV_STORE_OPT_DEFAULT,
      ReqRetrieve ks k w KV_RETRIEVE_OPT_DEFAULT] s =
      Some ([RepResult KV_SUCCESS, RepValue KV_SUCCESS w'], s')
    \<and> value_bytes w' = value_bytes v \<and> value_length w' = value_length v
    \<and> actual_value_size w' = value_length v \<and> inv s'"
proof -
  let ?qs = "[ReqStore ks k v KV_STORE_OPT_DEFAULT, ReqRetrieve ks k w KV_RETRIEVE_OPT_DEFAULT]"
  have len: "length (value_bytes v) = unat (value_length v)" using assms(2) by simp
  have le: "unat (value_length v) \<le> unat (value_length w)"
    using assms(5) by (simp add: word_le_nat_alt)
  have buf: "unat (value_length w) \<le> length (ptr_bytes (value_ptr w))"
    using assms(3) by (simp add: value_readable_def)
  obtain s' where s': "api_run step ?qs s = Some (fst (spec_run ?qs (contents s)), s')" "inv s'"
    using run_refines [of s ?qs] assms(1-3) by auto
  let ?w = "w\<lparr>value_ptr := map_option (\<lambda>b. mem_write b 0 (value_bytes v)) (value_ptr w),
               value_length := value_length v, actual_value_size := value_length v\<rparr>"
  have "fst (spec_run ?qs (contents s)) = [RepResult KV_SUCCESS, RepValue KV_SUCCESS ?w]"
    using assms(4) le len
    by (simp add: spec_store_def spec_retrieve_def contents_upd_def Let_def min_def)
  moreover have "value_bytes ?w = value_bytes v"
  proof (cases "value_ptr w")
    case None
    with buf le len show ?thesis by (simp add: value_bytes_def ptr_bytes_def)
  next
    case (Some b)
    then show ?thesis
      using take_mem_write_end [of 0 b "value_bytes v"] len by (simp add: value_bytes_def ptr_bytes_def)
  qed
  ultimately show ?thesis using s' by force
qed

text \<open>Requests on other keys do not change what is read.\<close>

lemma store_elsewhere:
  assumes "inv s" and "request_ok (ReqStore ks k v opt)"
    and "ks \<noteq> ks' \<or> key_bytes k \<noteq> key_bytes k'"
  shows "\<exists>a s'. step (ReqStore ks k v opt) s = Some (a, s')
    \<and> contents s' ks' (key_bytes k') = contents s ks' (key_bytes k')"
  using step_refines [OF assms(1,2)] assms(3) by (auto simp: spec_store_def contents_upd_def)

end

section \<open>Concrete requests\<close>

text \<open>A five-byte key, a three-byte value and an empty eight-byte buffer to read into.\<close>

definition sample_key :: kv_key where
  "sample_key = \<lparr>key_ptr = Some [1, 2, 3, 4, 5], key_length = 5\<rparr>"

definition sample_value :: kv_value where
  "sample_value =
     \<lparr>value_ptr = Some [9, 8, 7], value_length = 3, actual_value_size = 3, value_offset = 0\<rparr>"

definition sample_room :: kv_value where
  "sample_room =
     \<lparr>value_ptr = Some [0, 0, 0, 0, 0, 0, 0, 0], value_length = 8, actual_value_size = 0,
      value_offset = 0\<rparr>"

lemma sample_ok [simp]:
  "key_ok sample_key" "value_readable sample_value" "value_readable sample_room"
  by (simp_all add: key_ok_def key_readable_def value_readable_def ptr_bytes_def sample_key_def
      sample_value_def sample_room_def)

lemma sample_bytes [simp]:
  "key_bytes sample_key = [1, 2, 3, 4, 5]" "value_bytes sample_value = [9, 8, 7]"
  by (simp_all add: key_bytes_def value_bytes_def ptr_bytes_def sample_key_def sample_value_def)

lemma ks_0_1_valid [simp]: "\<not> ks_id_invalid 0" "\<not> ks_id_invalid 1"
  by (simp_all add: ks_id_invalid_def)

end
