(* ===== verification/Kv_Emulator.thy ===== *)
theory Kv_Emulator
  imports Kv_Key_Order Kv_History Kv_Spec
begin

text \<open>
  The in-memory store of the device emulator, class \<open>kv_emulator\<close> of
  \<open>PDK/core/src/device_abstract_layer/emulator/src/kv_emulator.cpp\<close>: its state and the
  operations on single keys (\<open>kv_store\<close>, \<open>kv_retrieve\<close>, \<open>kv_exist\<close>, \<open>kv_purge\<close>,
  \<open>kv_delete\<close>). The iterators are in \<open>Kv_Iterator\<close>.

  Each operation is a function of the arguments, the caller's output cells included, and of
  the object; it returns the result code, the new contents of the output cells and the new
  object, or \<open>None\<close> when the run leaves the bounds of an array or buffer (a key space id
  that is not an index of \<open>m_map\<close>, a key of fewer than four bytes in a comparison, a caller's
  buffer shorter than its length field). The mutexes make each operation atomic and the
  latency simulation only delays it, so neither has a counterpart here; the global
  \<open>counter\<close> is never read.

  The invariant \<open>emul_inv\<close> says that both maps are ordered by \<open>CmpEmulPrefix\<close>. Under it the
  operations refine operations on the abstract contents, a finite map from keys to values
  for each key space.
\<close>

type_synonym emulator_map_t = "(byte list \<times> byte list) list"

record kv_emulator =
  stat :: kv_history
  m_capacity :: u64
  m_available :: u64
  m_map :: "emulator_map_t list"
  m_it_map :: "(int \<times> kv_iterator_handle_t) list"
  m_iterator_list :: "kv_iterator list"
  m_use_iops_model :: bool
  m_nsid :: u32

definition kv_iterator_zero :: kv_iterator where
  "kv_iterator_zero =
     \<lparr>it_handle_id = 0, it_status = 0, it_type = KV_ITERATOR_OPT_KEY, it_keyspace_id = 0,
      it_prefix = 0, it_bitmask = 0, it_is_eof = 0\<rparr>"

definition kv_emulator_new :: "kv_history \<Rightarrow> u64 \<Rightarrow> bool \<Rightarrow> u32 \<Rightarrow> kv_emulator" where
  "kv_emulator_new h capacity use_iops_model nsid =
     \<lparr>stat = h, m_capacity = capacity, m_available = capacity,
      m_map = replicate SAMSUNG_MAX_KEYSPACE_CNT [], m_it_map = [],
      m_iterator_list = replicate SAMSUNG_MAX_ITERATORS kv_iterator_zero,
      m_use_iops_model = use_iops_model, m_nsid = nsid\<rparr>"

text \<open>The destructor erases every pair of every key space.\<close>

definition kv_emulator_delete :: "kv_emulator \<Rightarrow> kv_emulator" where
  "kv_emulator_delete e = e\<lparr>m_map := map (\<lambda>_. []) (m_map e)\<rparr>"

text \<open>\<open>new_kv_key\<close> copies \<open>length\<close> bytes out of the caller's buffer.\<close>

definition new_kv_key :: "kv_key \<Rightarrow> byte list option" where
  "new_kv_key key = do { require (key_readable key); Some (key_bytes key) }"

text \<open>\<open>m_map[ks_id]\<close> and the conditions under which \<open>find\<close> compares within bounds.\<close>

definition ks_map :: "kv_emulator \<Rightarrow> u8 \<Rightarrow> emulator_map_t" where
  "ks_map e ks = m_map e ! unat ks"

definition set_ks_map :: "u8 \<Rightarrow> emulator_map_t \<Rightarrow> kv_emulator \<Rightarrow> kv_emulator" where
  "set_ks_map ks m e = e\<lparr>m_map := (m_map e)[unat ks := m]\<rparr>"

definition cmp_in_bounds :: "byte list \<Rightarrow> emulator_map_t \<Rightarrow> bool" where
  "cmp_in_bounds k m \<longleftrightarrow> m = [] \<or> 4 \<le> length k \<and> list_all (\<lambda>p. 4 \<le> length (fst p)) m"

definition emul_find ::
    "kv_emulator \<Rightarrow> u8 \<Rightarrow> kv_key \<Rightarrow> (byte list \<times> byte list) option option" where
  "emul_find e ks key =
     do { require (unat ks < length (m_map e) \<and> key_readable key);
          require (cmp_in_bounds (key_bytes key) (ks_map e ks));
          Some (std_find CmpEmulPrefix (key_bytes key) (ks_map e ks)) }"

definition emul_collect :: "op_type \<Rightarrow> u32 \<Rightarrow> kv_emulator \<Rightarrow> kv_emulator" where
  "emul_collect t n e =
     (if m_use_iops_model e then e\<lparr>stat := collect (stat e) t (sint n)\<rparr> else e)"

section \<open>Operations\<close>

definition kv_store ::
    "u8 \<Rightarrow> kv_key \<Rightarrow> kv_value \<Rightarrow> kv_store_option \<Rightarrow> u32 \<Rightarrow> kv_emulator \<Rightarrow>
     (kv_result \<times> u32 \<times> kv_emulator) option" where
  "kv_store ks_id key value option consumed_bytes e =
     (if m_capacity e \<le> 0 \<and> m_available e < ucast (value_length value + ucast (key_length key))
      then Some (KV_ERR_DEV_CAPACITY, consumed_bytes, e)
      else if option \<noteq> KV_STORE_OPT_DEFAULT \<and> option \<noteq> KV_STORE_OPT_IDEMPOTENT
      then Some (KV_ERR_OPTION_INVALID, consumed_bytes, e)
      else do {
        require (value_readable value);
        let valstr = value_bytes value;
        it \<leftarrow> emul_find e ks_id key;
        case it of
          Some p \<Rightarrow>
            if option = KV_STORE_OPT_IDEMPOTENT then Some (KV_ERR_KEY_EXIST, consumed_bytes, e)
            else
              Some (KV_SUCCESS, value_length value,
                emul_collect STAT_UPDATE (value_length value)
                  (set_ks_map ks_id (std_assign CmpEmulPrefix (key_bytes key) valstr (ks_map e ks_id))
                    (e\<lparr>m_available := m_available e -
                        (ucast (value_length value) + word_of_nat (length (snd p)))\<rparr>)))
        | None \<Rightarrow>
            do { new_key \<leftarrow> new_kv_key key;
                 Some (KV_SUCCESS, ucast (key_length key) + value_length value,
                   emul_collect STAT_INSERT (value_length value)
                     (set_ks_map ks_id (std_emplace CmpEmulPrefix new_key valstr (ks_map e ks_id))
                       (e\<lparr>m_available := m_available e -
                           ucast (ucast (key_length key) + value_length value :: u32)\<rparr>))) } })"

definition kv_retrieve ::
    "u8 \<Rightarrow> kv_key \<Rightarrow> kv_retrieve_option \<Rightarrow> kv_value \<Rightarrow> kv_emulator \<Rightarrow>
     (kv_result \<times> kv_value \<times> kv_emulator) option" where
  "kv_retrieve ks_id key option value e =
     (if option \<noteq> KV_RETRIEVE_OPT_DEFAULT then Some (KV_ERR_OPTION_INVALID, value, e)
      else do {
        it \<leftarrow> emul_find e ks_id key;
        case it of
          Some p \<Rightarrow>
            let dlen = (word_of_nat (length (snd p)) :: u32) in
            if value_offset value \<noteq> 0 \<and> value_offset value \<ge> dlen
            then Some (KV_ERR_VALUE_OFFSET_INVALID, value, e)
            else
              let copylen = min (dlen - value_offset value) (value_length value) in
              do {
                require (unat copylen \<le> length (ptr_bytes (value_ptr value)));
                let data = take (unat copylen) (drop (unat (value_offset value)) (snd p));
                let ret = (if value_length value < dlen - value_offset value
                           then KV_ERR_BUFFER_SMALL else KV_SUCCESS);
                Some (ret,
                  value\<lparr>value_ptr := map_option (\<lambda>b. mem_write b 0 data) (value_ptr value),
                        value_length := copylen, actual_value_size := dlen\<rparr>,
                  emul_collect STAT_READ copylen e) }
        | None \<Rightarrow> Some (KV_ERR_KEY_NOT_EXIST, value, e) })"

text \<open>The loop of \<open>kv_exist\<close>: bit \<open>bitpos\<close> of the buffer for key number \<open>bitpos\<close>.\<close>

fun exist_loop ::
    "kv_emulator \<Rightarrow> u8 \<Rightarrow> kv_key list \<Rightarrow> nat \<Rightarrow> byte list \<Rightarrow> byte list option" where
  "exist_loop e ks [] bitpos buffers = Some buffers"
| "exist_loop e ks (key # keys) bitpos buffers =
     (let setidx = bitpos div 8; bitoffset = bitpos - setidx * 8 in
      do { it \<leftarrow> emul_find e ks key;
           exist_loop e ks keys (bitpos + 1)
             (if it \<noteq> None
              then buffers[setidx := buffers ! setidx OR push_bit bitoffset 1]
              else buffers) })"

definition kv_exist ::
    "u8 \<Rightarrow> kv_key list \<Rightarrow> u32 \<Rightarrow> byte list \<Rightarrow> u32 \<Rightarrow> kv_emulator \<Rightarrow>
     (kv_result \<times> byte list \<times> u32) option" where
  "kv_exist ks_id key keycount buffers buffer_size e =
     (if keycount = 0 then Some (KV_SUCCESS, buffers, buffer_size)
      else
        let bytes_to_write = (keycount - 1) div 8 + 1 in
        if bytes_to_write > buffer_size then Some (KV_ERR_BUFFER_SMALL, buffers, buffer_size)
        else do {
          require (unat bytes_to_write \<le> length buffers \<and> unat keycount \<le> length key
                   \<and> unat keycount < 2 ^ 31);
          let zeroed = mem_write buffers 0 (replicate (unat bytes_to_write) 0);
          buffers' \<leftarrow> exist_loop e ks_id (take (unat keycount) key) 0 zeroed;
          Some (KV_SUCCESS, buffers', bytes_to_write) })"

definition kv_purge :: "u8 \<Rightarrow> kv_purge_option \<Rightarrow> kv_emulator \<Rightarrow> (kv_result \<times> kv_emulator) option" where
  "kv_purge ks_id option e =
     (if option \<noteq> KV_PURGE_OPT_DEFAULT then Some (KV_ERR_OPTION_INVALID, e)
      else do {
        require (unat ks_id < length (m_map e));
        Some (KV_SUCCESS, set_ks_map ks_id [] e\<lparr>m_available := m_capacity e\<rparr>) })"

definition kv_delete ::
    "u8 \<Rightarrow> kv_key option \<Rightarrow> kv_delete_option \<Rightarrow> u32 option \<Rightarrow> kv_emulator \<Rightarrow>
     (kv_result \<times> u32 option \<times> kv_emulator) option" where
  "kv_delete ks_id keyp option recovered_bytes e =
     (case keyp of
        None \<Rightarrow> Some (KV_ERR_KEY_INVALID, recovered_bytes, e)
      | Some key \<Rightarrow>
          if key_ptr key = None then Some (KV_ERR_KEY_INVALID, recovered_bytes, e)
          else if option \<noteq> KV_DELETE_OPT_DEFAULT \<and> option \<noteq> KV_DELETE_OPT_ERROR
          then Some (KV_ERR_OPTION_INVALID, recovered_bytes, e)
          else do {
            it \<leftarrow> emul_find e ks_id key;
            case it of
              Some p \<Rightarrow>
                let len = (word_of_nat (length (fst p) + length (snd p)) :: u32) in
                Some (KV_SUCCESS,
                  (if recovered_bytes \<noteq> None then Some len else None),
                  set_ks_map ks_id (std_erase CmpEmulPrefix (key_bytes key) (ks_map e ks_id))
                    (e\<lparr>m_available := m_available e + ucast len\<rparr>))
            | None \<Rightarrow>
                if option = KV_DELETE_OPT_ERROR
                then Some (KV_ERR_KEY_NOT_EXIST, recovered_bytes, e)
                else Some (KV_SUCCESS, recovered_bytes, e) })"

definition get_total_capacity :: "kv_emulator \<Rightarrow> u64" where
  "get_total_capacity e = m_capacity e"

definition get_available :: "kv_emulator \<Rightarrow> u64" where
  "get_available e = m_available e"

section \<open>Invariant and contents\<close>

definition emul_map_ok :: "emulator_map_t \<Rightarrow> bool" where
  "emul_map_ok m \<longleftrightarrow>
     std_ordered CmpEmulPrefix emul_key_valid m \<and> list_all (\<lambda>p. length (snd p) < 2 ^ 32) m"

definition emul_inv :: "kv_emulator \<Rightarrow> bool" where
  "emul_inv e \<longleftrightarrow> length (m_map e) = SAMSUNG_MAX_KEYSPACE_CNT \<and> list_all emul_map_ok (m_map e)"

definition emul_contents :: "kv_emulator \<Rightarrow> kv_contents" where
  "emul_contents e ks = (if unat ks < length (m_map e) then map_of (ks_map e ks) else (\<lambda>_. None))"

lemma emul_inv_new [simp]: "emul_inv (kv_emulator_new h c u n)"
  by (simp add: emul_inv_def kv_emulator_new_def emul_map_ok_def numeral_2_eq_2)

lemma emul_contents_new: "emul_contents (kv_emulator_new h c u n) = contents_empty"
proof (intro ext)
  fix ks k
  show "emul_contents (kv_emulator_new h c u n) ks k = contents_empty ks k"
    by (simp add: emul_contents_def contents_empty_def kv_emulator_new_def ks_map_def)
qed

lemma emul_inv_map: "emul_inv e \<Longrightarrow> \<not> ks_id_invalid ks \<Longrightarrow> emul_map_ok (ks_map e ks)"
  by (simp add: emul_inv_def ks_id_invalid_def ks_map_def list_all_length)

lemma emul_inv_index: "emul_inv e \<Longrightarrow> \<not> ks_id_invalid ks \<Longrightarrow> unat ks < length (m_map e)"
  by (simp add: emul_inv_def ks_id_invalid_def)

lemma emul_map_ok_cmp:
  "emul_map_ok m \<Longrightarrow> 4 \<le> length k \<Longrightarrow> cmp_in_bounds k m"
  by (auto simp: emul_map_ok_def std_ordered_def cmp_in_bounds_def list_all_iff emul_key_valid_def)

lemma key_ok_valid: "key_ok k \<Longrightarrow> emul_key_valid (key_bytes k)"
  by (simp add: key_ok_def emul_key_valid_def)

lemma key_ok_readable: "key_ok k \<Longrightarrow> key_readable k"
  by (simp add: key_ok_def)

text \<open>On a well-formed request the search is the lookup of the abstract contents.\<close>

lemma emul_find_contents:
  assumes "emul_inv e" and "\<not> ks_id_invalid ks" and "key_ok k"
  shows "emul_find e ks k =
    Some (map_option (Pair (key_bytes k)) (emul_contents e ks (key_bytes k)))"
proof -
  have m: "emul_map_ok (ks_map e ks)" using assms by (simp add: emul_inv_map)
  have "4 \<le> length (key_bytes k)" using key_ok_valid [OF assms(3)] by (simp add: emul_key_valid_def)
  with m have "cmp_in_bounds (key_bytes k) (ks_map e ks)" by (rule emul_map_ok_cmp)
  moreover have "std_find CmpEmulPrefix (key_bytes k) (ks_map e ks) =
      map_option (Pair (key_bytes k)) (map_of (ks_map e ks) (key_bytes k))"
    using m key_ok_valid [OF assms(3)] by (simp add: emul_map_ok_def emul_keys.find_map_of)
  ultimately show ?thesis
    using emul_inv_index [OF assms(1,2)] key_ok_readable [OF assms(3)]
    by (simp add: emul_find_def emul_contents_def)
qed

text \<open>Replacing the map of one key space.\<close>

lemma set_ks_map_inv:
  "emul_inv e \<Longrightarrow> emul_map_ok m \<Longrightarrow> emul_inv (set_ks_map ks m e)"
  by (auto simp: emul_inv_def set_ks_map_def list_all_iff dest: set_update_subset_insert [THEN subsetD])

lemma set_ks_map_contents:
  assumes "unat ks < length (m_map e)"
  shows "emul_contents (set_ks_map ks m e) = (emul_contents e)(ks := map_of m)"
proof
  fix ks'
  show "emul_contents (set_ks_map ks m e) ks' = ((emul_contents e)(ks := map_of m)) ks'"
    using assms by (cases "ks' = ks")
      (auto simp: emul_contents_def set_ks_map_def ks_map_def nth_list_update word_unat_eq_iff)
qed

lemma emul_frame [simp]:
  "emul_inv (e\<lparr>m_available := a\<rparr>) = emul_inv e"
  "emul_contents (e\<lparr>m_available := a\<rparr>) = emul_contents e"
  "ks_map (e\<lparr>m_available := a\<rparr>) = ks_map e"
  "emul_inv (emul_collect t n e) = emul_inv e"
  "emul_contents (emul_collect t n e) = emul_contents e"
  "m_capacity (emul_collect t n e) = m_capacity e"
  "m_capacity (set_ks_map ks m e) = m_capacity e"
  "m_map (emul_collect t n e) = m_map e"
  by (auto simp: emul_inv_def emul_contents_def ks_map_def emul_collect_def set_ks_map_def fun_eq_iff)

lemma emul_map_ok_emplace:
  assumes "emul_map_ok m" and "emul_key_valid k" and "length v < 2 ^ 32"
  shows "emul_map_ok (std_emplace CmpEmulPrefix k v m)"
proof -
  have "set (std_emplace CmpEmulPrefix k v m) \<subseteq> insert (k, v) (set m)"
    using std_split [of CmpEmulPrefix k m]
    by (auto simp: std_emplace_def split: option.splits) (metis Un_iff set_append)+
  then show ?thesis
    using assms by (auto simp: emul_map_ok_def emul_keys.ordered_emplace list_all_iff)
qed

lemma std_assign_set: "set (std_assign lt k v m) \<subseteq> set m \<union> {p. snd p = v}"
proof -
  have "set (tl (std_lower_bound lt k m)) \<subseteq> set m"
    using std_split [of lt k m] by (metis list.set_sel(2) set_append subsetI sup.coboundedI2 tl_Nil Un_iff)
  moreover have "set (std_before lt k m) \<subseteq> set m"
    using std_split [of lt k m] by (metis Un_iff set_append subsetI)
  ultimately show ?thesis by (auto simp: std_assign_def split: option.splits)
qed

lemma std_erase_set: "set (std_erase lt k m) \<subseteq> set m"
proof -
  have "set (tl (std_lower_bound lt k m)) \<subseteq> set m"
    using std_split [of lt k m] by (metis list.set_sel(2) set_append subsetI sup.coboundedI2 tl_Nil Un_iff)
  moreover have "set (std_before lt k m) \<subseteq> set m"
    using std_split [of lt k m] by (metis Un_iff set_append subsetI)
  ultimately show ?thesis by (auto simp: std_erase_def split: option.splits)
qed

lemma emul_map_ok_assign:
  "emul_map_ok m \<Longrightarrow> emul_key_valid k \<Longrightarrow> length v < 2 ^ 32 \<Longrightarrow>
    emul_map_ok (std_assign CmpEmulPrefix k v m)"
  using std_assign_set [of CmpEmulPrefix k v m]
  by (fastforce simp: emul_map_ok_def emul_keys.ordered_assign list_all_iff)

lemma emul_map_ok_erase:
  "emul_map_ok m \<Longrightarrow> emul_key_valid k \<Longrightarrow> emul_map_ok (std_erase CmpEmulPrefix k m)"
  using std_erase_set [of CmpEmulPrefix k m]
  by (auto simp: emul_map_ok_def emul_keys.ordered_erase list_all_iff)

lemma value_bytes_bound: "length (value_bytes v) < 2 ^ 32"
proof -
  have "length (value_bytes v) \<le> unat (value_length v)" by (simp add: value_bytes_def)
  also have "\<dots> < 256 ^ 4" by (rule unat_u32_less)
  finally show ?thesis by simp
qed

section \<open>The operations refine the specification\<close>

text \<open>The capacity of an object is set once; an object of capacity 0 refuses every store.\<close>

definition emul_ready :: "kv_emulator \<Rightarrow> bool" where
  "emul_ready e \<longleftrightarrow> emul_inv e \<and> m_capacity e \<noteq> 0"

lemma kv_store_refines:
  assumes "emul_ready e" and "request_ok (ReqStore ks k v opt)"
  shows "\<exists>c e'. kv_store ks k v opt c0 e = Some (fst (spec_store ks k v opt (emul_contents e)), c, e')
    \<and> emul_ready e' \<and> emul_contents e' = snd (spec_store ks k v opt (emul_contents e))"
proof -
  have inv: "emul_inv e" and cap: "m_capacity e \<noteq> 0" using assms(1) by (auto simp: emul_ready_def)
  have ks: "\<not> ks_id_invalid ks" and k: "key_ok k" and v: "value_readable v" using assms(2) by auto
  note m = emul_inv_map [OF inv ks] and i = emul_inv_index [OF inv ks] and kv = key_ok_valid [OF k]
  have ord: "std_ordered CmpEmulPrefix emul_key_valid (ks_map e ks)"
    using m by (simp add: emul_map_ok_def)
  have c: "emul_contents e ks = map_of (ks_map e ks)" using i by (simp add: emul_contents_def)
  note defs = kv_store_def spec_store_def emul_find_contents [OF inv ks k] v new_kv_key_def
    key_ok_readable [OF k] cap emul_ready_def contents_upd_def
  show ?thesis
  proof (cases "emul_contents e ks (key_bytes k)")
    case None
    have "emul_inv (set_ks_map ks (std_emplace CmpEmulPrefix (key_bytes k) (value_bytes v) (ks_map e ks)) e')"
      if "emul_inv e'" for e'
      using that emul_map_ok_emplace [OF m kv value_bytes_bound] by (rule set_ks_map_inv)
    with None inv i show ?thesis
      using emul_keys.map_of_emplace [OF ord kv] by (simp add: defs set_ks_map_contents c)
  next
    case (Some w)
    have "emul_inv (set_ks_map ks (std_assign CmpEmulPrefix (key_bytes k) (value_bytes v) (ks_map e ks)) e')"
      if "emul_inv e'" for e'
      using that emul_map_ok_assign [OF m kv value_bytes_bound] by (rule set_ks_map_inv)
    with Some inv i show ?thesis
      using emul_keys.map_of_assign [OF ord kv] by (simp add: defs set_ks_map_contents c)
  qed
qed

lemma kv_delete_refines:
  assumes "emul_ready e" and "request_ok (ReqDelete ks k opt)"
  shows "\<exists>c e'. kv_delete ks (Some k) opt rb e =
      Some (fst (spec_delete ks k opt (emul_contents e)), c, e')
    \<and> emul_ready e' \<and> emul_contents e' = snd (spec_delete ks k opt (emul_contents e))"
proof -
  have inv: "emul_inv e" and cap: "m_capacity e \<noteq> 0" using assms(1) by (auto simp: emul_ready_def)
  have ks: "\<not> ks_id_invalid ks" and k: "key_ok k" using assms(2) by auto
  note m = emul_inv_map [OF inv ks] and i = emul_inv_index [OF inv ks] and kv = key_ok_valid [OF k]
  have ord: "std_ordered CmpEmulPrefix emul_key_valid (ks_map e ks)"
    using m by (simp add: emul_map_ok_def)
  have c: "emul_contents e ks = map_of (ks_map e ks)" using i by (simp add: emul_contents_def)
  have p: "key_ptr k \<noteq> None" using k by (simp add: key_ok_def)
  have "emul_inv (set_ks_map ks (std_erase CmpEmulPrefix (key_bytes k) (ks_map e ks)) e')"
    if "emul_inv e'" for e'
    using that emul_map_ok_erase [OF m kv] by (rule set_ks_map_inv)
  then show ?thesis
    using inv cap i p emul_keys.map_of_erase [OF ord kv]
    by (cases "emul_contents e ks (key_bytes k)")
      (simp_all add: kv_delete_def spec_delete_def emul_find_contents [OF inv ks k] emul_ready_def
        contents_upd_def set_ks_map_contents c Let_def fun_upd_idem)
qed

lemma kv_purge_refines:
  assumes "emul_ready e" and "request_ok (ReqPurge ks opt)"
  shows "\<exists>e'. kv_purge ks opt e = Some (fst (spec_purge ks opt (emul_contents e)), e')
    \<and> emul_ready e' \<and> emul_contents e' = snd (spec_purge ks opt (emul_contents e))"
proof -
  have inv: "emul_inv e" using assms(1) by (simp add: emul_ready_def)
  have ks: "\<not> ks_id_invalid ks" using assms(2) by simp
  have "emul_inv (set_ks_map ks [] e)"
    using inv by (rule set_ks_map_inv) (simp add: emul_map_ok_def)
  with emul_inv_index [OF inv ks] assms(1) show ?thesis
    by (simp add: kv_purge_def spec_purge_def emul_ready_def set_ks_map_contents)
qed

lemma emul_value_bound:
  assumes "emul_inv e" and "emul_contents e ks k = Some d"
  shows "length d < 2 ^ 32"
proof -
  from assms(2) have i: "unat ks < length (m_map e)" and "map_of (ks_map e ks) k = Some d"
    by (auto simp: emul_contents_def split: if_splits)
  then have "(k, d) \<in> set (ks_map e ks)" by (auto dest: map_of_SomeD)
  moreover have "emul_map_ok (ks_map e ks)"
    using assms(1) i by (simp add: emul_inv_def ks_map_def list_all_length)
  ultimately show ?thesis by (auto simp: emul_map_ok_def list_all_iff)
qed

lemma kv_retrieve_refines:
  assumes "emul_ready e" and "request_ok (ReqRetrieve ks k v opt)"
  shows "\<exists>e'. kv_retrieve ks k opt v e =
      Some (fst (spec_retrieve ks k v opt (emul_contents e)),
            snd (spec_retrieve ks k v opt (emul_contents e)), e')
    \<and> emul_ready e' \<and> emul_contents e' = emul_contents e"
proof -
  have inv: "emul_inv e" using assms(1) by (simp add: emul_ready_def)
  have ks: "\<not> ks_id_invalid ks" and k: "key_ok k" and v: "value_readable v" using assms(2) by auto
  show ?thesis
  proof (cases "emul_contents e ks (key_bytes k)")
    case None
    then show ?thesis
      using assms(1) by (simp add: kv_retrieve_def spec_retrieve_def emul_find_contents [OF inv ks k])
  next
    case (Some d)
    let ?o = "value_offset v" and ?l = "value_length v" and ?d = "word_of_nat (length d) :: u32"
    have d: "unat ?d = length d"
      using emul_value_bound [OF inv Some] by (simp add: unat_of_nat)
    have ge: "?d \<le> ?o \<longleftrightarrow> length d \<le> unat ?o" by (simp add: word_le_nat_alt d)
    have rest: "unat (?d - ?o) = length (drop (unat ?o) d)" if "\<not> (?o \<noteq> 0 \<and> ?d \<le> ?o)"
      using that d by (auto simp: unat_sub_if' word_le_nat_alt unat_eq_0)
    have less: "?l < ?d - ?o \<longleftrightarrow> unat ?l < length (drop (unat ?o) d)"
      and minw: "unat (min (?d - ?o) ?l) = min (unat ?l) (length (drop (unat ?o) d))"
      if "\<not> (?o \<noteq> 0 \<and> ?d \<le> ?o)"
      using rest [OF that] by (auto simp: word_less_nat_alt word_le_nat_alt min_def)
    have tk: "take (min (unat ?l) (length r)) r = take (unat ?l) r" for r :: "byte list"
      by (simp add: min_def)
    have o0: "?o = 0 \<longleftrightarrow> unat ?o = 0" by (simp add: unat_eq_0)
    have vr: "unat ?l \<le> length (ptr_bytes (value_ptr v))" using v by (simp add: value_readable_def)
    show ?thesis
    proof (cases "?o \<noteq> 0 \<and> ?d \<le> ?o")
      case True
      with Some assms(1) show ?thesis
        by (auto simp: kv_retrieve_def spec_retrieve_def emul_find_contents [OF inv ks k] Let_def ge o0)
    next
      case False
      then have F: "\<not> (unat ?o \<noteq> 0 \<and> length d \<le> unat ?o)" by (simp add: ge o0)
      define c r where "c = min (?d - ?o) ?l" and "r = drop (unat ?o) d"
      have c: "unat c = min (unat ?l) (length r)" using minw [OF False] by (simp only: c_def r_def)
      have cb: "unat c \<le> length (ptr_bytes (value_ptr v))" unfolding c using vr by simp
      have "kv_retrieve ks k opt v e = (if opt \<noteq> KV_RETRIEVE_OPT_DEFAULT
          then Some (KV_ERR_OPTION_INVALID, v, e)
          else Some (if ?l < ?d - ?o then KV_ERR_BUFFER_SMALL else KV_SUCCESS,
            v\<lparr>value_ptr := map_option (\<lambda>b. mem_write b 0 (take (unat c) r)) (value_ptr v),
              value_length := c, actual_value_size := ?d\<rparr>, emul_collect STAT_READ c e))"
        using cb
        by (simp add: False kv_retrieve_def emul_find_contents [OF inv ks k] Some Let_def c_def [symmetric]
            r_def [symmetric])
      moreover have "spec_retrieve ks k v opt (emul_contents e) = (if opt \<noteq> KV_RETRIEVE_OPT_DEFAULT
          then (KV_ERR_OPTION_INVALID, v)
          else (if unat ?l < length r then KV_ERR_BUFFER_SMALL else KV_SUCCESS,
            v\<lparr>value_ptr := map_option (\<lambda>b. mem_write b 0 (take (unat ?l) r)) (value_ptr v),
              value_length := word_of_nat (min (unat ?l) (length r)), actual_value_size := ?d\<rparr>))"
        unfolding spec_retrieve_def Let_def Some option.case if_not_P [OF F] r_def by simp
      moreover have "?l < ?d - ?o \<longleftrightarrow> unat ?l < length r" using less [OF False] by (simp only: r_def)
      moreover have "take (unat c) r = take (unat ?l) r" by (simp only: c tk)
      moreover have "c = word_of_nat (min (unat ?l) (length r))" unfolding c [symmetric] by simp
      ultimately have "kv_retrieve ks k opt v e = Some (fst (spec_retrieve ks k v opt (emul_contents e)),
            snd (spec_retrieve ks k v opt (emul_contents e)),
            (if opt \<noteq> KV_RETRIEVE_OPT_DEFAULT then e else emul_collect STAT_READ c e))"
        by simp
      with assms(1) show ?thesis by (simp add: emul_ready_def)
    qed
  qed
qed

text \<open>The loop of \<open>kv_exist\<close> sets exactly the bits of the present keys.\<close>

lemma bit_exp_byte: "bit (2 ^ n :: byte) m \<longleftrightarrow> m = n \<and> n < 8"
  by (auto simp: bit_exp_iff)

lemma exist_loop_bits:
  assumes "emul_inv e" and "\<not> ks_id_invalid ks" and "list_all key_ok keys"
    and "pos + length keys \<le> 8 * length buf"
  shows "\<exists>buf'. exist_loop e ks keys pos buf = Some buf' \<and> length buf' = length buf \<and>
    (\<forall>j < length buf. \<forall>m < 8. bit (buf' ! j) m \<longleftrightarrow> bit (buf ! j) m \<or>
      (pos \<le> 8 * j + m \<and> 8 * j + m < pos + length keys
       \<and> emul_contents e ks (key_bytes (keys ! (8 * j + m - pos))) \<noteq> None))"
  using assms(3,4)
proof (induction keys arbitrary: pos buf)
  case Nil
  then show ?case by auto
next
  case (Cons k keys)
  let ?p = "emul_contents e ks (key_bytes k) \<noteq> None"
  define buf1 where "buf1 = (if ?p
    then buf[pos div 8 := buf ! (pos div 8) OR push_bit (pos mod 8) 1] else buf)"
  have find: "emul_find e ks k =
      Some (map_option (Pair (key_bytes k)) (emul_contents e ks (key_bytes k)))"
    using Cons.prems assms(1,2) by (simp add: emul_find_contents)
  have pos: "pos div 8 < length buf" using Cons.prems(2) by auto
  have bit1: "bit (buf1 ! j) m \<longleftrightarrow> bit (buf ! j) m \<or> (8 * j + m = pos \<and> ?p)"
    if "j < length buf" "m < 8" for j m
  proof -
    have "8 * j + m = pos \<longleftrightarrow> j = pos div 8 \<and> m = pos mod 8" using that(2) by auto
    then show ?thesis
      using that pos by (auto simp: buf1_def nth_list_update bit_or_iff bit_exp_byte)
  qed
  have len: "length buf1 = length buf" by (simp add: buf1_def)
  have "\<exists>buf'. exist_loop e ks keys (pos + 1) buf1 = Some buf' \<and> length buf' = length buf1 \<and>
    (\<forall>j < length buf1. \<forall>m < 8. bit (buf' ! j) m \<longleftrightarrow> bit (buf1 ! j) m \<or>
      (pos + 1 \<le> 8 * j + m \<and> 8 * j + m < pos + 1 + length keys
       \<and> emul_contents e ks (key_bytes (keys ! (8 * j + m - (pos + 1)))) \<noteq> None))"
    using Cons.prems by (intro Cons.IH) (simp_all add: len)
  then obtain buf' where b: "exist_loop e ks keys (pos + 1) buf1 = Some buf'"
    "length buf' = length buf1"
    "\<And>j m. j < length buf1 \<Longrightarrow> m < 8 \<Longrightarrow> bit (buf' ! j) m \<longleftrightarrow> bit (buf1 ! j) m \<or>
      (pos + 1 \<le> 8 * j + m \<and> 8 * j + m < pos + 1 + length keys
       \<and> emul_contents e ks (key_bytes (keys ! (8 * j + m - (pos + 1)))) \<noteq> None)" by blast
  have "exist_loop e ks (k # keys) pos buf = Some buf'"
    using b(1) by (auto simp: find buf1_def Let_def minus_div_mult_eq_mod split: if_splits)
  moreover have "bit (buf' ! j) m \<longleftrightarrow> bit (buf ! j) m \<or>
      (pos \<le> 8 * j + m \<and> 8 * j + m < pos + length (k # keys)
       \<and> emul_contents e ks (key_bytes ((k # keys) ! (8 * j + m - pos))) \<noteq> None)"
    if "j < length buf" "m < 8" for j m
    using b(3) [of j m] bit1 [of j m] that len by (auto simp: nth_Cons' Suc_le_eq le_less)
  ultimately show ?case using b(2) len by auto
qed

lemma bit_exist_bytes:
  assumes "j < (length bs + 7) div 8" and "m < 8"
  shows "bit (exist_bytes bs ! j) m \<longleftrightarrow> 8 * j + m < length bs \<and> bs ! (8 * j + m)"
  using assms by (auto simp: exist_bytes_def bit_horner_sum_bit_word_iff less_diff_conv)

lemma length_exist_bytes [simp]: "length (exist_bytes bs) = (length bs + 7) div 8"
  by (simp add: exist_bytes_def)

lemma byte_eqI: "(\<And>m. m < 8 \<Longrightarrow> bit a m \<longleftrightarrow> bit b m) \<Longrightarrow> a = (b :: byte)"
  by (rule bit_word_eqI) simp

lemma exist_loop_bytes:
  assumes "emul_inv e" and "\<not> ks_id_invalid ks" and "list_all key_ok keys"
    and n: "n = (length keys + 7) div 8" "n \<le> length buf"
  shows "exist_loop e ks keys 0 (mem_write buf 0 (replicate n 0)) =
    Some (mem_write buf 0 (exist_bytes (map (\<lambda>k. emul_contents e ks (key_bytes k) \<noteq> None) keys)))"
proof -
  let ?bs = "map (\<lambda>k. emul_contents e ks (key_bytes k) \<noteq> None) keys"
  let ?z = "mem_write buf 0 (replicate n 0)" and ?r = "mem_write buf 0 (exist_bytes ?bs)"
  have len: "length ?z = length buf" "length ?r = length buf" using n by simp_all
  have "0 + length keys \<le> 8 * length ?z" unfolding len using n by auto
  from exist_loop_bits [OF assms(1-3) this] obtain buf' where
    b: "exist_loop e ks keys 0 ?z = Some buf'" "length buf' = length ?z"
    "\<forall>j < length ?z. \<forall>m < 8. bit (buf' ! j) m \<longleftrightarrow> bit (?z ! j) m \<or>
      (0 \<le> 8 * j + m \<and> 8 * j + m < 0 + length keys
       \<and> emul_contents e ks (key_bytes (keys ! (8 * j + m - 0))) \<noteq> None)" by blast
  have "buf' = ?r"
  proof (rule nth_equalityI)
    show "length buf' = length ?r" using b(2) len by simp
    fix j assume "j < length buf'"
    then have j: "j < length buf" using b(2) len by simp
    show "buf' ! j = ?r ! j"
    proof (rule byte_eqI)
      fix m :: nat assume m: "m < 8"
      have z: "?z ! j = (if j < n then 0 else buf ! j)" and r: "?r ! j = (if j < n then exist_bytes ?bs ! j else buf ! j)"
        using j n by (auto simp: mem_write_def nth_append)
      have out: "\<not> 8 * j + m < length keys" if "\<not> j < n" using that n(1) by auto
      have "bit (buf' ! j) m \<longleftrightarrow> bit (?z ! j) m \<or> (8 * j + m < length keys \<and> ?bs ! (8 * j + m))"
        using b(3) j m len(1) by auto
      note main = this
      show "bit (buf' ! j) m \<longleftrightarrow> bit (?r ! j) m"
      proof (cases "j < n")
        case True
        then have z0: "\<not> bit (?z ! j) m" and r1: "?r ! j = exist_bytes ?bs ! j"
          unfolding z r by (simp_all only: if_True bit_0_eq bot_apply bot_bool_def not_False_eq_True)
        have "bit (exist_bytes ?bs ! j) m \<longleftrightarrow> 8 * j + m < length keys \<and> ?bs ! (8 * j + m)"
          using bit_exist_bytes [of j ?bs m] True m unfolding n(1) length_map by blast
        with main z0 show ?thesis unfolding r1 by blast
      next
        case False
        with main out [OF False] show ?thesis unfolding z r if_not_P [OF False] by blast
      qed
    qed
  qed
  with b(1) show ?thesis by simp
qed

lemma kv_exist_refines:
  assumes "emul_inv e" and "request_ok (ReqExist ks keys cnt buf bsize)"
  shows "kv_exist ks keys cnt buf bsize e =
    Some (spec_exist ks keys cnt buf bsize (emul_contents e))"
proof (cases "cnt = 0")
  case True
  then show ?thesis by (simp add: kv_exist_def spec_exist_def)
next
  case False
  let ?w = "(cnt - 1) div 8 + 1"
  have ok: "\<not> ks_id_invalid ks" "list_all key_ok keys" "unat cnt \<le> length keys" "unat cnt < 2 ^ 31"
    "unat bsize \<le> length buf" using assms(2) by auto
  have c1: "1 \<le> unat cnt" using False by (metis less_one linorder_not_less unat_eq_0)
  have "unat (cnt - 1) = unat cnt - 1" using False by (rule unat_minus_one)
  then have "unat ((cnt - 1) div 8) = (unat cnt - 1) div 8" by (simp add: unat_div)
  then have w: "unat ?w = (unat cnt + 7) div 8"
    using c1 ok(4) by (subst unat_add_lem [THEN iffD1]) auto
  let ?ks = "take (unat cnt) keys"
  have lk: "length ?ks = unat cnt" using ok(3) by simp
  have all: "list_all key_ok ?ks" using ok(2) by (auto simp: list_all_iff dest: in_set_takeD)
  have bs: "?w > bsize \<longleftrightarrow> (unat cnt + 7) div 8 > unat bsize" by (simp add: word_less_nat_alt w)
  show ?thesis
  proof (cases "(unat cnt + 7) div 8 > unat bsize")
    case True
    with False lk show ?thesis by (simp add: kv_exist_def spec_exist_def Let_def bs)
  next
    case c: False
    with ok(5) have nb: "(unat cnt + 7) div 8 \<le> length buf" by simp
    have "exist_loop e ks ?ks 0 (mem_write buf 0 (replicate (unat ?w) 0)) =
      Some (mem_write buf 0 (exist_bytes (map (\<lambda>k. emul_contents e ks (key_bytes k) \<noteq> None) ?ks)))"
      using nb by (intro exist_loop_bytes [OF assms(1) ok(1) all]) (simp_all add: w min_absorb2 ok(3))
    moreover have "?w = word_of_nat ((unat cnt + 7) div 8)" unfolding w [symmetric] by simp
    moreover have "unat (word_of_nat ((unat cnt + 7) div 8) :: u32) = (unat cnt + 7) div 8"
      using w calculation(2) by simp
    ultimately show ?thesis
      using False c ok nb lk by (simp add: kv_exist_def spec_exist_def Let_def word_less_nat_alt)
  qed
qed

section \<open>The emulator provides the interface\<close>

fun emul_step :: "kv_request \<Rightarrow> kv_emulator \<Rightarrow> (kv_reply \<times> kv_emulator) option" where
  "emul_step (ReqStore ks k v opt) e =
     map_option (\<lambda>(r, _, e'). (RepResult r, e')) (kv_store ks k v opt 0 e)"
| "emul_step (ReqRetrieve ks k v opt) e =
     map_option (\<lambda>(r, v', e'). (RepValue r v', e')) (kv_retrieve ks k opt v e)"
| "emul_step (ReqExist ks keys cnt buf bsize) e =
     map_option (\<lambda>(r, buf', n). (RepExist r buf' n, e)) (kv_exist ks keys cnt buf bsize e)"
| "emul_step (ReqDelete ks k opt) e =
     map_option (\<lambda>(r, _, e'). (RepResult r, e')) (kv_delete ks (Some k) opt (Some 0) e)"
| "emul_step (ReqPurge ks opt) e =
     map_option (\<lambda>(r, e'). (RepResult r, e')) (kv_purge ks opt e)"

lemma emul_step_refines:
  assumes "emul_ready e" and "request_ok q"
  shows "\<exists>e'. emul_step q e = Some (fst (spec_step q (emul_contents e)), e') \<and> emul_ready e'
    \<and> emul_contents e' = snd (spec_step q (emul_contents e))"
proof (cases q)
  case (ReqStore ks k v opt)
  with kv_store_refines [OF assms(1), of ks k v opt 0] assms(2) show ?thesis
    by (auto split: prod.splits)
next
  case (ReqRetrieve ks k v opt)
  with kv_retrieve_refines [OF assms(1), of ks k v opt] assms(2) show ?thesis
    by (auto split: prod.splits)
next
  case (ReqExist ks keys cnt buf bsize)
  with kv_exist_refines [of e ks keys cnt buf bsize] assms show ?thesis
    by (auto simp: emul_ready_def split: prod.splits)
next
  case (ReqDelete ks k opt)
  with kv_delete_refines [OF assms(1), of ks k opt "Some 0"] assms(2) show ?thesis
    by (auto split: prod.splits)
next
  case (ReqPurge ks opt)
  with kv_purge_refines [OF assms(1), of ks opt] assms(2) show ?thesis
    by (auto split: prod.splits)
qed

interpretation emul: kv_api emul_ready emul_contents emul_step
  by unfold_locales (rule emul_step_refines)

section \<open>Properties\<close>

text \<open>
  C3. The emulator implements the specification of a key-value device: from a well-formed
  object of non-zero capacity, every sequence of well-formed store, retrieve, exist, delete
  and purge requests runs without leaving the bounds of a buffer, gets exactly the replies of
  the specification, and ends in a well-formed object with the specification's contents.
\<close>

theorem emulator_refines_spec:
  assumes "emul_inv e" and "m_capacity e \<noteq> 0" and "list_all request_ok qs"
  shows "\<exists>e'. api_run emul_step qs e = Some (fst (spec_run qs (emul_contents e)), e')
    \<and> emul_inv e' \<and> emul_contents e' = snd (spec_run qs (emul_contents e))"
proof -
  have "emul_ready e" using assms(1,2) by (simp add: emul_ready_def)
  from emul.run_refines [OF this assms(3)] show ?thesis by (auto simp: emul_ready_def)
qed

definition sample_emulator :: kv_emulator where
  "sample_emulator =
     kv_emulator_new (kv_history_new (replicate 17 STAT_READ) (replicate 17 0)) 1048576 True 0"

lemma sample_emulator_ready [simp]:
  "emul_inv sample_emulator" "m_capacity sample_emulator = 1048576" "emul_ready sample_emulator"
  "emul_contents sample_emulator = contents_empty"
  by (simp_all add: sample_emulator_def emul_ready_def emul_contents_new) (simp_all add: kv_emulator_new_def)

theorem emulator_refines_spec_witness:
  "\<exists>e'. api_run emul_step
      [ReqStore 0 sample_key sample_value KV_STORE_OPT_DEFAULT,
       ReqDelete 1 sample_key KV_DELETE_OPT_ERROR,
       ReqStore 0 sample_key sample_room KV_STORE_OPT_IDEMPOTENT] sample_emulator =
      Some ([RepResult KV_SUCCESS, RepResult KV_ERR_KEY_NOT_EXIST, RepResult KV_ERR_KEY_EXIST], e')
    \<and> emul_inv e' \<and> emul_contents e' 0 [1, 2, 3, 4, 5] = Some [9, 8, 7]"
  using emulator_refines_spec [of sample_emulator
      "[ReqStore 0 sample_key sample_value KV_STORE_OPT_DEFAULT,
        ReqDelete 1 sample_key KV_DELETE_OPT_ERROR,
        ReqStore 0 sample_key sample_room KV_STORE_OPT_IDEMPOTENT]"]
  by (auto simp: spec_store_def spec_delete_def contents_upd_def contents_empty_def)

end
