(* ===== verification/Kv_Iterator.thy ===== *)
theory Kv_Iterator
  imports Kv_Emulator
begin

text \<open>
  The iterators of the emulator and the group delete, the rest of class \<open>kv_emulator\<close> in
  \<open>PDK/core/src/device_abstract_layer/emulator/src/kv_emulator.cpp\<close>: \<open>kv_open_iterator\<close>,
  \<open>kv_iterator_next_set\<close>, \<open>kv_iterator_next\<close>, \<open>kv_close_iterator\<close>, \<open>kv_list_iterators\<close>
  and \<open>kv_delete_group\<close>.

  A C++ map iterator is a position in the list of pairs: the loops run over the pairs from
  \<open>lower_bound\<close> to \<open>end()\<close>. As in \<open>Kv_Emulator\<close>, a run that leaves the bounds of an array or
  buffer is \<open>None\<close>; the index of the iterator table that \<open>kv_close_iterator\<close> takes from the
  caller's handle is one such access.

  An operation is one step on the state of the emulator. The operations on keys, the group delete
  and the two functions that read from an iterator hold \<open>m_map_mutex\<close>; opening, closing and listing
  iterators hold \<open>m_it_map_mutex\<close>. Since \<open>kv_iterator_next_set\<close> and \<open>kv_iterator_next\<close> use the
  table of iterators under the first of them, the code does not exclude a worker that opens or closes
  an iterator from the middle of them; runs in which that happens are not modelled.
\<close>

definition find_iterator :: "kv_emulator \<Rightarrow> u8 \<Rightarrow> kv_iterator_handle_t option" where
  "find_iterator e hid = map_option snd (std_find (<) (int (unat hid)) (m_it_map e))"

definition set_iterator :: "u8 \<Rightarrow> kv_iterator_handle_t \<Rightarrow> kv_emulator \<Rightarrow> kv_emulator" where
  "set_iterator hid h e = e\<lparr>m_it_map := std_assign (<) (int (unat hid)) h (m_it_map e)\<rparr>"

text \<open>\<open>m_iterator_list[i].is_eof = v\<close> with the bounds of the array.\<close>

definition set_is_eof :: "u8 \<Rightarrow> u8 \<Rightarrow> kv_emulator \<Rightarrow> kv_emulator option" where
  "set_is_eof hid v e =
     do { require (1 \<le> unat hid \<and> unat hid \<le> length (m_iterator_list e));
          let i = unat hid - 1;
          Some (e\<lparr>m_iterator_list := (m_iterator_list e)[i := (m_iterator_list e ! i)\<lparr>it_is_eof := v\<rparr>]\<rparr>) }"

section \<open>Opening, closing and listing\<close>

text \<open>The first identifier from 1 on that no open iterator has; 17 when there is none.\<close>

definition next_itid :: "kv_emulator \<Rightarrow> nat" where
  "next_itid e =
     (case List.find (\<lambda>i. std_find (<) (int i) (m_it_map e) = None) [1..<SAMSUNG_MAX_ITERATORS + 1] of
        Some i \<Rightarrow> i | None \<Rightarrow> SAMSUNG_MAX_ITERATORS + 1)"

text \<open>The entry of the table an open iterator with the same condition has.\<close>

definition open_entry :: "kv_group_condition \<Rightarrow> kv_iterator \<Rightarrow> bool" where
  "open_entry cond it \<longleftrightarrow>
     it_prefix it = gc_bit_pattern cond \<and> it_bitmask it = gc_bitmask cond \<and> it_status it = 1"

definition new_iterator_handle ::
    "u8 \<Rightarrow> kv_iterator_option \<Rightarrow> kv_group_condition \<Rightarrow> bool \<Rightarrow> kv_iterator_handle_t" where
  "new_iterator_handle ks_id opt cond keylen_fixed =
     (let prefix = gc_bit_pattern cond AND gc_bitmask cond in
      \<lparr>ih_id = 0, current_key = mem_write (replicate SAMSUNG_KV_MAX_KEY_LEN 0) 0 (u32_bytes prefix),
       keylength = 4, ih_nsid = 0, ih_ksid = ks_id, ih_it_op = opt, ih_it_cond = cond,
       has_fixed_keylen = keylen_fixed, ih_end = False\<rparr>)"

definition kv_open_iterator ::
    "u8 \<Rightarrow> kv_iterator_option \<Rightarrow> kv_group_condition option \<Rightarrow> bool \<Rightarrow> u8 option \<Rightarrow> kv_emulator \<Rightarrow>
     (kv_result \<times> u8 option \<times> kv_emulator) option" where
  "kv_open_iterator ks_id opt condp keylen_fixed iter_hdl e =
     (case condp of
        None \<Rightarrow> Some (KV_ERR_PARAM_INVALID, iter_hdl, e)
      | Some cond \<Rightarrow>
          if iter_hdl = None then Some (KV_ERR_PARAM_INVALID, iter_hdl, e)
          else if length (m_it_map e) \<ge> SAMSUNG_MAX_ITERATORS
          then Some (KV_ERR_TOO_MANY_ITERATORS_OPEN, Some 0, e)
          else
            case List.find (\<lambda>i. open_entry cond (m_iterator_list e ! i)) [0..<SAMSUNG_MAX_ITERATORS] of
              Some i \<Rightarrow> Some (KV_ERR_ITERATOR_ALREADY_OPEN, Some (word_of_nat (i + 1)), e)
            | None \<Rightarrow>
                let itid = next_itid e in
                do {
                  require (itid - 1 < length (m_iterator_list e));
                  Some (KV_SUCCESS, Some (word_of_nat itid),
                    e\<lparr>m_it_map := std_emplace (<) (int itid)
                        (new_iterator_handle ks_id opt cond keylen_fixed) (m_it_map e),
                      m_iterator_list := (m_iterator_list e)[itid - 1 :=
                        \<lparr>it_handle_id = word_of_nat itid, it_status = 1, it_type = opt,
                         it_keyspace_id = ks_id, it_prefix = gc_bit_pattern cond,
                         it_bitmask = gc_bitmask cond, it_is_eof = 0\<rparr>]\<rparr>) })"

definition kv_close_iterator :: "u8 \<Rightarrow> kv_emulator \<Rightarrow> (kv_result \<times> kv_emulator) option" where
  "kv_close_iterator iter_handle_id e =
     (if unat iter_handle_id \<le> 0 then Some (KV_ERR_PARAM_INVALID, e)
      else do {
        let i = unat iter_handle_id - 1;
        require (i < length (m_iterator_list e));
        Some (KV_SUCCESS,
          e\<lparr>m_it_map := std_erase (<) (int (unat iter_handle_id)) (m_it_map e),
            m_iterator_list := (m_iterator_list e)[i := (m_iterator_list e ! i)\<lparr>it_status := 0\<rparr>]\<rparr>) })"

text \<open>\<open>kv_list_iterators\<close> up to the call of the completion function, which \<open>Kv_Io_Cmd\<close> has.\<close>

definition list_entry :: "kv_iterator \<Rightarrow> kv_iterator" where
  "list_entry it = it\<lparr>it_prefix := htobe32 (it_prefix it), it_bitmask := htobe32 (it_bitmask it)\<rparr>"

definition kv_list_iterators ::
    "kv_iterator list option \<Rightarrow> u32 option \<Rightarrow> kv_emulator \<Rightarrow>
     (kv_result \<times> kv_iterator list option \<times> u32 option) option" where
  "kv_list_iterators iter_list count e =
     (case (iter_list, count) of
        (Some its, Some cnt) \<Rightarrow>
          let n = min (unat cnt) SAMSUNG_MAX_ITERATORS in
          do { require (n \<le> length its);
               Some (KV_SUCCESS, Some (map list_entry (take n (m_iterator_list e)) @ drop n its),
                     Some (word_of_nat n)) }
      | _ \<Rightarrow> Some (KV_ERR_PARAM_INVALID, iter_list, count))"

section \<open>Iterating\<close>

definition it_include_value :: "kv_iterator_handle_t \<Rightarrow> bool" where
  "it_include_value h \<longleftrightarrow>
     ih_it_op h = KV_ITERATOR_OPT_KV \<or> ih_it_op h = KV_ITERATOR_OPT_KV_WITH_DELETE"

definition it_delete_value :: "kv_iterator_handle_t \<Rightarrow> bool" where
  "it_delete_value h \<longleftrightarrow> ih_it_op h = KV_ITERATOR_OPT_KV_WITH_DELETE"

text \<open>The saved position as a key, and saving a key as the position.\<close>

definition it_position :: "kv_iterator_handle_t \<Rightarrow> byte list" where
  "it_position h = take (keylength h) (current_key h)"

definition save_position :: "byte list \<Rightarrow> kv_iterator_handle_t \<Rightarrow> kv_iterator_handle_t option" where
  "save_position k h =
     do { require (length k \<le> length (current_key h));
          Some (h\<lparr>keylength := length k, current_key := mem_write (current_key h) 0 k\<rparr>) }"

definition it_matches :: "kv_iterator_handle_t \<Rightarrow> byte list \<Rightarrow> bool" where
  "it_matches h k \<longleftrightarrow>
     gc_bitmask (ih_it_cond h) = 0 \<or>
     read_u32 k AND gc_bitmask (ih_it_cond h) =
       gc_bit_pattern (ih_it_cond h) AND gc_bitmask (ih_it_cond h)"

text \<open>
  The bytes one pair takes in the caller's buffer, copied there by consecutive \<open>memcpy\<close> calls:
  the key length when keys have no fixed length, the key, and with values the value length
  and the value. \<open>klength\<close> and \<open>vlength\<close> are of type \<open>int\<close>.
\<close>

definition it_entry :: "kv_iterator_handle_t \<Rightarrow> byte list \<times> byte list \<Rightarrow> byte list" where
  "it_entry h p =
     (if has_fixed_keylen h then [] else u32_bytes (word_of_nat (length (fst p)))) @ fst p @
     (if it_include_value h then u32_bytes (word_of_nat (length (snd p))) @ snd p else [])"

text \<open>
  The loop of \<open>kv_iterator_next_set\<close>: the buffer, the bytes used, the pairs copied, and the key
  at which the buffer was full, if it was.
\<close>

fun next_set_loop ::
    "kv_iterator_handle_t \<Rightarrow> nat \<Rightarrow> emulator_map_t \<Rightarrow> byte list \<Rightarrow> nat \<Rightarrow> nat \<Rightarrow>
     (byte list \<times> nat \<times> nat \<times> byte list option) option" where
  "next_set_loop h buffer_size [] buffer buffer_pos counter = Some (buffer, buffer_pos, counter, None)"
| "next_set_loop h buffer_size (p # it) buffer buffer_pos counter =
     (if \<not> it_matches h (fst p) then Some (buffer, buffer_pos, counter, None)
      else do {
        require (length (snd p) < 2 ^ 31);
        let datasize = length (fst p) + (if has_fixed_keylen h then 0 else 4)
                       + (if it_include_value h then length (snd p) + 4 else 0);
        if buffer_pos + datasize > buffer_size
        then Some (buffer, buffer_pos, counter, Some (fst p))
        else do {
          require (buffer_pos + datasize \<le> length buffer);
          next_set_loop h buffer_size it (mem_write buffer buffer_pos (it_entry h p))
            (buffer_pos + datasize) (counter + 1) } })"

definition kv_iterator_next_set ::
    "u8 \<Rightarrow> kv_iterator_list option \<Rightarrow> kv_emulator \<Rightarrow>
     (kv_result \<times> kv_iterator_list option \<times> kv_emulator) option" where
  "kv_iterator_next_set iter_handle_id iter_list e =
     (case iter_list of
        None \<Rightarrow> Some (KV_ERR_PARAM_INVALID, iter_list, e)
      | Some l \<Rightarrow>
          if iter_handle_id = 0 then Some (KV_ERR_PARAM_INVALID, iter_list, e)
          else case find_iterator e iter_handle_id of
            None \<Rightarrow> Some (KV_ERR_ITERATOR_NOT_EXIST, iter_list, e)
          | Some h \<Rightarrow>
              do {
                require (unat (ih_ksid h) < length (m_map e));
                let m = ks_map e (ih_ksid h);
                require (cmp_in_bounds (it_position h) m);
                (buffer, buffer_pos, counter, full) \<leftarrow>
                  next_set_loop h (unat (list_size l)) (std_lower_bound CmpEmulPrefix (it_position h) m)
                    (it_list l) 0 0;
                h' \<leftarrow> (case full of None \<Rightarrow> Some h | Some k \<Rightarrow> save_position k h);
                let m' = (if it_delete_value h
                          then std_before CmpEmulPrefix (it_position h) m @
                               drop counter (std_lower_bound CmpEmulPrefix (it_position h) m)
                          else m);
                e' \<leftarrow> set_is_eof iter_handle_id (if full \<noteq> None then 0 else 1)
                       (set_ks_map (ih_ksid h) m' (set_iterator iter_handle_id h' e));
                Some (KV_SUCCESS,
                  Some \<lparr>num_entries = word_of_nat counter, list_end = (full = None),
                        list_size = word_of_nat buffer_pos, it_list = buffer\<rparr>, e') })"

text \<open>
  \<open>kv_iterator_next\<close> returns one pair. It compares the masked prefix with the bit pattern as
  given, and it saves the next key with the length of the key it returns.
\<close>

definition kv_iterator_next ::
    "u8 \<Rightarrow> kv_key option \<Rightarrow> kv_value option \<Rightarrow> kv_emulator \<Rightarrow>
     (kv_result \<times> kv_key option \<times> kv_value option \<times> kv_emulator) option" where
  "kv_iterator_next iter_handle_id keyp valuep e =
     (case (keyp, valuep) of
        (Some key, Some value) \<Rightarrow>
          if iter_handle_id = 0 \<or> key_ptr key = None \<or> value_ptr value = None
          then Some (KV_ERR_PARAM_INVALID, keyp, valuep, e)
          else (case find_iterator e iter_handle_id of
            None \<Rightarrow> Some (KV_ERR_ITERATOR_NOT_EXIST, keyp, valuep, e)
          | Some h \<Rightarrow>
              if ih_end h then Some (KV_SUCCESS, keyp, valuep, e)
              else do {
                require (unat (ih_ksid h) < length (m_map e));
                let m = ks_map e (ih_ksid h);
                require (cmp_in_bounds (it_position h) m);
                case std_lower_bound CmpEmulPrefix (it_position h) m of
                  [] \<Rightarrow> Some (KV_SUCCESS, keyp, valuep,
                          set_iterator iter_handle_id (h\<lparr>ih_end := True\<rparr>) e)
                | (k, v) # it \<Rightarrow>
                    if read_u32 k AND gc_bitmask (ih_it_cond h) \<noteq> gc_bit_pattern (ih_it_cond h)
                    then Some (KV_SUCCESS, keyp, valuep,
                           set_iterator iter_handle_id (h\<lparr>ih_end := True\<rparr>) e)
                    else
                      let key1 = key\<lparr>key_length := word_of_nat (length k)\<rparr> in
                      if length k > unat (key_length key1)
                      then do { h' \<leftarrow> save_position k h;
                                Some (KV_ERR_BUFFER_SMALL, Some key1, valuep,
                                      set_iterator iter_handle_id h' e) }
                      else
                        let value1 = (if it_include_value h
                                      then value\<lparr>actual_value_size := word_of_nat (length v)\<rparr>
                                      else value) in
                        if it_include_value h \<and> length v > unat (value_length value)
                        then do { h' \<leftarrow> save_position k h;
                                  Some (KV_ERR_BUFFER_SMALL, Some key1,
                                        Some (value1\<lparr>value_length := 0, value_offset := 0\<rparr>),
                                        set_iterator iter_handle_id h' e) }
                        else do {
                          require (length k \<le> length (ptr_bytes (key_ptr key)));
                          let key2 = key1\<lparr>key_ptr := map_option (\<lambda>b. mem_write b 0 k) (key_ptr key)\<rparr>;
                          require (it_include_value h \<longrightarrow> length v \<le> length (ptr_bytes (value_ptr value)));
                          let value2 = (if it_include_value h
                            then value1\<lparr>value_ptr := map_option (\<lambda>b. mem_write b 0 v) (value_ptr value),
                                        value_length := word_of_nat (length v), value_offset := 0\<rparr>
                            else value1);
                          let m' = (if it_delete_value h
                                    then std_before CmpEmulPrefix (it_position h) m @ it else m);
                          let e1 = set_ks_map (ih_ksid h) m' e;
                          case it of
                            [] \<Rightarrow> do {
                              e' \<leftarrow> set_is_eof iter_handle_id 1
                                     (set_iterator iter_handle_id (h\<lparr>ih_end := True\<rparr>) e1);
                              Some (KV_SUCCESS, Some key2, Some value2, e') }
                          | p # _ \<Rightarrow> do {
                              require (length k \<le> length (fst p));
                              h' \<leftarrow> save_position (take (length k) (fst p)) h;
                              e' \<leftarrow> set_is_eof iter_handle_id 0 (set_iterator iter_handle_id h' e1);
                              Some (KV_SUCCESS, Some key2, Some value2, e') } } })
      | _ \<Rightarrow> Some (KV_ERR_PARAM_INVALID, keyp, valuep, e))"

section \<open>Group delete\<close>

fun delete_group_loop ::
    "kv_group_condition \<Rightarrow> emulator_map_t \<Rightarrow> u64 \<Rightarrow> emulator_map_t \<times> u64" where
  "delete_group_loop cond [] available = ([], available)"
| "delete_group_loop cond (p # it) available =
     (if (read_u32 (fst p) AND gc_bitmask cond) AND gc_bit_pattern cond \<noteq>
         gc_bitmask cond AND gc_bit_pattern cond
      then (p # it, available)
      else delete_group_loop cond it
             (available + (word_of_nat (length (fst p)) + word_of_nat (length (snd p)))))"

definition kv_delete_group ::
    "u8 \<Rightarrow> kv_group_condition \<Rightarrow> kv_emulator \<Rightarrow> (kv_result \<times> kv_emulator) option" where
  "kv_delete_group ks_id grp_cond e =
     do { require (unat ks_id < length (m_map e));
          let minkey = u32_bytes (gc_bitmask grp_cond AND gc_bit_pattern grp_cond);
          let m = ks_map e ks_id;
          require (cmp_in_bounds minkey m);
          case delete_group_loop grp_cond (std_lower_bound CmpEmulPrefix minkey m) (m_available e) of
            (it, available) \<Rightarrow>
              Some (KV_SUCCESS,
                set_ks_map ks_id (std_before CmpEmulPrefix minkey m @ it)
                  (e\<lparr>m_available := available\<rparr>)) }"

section \<open>The iterator table\<close>

declare of_nat_unat [simp del]

text \<open>
  The invariant of the table: the open iterators have distinct identifiers from 1 to 16, entry
  \<open>i\<close> of \<open>m_iterator_list\<close> has status 1 exactly when iterator \<open>i + 1\<close> is open, and every
  handle has a position of a legal length and an existing key space.
\<close>

definition handle_ok :: "kv_iterator_handle_t \<Rightarrow> bool" where
  "handle_ok h \<longleftrightarrow> length (current_key h) = SAMSUNG_KV_MAX_KEY_LEN
     \<and> 4 \<le> keylength h \<and> keylength h \<le> SAMSUNG_KV_MAX_KEY_LEN \<and> \<not> ks_id_invalid (ih_ksid h)"

definition it_ids_ok :: "(int \<times> kv_iterator_handle_t) list \<Rightarrow> bool" where
  "it_ids_ok its \<longleftrightarrow> std_ordered (<) (\<lambda>_. True) its
     \<and> list_all (\<lambda>p. 1 \<le> fst p \<and> fst p \<le> 16 \<and> handle_ok (snd p)) its"

definition it_inv :: "kv_emulator \<Rightarrow> bool" where
  "it_inv e \<longleftrightarrow> it_ids_ok (m_it_map e) \<and> length (m_iterator_list e) = SAMSUNG_MAX_ITERATORS
     \<and> (\<forall>i < SAMSUNG_MAX_ITERATORS. it_status (m_iterator_list e ! i) = 1 \<longleftrightarrow>
          int (i + 1) \<in> fst ` set (m_it_map e))"

lemma it_inv_new [simp]: "it_inv (kv_emulator_new h c u n)"
  by (simp add: it_inv_def it_ids_ok_def kv_emulator_new_def kv_iterator_zero_def)

lemma it_find_map_of:
  "it_inv e \<Longrightarrow> std_find (<) i (m_it_map e) = map_option (Pair i) (map_of (m_it_map e) i)"
  by (simp add: it_inv_def it_ids_ok_def it_ids.find_map_of)

lemma find_iterator_map_of: "it_inv e \<Longrightarrow> find_iterator e hid = map_of (m_it_map e) (int (unat hid))"
  by (cases "map_of (m_it_map e) (int (unat hid))") (simp_all add: find_iterator_def it_find_map_of)

lemma it_ids_handle:
  assumes "it_ids_ok its" and "map_of its i = Some h"
  shows "handle_ok h" and "1 \<le> i" and "i \<le> 16"
  using assms map_of_SomeD [OF assms(2)] by (force simp: it_ids_ok_def list_all_iff)+

lemma it_ids_card:
  assumes "it_ids_ok its"
  shows "length its \<le> 16"
proof -
  have d: "distinct (map fst its)" using assms by (simp add: it_ids_ok_def it_ids.ordered_distinct)
  have "set (map fst its) \<subseteq> {1..16}" using assms by (auto simp: it_ids_ok_def list_all_iff)
  then have "card (set (map fst its)) \<le> card {1 .. (16 :: int)}" by (intro card_mono) auto
  then show ?thesis using distinct_card [OF d] by simp
qed

text \<open>While fewer than 16 iterators are open there is a free identifier.\<close>

lemma next_itid_free:
  assumes "it_inv e" and "length (m_it_map e) < 16"
  shows "1 \<le> next_itid e" and "next_itid e \<le> 16" and "map_of (m_it_map e) (int (next_itid e)) = None"
proof -
  let ?P = "\<lambda>i. std_find (<) (int i) (m_it_map e) = None"
  have "\<exists>i \<in> set [1..<SAMSUNG_MAX_ITERATORS + 1]. ?P i"
  proof (rule ccontr)
    assume "\<not> ?thesis"
    then have "map_of (m_it_map e) (int i) \<noteq> None" if "1 \<le> i" "i \<le> 16" for i
      using that it_find_map_of [OF assms(1)] by auto
    then have "int ` {1..16} \<subseteq> set (map fst (m_it_map e))" by (auto simp: map_of_eq_None_iff)
    then have "card (int ` {1..16}) \<le> card (set (map fst (m_it_map e)))" by (intro card_mono) auto
    also have "\<dots> \<le> length (m_it_map e)" using card_length [of "map fst (m_it_map e)"] by simp
    finally show False using assms(2) by (simp add: card_image)
  qed
  then obtain i where i: "List.find ?P [1..<SAMSUNG_MAX_ITERATORS + 1] = Some i"
    by (metis (mono_tags, lifting) find_None_iff not_Some_eq)
  then have "?P i" "i \<in> set [1..<SAMSUNG_MAX_ITERATORS + 1]"
    by (auto simp: find_Some_iff)
  with i show "1 \<le> next_itid e" "next_itid e \<le> 16" "map_of (m_it_map e) (int (next_itid e)) = None"
    using it_find_map_of [OF assms(1)] by (auto simp: next_itid_def)
qed

lemma new_handle_ok: "\<not> ks_id_invalid ks \<Longrightarrow> handle_ok (new_iterator_handle ks opt cond fixed)"
  by (simp add: handle_ok_def new_iterator_handle_def Let_def)

lemma set_emplace:
  assumes "std_find lt k m = None"
  shows "set (std_emplace lt k v m) = insert (k, v) (set m)"
  using assms arg_cong [OF std_split [of lt k m], of set] by (auto simp: std_emplace_def)

lemma unat_itid: "n \<le> 16 \<Longrightarrow> unat (word_of_nat n :: u8) = n"
  by (simp add: unat_of_nat)

text \<open>The state after a successful open, as one update.\<close>

definition opened ::
    "nat \<Rightarrow> kv_iterator_handle_t \<Rightarrow> kv_iterator \<Rightarrow> kv_emulator \<Rightarrow> kv_emulator" where
  "opened n h it e =
     e\<lparr>m_it_map := std_emplace (<) (int n) h (m_it_map e),
       m_iterator_list := (m_iterator_list e)[n - 1 := it]\<rparr>"

lemma opened_inv:
  assumes "it_inv e" and "1 \<le> n" and "n \<le> 16" and "map_of (m_it_map e) (int n) = None"
    and "handle_ok h" and "it_status it = 1"
  shows "it_inv (opened n h it e)"
proof -
  have ids: "it_ids_ok (m_it_map e)" and len: "length (m_iterator_list e) = 16"
    using assms(1) by (auto simp: it_inv_def)
  have st: "it_status (m_iterator_list e ! i) = 1 \<longleftrightarrow> int (i + 1) \<in> fst ` set (m_it_map e)"
    if "i < 16" for i
    using assms(1) that by (simp add: it_inv_def)
  have set: "set (std_emplace (<) (int n) h (m_it_map e)) = insert (int n, h) (set (m_it_map e))"
    by (rule set_emplace) (simp add: it_find_map_of [OF assms(1)] assms(4))
  have "it_ids_ok (std_emplace (<) (int n) h (m_it_map e))"
    using ids assms(2,3,5) it_ids.ordered_emplace [of "m_it_map e" "int n" h]
    by (simp add: it_ids_ok_def list_all_iff set)
  moreover have "it_status ((m_iterator_list e)[n - 1 := it] ! i) = 1 \<longleftrightarrow>
      int (i + 1) \<in> insert (int n) (fst ` set (m_it_map e))" if "i < 16" for i
  proof (cases "i = n - 1")
    case True
    with assms(2,3,6) len show ?thesis by simp
  next
    case False
    with st [OF that] assms(2) show ?thesis by auto
  qed
  ultimately show ?thesis by (simp add: it_inv_def opened_def len set)
qed

lemma opened_find:
  assumes "it_inv e" and "1 \<le> n" and "n \<le> 16" and "map_of (m_it_map e) (int n) = None"
    and "handle_ok h" and "it_status it = 1"
  shows "find_iterator (opened n h it e) g =
    (if unat g = n then Some h else find_iterator e g)"
proof -
  have "map_of (m_it_map (opened n h it e)) = (map_of (m_it_map e))(int n \<mapsto> h)"
    using assms(1,4) it_ids.map_of_emplace [of "m_it_map e" "int n" h]
    by (simp add: opened_def it_inv_def it_ids_ok_def)
  then show ?thesis
    using find_iterator_map_of [OF opened_inv [OF assms]] find_iterator_map_of [OF assms(1)] by auto
qed

lemma kv_open_iterator_cases:
  "kv_open_iterator ks opt (Some cond) fixed (Some g) e =
    (if length (m_it_map e) \<ge> 16 then Some (KV_ERR_TOO_MANY_ITERATORS_OPEN, Some 0, e)
     else case List.find (\<lambda>i. open_entry cond (m_iterator_list e ! i)) [0..<16] of
       Some i \<Rightarrow> Some (KV_ERR_ITERATOR_ALREADY_OPEN, Some (word_of_nat (i + 1)), e)
     | None \<Rightarrow> if next_itid e - 1 < length (m_iterator_list e)
         then Some (KV_SUCCESS, Some (word_of_nat (next_itid e)),
           opened (next_itid e) (new_iterator_handle ks opt cond fixed)
             \<lparr>it_handle_id = word_of_nat (next_itid e), it_status = 1, it_type = opt,
              it_keyspace_id = ks, it_prefix = gc_bit_pattern cond,
              it_bitmask = gc_bitmask cond, it_is_eof = 0\<rparr> e)
         else None)"
  by (simp add: kv_open_iterator_def opened_def Let_def split: option.split)

lemma kv_open_iterator_correct:
  assumes "it_inv e" and "\<not> ks_id_invalid ks"
  shows "\<exists>r hid e'. kv_open_iterator ks opt (Some cond) fixed (Some g) e = Some (r, Some hid, e')
    \<and> it_inv e' \<and> m_map e' = m_map e
    \<and> (case r of
         KV_SUCCESS \<Rightarrow> 1 \<le> unat hid \<and> unat hid \<le> 16 \<and> find_iterator e hid = None
           \<and> (\<forall>g. find_iterator e' g =
                (if g = hid then Some (new_iterator_handle ks opt cond fixed) else find_iterator e g))
       | KV_ERR_TOO_MANY_ITERATORS_OPEN \<Rightarrow> length (m_it_map e) = 16 \<and> e' = e
       | KV_ERR_ITERATOR_ALREADY_OPEN \<Rightarrow> find_iterator e hid \<noteq> None \<and> e' = e
       | _ \<Rightarrow> False)"
proof (cases "length (m_it_map e) \<ge> 16")
  case True
  then have "length (m_it_map e) = 16" using assms(1) it_ids_card [of "m_it_map e"] by (simp add: it_inv_def)
  with True assms(1) show ?thesis by (simp add: kv_open_iterator_cases)
next
  case False
  show ?thesis
  proof (cases "List.find (\<lambda>i. open_entry cond (m_iterator_list e ! i)) [0..<16]")
    case None
    let ?n = "next_itid e" and ?h = "new_iterator_handle ks opt cond fixed"
    note n = next_itid_free [OF assms(1)] and u = unat_itid [of ?n]
    have len: "length (m_iterator_list e) = 16" using assms(1) by (simp add: it_inv_def)
    have w: "g = word_of_nat ?n \<longleftrightarrow> unat g = ?n" for g :: u8
      using u n(2) False by (auto simp: word_unat_eq_iff)
    show ?thesis
      using None False n u len opened_inv [OF assms(1), of ?n ?h] opened_find [OF assms(1), of ?n ?h]
        new_handle_ok [OF assms(2)] find_iterator_map_of [OF assms(1)]
      by (simp add: kv_open_iterator_cases w) (simp add: opened_def)
  next
    case (Some i)
    then have i: "i < 16" "open_entry cond (m_iterator_list e ! i)" by (auto simp: find_Some_iff)
    then have "int (i + 1) \<in> fst ` set (m_it_map e)" using assms(1) by (simp add: it_inv_def open_entry_def)
    then have "map_of (m_it_map e) (int (i + 1)) \<noteq> None" by (simp add: map_of_eq_None_iff)
    moreover have "unat (word_of_nat (i + 1) :: u8) = i + 1" using i(1) by (intro unat_itid) simp
    ultimately have "find_iterator e (word_of_nat (i + 1)) \<noteq> None"
      unfolding find_iterator_map_of [OF assms(1)] by simp
    with Some False assms(1) show ?thesis by (simp add: kv_open_iterator_cases)
  qed
qed

lemma kv_close_iterator_correct:
  assumes "it_inv e" and "1 \<le> unat hid" and "unat hid \<le> 16"
  shows "\<exists>e'. kv_close_iterator hid e = Some (KV_SUCCESS, e') \<and> it_inv e' \<and> m_map e' = m_map e
    \<and> (\<forall>g. find_iterator e' g = (if g = hid then None else find_iterator e g))"
proof -
  let ?i = "unat hid - 1" and ?its = "std_erase (<) (int (unat hid)) (m_it_map e)"
  define e' where "e' = e\<lparr>m_it_map := ?its,
    m_iterator_list := (m_iterator_list e)[?i := (m_iterator_list e ! ?i)\<lparr>it_status := 0\<rparr>]\<rparr>"
  have ids: "it_ids_ok (m_it_map e)" and len: "length (m_iterator_list e) = 16"
    using assms(1) by (auto simp: it_inv_def)
  have st: "it_status (m_iterator_list e ! i) = 1 \<longleftrightarrow> int (i + 1) \<in> fst ` set (m_it_map e)"
    if "i < 16" for i
    using assms(1) that by (simp add: it_inv_def)
  have m: "map_of ?its = (map_of (m_it_map e))(int (unat hid) := None)"
    using ids by (simp add: it_ids_ok_def it_ids.map_of_erase)
  have dom: "fst ` set ?its = fst ` set (m_it_map e) - {int (unat hid)}"
    unfolding dom_map_of_conv_image_fst [symmetric] m by simp
  have "it_ids_ok ?its"
    using ids std_erase_set [of "(<)" "int (unat hid)" "m_it_map e"]
    by (auto simp: it_ids_ok_def it_ids.ordered_erase list_all_iff)
  moreover have "it_status ((m_iterator_list e)[?i := (m_iterator_list e ! ?i)\<lparr>it_status := 0\<rparr>] ! i) = 1
      \<longleftrightarrow> int (i + 1) \<in> fst ` set (m_it_map e) - {int (unat hid)}" if "i < 16" for i
    using st [OF that] that len assms(2,3) by (cases "i = ?i") auto
  ultimately have inv: "it_inv e'" by (simp add: it_inv_def e'_def len dom)
  have "find_iterator e' g = (if g = hid then None else find_iterator e g)" for g
    using find_iterator_map_of [OF inv] find_iterator_map_of [OF assms(1)]
    by (auto simp: e'_def m word_unat_eq_iff)
  moreover have "kv_close_iterator hid e = Some (KV_SUCCESS, e')"
    using assms(2,3) len by (simp add: kv_close_iterator_def e'_def Let_def)
  ultimately show ?thesis using inv by (auto simp: e'_def)
qed

lemma kv_close_iterator_bounds:
  assumes "it_inv e"
  shows "kv_close_iterator hid e = None \<longleftrightarrow> 16 < unat hid"
  using assms by (auto simp: kv_close_iterator_def it_inv_def Let_def)

section \<open>One call of \<open>kv_iterator_next_set\<close>\<close>

text \<open>The pairs an iterator still has to return, and their bytes in the buffer.\<close>

definition it_block :: "kv_iterator_handle_t \<Rightarrow> emulator_map_t \<Rightarrow> emulator_map_t" where
  "it_block h it = takeWhile (\<lambda>p. it_matches h (fst p)) it"

definition it_bytes :: "kv_iterator_handle_t \<Rightarrow> emulator_map_t \<Rightarrow> byte list" where
  "it_bytes h ps = concat (map (it_entry h) ps)"

definition it_remaining :: "kv_iterator_handle_t \<Rightarrow> emulator_map_t \<Rightarrow> emulator_map_t" where
  "it_remaining h m = it_block h (std_lower_bound CmpEmulPrefix (it_position h) m)"

lemma length_it_entry:
  "length (it_entry h p) = length (fst p) + (if has_fixed_keylen h then 0 else 4)
     + (if it_include_value h then length (snd p) + 4 else 0)"
  by (simp add: it_entry_def)

lemma it_bytes_simps [simp]:
  "it_bytes h [] = []" "it_bytes h (p # ps) = it_entry h p @ it_bytes h ps"
  "it_bytes h (ps @ qs) = it_bytes h ps @ it_bytes h qs"
  by (simp_all add: it_bytes_def)

definition values_small :: "emulator_map_t \<Rightarrow> bool" where
  "values_small m \<longleftrightarrow> list_all (\<lambda>p. length (snd p) < 2 ^ 31) m"

lemma next_set_loop_correct:
  assumes "values_small it" and "pos \<le> bsize" and "bsize \<le> length buf"
  shows "\<exists>n buf' full. next_set_loop h bsize it buf pos c =
      Some (buf', pos + length (it_bytes h (take n (it_block h it))), c + n, full)
    \<and> length buf' = length buf
    \<and> take (pos + length (it_bytes h (take n (it_block h it)))) buf' =
        take pos buf @ it_bytes h (take n (it_block h it))
    \<and> pos + length (it_bytes h (take n (it_block h it))) \<le> bsize
    \<and> n \<le> length (it_block h it)
    \<and> (case full of
         None \<Rightarrow> n = length (it_block h it)
       | Some k \<Rightarrow> n < length (it_block h it) \<and> k = fst (it_block h it ! n)
           \<and> bsize < pos + length (it_bytes h (take (Suc n) (it_block h it))))"
  using assms
proof (induction it arbitrary: buf pos c)
  case Nil
  then show ?case by (simp add: it_block_def)
next
  case (Cons p it)
  let ?d = "length (it_entry h p)"
  show ?case
  proof (cases "it_matches h (fst p)")
    case False
    then show ?thesis using Cons.prems by (simp add: it_block_def)
  next
    case m: True
    then have blk: "it_block h (p # it) = p # it_block h it" by (simp add: it_block_def)
    have vs: "length (snd p) < 2 ^ 31" "values_small it" using Cons.prems by (auto simp: values_small_def)
    show ?thesis
    proof (cases "pos + ?d > bsize")
      case True
      then have "next_set_loop h bsize (p # it) buf pos c = Some (buf, pos, c, Some (fst p))"
        using m vs by (simp add: length_it_entry Let_def)
      moreover have "pos + length (it_bytes h (take 0 (it_block h (p # it)))) = pos" by simp
      ultimately show ?thesis using True Cons.prems(2) blk
        by (intro exI [of _ 0] exI [of _ buf] exI [of _ "Some (fst p)"]) simp
    next
      case False
      let ?buf = "mem_write buf pos (it_entry h p)"
      have l: "length ?buf = length buf" using False Cons.prems by simp
      have "\<exists>n buf' full. next_set_loop h bsize it ?buf (pos + ?d) (c + 1) =
          Some (buf', (pos + ?d) + length (it_bytes h (take n (it_block h it))), (c + 1) + n, full)
        \<and> length buf' = length ?buf
        \<and> take ((pos + ?d) + length (it_bytes h (take n (it_block h it)))) buf' =
            take (pos + ?d) ?buf @ it_bytes h (take n (it_block h it))
        \<and> (pos + ?d) + length (it_bytes h (take n (it_block h it))) \<le> bsize
        \<and> n \<le> length (it_block h it)
        \<and> (case full of
             None \<Rightarrow> n = length (it_block h it)
           | Some k \<Rightarrow> n < length (it_block h it) \<and> k = fst (it_block h it ! n)
               \<and> bsize < (pos + ?d) + length (it_bytes h (take (Suc n) (it_block h it))))"
        using False Cons.prems vs l by (intro Cons.IH) simp_all
      then obtain n buf' full where IH:
        "next_set_loop h bsize it ?buf (pos + ?d) (c + 1) =
          Some (buf', (pos + ?d) + length (it_bytes h (take n (it_block h it))), (c + 1) + n, full)"
        "length buf' = length ?buf"
        "take ((pos + ?d) + length (it_bytes h (take n (it_block h it)))) buf' =
            take (pos + ?d) ?buf @ it_bytes h (take n (it_block h it))"
        "(pos + ?d) + length (it_bytes h (take n (it_block h it))) \<le> bsize"
        "n \<le> length (it_block h it)"
        "case full of
             None \<Rightarrow> n = length (it_block h it)
           | Some k \<Rightarrow> n < length (it_block h it) \<and> k = fst (it_block h it ! n)
               \<and> bsize < (pos + ?d) + length (it_bytes h (take (Suc n) (it_block h it)))"
        by blast
      have step: "next_set_loop h bsize (p # it) buf pos c =
          next_set_loop h bsize it ?buf (pos + ?d) (c + 1)"
        using m vs False Cons.prems by (simp add: length_it_entry Let_def)
      have tk: "take (pos + ?d) ?buf = take pos buf @ it_entry h p"
        using Cons.prems by simp
      show ?thesis
        using IH l by (intro exI [of _ "Suc n"] exI [of _ buf'] exI [of _ full])
          (simp add: step blk tk add.assoc del: next_set_loop.simps split: option.splits)
    qed
  qed
qed

lemma drop_takeWhile: "n \<le> length (takeWhile P xs) \<Longrightarrow> drop n (takeWhile P xs) = takeWhile P (drop n xs)"
  by (induction xs arbitrary: n) (auto simp: drop_Cons' split: if_splits)

lemma it_block_drop: "n \<le> length (it_block h it) \<Longrightarrow> drop n (it_block h it) = it_block h (drop n it)"
  by (simp add: it_block_def drop_takeWhile)

lemma it_block_nth: "n < length (it_block h it) \<Longrightarrow> it_block h it ! n = it ! n"
  by (simp add: it_block_def takeWhile_nth)

lemma length_it_block: "length (it_block h it) \<le> length it"
  by (simp add: it_block_def length_takeWhile_le)

text \<open>The updates of the object that \<open>kv_iterator_next_set\<close> makes.\<close>

lemma set_iterator_inv:
  assumes "it_inv e" and "find_iterator e hid = Some h" and "handle_ok h'"
  shows "it_inv (set_iterator hid h' e)" and "find_iterator (set_iterator hid h' e) hid = Some h'"
proof -
  let ?its = "std_assign (<) (int (unat hid)) h' (m_it_map e)"
  have ids: "it_ids_ok (m_it_map e)" using assms(1) by (simp add: it_inv_def)
  have ord: "std_ordered (<) (\<lambda>_. True) (m_it_map e)" using ids by (simp add: it_ids_ok_def)
  have f: "map_of (m_it_map e) (int (unat hid)) = Some h"
    using assms(1,2) by (simp add: find_iterator_map_of)
  have m: "map_of ?its = (map_of (m_it_map e))(int (unat hid) \<mapsto> h')"
    using it_ids.map_of_assign [OF ord _ f] by simp
  have dom: "fst ` set ?its = fst ` set (m_it_map e)"
    unfolding dom_map_of_conv_image_fst [symmetric] m using f by auto
  have "1 \<le> fst p \<and> fst p \<le> 16 \<and> handle_ok (snd p)" if "p \<in> set ?its" for p
  proof -
    have "fst p \<in> fst ` set (m_it_map e)" using that dom by blast
    moreover have "handle_ok (snd p)"
      using that std_assign_set [of "(<)" "int (unat hid)" h' "m_it_map e"] ids assms(3)
      by (auto simp: it_ids_ok_def list_all_iff)
    ultimately show ?thesis using ids by (auto simp: it_ids_ok_def list_all_iff)
  qed
  then have "it_ids_ok ?its" using ord by (simp add: it_ids_ok_def it_ids.ordered_assign list_all_iff)
  then show inv: "it_inv (set_iterator hid h' e)"
    using assms(1) by (simp add: it_inv_def set_iterator_def dom)
  show "find_iterator (set_iterator hid h' e) hid = Some h'"
    using find_iterator_map_of [OF inv] by (simp add: set_iterator_def m)
qed

lemma set_iterator_frame [simp]:
  "m_map (set_iterator hid h e) = m_map e" "m_capacity (set_iterator hid h e) = m_capacity e"
  "ks_map (set_iterator hid h e) = ks_map e" "emul_inv (set_iterator hid h e) = emul_inv e"
  by (auto simp: set_iterator_def ks_map_def emul_inv_def)

lemma set_ks_map_frame [simp]:
  "it_inv (set_ks_map ks m e) = it_inv e"
  "find_iterator (set_ks_map ks m e) = find_iterator e"
  "m_iterator_list (set_ks_map ks m e) = m_iterator_list e"
  by (auto simp: set_ks_map_def it_inv_def find_iterator_def)

lemma ks_map_set: "unat ks < length (m_map e) \<Longrightarrow> ks_map (set_ks_map ks m e) ks = m"
  by (simp add: ks_map_def set_ks_map_def)

lemma set_is_eof_correct:
  assumes "it_inv e" and "find_iterator e hid = Some h"
  shows "\<exists>e'. set_is_eof hid v e = Some e' \<and> it_inv e' \<and> m_map e' = m_map e
    \<and> m_it_map e' = m_it_map e \<and> m_capacity e' = m_capacity e"
proof -
  have "1 \<le> unat hid" "unat hid \<le> 16"
    using assms it_ids_handle(2,3) [of "m_it_map e" "int (unat hid)" h]
    by (auto simp: find_iterator_map_of it_inv_def)
  then show ?thesis
    using assms(1) by (auto simp: set_is_eof_def it_inv_def Let_def nth_list_update)
qed

lemma frame_m_map:
  "m_map e' = m_map e \<Longrightarrow> ks_map e' = ks_map e" "m_map e' = m_map e \<Longrightarrow> emul_inv e' = emul_inv e"
  "m_it_map e' = m_it_map e \<Longrightarrow> find_iterator e' = find_iterator e"
  by (auto simp: ks_map_def emul_inv_def find_iterator_def)

lemma save_position_correct:
  assumes "handle_ok h" and "emul_key_valid k"
  shows "\<exists>h'. save_position k h = Some h' \<and> handle_ok h' \<and> it_position h' = k
    \<and> ih_it_cond h' = ih_it_cond h \<and> ih_it_op h' = ih_it_op h \<and> ih_ksid h' = ih_ksid h
    \<and> has_fixed_keylen h' = has_fixed_keylen h"
  using assms take_mem_write_end [of 0 "current_key h" k]
  by (simp add: save_position_def handle_ok_def emul_key_valid_def it_position_def)

text \<open>Two handles of the same iteration differ in their position only.\<close>

definition same_iteration :: "kv_iterator_handle_t \<Rightarrow> kv_iterator_handle_t \<Rightarrow> bool" where
  "same_iteration h h' \<longleftrightarrow> ih_it_cond h' = ih_it_cond h \<and> ih_it_op h' = ih_it_op h
     \<and> ih_ksid h' = ih_ksid h \<and> has_fixed_keylen h' = has_fixed_keylen h"

lemma same_iteration_refl [simp]: "same_iteration h h"
  by (simp add: same_iteration_def)

lemma same_iteration_eqs:
  assumes "same_iteration h h'"
  shows "it_bytes h' = it_bytes h" and "it_block h' = it_block h"
    and "it_delete_value h' = it_delete_value h" and "it_entry h' = it_entry h"
proof -
  show e: "it_entry h' = it_entry h"
    using assms by (auto simp: same_iteration_def it_entry_def it_include_value_def fun_eq_iff)
  show "it_bytes h' = it_bytes h" by (simp add: it_bytes_def e fun_eq_iff)
  show "it_block h' = it_block h" "it_delete_value h' = it_delete_value h"
    using assms by (auto simp: same_iteration_def it_block_def it_matches_def it_delete_value_def fun_eq_iff)
qed

text \<open>The map after \<open>n\<close> pairs were returned: without them when the iterator deletes.\<close>

definition after_return :: "kv_iterator_handle_t \<Rightarrow> nat \<Rightarrow> emulator_map_t \<Rightarrow> emulator_map_t" where
  "after_return h n m =
     (if it_delete_value h
      then std_before CmpEmulPrefix (it_position h) m @
           drop n (std_lower_bound CmpEmulPrefix (it_position h) m)
      else m)"

lemma after_return_ok: "emul_map_ok m \<Longrightarrow> emul_map_ok (after_return h n m)"
proof -
  let ?b = "std_before CmpEmulPrefix (it_position h) m"
  let ?s = "std_lower_bound CmpEmulPrefix (it_position h) m"
  assume "emul_map_ok m"
  then have "emul_map_ok (?b @ take n ?s @ drop n ?s)" by (simp add: std_split)
  then have "emul_map_ok (?b @ drop n ?s)"
    unfolding emul_map_ok_def std_ordered_append list_all_append set_append by blast
  with \<open>emul_map_ok m\<close> show ?thesis by (simp add: after_return_def)
qed

text \<open>A handle positioned at the first pair not returned continues with the rest.\<close>

lemma remaining_after:
  assumes "emul_map_ok m" and "n < length (it_remaining h m)" and "same_iteration h h'"
    and "it_position h' = fst (it_remaining h m ! n)"
  shows "it_remaining h' (after_return h n m) = drop n (it_remaining h m)"
proof -
  define b where "b = std_before CmpEmulPrefix (it_position h) m"
  define s where "s = std_lower_bound CmpEmulPrefix (it_position h) m"
  have m: "m = b @ s" by (simp add: b_def s_def std_split)
  have R: "it_remaining h m = it_block h s" by (simp add: it_remaining_def s_def)
  have n: "n < length s" using assms(2) R length_it_block [of h s] by simp
  have pos: "it_position h' = fst (s ! n)" using assms(2,4) by (simp add: R it_block_nth)
  have d: "drop n s = s ! n # drop (Suc n) s" using n by (simp add: Cons_nth_drop_Suc)
  define m' where "m' = after_return h n m"
  have "m' = (if it_delete_value h then b else b @ take n s) @ s ! n # drop (Suc n) s"
    by (auto simp: m'_def after_return_def b_def [symmetric] s_def [symmetric] d [symmetric])
      (simp add: m)
  moreover have "std_ordered CmpEmulPrefix emul_key_valid m'"
    using after_return_ok [OF assms(1), of h n] by (simp add: m'_def emul_map_ok_def)
  ultimately have "std_lower_bound CmpEmulPrefix (it_position h') m' = drop n s"
    using emul_keys.lower_bound_split(1) [of _ "s ! n" "drop (Suc n) s"] by (simp add: pos d)
  moreover have "n \<le> length (it_block h s)" using assms(2) by (simp add: R)
  ultimately show ?thesis
    unfolding m'_def [symmetric] R
    by (simp add: it_remaining_def same_iteration_eqs [OF assms(3)] it_block_drop)
qed

lemma it_remaining_subset: "set (it_remaining h m) \<subseteq> set m"
  using set_takeWhileD std_split [of CmpEmulPrefix "it_position h" m]
  by (fastforce simp: it_remaining_def it_block_def dest: set_dropWhileD simp: std_lower_bound_def)

lemma values_small_lower: "values_small m \<Longrightarrow> values_small (std_lower_bound lt k m)"
  by (auto simp: values_small_def list_all_iff std_lower_bound_def dest: set_dropWhileD)

lemma next_set_correct:
  assumes inv: "emul_inv e" "it_inv e" and f: "find_iterator e hid = Some h"
    and vs: "values_small (ks_map e (ih_ksid h))" and sz: "unat (list_size l) \<le> length (it_list l)"
  defines "m \<equiv> ks_map e (ih_ksid h)"
  defines "R \<equiv> it_remaining h m"
  shows "\<exists>n l' e' h'. kv_iterator_next_set hid (Some l) e = Some (KV_SUCCESS, Some l', e')
    \<and> n \<le> length R \<and> num_entries l' = word_of_nat n
    \<and> take (unat (list_size l')) (it_list l') = it_bytes h (take n R)
    \<and> list_end l' = (n = length R) \<and> unat (list_size l') \<le> unat (list_size l)
    \<and> (n < length R \<longrightarrow> unat (list_size l) < length (it_bytes h (take (Suc n) R)))
    \<and> emul_inv e' \<and> it_inv e' \<and> m_map e' = (m_map e)[unat (ih_ksid h) := after_return h n m]
    \<and> find_iterator e' hid = Some h' \<and> same_iteration h h'
    \<and> (n < length R \<longrightarrow> it_remaining h' (after_return h n m) = drop n R)"
proof -
  let ?s = "std_lower_bound CmpEmulPrefix (it_position h) m" and ?N = "unat (list_size l)"
  have mem: "map_of (m_it_map e) (int (unat hid)) = Some h"
    using inv(2) f by (simp add: find_iterator_map_of)
  then have h: "handle_ok h" and hid: "1 \<le> unat hid"
    using it_ids_handle(1,2) [of "m_it_map e" "int (unat hid)" h] inv(2) by (auto simp: it_inv_def)
  have ks: "\<not> ks_id_invalid (ih_ksid h)" using h by (simp add: handle_ok_def)
  have idx: "unat (ih_ksid h) < length (m_map e)" using emul_inv_index [OF inv(1) ks] .
  have mok: "emul_map_ok m" unfolding m_def using inv(1) ks by (rule emul_inv_map)
  have "4 \<le> length (it_position h)" using h by (simp add: handle_ok_def it_position_def)
  with mok have cmp: "cmp_in_bounds (it_position h) m" by (rule emul_map_ok_cmp)
  have vs': "values_small ?s" using vs unfolding m_def by (rule values_small_lower)
  have R: "R = it_block h ?s" by (simp add: R_def it_remaining_def)
  from next_set_loop_correct [OF vs' le0 sz, of h 0, folded R] obtain n buf full where L:
    "next_set_loop h ?N ?s (it_list l) 0 0 = Some (buf, 0 + length (it_bytes h (take n R)), 0 + n, full)"
    "take (0 + length (it_bytes h (take n R))) buf = take 0 (it_list l) @ it_bytes h (take n R)"
    "0 + length (it_bytes h (take n R)) \<le> ?N" "n \<le> length R"
    "case full of None \<Rightarrow> n = length R
     | Some k \<Rightarrow> n < length R \<and> k = fst (R ! n) \<and> ?N < 0 + length (it_bytes h (take (Suc n) R))"
    by blast
  have "\<exists>h'. (case full of None \<Rightarrow> Some h | Some k \<Rightarrow> save_position k h) = Some h' \<and> handle_ok h'
    \<and> same_iteration h h' \<and> (\<forall>k. full = Some k \<longrightarrow> it_position h' = k)"
  proof (cases full)
    case None
    with h show ?thesis by simp
  next
    case (Some k)
    with L(5) have "n < length R" "k = fst (R ! n)" by auto
    then have "R ! n \<in> set m" using it_remaining_subset [of h m] unfolding R_def
      by (meson nth_mem subsetD)
    then have "k \<in> fst ` set m" using \<open>k = fst (R ! n)\<close> by simp
    then have "emul_key_valid k"
      using mok by (auto simp: emul_map_ok_def dest: emul_keys.ordered_valid)
    from save_position_correct [OF h this] Some show ?thesis by (auto simp: same_iteration_def)
  qed
  then obtain h' where h': "(case full of None \<Rightarrow> Some h | Some k \<Rightarrow> save_position k h) = Some h'"
    "handle_ok h'" "same_iteration h h'" "\<And>k. full = Some k \<Longrightarrow> it_position h' = k" by blast
  define e1 where "e1 = set_ks_map (ih_ksid h) (after_return h n m) (set_iterator hid h' e)"
  have e1: "it_inv e1" "find_iterator e1 hid = Some h'" "emul_inv e1"
    "m_map e1 = (m_map e)[unat (ih_ksid h) := after_return h n m]"
    using set_iterator_inv [OF inv(2) f h'(2)] set_ks_map_inv after_return_ok [OF mok] inv(1)
    by (simp_all add: e1_def) (simp add: set_ks_map_def set_iterator_def)
  obtain e' where e': "set_is_eof hid (if full \<noteq> None then 0 else 1) e1 = Some e'" "it_inv e'"
    "m_map e' = m_map e1" "m_it_map e' = m_it_map e1"
    using set_is_eof_correct [OF e1(1,2)] by blast
  define l' where "l' = \<lparr>num_entries = word_of_nat n, list_end = (full = None),
    list_size = word_of_nat (length (it_bytes h (take n R))), it_list = buf\<rparr>"
  have un: "unat (list_size l') = length (it_bytes h (take n R))"
    using L(3) unat_u32_less [of "list_size l"] by (simp add: l'_def unat_of_nat)
  have hid0: "hid \<noteq> 0" using hid by auto
  have run: "kv_iterator_next_set hid (Some l) e = Some (KV_SUCCESS, Some l', e')"
    using hid0 f idx cmp L(1) h'(1) e'(1)
    by (simp add: kv_iterator_next_set_def m_def [symmetric] Let_def l'_def e1_def after_return_def
        del: not_None_eq)
  show ?thesis
    using L e' e1 h' un run frame_m_map [of e' e1] remaining_after [OF mok _ h'(3), of n]
    by (intro exI [of _ n] exI [of _ l'] exI [of _ e'] exI [of _ h'])
      (auto simp: l'_def R_def split: option.splits)
qed

end
