(* ===== verification/Kv_Iteration.thy ===== *)
theory Kv_Iteration
  imports Kv_Iterator
begin

text \<open>
  What a client gets from a whole iteration over the emulator
  (\<open>PDK/core/src/device_abstract_layer/emulator/src/kv_emulator.cpp\<close>): it opens an iterator
  and calls \<open>kv_iterator_next_set\<close> until the list comes back with its end flag. When the
  bitmask selects the high-order bits of the prefix integer, which includes the empty and
  the full mask, the iteration ends and returns every matching pair exactly once, in key
  order. For other masks the matching keys are not contiguous in that order and the
  iteration stops at the first key that does not match.
\<close>

section \<open>The client's loop\<close>

fun iterate :: "nat \<Rightarrow> u8 \<Rightarrow> kv_iterator_list \<Rightarrow> kv_emulator \<Rightarrow> (byte list \<times> kv_emulator) option" where
  "iterate 0 hid l e = None"
| "iterate (Suc n) hid l e =
     do { (r, lo, e') \<leftarrow> kv_iterator_next_set hid (Some l) e;
          l' \<leftarrow> lo;
          let out = take (unat (list_size l')) (it_list l');
          if list_end l' then Some (out, e')
          else do { (rest, e'') \<leftarrow> iterate n hid l e'; Some (out @ rest, e'') } }"

lemma distinct_map_ok: "emul_map_ok m \<Longrightarrow> distinct m"
  using emul_keys.ordered_distinct [of m] by (simp add: emul_map_ok_def distinct_map)

lemma after_return_filter:
  assumes "emul_map_ok m" and "n \<le> length (it_remaining h m)"
  shows "after_return h n m =
    (if it_delete_value h then filter (\<lambda>p. p \<notin> set (take n (it_remaining h m))) m else m)"
proof -
  define b where "b = std_before CmpEmulPrefix (it_position h) m"
  define s where "s = std_lower_bound CmpEmulPrefix (it_position h) m"
  have m: "m = b @ take n s @ drop n s" by (simp add: b_def s_def std_split)
  have d: "distinct (b @ take n s @ drop n s)" using distinct_map_ok [OF assms(1)] m by metis
  have tw: "it_remaining h m = take (length (it_remaining h m)) s"
    using takeWhile_eq_take [of "\<lambda>p. it_matches h (fst p)" s]
    by (simp add: it_remaining_def it_block_def s_def)
  have "take n (it_remaining h m) = take n s" by (subst tw) (simp add: assms(2) min_absorb1)
  moreover have "filter (\<lambda>p. p \<notin> set (take n s)) m = b @ drop n s"
  proof -
    have "filter (\<lambda>p. p \<notin> set (take n s)) b = b" "filter (\<lambda>p. p \<notin> set (take n s)) (drop n s) = drop n s"
      using d unfolding filter_id_conv distinct_append set_append by blast+
    moreover have "filter (\<lambda>p. p \<notin> set (take n s)) (take n s) = []" by (simp add: filter_empty_conv)
    moreover have "filter (\<lambda>p. p \<notin> set (take n s)) m =
        filter (\<lambda>p. p \<notin> set (take n s)) (b @ take n s @ drop n s)" using m by simp
    ultimately show ?thesis by (simp only: filter_append append_Nil)
  qed
  ultimately show ?thesis by (simp add: after_return_def b_def s_def)
qed

lemma values_small_filter: "values_small m \<Longrightarrow> values_small (filter P m)"
  by (auto simp: values_small_def list_all_iff)

lemma iterate_correct:
  assumes "emul_inv e" and "it_inv e" and "find_iterator e hid = Some h"
    and "values_small (ks_map e (ih_ksid h))" and "unat (list_size l) \<le> length (it_list l)"
    and "\<forall>p \<in> set (it_remaining h (ks_map e (ih_ksid h))). length (it_entry h p) \<le> unat (list_size l)"
    and "length (it_remaining h (ks_map e (ih_ksid h))) < n"
  shows "\<exists>e'. iterate n hid l e = Some (it_bytes h (it_remaining h (ks_map e (ih_ksid h))), e')
    \<and> emul_inv e' \<and> it_inv e'
    \<and> ks_map e' (ih_ksid h) = (if it_delete_value h
        then filter (\<lambda>p. p \<notin> set (it_remaining h (ks_map e (ih_ksid h)))) (ks_map e (ih_ksid h))
        else ks_map e (ih_ksid h))"
  using assms
proof (induction n arbitrary: e h)
  case 0
  then show ?case by simp
next
  case (Suc n)
  let ?ks = "ih_ksid h"
  define m where "m = ks_map e ?ks"
  define R where "R = it_remaining h m"
  from next_set_correct [OF Suc.prems(1-5), folded m_def, folded R_def] obtain c l' e' h' where S:
    "kv_iterator_next_set hid (Some l) e = Some (KV_SUCCESS, Some l', e')"
    "c \<le> length R" "take (unat (list_size l')) (it_list l') = it_bytes h (take c R)"
    "list_end l' = (c = length R)"
    "c < length R \<longrightarrow> unat (list_size l) < length (it_bytes h (take (Suc c) R))"
    "emul_inv e'" "it_inv e'" "m_map e' = (m_map e)[unat ?ks := after_return h c m]"
    "find_iterator e' hid = Some h'" "same_iteration h h'"
    "c < length R \<longrightarrow> it_remaining h' (after_return h c m) = drop c R" by blast
  have "handle_ok h" using Suc.prems(2,3) it_ids_handle(1) [of "m_it_map e"]
    by (simp add: find_iterator_map_of it_inv_def)
  then have ks: "\<not> ks_id_invalid ?ks" by (simp add: handle_ok_def)
  have mok: "emul_map_ok m" unfolding m_def by (rule emul_inv_map [OF Suc.prems(1) ks])
  have ksm: "ks_map e' ?ks = after_return h c m"
    using emul_inv_index [OF Suc.prems(1) ks] by (simp add: ks_map_def S(8))
  have ar: "after_return h c m = (if it_delete_value h then filter (\<lambda>p. p \<notin> set (take c R)) m else m)"
    using after_return_filter [OF mok] S(2) by (simp add: R_def)
  show ?case
  proof (cases "c = length R")
    case True
    with S ksm ar show ?thesis by (simp add: m_def [symmetric] R_def [symmetric])
  next
    case False
    with S(2) have c: "c < length R" by simp
    note eqs = same_iteration_eqs [OF S(10)]
    have ih: "ih_ksid h' = ?ks" using S(10) by (simp add: same_iteration_def)
    have rem: "it_remaining h' (ks_map e' (ih_ksid h')) = drop c R"
      using S(11) c by (simp add: ih ksm)
    have fit: "\<forall>p \<in> set R. length (it_entry h p) \<le> unat (list_size l)"
      using Suc.prems(6) by (simp add: m_def R_def)
    have "0 < c"
    proof (rule ccontr)
      assume "\<not> 0 < c"
      with S(5) c have "unat (list_size l) < length (it_entry h (R ! 0))" by (cases R) auto
      moreover have "R ! 0 \<in> set R" using c by (cases R) auto
      ultimately show False using fit by fastforce
    qed
    then have len: "length (drop c R) < n" using Suc.prems(7) c by (simp add: m_def R_def)
    have vs: "values_small (ks_map e' (ih_ksid h'))"
      using Suc.prems(4) unfolding m_def [symmetric] ih ksm ar by (simp add: values_small_filter)
    have fit': "\<forall>p \<in> set (it_remaining h' (ks_map e' (ih_ksid h'))).
        length (it_entry h' p) \<le> unat (list_size l)"
      using fit unfolding rem eqs by (meson in_set_dropD)
    obtain e'' where E: "iterate n hid l e' = Some (it_bytes h (drop c R), e'')" "emul_inv e''" "it_inv e''"
      "ks_map e'' ?ks = (if it_delete_value h
         then filter (\<lambda>p. p \<notin> set (drop c R)) (ks_map e' ?ks) else ks_map e' ?ks)"
      using Suc.IH [OF S(6,7,9) vs Suc.prems(5) fit'] len unfolding rem unfolding ih eqs by blast
    have "it_bytes h (take c R) @ it_bytes h (drop c R) = it_bytes h R"
      by (metis append_take_drop_id it_bytes_simps(3))
    moreover have "set (take c R) \<union> set (drop c R) = set R"
      by (metis append_take_drop_id set_append)
    then have "filter (\<lambda>p. p \<notin> set (drop c R)) (filter (\<lambda>p. p \<notin> set (take c R)) m) =
        filter (\<lambda>p. p \<notin> set R) m"
      unfolding filter_filter by (intro filter_cong) auto
    ultimately show ?thesis
      using S(1,3,4) False E ksm ar by (simp add: m_def [symmetric] R_def [symmetric])
  qed
qed

section \<open>Masks that select a contiguous block\<close>

text \<open>A mask of the 32 - \<open>j\<close> high-order bits compares the prefixes divided by \<open>2 ^ j\<close>.\<close>

definition high_mask :: "nat \<Rightarrow> u32" where
  "high_mask j = push_bit j (- 1)"

lemma and_high_mask: "x AND high_mask j = push_bit j (drop_bit j x)"
  by (rule bit_word_eqI) (auto simp: high_mask_def bit_simps)

lemma drop_bit_high: "drop_bit j (x AND high_mask j) = drop_bit j (x :: u32)"
  by (rule bit_word_eqI) (auto simp: high_mask_def bit_simps dest: bit_imp_le_length)

lemma high_mask_eq: "x AND high_mask j = y AND high_mask j \<longleftrightarrow> drop_bit j x = drop_bit j (y :: u32)"
  by (metis drop_bit_high and_high_mask)

lemma drop_bit_mono: "x \<le> y \<Longrightarrow> drop_bit j x \<le> drop_bit j (y :: u32)"
  unfolding word_le_nat_alt unat_drop_bit_eq by (simp add: drop_bit_eq_div div_le_mono)

lemma high_mask_convex:
  assumes "p AND high_mask j \<le> x" and "x \<le> y" and "y AND high_mask j = p AND high_mask j"
  shows "x AND high_mask j = p AND high_mask j"
proof -
  have "drop_bit j p \<le> drop_bit j x" using drop_bit_mono [OF assms(1), of j] unfolding drop_bit_high .
  moreover have "drop_bit j x \<le> drop_bit j p"
    using drop_bit_mono [OF assms(2), of j] assms(3) by (simp add: high_mask_eq)
  ultimately show ?thesis by (simp add: high_mask_eq)
qed

lemma takeWhile_filter_sorted:
  assumes "sorted_wrt r xs" and "\<And>x y. x \<in> set xs \<Longrightarrow> y \<in> set xs \<Longrightarrow> r x y \<Longrightarrow> P y \<Longrightarrow> P x"
  shows "takeWhile P xs = filter P xs"
  using assms
proof (induction xs)
  case (Cons x xs)
  show ?case
  proof (cases "P x")
    case True
    with Cons show ?thesis by auto
  next
    case False
    then have "filter P xs = []" using Cons.prems by (auto simp: filter_empty_conv)
    with False show ?thesis by simp
  qed
qed simp

text \<open>A fresh iterator with such a mask has all matching pairs before it.\<close>

lemma new_handle_fields [simp]:
  "ih_ksid (new_iterator_handle ks opt cond fixed) = ks"
  "ih_it_op (new_iterator_handle ks opt cond fixed) = opt"
  "ih_it_cond (new_iterator_handle ks opt cond fixed) = cond"
  "has_fixed_keylen (new_iterator_handle ks opt cond fixed) = fixed"
  "ih_end (new_iterator_handle ks opt cond fixed) = False"
  "it_position (new_iterator_handle ks opt cond fixed) =
     u32_bytes (gc_bit_pattern cond AND gc_bitmask cond)"
  using take_mem_write_end [of 0 "replicate 255 0" "u32_bytes (gc_bit_pattern cond AND gc_bitmask cond)"]
  by (simp_all add: new_iterator_handle_def Let_def it_position_def)

lemma it_remaining_new:
  assumes "emul_map_ok m" and "gc_bitmask cond = high_mask j"
  shows "it_remaining (new_iterator_handle ks opt cond fixed) m =
    filter (\<lambda>p. read_u32 (fst p) AND gc_bitmask cond = gc_bit_pattern cond AND gc_bitmask cond) m"
proof -
  let ?h = "new_iterator_handle ks opt cond fixed"
  define q where "q = gc_bit_pattern cond AND gc_bitmask cond"
  let ?P = "\<lambda>p :: byte list \<times> byte list. read_u32 (fst p) AND gc_bitmask cond = q"
  have ord: "std_ordered CmpEmulPrefix emul_key_valid m" using assms(1) by (simp add: emul_map_ok_def)
  have len: "4 \<le> length (fst p)" if "p \<in> set m" for p
    using emul_keys.ordered_valid [OF ord that] by (simp add: emul_key_valid_def)
  have rd: "read_u32 (u32_bytes q) = q" using read_u32_u32_bytes [of q "[]"] by simp
  have "emul_key_valid (u32_bytes q)" by (simp add: emul_key_valid_def)
  with ord have "std_lower_bound CmpEmulPrefix (u32_bytes q) m =
      filter (\<lambda>p. \<not> CmpEmulPrefix (fst p) (u32_bytes q)) m"
    by (rule emul_keys.lower_bound_filter)
  also have "\<dots> = filter (\<lambda>p. q \<le> read_u32 (fst p)) m"
    using len by (intro filter_cong) (auto simp: CmpEmulPrefix_four rd)
  finally have lb: "std_lower_bound CmpEmulPrefix (u32_bytes q) m = filter (\<lambda>p. q \<le> read_u32 (fst p)) m" .
  have mt: "it_matches ?h (fst p) \<longleftrightarrow> ?P p" for p by (auto simp: it_matches_def q_def)
  have "sorted_wrt (\<lambda>p p'. CmpEmulPrefix (fst p) (fst p')) m"
    using ord by (simp add: std_ordered_def sorted_wrt_map)
  then have srt: "sorted_wrt (\<lambda>p p'. read_u32 (fst p) \<le> read_u32 (fst p')) m"
    by (rule sorted_wrt_mono_rel [rotated]) (rule CmpEmulPrefix_prefix)
  have "takeWhile ?P (filter (\<lambda>p. q \<le> read_u32 (fst p)) m) =
      filter ?P (filter (\<lambda>p. q \<le> read_u32 (fst p)) m)"
  proof (rule takeWhile_filter_sorted)
    show "sorted_wrt (\<lambda>p p'. read_u32 (fst p) \<le> read_u32 (fst p')) (filter (\<lambda>p. q \<le> read_u32 (fst p)) m)"
      using srt by (rule sorted_wrt_filter)
    fix x y
    assume "x \<in> set (filter (\<lambda>p. q \<le> read_u32 (fst p)) m)"
      "read_u32 (fst x) \<le> read_u32 (fst y)" "?P y"
    then show "?P x" using high_mask_convex [of "gc_bit_pattern cond" j] assms(2) by (auto simp: q_def)
  qed
  also have "\<dots> = filter ?P m"
  proof -
    have "q \<le> read_u32 (fst p)" if "?P p" for p
      using word_and_le2 [of "read_u32 (fst p)" "gc_bitmask cond"] that by simp
    then show ?thesis unfolding filter_filter by (intro filter_cong) auto
  qed
  finally show ?thesis
    unfolding it_remaining_def it_block_def new_handle_fields mt q_def [symmetric] lb .
qed

section \<open>Group delete\<close>

text \<open>The pairs \<open>kv_delete_group\<close> removes: a run that starts at the masked pattern.\<close>

definition group_hit :: "kv_group_condition \<Rightarrow> byte list \<Rightarrow> bool" where
  "group_hit cond k \<longleftrightarrow>
     (read_u32 k AND gc_bitmask cond) AND gc_bit_pattern cond = gc_bitmask cond AND gc_bit_pattern cond"

definition group_start :: "kv_group_condition \<Rightarrow> byte list" where
  "group_start cond = u32_bytes (gc_bitmask cond AND gc_bit_pattern cond)"

definition group_block :: "kv_group_condition \<Rightarrow> emulator_map_t \<Rightarrow> emulator_map_t" where
  "group_block cond m =
     takeWhile (\<lambda>p. group_hit cond (fst p)) (std_lower_bound CmpEmulPrefix (group_start cond) m)"

definition pair_size :: "byte list \<times> byte list \<Rightarrow> nat" where
  "pair_size p = length (fst p) + length (snd p)"

lemma delete_group_loop_eq:
  "delete_group_loop cond it a =
    (dropWhile (\<lambda>p. group_hit cond (fst p)) it,
     a + word_of_nat (sum_list (map pair_size (takeWhile (\<lambda>p. group_hit cond (fst p)) it))))"
  by (induction it arbitrary: a) (auto simp: group_hit_def pair_size_def)

lemma group_start_valid: "emul_key_valid (group_start cond)"
  by (simp add: group_start_def emul_key_valid_def)

lemma kv_delete_group_correct:
  assumes "emul_inv e" and "\<not> ks_id_invalid ks"
  shows "\<exists>e'. kv_delete_group ks cond e = Some (KV_SUCCESS, e') \<and> emul_inv e'
    \<and> m_map e' = (m_map e)[unat ks :=
        filter (\<lambda>p. p \<notin> set (group_block cond (ks_map e ks))) (ks_map e ks)]
    \<and> m_available e' = m_available e +
        word_of_nat (sum_list (map pair_size (group_block cond (ks_map e ks))))"
proof -
  define m where "m = ks_map e ks"
  have mok: "emul_map_ok m" unfolding m_def by (rule emul_inv_map [OF assms])
  define b s where "b = std_before CmpEmulPrefix (group_start cond) m"
    and "s = std_lower_bound CmpEmulPrefix (group_start cond) m"
  let ?P = "\<lambda>p :: byte list \<times> byte list. group_hit cond (fst p)"
  have m: "m = b @ takeWhile ?P s @ dropWhile ?P s" by (simp add: b_def s_def std_split)
  have g: "group_block cond m = takeWhile ?P s" by (simp add: group_block_def s_def)
  have d: "distinct (b @ takeWhile ?P s @ dropWhile ?P s)" using distinct_map_ok [OF mok] m by metis
  have rest: "b @ dropWhile ?P s = filter (\<lambda>p. p \<notin> set (takeWhile ?P s)) m"
  proof -
    let ?Q = "\<lambda>p. p \<notin> set (takeWhile ?P s)"
    have "filter ?Q b = b" "filter ?Q (dropWhile ?P s) = dropWhile ?P s"
      using d unfolding filter_id_conv distinct_append set_append by blast+
    moreover have "filter ?Q (takeWhile ?P s) = []" by (simp add: filter_empty_conv)
    moreover have "filter ?Q m = filter ?Q (b @ takeWhile ?P s @ dropWhile ?P s)" using m by simp
    ultimately show ?thesis by (simp only: filter_append append_Nil)
  qed
  have "emul_map_ok (filter (\<lambda>p. p \<notin> set (takeWhile ?P s)) m)"
    using mok by (auto simp: emul_map_ok_def std_ordered_filter list_all_iff)
  then have inv: "emul_inv (set_ks_map ks (b @ dropWhile ?P s) e)"
    unfolding rest using assms(1) by (intro set_ks_map_inv)
  have cmp: "cmp_in_bounds (group_start cond) m"
    using mok by (rule emul_map_ok_cmp) (simp add: group_start_def)
  have "kv_delete_group ks cond e = Some (KV_SUCCESS,
      set_ks_map ks (b @ dropWhile ?P s)
        (e\<lparr>m_available := m_available e + word_of_nat (sum_list (map pair_size (takeWhile ?P s)))\<rparr>))"
    using emul_inv_index [OF assms] cmp
    by (simp add: kv_delete_group_def Let_def m_def [symmetric] delete_group_loop_eq group_start_def [symmetric]
        b_def s_def)
  moreover have "emul_inv (set_ks_map ks (b @ dropWhile ?P s) (e\<lparr>m_available := a\<rparr>))" for a
    using inv by (simp add: emul_inv_def set_ks_map_def)
  ultimately show ?thesis
    unfolding m_def [symmetric] g by (simp add: rest set_ks_map_def)
qed

section \<open>Every operation keeps the invariants\<close>

lemma next_set_loop_full:
  "next_set_loop h bsize it buf pos c = Some (buf', pos', c', Some k) \<Longrightarrow> k \<in> fst ` set it"
proof (induction it arbitrary: buf pos c)
  case (Cons p it)
  then show ?case by (auto simp: Let_def split: if_splits)
qed simp

lemma handle_ok_end [simp]: "handle_ok (h\<lparr>ih_end := b\<rparr>) = handle_ok h"
  by (simp add: handle_ok_def)

lemma handle_ok_found: "it_inv e \<Longrightarrow> find_iterator e hid = Some h \<Longrightarrow> handle_ok h"
  using it_ids_handle(1) [of "m_it_map e"] by (simp add: find_iterator_map_of it_inv_def)

lemma save_position_ok:
  "save_position k h = Some h' \<Longrightarrow> handle_ok h \<Longrightarrow> 4 \<le> length k \<Longrightarrow> handle_ok h' \<and> ih_ksid h' = ih_ksid h"
  by (auto simp: save_position_def handle_ok_def split: if_splits)

lemma eof_status: "it_status (xs[i := (xs ! i)\<lparr>it_is_eof := v\<rparr>] ! j) = it_status (xs ! j)"
  by (cases "i = j"; cases "j < length xs") (auto simp: list_update_beyond)

lemma set_is_eof_inv:
  assumes "set_is_eof hid v e = Some e'"
  shows "it_inv e' = it_inv e \<and> m_map e' = m_map e \<and> emul_inv e' = emul_inv e"
proof -
  let ?i = "unat hid - 1"
  have "e' = e\<lparr>m_iterator_list := (m_iterator_list e)[?i := (m_iterator_list e ! ?i)\<lparr>it_is_eof := v\<rparr>]\<rparr>"
    using assms by (auto simp: set_is_eof_def Let_def split: if_splits)
  then show ?thesis by (simp add: it_inv_def emul_inv_def eof_status)
qed

lemma lower_bound_tail_ok:
  assumes "emul_map_ok m" and "std_lower_bound CmpEmulPrefix k m = p # it"
  shows "emul_map_ok (std_before CmpEmulPrefix k m @ it)" and "emul_key_valid (fst p)"
    and "\<And>q. q \<in> set it \<Longrightarrow> emul_key_valid (fst q)"
proof -
  have "emul_map_ok (std_before CmpEmulPrefix k m @ p # it)"
    using assms std_split [of CmpEmulPrefix k m] by simp
  then show "emul_map_ok (std_before CmpEmulPrefix k m @ it)" "emul_key_valid (fst p)"
    "\<And>q. q \<in> set it \<Longrightarrow> emul_key_valid (fst q)"
    by (auto simp: emul_map_ok_def std_ordered_append std_ordered_Cons dest: emul_keys.ordered_valid)
qed

lemma kv_iterator_next_set_inv:
  assumes "emul_inv e" and "it_inv e" and "kv_iterator_next_set hid lo e = Some (r, lo', e')"
  shows "emul_inv e' \<and> it_inv e'"
proof (cases "\<exists>l h. lo = Some l \<and> hid \<noteq> 0 \<and> find_iterator e hid = Some h")
  case False
  with assms show ?thesis
    by (auto simp: kv_iterator_next_set_def split: option.splits if_splits)
next
  case True
  then obtain l h where c: "lo = Some l" "hid \<noteq> 0" "find_iterator e hid = Some h" by blast
  let ?m = "ks_map e (ih_ksid h)" and ?s = "std_lower_bound CmpEmulPrefix (it_position h) (ks_map e (ih_ksid h))"
  note h = handle_ok_found [OF assms(2) c(3)]
  then have mok: "emul_map_ok ?m" using assms(1) by (simp add: handle_ok_def emul_inv_map)
  from assms(3) c obtain buf pos n full h' where s:
    "next_set_loop h (unat (list_size l)) ?s (it_list l) 0 0 = Some (buf, pos, n, full)"
    "(case full of None \<Rightarrow> Some h | Some k \<Rightarrow> save_position k h) = Some h'"
    "set_is_eof hid (if full \<noteq> None then 0 else 1)
       (set_ks_map (ih_ksid h) (after_return h n ?m) (set_iterator hid h' e)) = Some e'"
    by (auto simp: kv_iterator_next_set_def after_return_def Let_def simp del: not_None_eq
        split: if_splits bind_splits)
  have "handle_ok h'"
  proof (cases full)
    case None
    with s(2) h show ?thesis by simp
  next
    case (Some k)
    with s(1) have "k \<in> fst ` set ?s" by (auto dest: next_set_loop_full)
    then have "k \<in> fst ` set ?m" by (auto simp: std_lower_bound_def dest: set_dropWhileD)
    then have "4 \<le> length k"
      using mok emul_keys.ordered_valid [of ?m] by (force simp: emul_map_ok_def emul_key_valid_def)
    with save_position_ok [of k h h'] s(2) Some h show ?thesis by simp
  qed
  with set_iterator_inv(1) [OF assms(2) c(3)] after_return_ok [OF mok, of h n] assms(1)
    set_is_eof_inv [OF s(3)] show ?thesis by (simp add: set_ks_map_inv)
qed

lemma kv_iterator_next_inv:
  assumes "emul_inv e" and "it_inv e" and "kv_iterator_next hid kp vp e = Some (r, kp', vp', e')"
  shows "emul_inv e' \<and> it_inv e'"
proof (cases "\<exists>key val h k v it. kp = Some key \<and> vp = Some val \<and> hid \<noteq> 0 \<and> find_iterator e hid = Some h
    \<and> std_lower_bound CmpEmulPrefix (it_position h) (ks_map e (ih_ksid h)) = (k, v) # it")
  case False
  with assms set_iterator_inv(1) [OF assms(2)] handle_ok_found [OF assms(2)] show ?thesis
    by (auto simp: kv_iterator_next_def Let_def split: option.splits if_splits list.splits)
next
  case True
  then obtain key val h k v it where c: "kp = Some key" "vp = Some val" "hid \<noteq> 0"
    "find_iterator e hid = Some h"
    "std_lower_bound CmpEmulPrefix (it_position h) (ks_map e (ih_ksid h)) = (k, v) # it" by blast
  note h = handle_ok_found [OF assms(2) c(4)]
  then have mok: "emul_map_ok (ks_map e (ih_ksid h))" using assms(1) by (simp add: handle_ok_def emul_inv_map)
  note tail = lower_bound_tail_ok [OF mok c(5)]
  have k4: "4 \<le> length k" using tail(2) by (simp add: emul_key_valid_def)
  note setit = set_iterator_inv(1) [OF assms(2) c(4)]
  have sp: "handle_ok h'" if "save_position q h = Some h'" "4 \<le> length q" for q h'
    using save_position_ok [OF that(1) h that(2)] by simp
  have q4: "4 \<le> length (take (length k) (fst q))" if "q \<in> set it" for q
    using tail(3) [OF that] k4 by (simp add: emul_key_valid_def)
  have ks: "emul_inv (set_ks_map (ih_ksid h) m' e)" if "m' = ks_map e (ih_ksid h) \<or>
      m' = std_before CmpEmulPrefix (it_position h) (ks_map e (ih_ksid h)) @ it" for m'
    using that mok tail(1) assms(1) by (auto intro: set_ks_map_inv)
  have sks: "set_iterator hid h' (set_ks_map ks m' e) = set_ks_map ks m' (set_iterator hid h' e)"
    for h' ks m' by (simp add: set_iterator_def set_ks_map_def)
  have ksit: "emul_inv (set_ks_map ks m' (set_iterator hid h' e)) = emul_inv (set_ks_map ks m' e)"
    for h' ks m' by (simp add: set_iterator_def set_ks_map_def emul_inv_def)
  show ?thesis
    using assms c h
    by (auto simp: kv_iterator_next_def Let_def sks ksit ks setit sp k4 q4 simp del: not_None_eq
        split: if_splits list.splits option.splits bind_splits dest!: set_is_eof_inv)
qed

text \<open>The key operations leave the iterator table alone, the iterator operations the capacity.\<close>

lemma it_inv_frame [simp]:
  "it_inv (e\<lparr>m_available := a\<rparr>) = it_inv e" "it_inv (emul_collect t n e) = it_inv e"
  by (auto simp: it_inv_def emul_collect_def)

lemma emul_step_it_inv: "emul_step q e = Some (a, e') \<Longrightarrow> it_inv e' = it_inv e"
  by (cases q) (auto simp: kv_store_def kv_retrieve_def kv_delete_def kv_purge_def Let_def
      split: if_splits option.splits bind_splits)

lemma kv_open_iterator_frame:
  assumes "kv_open_iterator ks opt condp fixed hp e = Some (r, hp', e')"
  shows "m_capacity e' = m_capacity e" and "emul_inv e' = emul_inv e"
  using assms by (auto simp: kv_open_iterator_def emul_inv_def Let_def split: option.splits if_splits)

lemma kv_close_iterator_frame:
  assumes "kv_close_iterator hid e = Some (r, e')"
  shows "m_capacity e' = m_capacity e" and "emul_inv e' = emul_inv e"
  using assms by (auto simp: kv_close_iterator_def emul_inv_def Let_def split: if_splits)

lemma set_is_eof_capacity: "set_is_eof hid v e = Some e' \<Longrightarrow> m_capacity e' = m_capacity e"
  by (auto simp: set_is_eof_def Let_def split: if_splits)

lemma kv_iterator_next_set_capacity:
  "kv_iterator_next_set hid lo e = Some (r, lo', e') \<Longrightarrow> m_capacity e' = m_capacity e"
  by (auto simp: kv_iterator_next_set_def Let_def split: option.splits if_splits bind_splits
      dest!: set_is_eof_capacity)

lemma kv_iterator_next_capacity:
  "kv_iterator_next hid kp vp e = Some (r, kp', vp', e') \<Longrightarrow> m_capacity e' = m_capacity e"
  by (auto simp: kv_iterator_next_def Let_def split: option.splits if_splits bind_splits list.splits
      dest!: set_is_eof_capacity)

lemma kv_delete_group_frame:
  assumes "kv_delete_group ks cond e = Some (r, e')"
  shows "m_capacity e' = m_capacity e" and "it_inv e' = it_inv e"
  using assms by (auto simp: kv_delete_group_def Let_def split: if_splits prod.splits)

text \<open>
  The steps of an emulator object: any operation, with any arguments that pass the checks of
  the device layer, whose run stays within bounds.
\<close>

inductive emul_trans :: "kv_emulator \<Rightarrow> kv_emulator \<Rightarrow> bool" where
  trans_request: "request_ok q \<Longrightarrow> emul_step q e = Some (a, e') \<Longrightarrow> emul_trans e e'"
| trans_open: "\<not> ks_id_invalid ks \<Longrightarrow>
    kv_open_iterator ks opt condp fixed hp e = Some (r, hp', e') \<Longrightarrow> emul_trans e e'"
| trans_close: "kv_close_iterator hid e = Some (r, e') \<Longrightarrow> emul_trans e e'"
| trans_next_set: "kv_iterator_next_set hid lo e = Some (r, lo', e') \<Longrightarrow> emul_trans e e'"
| trans_next: "kv_iterator_next hid kp vp e = Some (r, kp', vp', e') \<Longrightarrow> emul_trans e e'"
| trans_delete_group: "\<not> ks_id_invalid ks \<Longrightarrow> kv_delete_group ks cond e = Some (r, e') \<Longrightarrow>
    emul_trans e e'"

lemma open_iterator_inv:
  assumes "it_inv e" and "\<not> ks_id_invalid ks"
    and "kv_open_iterator ks opt condp fixed hp e = Some (r, hp', e')"
  shows "it_inv e'"
proof (cases "\<exists>cond g. condp = Some cond \<and> hp = Some g")
  case True
  then obtain cond g where "condp = Some cond" "hp = Some g" by blast
  then show ?thesis
    using assms(3) kv_open_iterator_correct [OF assms(1,2), of opt cond fixed g] by auto
next
  case False
  then show ?thesis using assms(1,3) by (auto simp: kv_open_iterator_def split: option.splits if_splits)
qed

lemma close_iterator_inv:
  assumes "it_inv e" and "kv_close_iterator hid e = Some (r, e')"
  shows "it_inv e'"
proof (cases "1 \<le> unat hid \<and> unat hid \<le> 16")
  case True
  then show ?thesis using assms(2) kv_close_iterator_correct [OF assms(1)] by fastforce
next
  case False
  then have "kv_close_iterator hid e = Some (KV_ERR_PARAM_INVALID, e)"
    using assms kv_close_iterator_bounds [OF assms(1), of hid] by (auto simp: kv_close_iterator_def)
  then show ?thesis using assms by simp
qed

lemma emul_trans_inv:
  assumes "emul_trans e e'" and "emul_ready e" and "it_inv e"
  shows "emul_ready e' \<and> it_inv e'"
  using assms
proof (induction rule: emul_trans.induct)
  case (trans_request q e a e')
  then show ?case using emul_step_refines [of e q] emul_step_it_inv [of q e a e'] by auto
next
  case (trans_open ks opt condp fixed hp e r hp' e')
  then show ?case
    using open_iterator_inv kv_open_iterator_frame [OF trans_open(2)] by (auto simp: emul_ready_def)
next
  case (trans_close hid e r e')
  then show ?case
    using close_iterator_inv kv_close_iterator_frame [OF trans_close(1)] by (auto simp: emul_ready_def)
next
  case (trans_next_set hid lo e r lo' e')
  then show ?case
    using kv_iterator_next_set_inv [of e] kv_iterator_next_set_capacity [OF trans_next_set(1)]
    by (auto simp: emul_ready_def)
next
  case (trans_next hid kp vp e r kp' vp' e')
  then show ?case
    using kv_iterator_next_inv [of e] kv_iterator_next_capacity [OF trans_next(1)]
    by (auto simp: emul_ready_def)
next
  case (trans_delete_group ks cond e r e')
  then show ?case
    using kv_delete_group_correct [of e ks cond] kv_delete_group_frame [OF trans_delete_group(2)]
    by (auto simp: emul_ready_def)
qed

section \<open>Properties\<close>

text \<open>
  C13. Invariants of the emulator. Whatever sequence of operations runs on an object of a
  non-zero capacity, keys, iterators and group deletes interleaved, both key spaces stay
  ordered maps of legal keys, at most 16 iterators are open, under distinct identifiers from
  1 to 16, and the table \<open>m_iterator_list\<close>, of 16 entries, marks exactly these as open.
\<close>

theorem emulator_invariant:
  assumes "emul_trans\<^sup>*\<^sup>* (kv_emulator_new h c u n) e" and "c \<noteq> 0"
  shows "length (m_map e) = 2 \<and> list_all (std_ordered CmpEmulPrefix emul_key_valid) (m_map e)
    \<and> length (m_it_map e) \<le> 16 \<and> distinct (map fst (m_it_map e))
    \<and> set (map fst (m_it_map e)) \<subseteq> {1..16} \<and> length (m_iterator_list e) = 16
    \<and> (\<forall>i < 16. it_status (m_iterator_list e ! i) = 1 \<longleftrightarrow>
         find_iterator e (word_of_nat (i + 1)) \<noteq> None)"
proof -
  have "emul_ready e \<and> it_inv e"
    using assms(1)
  proof (induction rule: rtranclp_induct)
    case base
    show ?case using assms(2) by (simp add: emul_ready_def) (simp add: kv_emulator_new_def)
  next
    case (step e e')
    then show ?case using emul_trans_inv by blast
  qed
  then have inv: "emul_inv e" "it_inv e" by (auto simp: emul_ready_def)
  have "it_status (m_iterator_list e ! i) = 1 \<longleftrightarrow> find_iterator e (word_of_nat (i + 1)) \<noteq> None"
    if "i < 16" for i
    using that inv(2) unat_itid [of "i + 1"] find_iterator_map_of [OF inv(2)]
    by (simp add: it_inv_def map_of_eq_None_iff)
  moreover have "length (m_it_map e) \<le> 16" "distinct (map fst (m_it_map e))"
    "set (map fst (m_it_map e)) \<subseteq> {1..16}" "length (m_iterator_list e) = 16"
    using inv(2) it_ids_card [of "m_it_map e"] it_ids.ordered_distinct [of "m_it_map e"]
    by (auto simp: it_inv_def it_ids_ok_def list_all_iff)
  ultimately show ?thesis using inv(1) by (auto simp: emul_inv_def emul_map_ok_def list_all_iff)
qed


text \<open>
  C28. A group delete removes one run of pairs and nothing else: the pairs from the masked
  pattern on whose prefix has all the bits of the masked pattern. It keeps the invariant and
  gives the space of exactly these pairs back.
\<close>

theorem delete_group_effect:
  assumes "emul_inv e" and "\<not> ks_id_invalid ks"
  shows "\<exists>e'. kv_delete_group ks cond e = Some (KV_SUCCESS, e') \<and> emul_inv e'
    \<and> m_map e' = (m_map e)[unat ks :=
        filter (\<lambda>p. p \<notin> set (group_block cond (ks_map e ks))) (ks_map e ks)]
    \<and> m_available e' = m_available e +
        word_of_nat (sum_list (map pair_size (group_block cond (ks_map e ks))))"
  using assms by (rule kv_delete_group_correct)

text \<open>A key space with three pairs, \<open>aaaa\<close>, \<open>baaa\<close> and \<open>aaab\<close> in the order of the emulator.\<close>

definition sample_map :: emulator_map_t where
  "sample_map = [([97, 97, 97, 97], [1]), ([98, 97, 97, 97], [2]), ([97, 97, 97, 98], [3])]"

definition sample_filled :: kv_emulator where
  "sample_filled = sample_emulator\<lparr>m_map := [sample_map, []]\<rparr>"

definition sample_list :: kv_iterator_list where
  "sample_list = \<lparr>num_entries = 0, list_end = False, list_size = 8, it_list = replicate 8 0\<rparr>"

definition first_byte_a :: kv_group_condition where
  "first_byte_a = \<lparr>gc_bitmask = 0xFF, gc_bit_pattern = 0x61\<rparr>"

lemma sample_map_ok: "emul_map_ok sample_map"
  by (simp add: emul_map_ok_def std_ordered_def sample_map_def emul_key_valid_def CmpEmulPrefix_def
      read_u32_def)

lemma sample_filled_ok [simp]:
  "emul_inv sample_filled" "it_inv sample_filled" "ks_map sample_filled 0 = sample_map"
  "find_iterator sample_filled hid = None" "m_it_map sample_filled = []"
  "m_iterator_list sample_filled = replicate 16 kv_iterator_zero"
proof -
  have "it_inv sample_emulator" by (simp add: sample_emulator_def)
  then show "it_inv sample_filled" by (simp add: sample_filled_def it_inv_def)
  show "emul_inv sample_filled"
    using sample_map_ok by (simp add: sample_filled_def emul_inv_def emul_map_ok_def [of "[]"])
  show "ks_map sample_filled 0 = sample_map" by (simp add: sample_filled_def ks_map_def)
  show i: "m_it_map sample_filled = []"
    by (simp add: sample_filled_def sample_emulator_def kv_emulator_new_def)
  show "m_iterator_list sample_filled = replicate 16 kv_iterator_zero"
    by (simp add: sample_filled_def sample_emulator_def kv_emulator_new_def)
  show "find_iterator sample_filled hid = None"
    by (simp add: find_iterator_def i std_find_def std_lower_bound_def)
qed

lemma sample_open:
  assumes "gc_bit_pattern cond \<noteq> 0"
  shows "\<exists>e1. kv_open_iterator 0 opt (Some cond) fixed (Some 0) sample_filled =
    Some (KV_SUCCESS, Some 1, e1)"
proof -
  have "List.find (\<lambda>i. open_entry cond (m_iterator_list sample_filled ! i)) [0..<16] = None"
    by (auto simp: find_None_iff open_entry_def kv_iterator_zero_def)
  moreover have "next_itid sample_filled = 1"
    by (simp add: next_itid_def std_find_def std_lower_bound_def upt_conv_Cons)
  ultimately show ?thesis by (simp add: kv_open_iterator_cases)
qed

lemma sample_remaining:
  "it_remaining (new_iterator_handle 0 opt first_byte_a fixed) sample_map =
     [([97, 97, 97, 97], [1])]"
proof -
  have "std_lower_bound CmpEmulPrefix (u32_bytes 97) sample_map = sample_map"
    by (simp add: std_lower_bound_def sample_map_def CmpEmulPrefix_def read_u32_def u32_bytes_eval
        Let_def)
  then show ?thesis
    by (simp add: it_remaining_def it_block_def it_matches_def first_byte_a_def)
      (simp add: sample_map_def read_u32_def)
qed


text \<open>
  C38. An iteration on the first byte of the key misses keys. With \<open>aaaa\<close>, \<open>baaa\<close> and \<open>aaab\<close>
  stored, an iterator for all keys that start with \<open>a\<close> (bitmask \<open>0xFF\<close>, bit pattern \<open>0x61\<close> in
  the emulator's little-endian reading of the prefix) reports its end after \<open>aaaa\<close> only:
  the order of the keys puts \<open>baaa\<close> between the two matching keys, and the scan stops at the
  first key that does not match.
\<close>

theorem iteration_misses_keys:
  "\<exists>e1 l' e2. kv_open_iterator 0 KV_ITERATOR_OPT_KEY (Some first_byte_a) True (Some 0) sample_filled =
      Some (KV_SUCCESS, Some 1, e1)
    \<and> kv_iterator_next_set 1 (Some sample_list) e1 = Some (KV_SUCCESS, Some l', e2)
    \<and> list_end l' \<and> take (unat (list_size l')) (it_list l') = [97, 97, 97, 97]
    \<and> emul_contents sample_filled 0 [97, 97, 97, 98] \<noteq> None
    \<and> read_u32 [97, 97, 97, 98] AND gc_bitmask first_byte_a = gc_bit_pattern first_byte_a"
proof -
  let ?h = "new_iterator_handle 0 KV_ITERATOR_OPT_KEY first_byte_a True"
  obtain e1 where e1: "kv_open_iterator 0 KV_ITERATOR_OPT_KEY (Some first_byte_a) True (Some 0)
      sample_filled = Some (KV_SUCCESS, Some 1, e1)"
    using sample_open [of first_byte_a] by (auto simp: first_byte_a_def)
  have o: "it_inv e1" "m_map e1 = m_map sample_filled" "find_iterator e1 1 = Some ?h"
    using kv_open_iterator_correct [of sample_filled 0 KV_ITERATOR_OPT_KEY first_byte_a True 0] e1 by auto
  have m: "ks_map e1 = ks_map sample_filled" "emul_inv e1" using frame_m_map(1,2) [OF o(2)] by auto
  have vs: "values_small (ks_map e1 (ih_ksid ?h))" by (simp add: m values_small_def sample_map_def)
  have sz: "unat (list_size sample_list) \<le> length (it_list sample_list)" by (simp add: sample_list_def)
  have ent: "it_entry ?h p = fst p" for p by (simp add: it_entry_def it_include_value_def)
  have rem: "it_remaining ?h (ks_map e1 (ih_ksid ?h)) = [([97, 97, 97, 97], [1])]"
    by (simp add: m sample_remaining)
  obtain n l' e2 where n: "kv_iterator_next_set 1 (Some sample_list) e1 = Some (KV_SUCCESS, Some l', e2)"
    "n \<le> 1" "take (unat (list_size l')) (it_list l') = it_bytes ?h (take n [([97, 97, 97, 97], [1])])"
    "list_end l' = (n = 1)"
    "n < 1 \<longrightarrow> unat (list_size sample_list) < length (it_bytes ?h (take (Suc n) [([97, 97, 97, 97], [1])]))"
    using next_set_correct [OF m(2) o(1,3) vs sz] unfolding rem by auto
  then have "n = 1" by (cases "n = 0") (auto simp: it_bytes_def ent sample_list_def)
  moreover have "emul_contents sample_filled 0 [97, 97, 97, 98] \<noteq> None"
    by (simp add: emul_contents_def sample_filled_def ks_map_def sample_map_def)
  moreover have "read_u32 [97, 97, 97, 98] AND gc_bitmask first_byte_a = gc_bit_pattern first_byte_a"
    by (simp add: read_u32_def first_byte_a_def)
  ultimately show ?thesis using e1 n by (simp add: it_bytes_def ent)
qed

theorem emulator_invariant_witness:
  "\<exists>e. emul_trans\<^sup>*\<^sup>* sample_emulator e \<and> length (m_it_map e) = 1
    \<and> it_status (m_iterator_list e ! 0) = 1 \<and> find_iterator e 1 \<noteq> None"
proof -
  have sample: "sample_emulator =
      kv_emulator_new (kv_history_new (replicate 17 STAT_READ) (replicate 17 0)) 1048576 True 0"
    by (simp add: sample_emulator_def)
  let ?e = "opened 1 (new_iterator_handle 0 KV_ITERATOR_OPT_KEY first_byte_a True)
    \<lparr>it_handle_id = 1, it_status = 1, it_type = KV_ITERATOR_OPT_KEY, it_keyspace_id = 0,
     it_prefix = 0x61, it_bitmask = 0xFF, it_is_eof = 0\<rparr> sample_emulator"
  have its: "m_it_map sample_emulator = []" "m_iterator_list sample_emulator = replicate 16 kv_iterator_zero"
    by (simp_all add: sample_emulator_def kv_emulator_new_def)
  have "List.find (\<lambda>i. open_entry first_byte_a (m_iterator_list sample_emulator ! i)) [0..<16] = None"
    by (auto simp: find_None_iff open_entry_def kv_iterator_zero_def its first_byte_a_def)
  moreover have "next_itid sample_emulator = 1"
    by (simp add: next_itid_def std_find_def std_lower_bound_def upt_conv_Cons its)
  ultimately have "kv_open_iterator 0 KV_ITERATOR_OPT_KEY (Some first_byte_a) True (Some 0) sample_emulator =
      Some (KV_SUCCESS, Some 1, ?e)"
    by (simp add: kv_open_iterator_cases its first_byte_a_def)
  then have "emul_trans sample_emulator ?e" by (intro trans_open [of 0]) auto
  then have r: "emul_trans\<^sup>*\<^sup>* sample_emulator ?e" by blast
  have "length (m_it_map ?e) = 1"
    by (simp add: opened_def its std_emplace_def std_find_def std_lower_bound_def std_before_def)
  moreover have st: "it_status (m_iterator_list ?e ! 0) = 1" by (simp add: opened_def its)
  moreover have "\<forall>i < 16. it_status (m_iterator_list ?e ! i) = 1 \<longleftrightarrow>
      find_iterator ?e (word_of_nat (i + 1)) \<noteq> None"
    using emulator_invariant [OF r [unfolded sample]] unfolding sample by simp
  from spec [OF this, of 0] st have "find_iterator ?e 1 \<noteq> None" by simp
  ultimately show ?thesis using r by blast
qed

definition sample_group :: kv_group_condition where
  "sample_group = \<lparr>gc_bitmask = 0xFFFFFFFF, gc_bit_pattern = 0x61616161\<rparr>"

theorem delete_group_effect_witness:
  "\<exists>e'. kv_delete_group 0 sample_group sample_filled = Some (KV_SUCCESS, e') \<and> emul_inv e'
    \<and> m_map e' = (m_map sample_filled)[0 :=
        filter (\<lambda>p. p \<notin> set (group_block sample_group (ks_map sample_filled 0))) (ks_map sample_filled 0)]"
  using delete_group_effect [of sample_filled 0 sample_group] by auto

text \<open>
  A group delete also removes keys that do not match its condition. With the full mask
  and the pattern \<open>aaaa\<close>, the key \<open>caaa\<close> is deleted: the comparison masks the prefix with the
  bit pattern itself, so it accepts every prefix that has the bits of the pattern, and
  \<open>c\<close> (0x63) has the bits of \<open>a\<close> (0x61).
\<close>

theorem delete_group_removes_others:
  "\<exists>e e'. emul_inv e \<and> kv_delete_group 0 sample_group e = Some (KV_SUCCESS, e')
    \<and> emul_contents e 0 [99, 97, 97, 97] = Some [7]
    \<and> read_u32 [99, 97, 97, 97] AND gc_bitmask sample_group \<noteq>
        gc_bit_pattern sample_group AND gc_bitmask sample_group
    \<and> ks_map e' 0 = []"
proof -
  let ?m = "[([99, 97, 97, 97], [7])] :: emulator_map_t"
  define e where "e = sample_emulator\<lparr>m_map := [?m, []]\<rparr>"
  have inv: "emul_inv e"
    by (simp add: e_def emul_inv_def emul_map_ok_def std_ordered_def emul_key_valid_def)
  have ks: "ks_map e 0 = ?m" by (simp add: e_def ks_map_def)
  have lb: "std_lower_bound CmpEmulPrefix (u32_bytes 0x61616161) ?m = ?m"
    by (simp add: std_lower_bound_def CmpEmulPrefix_def read_u32_def u32_bytes_eval Let_def)
  have hit: "group_hit sample_group [99, 97, 97, 97]"
    by (simp add: group_hit_def sample_group_def read_u32_def)
  have "group_block sample_group ?m = ?m"
    using lb hit by (simp add: group_block_def group_start_def sample_group_def)
  then obtain e' where e': "kv_delete_group 0 sample_group e = Some (KV_SUCCESS, e')"
    "m_map e' = (m_map e)[0 := []]"
    using kv_delete_group_correct [OF inv, of 0 sample_group] ks by auto
  then have "ks_map e' 0 = []" by (simp add: ks_map_def e_def)
  moreover have "emul_contents e 0 [99, 97, 97, 97] = Some [7]"
    by (simp add: emul_contents_def e_def ks_map_def)
  moreover have "read_u32 [99, 97, 97, 97] AND gc_bitmask sample_group \<noteq>
      gc_bit_pattern sample_group AND gc_bitmask sample_group"
    by (simp add: read_u32_def sample_group_def)
  ultimately show ?thesis using inv e'(1) by blast
qed

text \<open>
  Closing an iterator writes outside the iterator table exactly when the caller's handle
  is greater than 16: the handle is used as an index after a check against 0 only.
\<close>

theorem close_iterator_out_of_bounds:
  assumes "it_inv e"
  shows "kv_close_iterator hid e = None \<longleftrightarrow> SAMSUNG_MAX_ITERATORS < unat hid"
  using kv_close_iterator_bounds [OF assms] .

theorem close_iterator_out_of_bounds_witness:
  "kv_close_iterator 17 sample_filled = None \<and> kv_close_iterator 16 sample_filled \<noteq> None"
  using close_iterator_out_of_bounds [of sample_filled 17] close_iterator_out_of_bounds [of sample_filled 16]
  by simp

text \<open>
  Iterating pair by pair reads outside a stored key when the next key is shorter than the
  one being returned: \<open>kv_iterator_next\<close> saves the next key with the length of the current
  one. With a five-byte key followed by a four-byte key the second call would start from the
  saved position, but the first call already copies five bytes out of a four-byte buffer.
\<close>

theorem iterator_next_out_of_bounds:
  "\<exists>e. emul_inv e \<and> it_inv e \<and> find_iterator e 1 \<noteq> None
    \<and> kv_iterator_next 1 (Some \<lparr>key_ptr = Some (replicate 255 0), key_length = 255\<rparr>)
        (Some sample_room) e = None"
proof -
  let ?m = "[([97, 97, 97, 97, 1], [1]), ([98, 97, 97, 97], [2])] :: emulator_map_t"
  let ?c = "\<lparr>gc_bitmask = 0, gc_bit_pattern = 0\<rparr>"
  let ?h = "new_iterator_handle 0 KV_ITERATOR_OPT_KEY ?c False"
  let ?it = "\<lparr>it_handle_id = 1, it_status = 1, it_type = KV_ITERATOR_OPT_KEY, it_keyspace_id = 0,
     it_prefix = 0, it_bitmask = 0, it_is_eof = 0\<rparr>"
  define e0 where "e0 = sample_emulator\<lparr>m_map := [?m, []]\<rparr>"
  define e where "e = opened 1 ?h ?it e0"
  have i0: "it_inv e0" "m_it_map e0 = []"
    by (simp_all add: e0_def sample_emulator_def it_inv_def it_ids_ok_def kv_emulator_new_def
        kv_iterator_zero_def)
  have "handle_ok ?h" by (simp add: new_handle_ok)
  with i0 have it: "it_inv e" and f: "find_iterator e 1 = Some ?h"
    unfolding e_def by (auto simp: opened_inv opened_find)
  have inv: "emul_inv e"
    by (simp add: e_def opened_def e0_def emul_inv_def emul_map_ok_def std_ordered_def emul_key_valid_def
        CmpEmulPrefix_def read_u32_def)
  have ks: "ks_map e 0 = ?m" "length (m_map e) = 2" by (simp_all add: e_def opened_def e0_def ks_map_def)
  have lb: "std_lower_bound CmpEmulPrefix (u32_bytes 0) ?m = ?m"
    by (simp add: std_lower_bound_def CmpEmulPrefix_def read_u32_def u32_bytes_eval)
  have cmp: "cmp_in_bounds (u32_bytes 0) ?m" by (simp add: cmp_in_bounds_def)
  have "kv_iterator_next 1 (Some \<lparr>key_ptr = Some (replicate 255 0), key_length = 255\<rparr>)
      (Some sample_room) e = None"
    using f ks lb cmp
    by (simp add: kv_iterator_next_def Let_def it_include_value_def sample_room_def ptr_bytes_def)
  with inv it f show ?thesis by blast
qed

end
