(* ===== verification/Kv_Namespace.thy ===== *)
theory Kv_Namespace
  imports Kv_Iteration
begin

text \<open>
  The namespace of a device, class \<open>kv_namespace_internal\<close> of
  \<open>PDK/core/src/device_abstract_layer/emulator/src/kv_namespace.cpp\<close>: it checks the pointers
  and the key space id of a command, forwards it to the store it points to, and keeps the
  capacity statistics. The store is the emulator or, while latencies are measured, the
  \<open>kv_noop_emulator\<close> of \<open>include/private/kv_emulator.hpp\<close>, which answers \<open>KV_SUCCESS\<close> to
  everything. The pointer \<open>m_kvstore\<close> is modelled by the flag \<open>ns_use_dummy\<close>.

  The namespace of an emulated device is proved to provide the interface \<open>kv_api\<close> as long as
  it points to the emulator. The parsing of the latency model's parameters in the
  constructor uses a tokenizer of boost and has no effect on the commands; it is left out.
\<close>

record kv_namespace_internal =
  ns_init_status :: kv_result
  ns_purging_in_progress :: bool
  ns_id :: u32
  ns_keylen_fixed :: bool
  ns_info :: kv_namespace
  ns_stat :: kv_namespace_stat
  ns_use_dummy :: bool
  ns_emul :: kv_emulator

text \<open>
  The constructor for an emulated device. \<open>purging\<close> is the value the member has before it is
  first assigned; \<open>keylen_fixed\<close> and \<open>use_iops_model\<close> are what the device object says.
\<close>

definition kv_namespace_internal_new ::
    "bool \<Rightarrow> bool \<Rightarrow> bool \<Rightarrow> kv_history \<Rightarrow> u32 \<Rightarrow> kv_namespace \<Rightarrow> kv_namespace_internal" where
  "kv_namespace_internal_new purging keylen_fixed use_iops_model h nsid info =
     \<lparr>ns_init_status = KV_SUCCESS, ns_purging_in_progress = purging, ns_id = nsid,
      ns_keylen_fixed = keylen_fixed, ns_info = info,
      ns_stat = \<lparr>nst_nsid = nsid, nst_attached = True, nst_capacity = ns_capacity info,
                 nst_unallocated_capacity = ns_capacity info\<rparr>,
      ns_use_dummy = False,
      ns_emul = kv_emulator_new h (ns_capacity info) use_iops_model nsid\<rparr>"

definition get_nsid :: "kv_namespace_internal \<Rightarrow> u32" where
  "get_nsid ns = ns_id ns"

definition is_purge_in_progress :: "kv_namespace_internal \<Rightarrow> bool" where
  "is_purge_in_progress ns = ns_purging_in_progress ns"

definition set_purge_in_progress :: "bool \<Rightarrow> kv_namespace_internal \<Rightarrow> kv_namespace_internal" where
  "set_purge_in_progress b ns = ns\<lparr>ns_purging_in_progress := b\<rparr>"

definition swap_device :: "bool \<Rightarrow> kv_namespace_internal \<Rightarrow> kv_namespace_internal" where
  "swap_device usedummy ns = ns\<lparr>ns_use_dummy := usedummy\<rparr>"

text \<open>Capacity as the store reports it; the no-op store reports the largest \<open>uint64_t\<close>.\<close>

definition ns_get_total_capacity :: "kv_namespace_internal \<Rightarrow> u64" where
  "ns_get_total_capacity ns = (if ns_use_dummy ns then - 1 else get_total_capacity (ns_emul ns))"

definition ns_get_available :: "kv_namespace_internal \<Rightarrow> u64" where
  "ns_get_available ns = (if ns_use_dummy ns then - 1 else get_available (ns_emul ns))"

definition get_consumed_space :: "kv_namespace_internal \<Rightarrow> u64 \<times> kv_namespace_internal" where
  "get_consumed_space ns =
     (let capacity = ns_get_total_capacity ns; available = ns_get_available ns in
      (capacity - available,
       ns\<lparr>ns_stat := (ns_stat ns)\<lparr>nst_capacity := capacity, nst_unallocated_capacity := available\<rparr>\<rparr>))"

definition kv_get_namespace_info :: "kv_namespace option \<Rightarrow> kv_namespace_internal \<Rightarrow>
    kv_result \<times> kv_namespace option" where
  "kv_get_namespace_info nsinfo ns =
     (if nsinfo = None then (KV_ERR_PARAM_INVALID, nsinfo) else (KV_SUCCESS, Some (ns_info ns)))"

definition kv_get_namespace_stat :: "kv_namespace_stat option \<Rightarrow> kv_namespace_internal \<Rightarrow>
    kv_result \<times> kv_namespace_stat option \<times> kv_namespace_internal" where
  "kv_get_namespace_stat ns_st ns =
     (if ns_st = None then (KV_ERR_PARAM_INVALID, ns_st, ns)
      else let st = (ns_stat ns)\<lparr>nst_unallocated_capacity := ns_get_available ns\<rparr> in
           (KV_SUCCESS, Some st, ns\<lparr>ns_stat := st\<rparr>))"

section \<open>Commands\<close>

text \<open>Running an operation of the emulator inside the namespace.\<close>

definition add_unallocated :: "u64 \<Rightarrow> kv_namespace_internal \<Rightarrow> kv_namespace_internal" where
  "add_unallocated n ns =
     ns\<lparr>ns_stat := (ns_stat ns)\<lparr>nst_unallocated_capacity := nst_unallocated_capacity (ns_stat ns) + n\<rparr>\<rparr>"

definition ns_kv_purge ::
    "u8 \<Rightarrow> kv_purge_option \<Rightarrow> kv_namespace_internal \<Rightarrow> (kv_result \<times> kv_namespace_internal) option" where
  "ns_kv_purge ks_id option ns =
     (let ns1 = set_purge_in_progress True ns in
      if ks_id_invalid ks_id then Some (KV_ERR_KEYSPACE_INVALID, ns1)
      else do {
        (res, e) \<leftarrow> (if ns_use_dummy ns1 then Some (KV_SUCCESS, ns_emul ns1)
                     else kv_purge ks_id option (ns_emul ns1));
        let ns2 = ns1\<lparr>ns_emul := e\<rparr>;
        let ns3 = (if res = KV_SUCCESS
                   then ns2\<lparr>ns_stat := (ns_stat ns2)\<lparr>nst_unallocated_capacity := nst_capacity (ns_stat ns2)\<rparr>\<rparr>
                   else ns2);
        Some (res, set_purge_in_progress False ns3) })"

definition ns_kv_store ::
    "u8 \<Rightarrow> kv_key option \<Rightarrow> kv_value option \<Rightarrow> kv_store_option \<Rightarrow> u32 \<Rightarrow> kv_namespace_internal \<Rightarrow>
     (kv_result \<times> u32 \<times> kv_namespace_internal) option" where
  "ns_kv_store ks_id keyp valuep option consumed_bytes ns =
     (case (keyp, valuep) of
        (Some key, Some value) \<Rightarrow>
          if ks_id_invalid ks_id then Some (KV_ERR_KEYSPACE_INVALID, consumed_bytes, ns)
          else do {
            (res, c, e) \<leftarrow> (if ns_use_dummy ns then Some (KV_SUCCESS, consumed_bytes, ns_emul ns)
                           else kv_store ks_id key value option consumed_bytes (ns_emul ns));
            let ns1 = ns\<lparr>ns_emul := e\<rparr>;
            Some (res, c, if res = KV_SUCCESS then add_unallocated (- ucast c) ns1 else ns1) }
      | _ \<Rightarrow> Some (KV_ERR_PARAM_INVALID, consumed_bytes, ns))"

definition ns_kv_delete ::
    "u8 \<Rightarrow> kv_key option \<Rightarrow> kv_delete_option \<Rightarrow> u32 option \<Rightarrow> kv_namespace_internal \<Rightarrow>
     (kv_result \<times> u32 option \<times> kv_namespace_internal) option" where
  "ns_kv_delete ks_id keyp option recovered_bytes ns =
     (if keyp = None then Some (KV_ERR_PARAM_INVALID, recovered_bytes, ns)
      else if ks_id_invalid ks_id then Some (KV_ERR_KEYSPACE_INVALID, recovered_bytes, ns)
      else do {
        (res, rb, e) \<leftarrow> (if ns_use_dummy ns then Some (KV_SUCCESS, recovered_bytes, ns_emul ns)
                        else kv_delete ks_id keyp option recovered_bytes (ns_emul ns));
        let ns1 = ns\<lparr>ns_emul := e\<rparr>;
        Some (res, rb, (case (res, rb) of
                          (KV_SUCCESS, Some n) \<Rightarrow> add_unallocated (ucast n) ns1
                        | _ \<Rightarrow> ns1)) })"

definition ns_kv_exist ::
    "u8 \<Rightarrow> kv_key list option \<Rightarrow> u32 \<Rightarrow> byte list option \<Rightarrow> u32 \<Rightarrow> kv_namespace_internal \<Rightarrow>
     (kv_result \<times> byte list option \<times> u32) option" where
  "ns_kv_exist ks_id keyp keycount valuep valuesize ns =
     (case (keyp, valuep) of
        (Some keys, Some buf) \<Rightarrow>
          if ks_id_invalid ks_id then Some (KV_ERR_KEYSPACE_INVALID, valuep, valuesize)
          else if ns_use_dummy ns then Some (KV_SUCCESS, valuep, valuesize)
          else do { (res, buf', n) \<leftarrow> kv_exist ks_id keys keycount buf valuesize (ns_emul ns);
                    Some (res, Some buf', n) }
      | _ \<Rightarrow> Some (KV_ERR_PARAM_INVALID, valuep, valuesize))"

definition ns_kv_retrieve ::
    "u8 \<Rightarrow> kv_key option \<Rightarrow> kv_retrieve_option \<Rightarrow> kv_value option \<Rightarrow> kv_namespace_internal \<Rightarrow>
     (kv_result \<times> kv_value option \<times> kv_namespace_internal) option" where
  "ns_kv_retrieve ks_id keyp option valuep ns =
     (case (keyp, valuep) of
        (Some key, Some value) \<Rightarrow>
          if ks_id_invalid ks_id then Some (KV_ERR_KEYSPACE_INVALID, valuep, ns)
          else if ns_use_dummy ns then Some (KV_SUCCESS, valuep, ns)
          else do { (res, v', e) \<leftarrow> kv_retrieve ks_id key option value (ns_emul ns);
                    Some (res, Some v', ns\<lparr>ns_emul := e\<rparr>) }
      | _ \<Rightarrow> Some (KV_ERR_PARAM_INVALID, valuep, ns))"

definition ns_kv_open_iterator ::
    "u8 \<Rightarrow> kv_iterator_option \<Rightarrow> kv_group_condition option \<Rightarrow> u8 option \<Rightarrow> kv_namespace_internal \<Rightarrow>
     (kv_result \<times> u8 option \<times> kv_namespace_internal) option" where
  "ns_kv_open_iterator ks_id it_op it_cond iter_hdl ns =
     (if iter_hdl = None \<or> it_cond = None then Some (KV_ERR_PARAM_INVALID, iter_hdl, ns)
      else if ks_id_invalid ks_id then Some (KV_ERR_KEYSPACE_INVALID, iter_hdl, ns)
      else if ns_use_dummy ns then Some (KV_SUCCESS, iter_hdl, ns)
      else do { (res, h, e) \<leftarrow> kv_open_iterator ks_id it_op it_cond (ns_keylen_fixed ns) iter_hdl (ns_emul ns);
                Some (res, h, ns\<lparr>ns_emul := e\<rparr>) })"

definition ns_kv_close_iterator ::
    "u8 \<Rightarrow> kv_namespace_internal \<Rightarrow> (kv_result \<times> kv_namespace_internal) option" where
  "ns_kv_close_iterator iter_hdl ns =
     (if ns_use_dummy ns then Some (KV_SUCCESS, ns)
      else do { (res, e) \<leftarrow> kv_close_iterator iter_hdl (ns_emul ns); Some (res, ns\<lparr>ns_emul := e\<rparr>) })"

definition ns_kv_iterator_next_set ::
    "u8 \<Rightarrow> kv_iterator_list option \<Rightarrow> kv_namespace_internal \<Rightarrow>
     (kv_result \<times> kv_iterator_list option \<times> kv_namespace_internal) option" where
  "ns_kv_iterator_next_set iter_hdl iter_list ns =
     (if iter_hdl = 0 \<or> iter_list = None then Some (KV_ERR_PARAM_INVALID, iter_list, ns)
      else if ns_use_dummy ns then Some (KV_SUCCESS, iter_list, ns)
      else do { (res, l, e) \<leftarrow> kv_iterator_next_set iter_hdl iter_list (ns_emul ns);
                Some (res, l, ns\<lparr>ns_emul := e\<rparr>) })"

definition ns_kv_iterator_next ::
    "u8 \<Rightarrow> kv_key option \<Rightarrow> kv_value option \<Rightarrow> kv_namespace_internal \<Rightarrow>
     (kv_result \<times> kv_key option \<times> kv_value option \<times> kv_namespace_internal) option" where
  "ns_kv_iterator_next iter_hdl keyp valuep ns =
     (if iter_hdl = 0 \<or> keyp = None \<or> valuep = None then Some (KV_ERR_PARAM_INVALID, keyp, valuep, ns)
      else if ns_use_dummy ns then Some (KV_SUCCESS, keyp, valuep, ns)
      else do { (res, k, v, e) \<leftarrow> kv_iterator_next iter_hdl keyp valuep (ns_emul ns);
                Some (res, k, v, ns\<lparr>ns_emul := e\<rparr>) })"

definition ns_kv_list_iterators ::
    "kv_iterator list option \<Rightarrow> u32 option \<Rightarrow> kv_namespace_internal \<Rightarrow>
     (kv_result \<times> kv_iterator list option \<times> u32 option) option" where
  "ns_kv_list_iterators kv_iters iter_cnt ns =
     (if kv_iters = None \<or> iter_cnt = None then Some (KV_ERR_PARAM_INVALID, kv_iters, iter_cnt)
      else if ns_use_dummy ns then Some (KV_SUCCESS, kv_iters, iter_cnt)
      else kv_list_iterators kv_iters iter_cnt (ns_emul ns))"

definition ns_kv_delete_group ::
    "u8 \<Rightarrow> kv_group_condition option \<Rightarrow> kv_namespace_internal \<Rightarrow>
     (kv_result \<times> kv_namespace_internal) option" where
  "ns_kv_delete_group ks_id grp_cond ns =
     (case grp_cond of
        None \<Rightarrow> Some (KV_ERR_PARAM_INVALID, ns)
      | Some cond \<Rightarrow>
          if ks_id_invalid ks_id then Some (KV_ERR_KEYSPACE_INVALID, ns)
          else if ns_use_dummy ns then Some (KV_SUCCESS, ns)
          else do { (res, e) \<leftarrow> kv_delete_group ks_id cond (ns_emul ns); Some (res, ns\<lparr>ns_emul := e\<rparr>) })"

section \<open>The namespace provides the interface\<close>

fun ns_step :: "kv_request \<Rightarrow> kv_namespace_internal \<Rightarrow> (kv_reply \<times> kv_namespace_internal) option" where
  "ns_step (ReqStore ks k v opt) ns =
     map_option (\<lambda>(r, _, ns'). (RepResult r, ns')) (ns_kv_store ks (Some k) (Some v) opt 0 ns)"
| "ns_step (ReqRetrieve ks k v opt) ns =
     do { (r, vp, ns') \<leftarrow> ns_kv_retrieve ks (Some k) opt (Some v) ns; v' \<leftarrow> vp; Some (RepValue r v', ns') }"
| "ns_step (ReqExist ks keys cnt buf bsize) ns =
     do { (r, bp, n) \<leftarrow> ns_kv_exist ks (Some keys) cnt (Some buf) bsize ns; b \<leftarrow> bp;
          Some (RepExist r b n, ns) }"
| "ns_step (ReqDelete ks k opt) ns =
     map_option (\<lambda>(r, _, ns'). (RepResult r, ns')) (ns_kv_delete ks (Some k) opt (Some 0) ns)"
| "ns_step (ReqPurge ks opt) ns = map_option (\<lambda>(r, ns'). (RepResult r, ns')) (ns_kv_purge ks opt ns)"

definition ns_ready :: "kv_namespace_internal \<Rightarrow> bool" where
  "ns_ready ns \<longleftrightarrow> \<not> ns_use_dummy ns \<and> emul_ready (ns_emul ns)"

definition ns_contents :: "kv_namespace_internal \<Rightarrow> kv_contents" where
  "ns_contents ns = emul_contents (ns_emul ns)"

lemma ns_frame [simp]:
  "ns_ready (add_unallocated n ns) = ns_ready ns" "ns_contents (add_unallocated n ns) = ns_contents ns"
  "ns_ready (set_purge_in_progress b ns) = ns_ready ns"
  "ns_contents (set_purge_in_progress b ns) = ns_contents ns"
  "ns_ready (ns\<lparr>ns_stat := st\<rparr>) = ns_ready ns" "ns_contents (ns\<lparr>ns_stat := st\<rparr>) = ns_contents ns"
  "ns_emul (set_purge_in_progress b ns) = ns_emul ns"
  "ns_use_dummy (set_purge_in_progress b ns) = ns_use_dummy ns"
  "ns_use_dummy (add_unallocated n ns) = ns_use_dummy ns" "ns_emul (add_unallocated n ns) = ns_emul ns"
  by (simp_all add: ns_ready_def ns_contents_def add_unallocated_def set_purge_in_progress_def)

lemma ns_emul_update [simp]:
  "\<not> ns_use_dummy ns \<Longrightarrow> ns_ready (ns\<lparr>ns_emul := e\<rparr>) = emul_ready e"
  "ns_contents (ns\<lparr>ns_emul := e\<rparr>) = emul_contents e"
  by (simp_all add: ns_ready_def ns_contents_def)

text \<open>
  The namespace adds its own statistics to what the emulator does: it answers as the
  emulator does and its emulator ends in the same state.
\<close>

lemma ns_step_emul:
  assumes "\<not> ns_use_dummy ns" and "request_ok q" and "emul_step q (ns_emul ns) = Some (a, e)"
  shows "\<exists>ns'. ns_step q ns = Some (a, ns') \<and> ns_emul ns' = e \<and> \<not> ns_use_dummy ns'"
proof (cases q)
  case (ReqStore ks k v opt)
  with assms show ?thesis
    by (auto simp: ns_kv_store_def Let_def split: prod.splits)
next
  case (ReqRetrieve ks k v opt)
  with assms show ?thesis by (auto simp: ns_kv_retrieve_def)
next
  case (ReqExist ks keys cnt buf bsize)
  with assms show ?thesis by (auto simp: ns_kv_exist_def)
next
  case (ReqDelete ks k opt)
  with assms obtain r rb where "kv_delete ks (Some k) opt (Some 0) (ns_emul ns) = Some (r, rb, e)"
    "a = RepResult r" by auto
  with assms ReqDelete show ?thesis by (auto simp: ns_kv_delete_def Let_def split: kv_result.split option.split)
next
  case (ReqPurge ks opt)
  with assms show ?thesis by (auto simp: ns_kv_purge_def Let_def)
qed

lemma ns_step_refines:
  assumes "ns_ready ns" and "request_ok q"
  shows "\<exists>ns'. ns_step q ns = Some (fst (spec_step q (ns_contents ns)), ns') \<and> ns_ready ns'
    \<and> ns_contents ns' = snd (spec_step q (ns_contents ns))"
proof -
  have d: "\<not> ns_use_dummy ns" and e: "emul_ready (ns_emul ns)" using assms(1) by (auto simp: ns_ready_def)
  from emul_step_refines [OF e assms(2)] obtain e' where
    "emul_step q (ns_emul ns) = Some (fst (spec_step q (ns_contents ns)), e')" "emul_ready e'"
    "emul_contents e' = snd (spec_step q (ns_contents ns))" by (auto simp: ns_contents_def)
  with ns_step_emul [OF d assms(2)] show ?thesis by (fastforce simp: ns_ready_def ns_contents_def)
qed

interpretation nspace: kv_api ns_ready ns_contents ns_step
  by unfold_locales (rule ns_step_refines)

section \<open>Properties\<close>

text \<open>
  Store and retrieve through a namespace: on every reachable kind of state, a value that
  was stored is read back whole by a retrieve with offset 0 and a buffer that is long
  enough, with its length and its stored size reported.
\<close>

theorem namespace_store_retrieve:
  assumes "ns_ready ns" and "\<not> ks_id_invalid ks" and "key_ok k" and "value_readable v"
    and "value_readable w" and "value_offset w = 0" and "value_length v \<le> value_length w"
  shows "\<exists>ns' w'. api_run ns_step [ReqStore ks k v KV_STORE_OPT_DEFAULT,
      ReqRetrieve ks k w KV_RETRIEVE_OPT_DEFAULT] ns =
      Some ([RepResult KV_SUCCESS, RepValue KV_SUCCESS w'], ns')
    \<and> value_bytes w' = value_bytes v \<and> value_length w' = value_length v
    \<and> actual_value_size w' = value_length v \<and> ns_ready ns'"
  using assms by (intro nspace.store_then_retrieve) simp_all

definition sample_ns :: kv_namespace_internal where
  "sample_ns = kv_namespace_internal_new False True True
     (kv_history_new (replicate 17 STAT_READ) (replicate 17 0)) 0
     \<lparr>ns_nsid = 0, ns_attached = True, ns_capacity = 1048576\<rparr>"

lemma sample_ns_ready [simp]: "ns_ready sample_ns"
  by (simp add: ns_ready_def sample_ns_def kv_namespace_internal_new_def emul_ready_def)
    (simp add: kv_emulator_new_def)

theorem namespace_store_retrieve_witness:
  "\<exists>ns' w'. api_run ns_step [ReqStore 1 sample_key sample_value KV_STORE_OPT_DEFAULT,
      ReqRetrieve 1 sample_key sample_room KV_RETRIEVE_OPT_DEFAULT] sample_ns =
      Some ([RepResult KV_SUCCESS, RepValue KV_SUCCESS w'], ns')
    \<and> value_bytes w' = [9, 8, 7] \<and> actual_value_size w' = 3"
  using namespace_store_retrieve [of sample_ns 1 sample_key sample_value sample_room]
  by (auto simp: sample_room_def [THEN arg_cong, of value_offset] sample_value_def [THEN arg_cong, of value_length]
      sample_room_def [THEN arg_cong, of value_length])

text \<open>
  A purge of a key space that does not exist leaves the namespace marked as being
  purged: the flag is set before the check of the key space id and is not reset on that
  path, while every purge that reaches the store resets it.
\<close>

theorem purge_flag_stuck:
  assumes "ns_kv_purge ks opt ns = Some (r, ns')"
  shows "is_purge_in_progress ns' \<longleftrightarrow> ks_id_invalid ks"
  using assms by (auto simp: ns_kv_purge_def is_purge_in_progress_def set_purge_in_progress_def Let_def
      split: if_splits bind_splits)

theorem purge_flag_stuck_witness:
  "\<exists>ns'. ns_kv_purge 2 KV_PURGE_OPT_DEFAULT sample_ns = Some (KV_ERR_KEYSPACE_INVALID, ns')
    \<and> is_purge_in_progress ns'"
proof -
  have i: "ks_id_invalid 2" by (simp add: ks_id_invalid_def)
  then have "\<exists>ns'. ns_kv_purge 2 KV_PURGE_OPT_DEFAULT sample_ns = Some (KV_ERR_KEYSPACE_INVALID, ns')"
    by (simp add: ns_kv_purge_def)
  with purge_flag_stuck [of 2 KV_PURGE_OPT_DEFAULT sample_ns] i show ?thesis by blast
qed

end
