(* ===== verification/Kv_Io_Cmd.thy ===== *)
theory Kv_Io_Cmd
  imports Kv_Namespace
begin

text \<open>
  The command object that travels through the queues, class \<open>io_cmd\<close> of
  \<open>PDK/core/src/device_abstract_layer/emulator/src/io_cmd.cpp\<close> with the context \<open>io_ctx_t\<close> of
  \<open>include/kvs_adi.h\<close>, and \<open>execute_cmd\<close>, which a worker runs on it.

  What a pointer of the context points to is part of the context: a command writes its
  results there. The key pointer is the array it points into, one key for most commands. The
  callback is not code of the library: \<open>ctx_post_fn\<close> only says whether there is one. Reading
  another member of the union than the one the opcode stands for is \<open>None\<close>, and so is a
  successful \<open>KV_OPC_LIST_ITERATOR\<close>: the emulator deletes the command object, and
  \<open>execute_cmd\<close> then stores the return code into it. The device layer never queues that
  opcode but calls the namespace directly.
\<close>

datatype op_command =
    sanitize_info kv_sanitize_option
  | get_info kv_retrieve_option
  | store_info kv_store_option
  | delete_info kv_delete_option
  | purge_info kv_purge_option
  | key_exist_info u32 "byte list option" u32
  | iterator_open_info kv_iterator_option kv_group_condition
  | iterator_next_info u8 "kv_iterator_list option" "kv_key option" "kv_value option"
  | iterator_close_info u8
  | iterator_list_info "kv_iterator list option" "u32 option"
  | delete_group_info "kv_group_condition option"

record io_ctx_t =
  ctx_opcode :: cmd_opcode_t
  ctx_key :: "kv_key list option"
  ctx_value :: "kv_value option"
  ctx_private_data :: nat
  ctx_retcode :: kv_result
  ctx_buffer_size :: u32
  ctx_buffer_count :: u32
  ctx_hiter :: u8
  ctx_post_fn :: bool
  ctx_timeout_usec :: u32
  ctx_ks_id :: u8
  ctx_command :: op_command

record io_cmd =
  ioctx :: io_ctx_t
  cmd_sqid :: u16

definition set_retcode :: "kv_result \<Rightarrow> io_cmd \<Rightarrow> io_cmd" where
  "set_retcode r cmd = cmd\<lparr>ioctx := (ioctx cmd)\<lparr>ctx_retcode := r\<rparr>\<rparr>"

definition get_sqid :: "io_cmd \<Rightarrow> u16" where
  "get_sqid cmd = cmd_sqid cmd"

definition set_sqid :: "u16 \<Rightarrow> io_cmd \<Rightarrow> io_cmd" where
  "set_sqid sqid cmd = cmd\<lparr>cmd_sqid := sqid\<rparr>"

text \<open>\<open>call_post_process_func\<close>: the context the callback is called with, if it is called.\<close>

definition call_post_process_func :: "io_cmd \<Rightarrow> io_ctx_t option" where
  "call_post_process_func cmd = (if ctx_post_fn (ioctx cmd) then Some (ioctx cmd) else None)"

text \<open>The key a key pointer denotes.\<close>

definition deref_key :: "kv_key list option \<Rightarrow> kv_key option option" where
  "deref_key p = (case p of None \<Rightarrow> Some None | Some (k # _) \<Rightarrow> Some (Some k) | Some [] \<Rightarrow> None)"

definition execute_cmd ::
    "io_cmd \<Rightarrow> kv_namespace_internal \<Rightarrow> (io_cmd \<times> kv_namespace_internal) option" where
  "execute_cmd cmd ns =
     (let c = ioctx cmd in
      case (ctx_opcode c, ctx_command c) of
        (KV_OPC_GET, get_info opt) \<Rightarrow>
          do { key \<leftarrow> deref_key (ctx_key c);
               (r, v, ns') \<leftarrow> ns_kv_retrieve (ctx_ks_id c) key opt (ctx_value c) ns;
               Some (cmd\<lparr>ioctx := c\<lparr>ctx_retcode := r, ctx_value := v\<rparr>\<rparr>, ns') }
      | (KV_OPC_STORE, store_info opt) \<Rightarrow>
          do { key \<leftarrow> deref_key (ctx_key c);
               (r, _, ns') \<leftarrow> ns_kv_store (ctx_ks_id c) key (ctx_value c) opt 0 ns;
               Some (set_retcode r cmd, ns') }
      | (KV_OPC_DELETE, delete_info opt) \<Rightarrow>
          do { key \<leftarrow> deref_key (ctx_key c);
               (r, _, ns') \<leftarrow> ns_kv_delete (ctx_ks_id c) key opt (Some 0) ns;
               Some (set_retcode r cmd, ns') }
      | (KV_OPC_DELETE_GROUP, delete_group_info cond) \<Rightarrow>
          do { (r, ns') \<leftarrow> ns_kv_delete_group (ctx_ks_id c) cond ns; Some (set_retcode r cmd, ns') }
      | (KV_OPC_PURGE, purge_info opt) \<Rightarrow>
          do { (r, ns') \<leftarrow> ns_kv_purge (ctx_ks_id c) opt ns; Some (set_retcode r cmd, ns') }
      | (KV_OPC_CHECK_KEY_EXIST, key_exist_info keycount result result_size) \<Rightarrow>
          do { (r, buf, n) \<leftarrow> ns_kv_exist (ctx_ks_id c) (ctx_key c) keycount result result_size ns;
               Some (cmd\<lparr>ioctx := c\<lparr>ctx_retcode := r, ctx_command := key_exist_info keycount buf n,
                                    ctx_buffer_size := n, ctx_buffer_count := keycount\<rparr>\<rparr>, ns) }
      | (KV_OPC_OPEN_ITERATOR, iterator_open_info it_op it_cond) \<Rightarrow>
          do { (r, h, ns') \<leftarrow> ns_kv_open_iterator (ctx_ks_id c) it_op (Some it_cond) (Some (ctx_hiter c)) ns;
               hiter \<leftarrow> h;
               Some (cmd\<lparr>ioctx := c\<lparr>ctx_retcode := r, ctx_hiter := hiter\<rparr>\<rparr>, ns') }
      | (KV_OPC_CLOSE_ITERATOR, iterator_close_info iter_hdl) \<Rightarrow>
          do { (r, ns') \<leftarrow> ns_kv_close_iterator iter_hdl ns;
               Some (cmd\<lparr>ioctx := c\<lparr>ctx_retcode := r, ctx_hiter := 0\<rparr>\<rparr>, ns') }
      | (KV_OPC_ITERATE_NEXT, iterator_next_info iter_hdl iter_list key value) \<Rightarrow>
          do { (r, l, ns') \<leftarrow> ns_kv_iterator_next_set iter_hdl iter_list ns;
               Some (cmd\<lparr>ioctx := c\<lparr>ctx_retcode := r,
                        ctx_command := iterator_next_info iter_hdl l key value\<rparr>\<rparr>, ns') }
      | (KV_OPC_ITERATE_NEXT_SINGLE_KV, iterator_next_info iter_hdl iter_list key value) \<Rightarrow>
          do { (r, k, v, ns') \<leftarrow> ns_kv_iterator_next iter_hdl key value ns;
               Some (cmd\<lparr>ioctx := c\<lparr>ctx_retcode := r,
                        ctx_command := iterator_next_info iter_hdl iter_list k v\<rparr>\<rparr>, ns') }
      | (KV_OPC_SANITIZE_DEVICE, _) \<Rightarrow>
          do { (r, ns') \<leftarrow> ns_kv_purge (ctx_ks_id c) KV_PURGE_OPT_DEFAULT ns;
               Some (set_retcode r cmd, ns') }
      | (KV_OPC_LIST_ITERATOR, iterator_list_info kv_iters iter_cnt) \<Rightarrow>
          do { (r, its, cnt) \<leftarrow> ns_kv_list_iterators kv_iters iter_cnt ns;
               require (r \<noteq> KV_SUCCESS \<or> ns_use_dummy ns);
               Some (cmd\<lparr>ioctx := c\<lparr>ctx_retcode := r, ctx_command := iterator_list_info its cnt\<rparr>\<rparr>, ns) }
      | (KV_OPC_FLUSH, _) \<Rightarrow> Some (set_retcode KV_ERR_SYS_IO cmd, ns)
      | _ \<Rightarrow> None)"

section \<open>Commands and requests\<close>

text \<open>
  The context the device layer builds for a request on single keys, and the reply a
  finished command carries.
\<close>

fun request_ctx :: "kv_request \<Rightarrow> io_ctx_t \<Rightarrow> io_ctx_t" where
  "request_ctx (ReqStore ks k v opt) c =
     c\<lparr>ctx_opcode := KV_OPC_STORE, ctx_key := Some [k], ctx_value := Some v, ctx_ks_id := ks,
       ctx_command := store_info opt\<rparr>"
| "request_ctx (ReqRetrieve ks k v opt) c =
     c\<lparr>ctx_opcode := KV_OPC_GET, ctx_key := Some [k], ctx_value := Some v, ctx_ks_id := ks,
       ctx_command := get_info opt\<rparr>"
| "request_ctx (ReqExist ks keys cnt buf bsize) c =
     c\<lparr>ctx_opcode := KV_OPC_CHECK_KEY_EXIST, ctx_key := Some keys, ctx_value := None,
       ctx_ks_id := ks, ctx_command := key_exist_info cnt (Some buf) bsize\<rparr>"
| "request_ctx (ReqDelete ks k opt) c =
     c\<lparr>ctx_opcode := KV_OPC_DELETE, ctx_key := Some [k], ctx_value := None, ctx_ks_id := ks,
       ctx_command := delete_info opt\<rparr>"
| "request_ctx (ReqPurge ks opt) c =
     c\<lparr>ctx_opcode := KV_OPC_PURGE, ctx_key := None, ctx_value := None, ctx_ks_id := ks,
       ctx_command := purge_info opt\<rparr>"

definition ctx_reply :: "io_ctx_t \<Rightarrow> kv_reply option" where
  "ctx_reply c =
     (case (ctx_opcode c, ctx_command c, ctx_value c) of
        (KV_OPC_GET, _, Some v) \<Rightarrow> Some (RepValue (ctx_retcode c) v)
      | (KV_OPC_CHECK_KEY_EXIST, key_exist_info _ (Some buf) n, _) \<Rightarrow>
          Some (RepExist (ctx_retcode c) buf n)
      | (KV_OPC_STORE, _, _) \<Rightarrow> Some (RepResult (ctx_retcode c))
      | (KV_OPC_DELETE, _, _) \<Rightarrow> Some (RepResult (ctx_retcode c))
      | (KV_OPC_PURGE, _, _) \<Rightarrow> Some (RepResult (ctx_retcode c))
      | _ \<Rightarrow> None)"

text \<open>Executing the command of a request is the step of the namespace on that request.\<close>

lemma execute_request:
  assumes "ioctx cmd = request_ctx q c"
  shows "map_option (\<lambda>(cmd', ns'). (ctx_reply (ioctx cmd'), ns')) (execute_cmd cmd ns) =
    map_option (\<lambda>(a, ns'). (Some a, ns')) (ns_step q ns)"
proof (cases q)
  case (ReqStore ks k v opt)
  then show ?thesis
    by (cases "ns_kv_store ks (Some k) (Some v) opt 0 ns")
      (auto simp: execute_cmd_def assms deref_key_def set_retcode_def ctx_reply_def)
next
  case (ReqRetrieve ks k v opt)
  have "\<exists>v'. vp = Some v'" if "ns_kv_retrieve ks (Some k) opt (Some v) ns = Some (r, vp, ns')" for r vp ns'
    using that by (auto simp: ns_kv_retrieve_def split: if_splits bind_splits)
  with ReqRetrieve show ?thesis
    by (cases "ns_kv_retrieve ks (Some k) opt (Some v) ns")
      (fastforce simp: execute_cmd_def assms deref_key_def ctx_reply_def)+
next
  case (ReqExist ks keys cnt buf bsize)
  have "\<exists>b. bp = Some b" if "ns_kv_exist ks (Some keys) cnt (Some buf) bsize ns = Some (r, bp, n)" for r bp n
    using that by (auto simp: ns_kv_exist_def split: if_splits bind_splits)
  with ReqExist show ?thesis
    by (cases "ns_kv_exist ks (Some keys) cnt (Some buf) bsize ns")
      (fastforce simp: execute_cmd_def assms ctx_reply_def)+
next
  case (ReqDelete ks k opt)
  then show ?thesis
    by (cases "ns_kv_delete ks (Some k) opt (Some 0) ns")
      (auto simp: execute_cmd_def assms deref_key_def set_retcode_def ctx_reply_def)
next
  case (ReqPurge ks opt)
  then show ?thesis
    by (cases "ns_kv_purge ks opt ns")
      (auto simp: execute_cmd_def assms set_retcode_def ctx_reply_def)
qed

text \<open>Execution keeps the opcode, the callback and the queue of a command.\<close>

lemma execute_cmd_frame:
  "execute_cmd cmd ns = Some (cmd', ns') \<Longrightarrow> cmd_sqid cmd' = cmd_sqid cmd
    \<and> ctx_private_data (ioctx cmd') = ctx_private_data (ioctx cmd)
    \<and> ctx_post_fn (ioctx cmd') = ctx_post_fn (ioctx cmd)
    \<and> ctx_opcode (ioctx cmd') = ctx_opcode (ioctx cmd)"
  by (auto simp: execute_cmd_def set_retcode_def Let_def split: cmd_opcode_t.splits op_command.splits
      bind_splits if_splits)

end
