(* ===== verification/Kv_Queue.thy ===== *)
theory Kv_Queue
  imports Kv_Io_Cmd
begin

text \<open>
  The submission and completion queues of the emulator, class \<open>emul_ioqueue\<close> of
  \<open>PDK/core/src/device_abstract_layer/emulator/src/queue.cpp\<close> and
  \<open>include/private/queue.hpp\<close>, and the threads that move commands through them.

  A queue holds its commands in a \<open>boost::circular_buffer\<close>, which is not part of the sources:
  the record \<open>circular_buffer\<close> is its interface, an argument of every definition that uses
  it, and \<open>circular_buffer_laws\<close> is the documented behaviour the theorems assume: the buffer
  is a list with a capacity, and \<open>push_back\<close> on a full buffer drops the first element.

  The mutex makes \<open>enqueue\<close> and \<open>dequeue\<close> atomic. A call that has to wait for another thread
  is \<open>None\<close> in the current state. The threads are a step relation: a client submits, the
  worker of each submission queue takes a command, executes it and puts it into the
  completion queue, and a completion is taken out and its callback called, by a polling
  client or by the interrupt thread.
\<close>

section \<open>The circular buffer\<close>

record ('b, 'a) circular_buffer =
  cb_new :: "nat \<Rightarrow> 'b"
  cb_full :: "'b \<Rightarrow> bool"
  cb_empty :: "'b \<Rightarrow> bool"
  cb_size :: "'b \<Rightarrow> nat"
  cb_front :: "'b \<Rightarrow> 'a"
  cb_pop_front :: "'b \<Rightarrow> 'b"
  cb_push_back :: "'b \<Rightarrow> 'a \<Rightarrow> 'b"

definition circular_buffer_laws ::
    "('b, 'a) circular_buffer \<Rightarrow> ('b \<Rightarrow> 'a list) \<Rightarrow> ('b \<Rightarrow> nat) \<Rightarrow> bool" where
  "circular_buffer_laws B content capacity \<longleftrightarrow>
     (\<forall>n. content (cb_new B n) = [] \<and> capacity (cb_new B n) = n) \<and>
     (\<forall>b. cb_full B b \<longleftrightarrow> length (content b) = capacity b) \<and>
     (\<forall>b. cb_empty B b \<longleftrightarrow> content b = []) \<and>
     (\<forall>b. cb_size B b = length (content b)) \<and>
     (\<forall>b. content b \<noteq> [] \<longrightarrow> cb_front B b = hd (content b)) \<and>
     (\<forall>b. content b \<noteq> [] \<longrightarrow>
        content (cb_pop_front B b) = tl (content b) \<and> capacity (cb_pop_front B b) = capacity b) \<and>
     (\<forall>b x. content (cb_push_back B b x) =
        (if length (content b) < capacity b then content b @ [x]
         else if capacity b = 0 then content b else tl (content b) @ [x])) \<and>
     (\<forall>b x. capacity (cb_push_back B b x) = capacity b)"

section \<open>\<open>emul_ioqueue\<close>\<close>

record 'b emul_ioqueue =
  q_info :: kv_queue
  q_shutdown :: bool
  q_buf :: 'b

definition emul_ioqueue_new :: "('b, io_cmd) circular_buffer \<Rightarrow> kv_queue \<Rightarrow> 'b emul_ioqueue" where
  "emul_ioqueue_new B info =
     \<lparr>q_info = info, q_shutdown = False, q_buf = cb_new B (unat (queue_size info))\<rparr>"

text \<open>
  The loop of \<open>enqueue\<close>, evaluated with the lock held: the state in which the loop ends, or
  \<open>None\<close> when the thread waits on \<open>cond_notfull\<close> and evaluates it again later.
\<close>

definition enqueue_loop :: "('b, io_cmd) circular_buffer \<Rightarrow> io_cmd \<Rightarrow> bool \<Rightarrow> 'b emul_ioqueue \<Rightarrow>
    (kv_result \<times> 'b emul_ioqueue) option" where
  "enqueue_loop B cmd block q =
     (if cb_full B (q_buf q) \<and> \<not> q_shutdown q
      then (if \<not> block then Some (KV_ERR_QUEUE_IS_FULL, q) else None)
      else Some (KV_SUCCESS, q\<lparr>q_buf := cb_push_back B (q_buf q) cmd\<rparr>))"

definition enqueue :: "('b, io_cmd) circular_buffer \<Rightarrow> io_cmd \<Rightarrow> bool \<Rightarrow> 'b emul_ioqueue \<Rightarrow>
    (kv_result \<times> 'b emul_ioqueue) option" where
  "enqueue B cmd block q =
     (if q_shutdown q then Some (KV_ERR_QUEUE_IN_SHUTDOWN, q) else enqueue_loop B cmd block q)"

text \<open>
  \<open>dequeue\<close>: the command is \<open>None\<close> for the null pointer of an empty queue; \<open>timed_out\<close> says
  whether the wait, if there is one, ends by its time limit.
\<close>

definition dequeue :: "('b, io_cmd) circular_buffer \<Rightarrow> bool \<Rightarrow> u32 \<Rightarrow> bool \<Rightarrow> 'b emul_ioqueue \<Rightarrow>
    (kv_result \<times> io_cmd option \<times> 'b emul_ioqueue) option" where
  "dequeue B block timeout_usec timed_out q =
     (if cb_empty B (q_buf q) \<and> \<not> q_shutdown q then
        (if \<not> block then Some (KV_SUCCESS, None, q)
         else if timed_out \<and> timeout_usec \<noteq> 0 then Some (KV_ERR_TIMEOUT, None, q)
         else None)
      else if q_shutdown q then Some (KV_ERR_QUEUE_IN_SHUTDOWN, None, q)
      else Some (KV_SUCCESS, Some (cb_front B (q_buf q)), q\<lparr>q_buf := cb_pop_front B (q_buf q)\<rparr>))"

definition queue_empty :: "('b, io_cmd) circular_buffer \<Rightarrow> 'b emul_ioqueue \<Rightarrow> bool" where
  "queue_empty B q = cb_empty B (q_buf q)"

definition queue_len :: "('b, io_cmd) circular_buffer \<Rightarrow> 'b emul_ioqueue \<Rightarrow> nat" where
  "queue_len B q = cb_size B (q_buf q)"

text \<open>
  \<open>poll_completion\<close>: the loop takes up to \<open>count\<close> commands without waiting and calls their
  callbacks; the list holds the commands in the order of the calls.
\<close>

fun poll_loop :: "('b, io_cmd) circular_buffer \<Rightarrow> nat \<Rightarrow> u32 \<Rightarrow> 'b emul_ioqueue \<Rightarrow> io_cmd list \<Rightarrow>
    kv_result \<times> io_cmd list \<times> 'b emul_ioqueue" where
  "poll_loop B 0 timeout_usec q done = (KV_SUCCESS, done, q)"
| "poll_loop B (Suc i) timeout_usec q done =
     (case dequeue B False timeout_usec False q of
        Some (KV_SUCCESS, Some cmd, q') \<Rightarrow> poll_loop B i timeout_usec q' (done @ [cmd])
      | Some (KV_SUCCESS, None, q') \<Rightarrow> poll_loop B i timeout_usec q' done
      | Some (res, _, q') \<Rightarrow> (res, done, q')
      | None \<Rightarrow> (KV_ERR_TIMEOUT, done, q))"

definition poll_completion :: "('b, io_cmd) circular_buffer \<Rightarrow> u32 \<Rightarrow> u32 \<Rightarrow> 'b emul_ioqueue \<Rightarrow>
    kv_result \<times> u32 \<times> io_cmd list \<times> 'b emul_ioqueue" where
  "poll_completion B timeout_usec num_events q =
     (if queue_type (q_info q) \<noteq> COMPLETION_Q_TYPE then (KV_ERR_QUEUE_CQID_INVALID, num_events, [], q)
      else
        let count = max (min (unat num_events) 128) 1 in
        case poll_loop B count timeout_usec q [] of
          (res, done, q') \<Rightarrow>
            ((if res \<noteq> KV_SUCCESS then res else if queue_len B q' = 0 then KV_SUCCESS else KV_WRN_MORE),
             word_of_nat (length done), done, q'))"

text \<open>\<open>terminate\<close> deletes the commands that are still queued.\<close>

definition terminate :: "('b, io_cmd) circular_buffer \<Rightarrow> 'b emul_ioqueue \<Rightarrow> 'b emul_ioqueue" where
  "terminate B q =
     q\<lparr>q_shutdown := True,
       q_buf := (cb_pop_front B ^^ cb_size B (q_buf q)) (q_buf q)\<rparr>"

section \<open>The threads\<close>

text \<open>
  The one worker of a submission queue, between the calls of \<open>process_submitted_commands\<close>: it
  waits, it has taken a command, or it has executed one.
\<close>

datatype worker = Idle | Taken io_cmd | Finished io_cmd

text \<open>
  A device at work. \<open>p_out\<close> is the completion queue of each submission queue, \<open>p_done\<close> the
  commands whose callback was called, by completion queue. \<open>p_submitted\<close> and \<open>p_log\<close> record
  what happened: the commands submitted to each queue, and the commands in the order of
  their execution, before and after it.
\<close>

record 'b pipeline =
  p_ns :: kv_namespace_internal
  p_sq :: "u16 \<Rightarrow> 'b emul_ioqueue"
  p_cq :: "u16 \<Rightarrow> 'b emul_ioqueue"
  p_out :: "u16 \<Rightarrow> u16"
  p_worker :: "u16 \<Rightarrow> worker"
  p_done :: "u16 \<Rightarrow> io_cmd list"
  p_submitted :: "u16 \<Rightarrow> io_cmd list"
  p_log :: "(io_cmd \<times> io_cmd) list"

inductive pipe_step :: "('b, io_cmd) circular_buffer \<Rightarrow> 'b pipeline \<Rightarrow> 'b pipeline \<Rightarrow> bool"
  for B where
  submit: "get_sqid cmd = q \<Longrightarrow> enqueue B cmd block (p_sq s q) = Some (KV_SUCCESS, sq') \<Longrightarrow>
    pipe_step B s (s\<lparr>p_sq := (p_sq s)(q := sq'),
                     p_submitted := (p_submitted s)(q := p_submitted s q @ [cmd])\<rparr>)"
| take_cmd: "p_worker s q = Idle \<Longrightarrow> dequeue B True 0 False (p_sq s q) = Some (KV_SUCCESS, Some cmd, sq') \<Longrightarrow>
    pipe_step B s (s\<lparr>p_sq := (p_sq s)(q := sq'), p_worker := (p_worker s)(q := Taken cmd)\<rparr>)"
| execute: "p_worker s q = Taken cmd \<Longrightarrow> execute_cmd cmd (p_ns s) = Some (cmd', ns') \<Longrightarrow>
    pipe_step B s (s\<lparr>p_ns := ns', p_worker := (p_worker s)(q := Finished cmd'),
                     p_log := p_log s @ [(cmd, cmd')]\<rparr>)"
| put: "p_worker s q = Finished cmd \<Longrightarrow> enqueue B cmd True (p_cq s (p_out s q)) = Some (KV_SUCCESS, cq') \<Longrightarrow>
    pipe_step B s (s\<lparr>p_cq := (p_cq s)(p_out s q := cq'), p_worker := (p_worker s)(q := Idle)\<rparr>)"
| callback: "dequeue B False 0 False (p_cq s c) = Some (KV_SUCCESS, Some cmd, cq') \<Longrightarrow>
    pipe_step B s (s\<lparr>p_cq := (p_cq s)(c := cq'), p_done := (p_done s)(c := p_done s c @ [cmd])\<rparr>)"

text \<open>A device that starts with the given queues and namespace.\<close>

definition pipe_init :: "('b, io_cmd) circular_buffer \<Rightarrow> (u16 \<Rightarrow> kv_queue) \<Rightarrow> (u16 \<Rightarrow> kv_queue) \<Rightarrow>
    kv_namespace_internal \<Rightarrow> 'b pipeline" where
  "pipe_init B sqs cqs ns =
     \<lparr>p_ns = ns, p_sq = (\<lambda>q. emul_ioqueue_new B (sqs q)), p_cq = (\<lambda>c. emul_ioqueue_new B (cqs c)),
      p_out = (\<lambda>q. completion_queue_id (sqs q)), p_worker = (\<lambda>_. Idle), p_done = (\<lambda>_. []),
      p_submitted = (\<lambda>_. []), p_log = []\<rparr>"

inductive_cases pipe_stepE: "pipe_step B s s'"

end
