(* ===== verification/Kv_Pipeline.thy ===== *)
theory Kv_Pipeline
  imports Kv_Queue
begin

text \<open>
  What the queues and threads of \<open>Kv_Queue\<close> guarantee together
  (\<open>PDK/core/src/device_abstract_layer/emulator/src/queue.cpp\<close>). The invariant of a device at
  work accounts for every command: it is waiting in its submission queue, with the worker,
  in the completion queue or delivered, and its place in the order of execution is the order
  of submission. The namespace has executed the log one command after the other. From this
  follow that no command is lost or duplicated, that each submission queue is served first
  in first out, and that the callbacks deliver the replies of the specification for some
  sequential order of the requests.
\<close>

section \<open>Queue operations on the contents\<close>

lemma cb_laws:
  assumes "circular_buffer_laws B content capacity"
  shows cb_law_new: "content (cb_new B n) = []" "capacity (cb_new B n) = n"
    and cb_law_full: "cb_full B b \<longleftrightarrow> length (content b) = capacity b"
    and cb_law_empty: "cb_empty B b \<longleftrightarrow> content b = []"
    and cb_law_size: "cb_size B b = length (content b)"
    and cb_law_front: "content b \<noteq> [] \<Longrightarrow> cb_front B b = hd (content b)"
    and cb_law_pop: "content b \<noteq> [] \<Longrightarrow> content (cb_pop_front B b) = tl (content b)"
      "content b \<noteq> [] \<Longrightarrow> capacity (cb_pop_front B b) = capacity b"
    and cb_law_push: "length (content b) < capacity b \<Longrightarrow> content (cb_push_back B b x) = content b @ [x]"
      "capacity (cb_push_back B b x) = capacity b"
  using assms unfolding circular_buffer_laws_def by simp_all

definition q_ok :: "('b \<Rightarrow> io_cmd list) \<Rightarrow> ('b \<Rightarrow> nat) \<Rightarrow> 'b emul_ioqueue \<Rightarrow> bool" where
  "q_ok content capacity q \<longleftrightarrow>
     \<not> q_shutdown q \<and> length (content (q_buf q)) \<le> capacity (q_buf q)"

lemma enqueue_success:
  assumes "circular_buffer_laws B content capacity" and "q_ok content capacity q"
    and "enqueue B cmd block q = Some (KV_SUCCESS, q')"
  shows "content (q_buf q') = content (q_buf q) @ [cmd]" and "q_ok content capacity q'"
    and "capacity (q_buf q') = capacity (q_buf q)" and "q_info q' = q_info q"
proof -
  have nf: "length (content (q_buf q)) < capacity (q_buf q)"
    and q': "q' = q\<lparr>q_buf := cb_push_back B (q_buf q) cmd\<rparr>"
    using assms(2,3) cb_law_full [OF assms(1)]
    by (auto simp: enqueue_def enqueue_loop_def q_ok_def split: if_splits)
  show "content (q_buf q') = content (q_buf q) @ [cmd]" "capacity (q_buf q') = capacity (q_buf q)"
    "q_info q' = q_info q"
    using nf cb_law_push [OF assms(1)] by (simp_all add: q')
  then show "q_ok content capacity q'" using nf assms(2) by (simp add: q' q_ok_def)
qed

lemma dequeue_success:
  assumes "circular_buffer_laws B content capacity" and "q_ok content capacity q"
    and "dequeue B block t to q = Some (KV_SUCCESS, Some cmd, q')"
  shows "content (q_buf q) = cmd # content (q_buf q')" and "q_ok content capacity q'"
    and "capacity (q_buf q') = capacity (q_buf q)" and "q_info q' = q_info q"
proof -
  have ne: "content (q_buf q) \<noteq> []" and cmd: "cmd = cb_front B (q_buf q)"
    and q': "q' = q\<lparr>q_buf := cb_pop_front B (q_buf q)\<rparr>"
    using assms(2,3) cb_law_empty [OF assms(1)] by (auto simp: dequeue_def q_ok_def split: if_splits)
  show c: "content (q_buf q) = cmd # content (q_buf q')" "capacity (q_buf q') = capacity (q_buf q)"
    "q_info q' = q_info q"
    using ne cmd cb_law_front [OF assms(1) ne] cb_law_pop [OF assms(1) ne] by (simp_all add: q')
  then show "q_ok content capacity q'" using assms(2) by (simp add: q' q_ok_def)
qed

lemma dequeue_nonempty:
  assumes "circular_buffer_laws B content capacity" and "q_ok content capacity q"
    and "content (q_buf q) \<noteq> []"
  shows "\<exists>q'. dequeue B block t to q = Some (KV_SUCCESS, Some (hd (content (q_buf q))), q')"
  using assms cb_law_empty [OF assms(1)] cb_law_front [OF assms(1,3)] by (simp add: dequeue_def q_ok_def)

lemma enqueue_room:
  assumes "circular_buffer_laws B content capacity" and "q_ok content capacity q"
    and "length (content (q_buf q)) < capacity (q_buf q)"
  shows "\<exists>q'. enqueue B cmd block q = Some (KV_SUCCESS, q')"
  using assms cb_law_full [OF assms(1)] by (simp add: enqueue_def enqueue_loop_def q_ok_def)

section \<open>The invariant of a device at work\<close>

text \<open>The sequential run the device is compared with.\<close>

fun exec_all :: "io_cmd list \<Rightarrow> kv_namespace_internal \<Rightarrow> (io_cmd list \<times> kv_namespace_internal) option" where
  "exec_all [] ns = Some ([], ns)"
| "exec_all (c # cs) ns =
     do { (c', ns') \<leftarrow> execute_cmd c ns; (cs', ns'') \<leftarrow> exec_all cs ns'; Some (c' # cs', ns'') }"

lemma exec_all_snoc:
  "exec_all (cs @ [c]) ns =
     do { (cs', ns') \<leftarrow> exec_all cs ns; (c', ns'') \<leftarrow> execute_cmd c ns'; Some (cs' @ [c'], ns'') }"
  by (induction cs arbitrary: ns) (auto split: bind_split)

fun taken :: "worker \<Rightarrow> io_cmd list" where
  "taken (Taken c) = [c]"
| "taken _ = []"

fun finished :: "worker \<Rightarrow> io_cmd list" where
  "finished (Finished c) = [c]"
| "finished _ = []"

definition log_of :: "u16 \<Rightarrow> (io_cmd \<times> io_cmd) list \<Rightarrow> (io_cmd \<times> io_cmd) list" where
  "log_of q l = filter (\<lambda>x. get_sqid (fst x) = q) l"

definition of_sq :: "u16 \<Rightarrow> io_cmd list \<Rightarrow> io_cmd list" where
  "of_sq q cs = filter (\<lambda>c. get_sqid c = q) cs"

lemma log_of_simps [simp]:
  "log_of q [] = []" "log_of q (l @ l') = log_of q l @ log_of q l'"
  "log_of q [x] = (if get_sqid (fst x) = q then [x] else [])"
  by (simp_all add: log_of_def)

lemma of_sq_simps [simp]:
  "of_sq q [] = []" "of_sq q (cs @ cs') = of_sq q cs @ of_sq q cs'"
  "of_sq q (c # cs) = (if get_sqid c = q then c # of_sq q cs else of_sq q cs)"
  by (simp_all add: of_sq_def)

definition pipe_inv :: "('b \<Rightarrow> io_cmd list) \<Rightarrow> ('b \<Rightarrow> nat) \<Rightarrow> kv_namespace_internal \<Rightarrow>
    'b pipeline \<Rightarrow> bool" where
  "pipe_inv content capacity ns0 s \<longleftrightarrow>
     (\<forall>q. q_ok content capacity (p_sq s q)) \<and>
     (\<forall>c. q_ok content capacity (p_cq s c)) \<and>
     (\<forall>q. \<forall>c \<in> set (taken (p_worker s q) @ finished (p_worker s q) @ content (q_buf (p_sq s q))).
        get_sqid c = q) \<and>
     (\<forall>q. p_submitted s q =
        map fst (log_of q (p_log s)) @ taken (p_worker s q) @ content (q_buf (p_sq s q))) \<and>
     (\<forall>q. map snd (log_of q (p_log s)) =
        of_sq q (p_done s (p_out s q) @ content (q_buf (p_cq s (p_out s q)))) @ finished (p_worker s q)) \<and>
     exec_all (map fst (p_log s)) ns0 = Some (map snd (p_log s), p_ns s)"

lemma pipe_invD:
  assumes "pipe_inv content capacity ns0 s"
  shows pi_sq: "q_ok content capacity (p_sq s q)" and pi_cq: "q_ok content capacity (p_cq s c)"
    and pi_own: "x \<in> set (taken (p_worker s q) @ finished (p_worker s q) @ content (q_buf (p_sq s q))) \<Longrightarrow>
      get_sqid x = q"
    and pi_sub: "p_submitted s q =
      map fst (log_of q (p_log s)) @ taken (p_worker s q) @ content (q_buf (p_sq s q))"
    and pi_done: "map snd (log_of q (p_log s)) =
      of_sq q (p_done s (p_out s q) @ content (q_buf (p_cq s (p_out s q)))) @ finished (p_worker s q)"
    and pi_exec: "exec_all (map fst (p_log s)) ns0 = Some (map snd (p_log s), p_ns s)"
  using assms unfolding pipe_inv_def by blast+

lemma pipe_inv_init:
  "circular_buffer_laws B content capacity \<Longrightarrow> pipe_inv content capacity ns (pipe_init B sqs cqs ns)"
  by (simp add: pipe_inv_def pipe_init_def emul_ioqueue_new_def q_ok_def cb_law_new)

lemma pipe_step_inv:
  assumes B: "circular_buffer_laws B content capacity"
    and inv: "pipe_inv content capacity ns0 s" and step: "pipe_step B s s'"
  shows "pipe_inv content capacity ns0 s'"
  using step
proof (cases rule: pipe_step.cases)
  case (submit cmd q block sq')
  note e = enqueue_success [OF B pi_sq [OF inv] submit(3)]
  show ?thesis
    unfolding pipe_inv_def submit(1)
    using inv e submit(2) by (auto simp: pipe_inv_def)
next
  case (take_cmd q cmd sq')
  note e = dequeue_success [OF B pi_sq [OF inv] take_cmd(3)]
  have "get_sqid cmd = q" using pi_own [OF inv, of cmd q] e(1) by simp
  then show ?thesis
    unfolding pipe_inv_def take_cmd(1)
    using inv e take_cmd(2) by (auto simp: pipe_inv_def)
next
  case (execute q cmd cmd' ns')
  have q: "get_sqid cmd = q" using pi_own [OF inv, of cmd q] execute(2) by simp
  have q': "get_sqid cmd' = q" using execute_cmd_frame [OF execute(3)] q by (simp add: get_sqid_def)
  have "exec_all (map fst (p_log s) @ [cmd]) ns0 = Some (map snd (p_log s) @ [cmd'], ns')"
    using pi_exec [OF inv] execute(3) by (simp add: exec_all_snoc)
  then show ?thesis
    unfolding pipe_inv_def execute(1)
    using inv execute(2) q q' by (auto simp: pipe_inv_def)
next
  case (put q cmd cq')
  note e = enqueue_success [OF B pi_cq [OF inv] put(3)]
  have q: "get_sqid cmd = q" using pi_own [OF inv, of cmd q] put(2) by simp
  show ?thesis
    unfolding pipe_inv_def put(1)
    using inv e put(2) q by (auto simp: pipe_inv_def)
next
  case (callback c cmd cq')
  note e = dequeue_success [OF B pi_cq [OF inv] callback(2)]
  show ?thesis
    unfolding pipe_inv_def callback(1)
    using inv e by (auto simp: pipe_inv_def)
qed

lemma pipe_reach_inv:
  assumes "circular_buffer_laws B content capacity" and "(pipe_step B)\<^sup>*\<^sup>* (pipe_init B sqs cqs ns) s"
  shows "pipe_inv content capacity ns s"
  using assms(2) by (induction rule: rtranclp_induct)
    (auto intro: pipe_inv_init [OF assms(1)] pipe_step_inv [OF assms(1)])

section \<open>Commands that carry requests\<close>

text \<open>Every submitted command is the command of a well-formed request, as the device builds it.\<close>

definition carries :: "(io_cmd \<Rightarrow> kv_request) \<Rightarrow> io_cmd \<Rightarrow> bool" where
  "carries rq c \<longleftrightarrow> (\<exists>ctx. ioctx c = request_ctx (rq c) ctx) \<and> request_ok (rq c)"

lemma execute_carried:
  assumes "carries rq c"
  shows "execute_cmd c ns = Some (c', ns') \<Longrightarrow>
      \<exists>a. ns_step (rq c) ns = Some (a, ns') \<and> ctx_reply (ioctx c') = Some a"
    and "ns_ready ns \<Longrightarrow> execute_cmd c ns \<noteq> None"
proof -
  obtain ctx where ctx: "ioctx c = request_ctx (rq c) ctx" using assms by (auto simp: carries_def)
  note ex = execute_request [OF ctx, of ns]
  show "\<exists>a. ns_step (rq c) ns = Some (a, ns') \<and> ctx_reply (ioctx c') = Some a"
    if "execute_cmd c ns = Some (c', ns')"
    using ex that by (cases "ns_step (rq c) ns") auto
  show "execute_cmd c ns \<noteq> None" if "ns_ready ns"
    using ex nspace.step_total [OF that, of "rq c"] assms by (auto simp: carries_def)
qed

lemma exec_all_carried:
  assumes "list_all (carries rq) cs" and "exec_all cs ns = Some (cs', ns')"
  shows "\<exists>as. api_run ns_step (map rq cs) ns = Some (as, ns') \<and> map (\<lambda>c. ctx_reply (ioctx c)) cs' = map Some as"
  using assms
proof (induction cs arbitrary: ns cs')
  case Nil
  then show ?case by simp
next
  case (Cons c cs)
  then obtain c1 ns1 cs1 where e: "execute_cmd c ns = Some (c1, ns1)" "exec_all cs ns1 = Some (cs1, ns')"
    "cs' = c1 # cs1" by (auto split: bind_splits)
  from e(2) Cons obtain as where "api_run ns_step (map rq cs) ns1 = Some (as, ns')"
    "map (\<lambda>c. ctx_reply (ioctx c)) cs1 = map Some as" by force
  with e Cons.prems(1) execute_carried(1) [of rq c ns c1 ns1] show ?case by auto
qed

text \<open>What was executed had been submitted.\<close>

lemma log_submitted:
  assumes "pipe_inv content capacity ns0 s" and "x \<in> set (p_log s)"
  shows "fst x \<in> set (p_submitted s (get_sqid (fst x)))"
  using assms(2) by (auto simp: pi_sub [OF assms(1)] log_of_def)

lemma log_carried:
  assumes "pipe_inv content capacity ns0 s" and "\<forall>q. list_all (carries rq) (p_submitted s q)"
  shows "list_all (carries rq) (map fst (p_log s))"
  using log_submitted [OF assms(1)] assms(2) by (fastforce simp: list_all_iff)

lemma pipe_refines:
  assumes "pipe_inv content capacity ns0 s" and "ns_ready ns0"
    and "\<forall>q. list_all (carries rq) (p_submitted s q)"
  defines "spec \<equiv> spec_run (map (rq \<circ> fst) (p_log s)) (ns_contents ns0)"
  shows "map (\<lambda>x. ctx_reply (ioctx (snd x))) (p_log s) = map Some (fst spec)"
    and "ns_ready (p_ns s)" and "ns_contents (p_ns s) = snd spec"
proof -
  note l = log_carried [OF assms(1,3)]
  have ok: "list_all request_ok (map rq (map fst (p_log s)))"
    using l by (auto simp: list_all_iff carries_def)
  obtain as where a: "api_run ns_step (map rq (map fst (p_log s))) ns0 = Some (as, p_ns s)"
    "map (\<lambda>c. ctx_reply (ioctx c)) (map snd (p_log s)) = map Some as"
    using exec_all_carried [OF l pi_exec [OF assms(1)]] by blast
  with nspace.run_refines [OF assms(2) ok]
  show "map (\<lambda>x. ctx_reply (ioctx (snd x))) (p_log s) = map Some (fst spec)"
    "ns_ready (p_ns s)" "ns_contents (p_ns s) = snd spec"
    by (auto simp: spec_def comp_def)
qed

section \<open>Progress\<close>

text \<open>The steps of the threads, without new submissions.\<close>

definition sys_step :: "('b, io_cmd) circular_buffer \<Rightarrow> 'b pipeline \<Rightarrow> 'b pipeline \<Rightarrow> bool" where
  "sys_step B s s' \<longleftrightarrow> pipe_step B s s' \<and> p_submitted s' = p_submitted s"

fun worker_work :: "worker \<Rightarrow> nat" where
  "worker_work Idle = 0"
| "worker_work (Taken c) = 3"
| "worker_work (Finished c) = 2"

definition pipe_work :: "('b \<Rightarrow> io_cmd list) \<Rightarrow> 'b pipeline \<Rightarrow> nat" where
  "pipe_work content s =
     (\<Sum>q \<in> UNIV. 4 * length (content (q_buf (p_sq s q))) + worker_work (p_worker s q)) +
     (\<Sum>c \<in> UNIV. length (content (q_buf (p_cq s c))))"

lemma sum_fun_upd_at:
  fixes f :: "u16 \<Rightarrow> nat"
  assumes "\<And>x. x \<noteq> a \<Longrightarrow> g x = f x" and "g a + d = f a + d'"
  shows "sum g UNIV + d = sum f UNIV + d'"
proof -
  have "sum g (UNIV - {a}) = sum f (UNIV - {a})" using assms(1) by (intro sum.cong) auto
  then show ?thesis
    using assms(2) sum.remove [of UNIV a g] sum.remove [of UNIV a f] by simp
qed

lemma sys_step_work:
  assumes B: "circular_buffer_laws B content capacity"
    and inv: "pipe_inv content capacity ns0 s" and step: "sys_step B s s'"
  shows "Suc (pipe_work content s') = pipe_work content s"
proof -
  let ?f = "\<lambda>s q. 4 * length (content (q_buf (p_sq s q))) + worker_work (p_worker s q)"
  let ?g = "\<lambda>s c. length (content (q_buf (p_cq s c)))"
  from step have "pipe_step B s s'" and sub: "p_submitted s' = p_submitted s" by (auto simp: sys_step_def)
  then show ?thesis
  proof (cases rule: pipe_step.cases)
    case (submit cmd q block sq')
    then have "p_submitted s' q \<noteq> p_submitted s q" by simp
    with sub show ?thesis by simp
  next
    case (take_cmd q cmd sq')
    note e = dequeue_success [OF B pi_sq [OF inv] take_cmd(3)]
    have "sum (?f s') UNIV + 1 = sum (?f s) UNIV + 0"
      by (rule sum_fun_upd_at [of q]) (simp_all add: take_cmd e(1))
    then show ?thesis by (simp add: pipe_work_def take_cmd(1))
  next
    case (execute q cmd cmd' ns')
    have "sum (?f s') UNIV + 1 = sum (?f s) UNIV + 0"
      by (rule sum_fun_upd_at [of q]) (simp_all add: execute)
    then show ?thesis by (simp add: pipe_work_def execute(1))
  next
    case (put q cmd cq')
    note e = enqueue_success [OF B pi_cq [OF inv] put(3)]
    have "sum (?f s') UNIV + 2 = sum (?f s) UNIV + 0"
      by (rule sum_fun_upd_at [of q]) (simp_all add: put)
    moreover have "sum (?g s') UNIV + 0 = sum (?g s) UNIV + 1"
      by (rule sum_fun_upd_at [of "p_out s q"]) (simp_all add: put e(1))
    ultimately show ?thesis by (simp add: pipe_work_def)
  next
    case (callback c cmd cq')
    note e = dequeue_success [OF B pi_cq [OF inv] callback(2)]
    have "sum (?g s') UNIV + 1 = sum (?g s) UNIV + 0"
      by (rule sum_fun_upd_at [of c]) (simp_all add: callback e(1))
    then show ?thesis by (simp add: pipe_work_def callback(1))
  qed
qed

lemma sys_step_progress:
  assumes B: "circular_buffer_laws B content capacity" and inv: "pipe_inv content capacity ns0 s"
    and ready: "ns_ready ns0" and car: "\<forall>q. list_all (carries rq) (p_submitted s q)"
    and cap: "\<forall>c. 0 < capacity (q_buf (p_cq s c))" and work: "pipe_work content s \<noteq> 0"
  shows "\<exists>s'. sys_step B s s'"
proof -
  consider c where "content (q_buf (p_cq s c)) \<noteq> []"
    | q x where "\<forall>c. content (q_buf (p_cq s c)) = []" "p_worker s q = Finished x"
    | q x where "p_worker s q = Taken x"
    | q where "p_worker s q = Idle" "content (q_buf (p_sq s q)) \<noteq> []"
  proof -
    assume t: "\<And>c. content (q_buf (p_cq s c)) \<noteq> [] \<Longrightarrow> thesis"
      "\<And>q x. \<lbrakk>\<forall>c. content (q_buf (p_cq s c)) = []; p_worker s q = Finished x\<rbrakk> \<Longrightarrow> thesis"
      "\<And>q x. p_worker s q = Taken x \<Longrightarrow> thesis"
      "\<And>q. \<lbrakk>p_worker s q = Idle; content (q_buf (p_sq s q)) \<noteq> []\<rbrakk> \<Longrightarrow> thesis"
    show thesis
    proof (rule ccontr)
      assume n: "\<not> thesis"
      then have c: "content (q_buf (p_cq s c)) = []" for c using t(1) by blast
      have "p_worker s q = Idle" for q using n t(2,3) c by (cases "p_worker s q") blast+
      moreover from this have "content (q_buf (p_sq s q)) = []" for q using n t(4) by blast
      ultimately have "pipe_work content s = 0" by (simp add: pipe_work_def c)
      with work show False by simp
    qed
  qed
  then show ?thesis
  proof cases
    case (1 c)
    from dequeue_nonempty [OF B pi_cq [OF inv] 1] obtain cq' where
      "dequeue B False 0 False (p_cq s c) = Some (KV_SUCCESS, Some (hd (content (q_buf (p_cq s c)))), cq')"
      by blast
    from callback [OF this] show ?thesis by (auto simp: sys_step_def)
  next
    case (2 q x)
    then obtain cq' where "enqueue B x True (p_cq s (p_out s q)) = Some (KV_SUCCESS, cq')"
      using enqueue_room [OF B pi_cq [OF inv]] cap by fastforce
    from put [OF 2(2) this] show ?thesis by (auto simp: sys_step_def)
  next
    case (3 q x)
    have "x \<in> set (p_submitted s q)" using 3 by (simp add: pi_sub [OF inv])
    with car have "carries rq x" by (auto simp: list_all_iff)
    then have "execute_cmd x (p_ns s) \<noteq> None"
      using execute_carried(2) pipe_refines(2) [OF inv ready car] by blast
    then obtain x' ns' where "execute_cmd x (p_ns s) = Some (x', ns')" by fastforce
    from execute [OF 3 this, of B] show ?thesis by (auto simp: sys_step_def)
  next
    case (4 q)
    from dequeue_nonempty [OF B pi_sq [OF inv] 4(2)] obtain sq' where
      "dequeue B True 0 False (p_sq s q) = Some (KV_SUCCESS, Some (hd (content (q_buf (p_sq s q)))), sq')"
      by blast
    from take_cmd [OF 4(1) this] show ?thesis by (auto simp: sys_step_def)
  qed
qed

text \<open>The threads bring every submitted command to its callback.\<close>

definition all_delivered :: "'b pipeline \<Rightarrow> bool" where
  "all_delivered s \<longleftrightarrow> (\<forall>q. length (of_sq q (p_done s (p_out s q))) = length (p_submitted s q))"

lemma no_work_delivered:
  assumes "pipe_inv content capacity ns0 s" and "pipe_work content s = 0"
  shows "all_delivered s"
proof -
  have sq: "content (q_buf (p_sq s q)) = []" "worker_work (p_worker s q) = 0"
    and cq: "content (q_buf (p_cq s c)) = []" for q c
    using assms(2) by (simp_all add: pipe_work_def)
  have w: "p_worker s q = Idle" for q using sq(2) by (cases "p_worker s q") (metis worker_work.simps zero_neq_numeral)+
  show ?thesis unfolding all_delivered_def
  proof
    fix q
    have "length (map snd (log_of q (p_log s))) = length (of_sq q (p_done s (p_out s q)))"
      unfolding pi_done [OF assms(1)] by (simp add: cq w)
    then show "length (of_sq q (p_done s (p_out s q))) = length (p_submitted s q)"
      unfolding pi_sub [OF assms(1)] by (simp add: sq w)
  qed
qed

lemma sys_step_caps:
  assumes "circular_buffer_laws B content capacity" and "pipe_inv content capacity ns0 s" and "pipe_step B s s'"
  shows "capacity (q_buf (p_sq s' q)) = capacity (q_buf (p_sq s q))"
    and "capacity (q_buf (p_cq s' c)) = capacity (q_buf (p_cq s c))" and "p_out s' = p_out s"
  using assms(3) enqueue_success(3) [OF assms(1) pi_sq [OF assms(2)]]
    enqueue_success(3) [OF assms(1) pi_cq [OF assms(2)]]
    dequeue_success(3) [OF assms(1) pi_sq [OF assms(2)]]
    dequeue_success(3) [OF assms(1) pi_cq [OF assms(2)]]
  by (auto elim!: pipe_stepE)

lemma pipe_drain:
  assumes B: "circular_buffer_laws B content capacity" and ready: "ns_ready ns0"
    and inv: "pipe_inv content capacity ns0 s" and car: "\<forall>q. list_all (carries rq) (p_submitted s q)"
    and cap: "\<forall>c. 0 < capacity (q_buf (p_cq s c))"
  shows "\<exists>s'. (sys_step B ^^ pipe_work content s) s s' \<and> all_delivered s' \<and> p_submitted s' = p_submitted s"
  using inv car cap
proof (induction "pipe_work content s" arbitrary: s)
  case 0
  then show ?case using no_work_delivered [of content capacity ns0 s] by auto
next
  case (Suc n)
  then obtain s1 where s1: "sys_step B s s1" using sys_step_progress [OF B _ ready] by (metis nat.distinct(1))
  then have p: "pipe_step B s s1" "p_submitted s1 = p_submitted s" by (auto simp: sys_step_def)
  have inv1: "pipe_inv content capacity ns0 s1" using pipe_step_inv [OF B Suc.prems(1) p(1)] .
  have w1: "n = pipe_work content s1" using sys_step_work [OF B Suc.prems(1) s1] Suc.hyps(2) by simp
  have cap1: "\<forall>c. 0 < capacity (q_buf (p_cq s1 c))"
    using Suc.prems(3) sys_step_caps(2) [OF B Suc.prems(1) p(1)] by simp
  from Suc.hyps(1) [OF w1 inv1 _ cap1] p(2) Suc.prems(2) obtain s' where
    "(sys_step B ^^ n) s1 s'" "all_delivered s'" "p_submitted s' = p_submitted s" by (auto simp: w1)
  with s1 have "(sys_step B ^^ Suc n) s s'" by (meson relpowp_Suc_I2)
  with \<open>all_delivered s'\<close> \<open>p_submitted s' = p_submitted s\<close> Suc.hyps(2) show ?case by auto
qed

lemma sys_steps_reach: "(sys_step B ^^ n) s s' \<Longrightarrow> (pipe_step B)\<^sup>*\<^sup>* s s'"
proof (induction n arbitrary: s')
  case (Suc n)
  then obtain s1 where "(sys_step B ^^ n) s s1" "sys_step B s1 s'" by auto
  then have "(pipe_step B)\<^sup>*\<^sup>* s s1" "pipe_step B s1 s'" using Suc.IH unfolding sys_step_def by blast+
  then show ?case by (meson rtranclp.rtrancl_into_rtrancl)
qed simp

lemma pipe_reach_caps:
  assumes "circular_buffer_laws B content capacity" and "(pipe_step B)\<^sup>*\<^sup>* (pipe_init B sqs cqs ns) s"
  shows "capacity (q_buf (p_sq s q)) = unat (queue_size (sqs q))
    \<and> capacity (q_buf (p_cq s c)) = unat (queue_size (cqs c))
    \<and> p_out s q = completion_queue_id (sqs q)"
  using assms(2)
proof (induction rule: rtranclp_induct)
  case base
  then show ?case by (simp add: pipe_init_def emul_ioqueue_new_def cb_law_new(2) [OF assms(1)])
next
  case (step s1 s2)
  then show ?case
    using sys_step_caps [OF assms(1) pipe_reach_inv [OF assms(1) step(1)] step(2)] by simp
qed

text \<open>What was delivered of a submission queue is an initial part of what was executed of it.\<close>

lemma pipe_delivered:
  assumes "circular_buffer_laws B content capacity" and "(pipe_step B)\<^sup>*\<^sup>* (pipe_init B sqs cqs ns) s"
  shows "\<exists>rest. map snd (log_of q (p_log s)) = of_sq q (p_done s (completion_queue_id (sqs q))) @ rest"
  using pi_done [OF pipe_reach_inv [OF assms], of q] pipe_reach_caps [OF assms, of q q] by simp

text \<open>A command only ever comes to the completion queue of its submission queue.\<close>

lemma pipe_home:
  assumes "circular_buffer_laws B content capacity" and "(pipe_step B)\<^sup>*\<^sup>* (pipe_init B sqs cqs ns) s"
  shows "\<forall>x \<in> set (p_done s c @ content (q_buf (p_cq s c))). p_out s (get_sqid x) = c"
  using assms(2)
proof (induction arbitrary: c rule: rtranclp_induct)
  case base
  then show ?case by (simp add: pipe_init_def emul_ioqueue_new_def cb_law_new [OF assms(1)])
next
  case (step s1 s2)
  note inv = pipe_reach_inv [OF assms(1) step(1)]
  from step(2) show ?case
  proof (cases rule: pipe_step.cases)
    case (put q cmd cq')
    have "get_sqid cmd = q" using pi_own [OF inv, of cmd q] put(2) by simp
    then show ?thesis
      using step.IH [of c] enqueue_success(1) [OF assms(1) pi_cq [OF inv] put(3)] put(2) by (auto simp: put(1))
  next
    case (callback c' cmd cq')
    then show ?thesis
      using step.IH [of c] dequeue_success(1) [OF assms(1) pi_cq [OF inv] callback(2)] by (auto simp: callback(1))
  qed (use step.IH [of c] in simp_all)
qed

text \<open>The records of what happened only grow.\<close>

lemma pipe_grows:
  assumes "(pipe_step B)\<^sup>*\<^sup>* s s'"
  shows "(\<exists>later. p_log s' = p_log s @ later) \<and> (\<forall>q. \<exists>new. p_submitted s' q = p_submitted s q @ new)"
  using assms
proof (induction rule: rtranclp_induct)
  case (step s1 s2)
  have "(\<exists>later. p_log s2 = p_log s1 @ later) \<and> (\<forall>q. \<exists>new. p_submitted s2 q = p_submitted s1 q @ new)"
    using step(2) by (cases rule: pipe_step.cases) auto
  with step.IH show ?case by (metis append_assoc)
qed simp

section \<open>Properties\<close>

text \<open>A circular buffer as a list with a capacity, as boost documents it.\<close>

definition list_buffer :: "(io_cmd list \<times> nat, io_cmd) circular_buffer" where
  "list_buffer =
     \<lparr>cb_new = (\<lambda>n. ([], n)), cb_full = (\<lambda>b. length (fst b) = snd b), cb_empty = (\<lambda>b. fst b = []),
      cb_size = (\<lambda>b. length (fst b)), cb_front = (\<lambda>b. hd (fst b)), cb_pop_front = (\<lambda>b. (tl (fst b), snd b)),
      cb_push_back = (\<lambda>b x. (if length (fst b) < snd b then fst b @ [x]
                             else if snd b = 0 then fst b else tl (fst b) @ [x], snd b))\<rparr>"

lemma list_buffer_laws: "circular_buffer_laws list_buffer fst snd"
  by (simp add: circular_buffer_laws_def list_buffer_def)

text \<open>
  A device with one submission queue 1 and one completion queue 2, to which one store of the
  sample key has been submitted.
\<close>

definition sample_request :: kv_request where
  "sample_request = ReqStore 1 sample_key sample_value KV_STORE_OPT_DEFAULT"

definition sample_cmd :: io_cmd where
  "sample_cmd = \<lparr>ioctx = request_ctx sample_request
     \<lparr>ctx_opcode = KV_OPC_STORE, ctx_key = None, ctx_value = None, ctx_private_data = 0,
      ctx_retcode = KV_SUCCESS, ctx_buffer_size = 0, ctx_buffer_count = 0, ctx_hiter = 0,
      ctx_post_fn = True, ctx_timeout_usec = 0, ctx_ks_id = 0,
      ctx_command = store_info KV_STORE_OPT_DEFAULT\<rparr>, cmd_sqid = 1\<rparr>"

definition sample_sqs :: "u16 \<Rightarrow> kv_queue" where
  "sample_sqs q = \<lparr>queue_id = q, queue_size = 4, completion_queue_id = 2, queue_type = SUBMISSION_Q_TYPE\<rparr>"

definition sample_cqs :: "u16 \<Rightarrow> kv_queue" where
  "sample_cqs q = \<lparr>queue_id = q, queue_size = 4, completion_queue_id = 0, queue_type = COMPLETION_Q_TYPE\<rparr>"

definition sample_start :: "(io_cmd list \<times> nat) pipeline" where
  "sample_start = pipe_init list_buffer sample_sqs sample_cqs sample_ns"

lemma sample_submit:
  "\<exists>s. (pipe_step list_buffer)\<^sup>*\<^sup>* sample_start s \<and> p_log s = []
    \<and> p_submitted s = (\<lambda>q. if q = 1 then [sample_cmd] else [])"
proof -
  have sq: "get_sqid sample_cmd = 1" by (simp add: get_sqid_def sample_cmd_def)
  obtain sq' where "enqueue list_buffer sample_cmd True (p_sq sample_start 1) = Some (KV_SUCCESS, sq')"
    by (simp add: enqueue_def enqueue_loop_def sample_start_def pipe_init_def list_buffer_def
        emul_ioqueue_new_def sample_sqs_def)
  from submit [OF sq this] show ?thesis
    by (intro exI conjI, rule r_into_rtranclp) (auto simp: sample_start_def pipe_init_def)
qed

lemma sample_carries: "carries (\<lambda>_. sample_request) sample_cmd"
proof -
  have "\<exists>ctx. ioctx sample_cmd = request_ctx sample_request ctx"
    unfolding sample_cmd_def by (rule exI) (rule io_cmd.select_convs(1))
  then show ?thesis by (simp add: carries_def) (simp add: sample_request_def)
qed

text \<open>
  C8. No command is lost, duplicated or reordered within its queue. At every moment the
  commands submitted to a submission queue are those already executed, the one the worker
  holds and those waiting, in this order; what the callbacks delivered of the commands of a
  submission queue is an initial part of its executed commands in the same order; all
  executions together are one sequential run of the namespace; and neither a submission queue
  nor a completion queue ever holds more commands than its size.
\<close>

theorem pipeline_fifo:
  assumes "circular_buffer_laws B content capacity"
    and "(pipe_step B)\<^sup>*\<^sup>* (pipe_init B sqs cqs ns) s"
  shows "p_submitted s q = map fst (log_of q (p_log s)) @ taken (p_worker s q) @ content (q_buf (p_sq s q))
    \<and> (\<exists>rest. map snd (log_of q (p_log s)) = of_sq q (p_done s (completion_queue_id (sqs q))) @ rest)
    \<and> exec_all (map fst (p_log s)) ns = Some (map snd (p_log s), p_ns s)
    \<and> length (content (q_buf (p_sq s q))) \<le> unat (queue_size (sqs q))
    \<and> length (content (q_buf (p_cq s c))) \<le> unat (queue_size (cqs c))"
proof -
  note inv = pipe_reach_inv [OF assms] and caps = pipe_reach_caps [OF assms, of q c]
  have "length (content (q_buf (p_sq s q))) \<le> unat (queue_size (sqs q))"
    "length (content (q_buf (p_cq s c))) \<le> unat (queue_size (cqs c))"
    using pi_sq [OF inv, of q] pi_cq [OF inv, of c] caps by (simp_all add: q_ok_def)
  then show ?thesis
    using pi_sub [OF inv, of q] pi_exec [OF inv] pipe_delivered [OF assms, of q] by blast
qed

text \<open>
  C2. The device is linearizable. Take any two moments of a run in which the submitted
  commands are those of well-formed requests. The executed commands stand in one order, the
  log. Restricted to a submission queue, the log is what was submitted to the queue, each
  command once and in order, except for the command the worker holds and those still waiting.
  The callbacks of the queue delivered an initial part of the log of the queue, each on the
  completion queue of its submission queue and no other. Every executed command carries the
  reply the specification gives when it runs the requests one after the other in the order of
  the log from the initial contents, and the contents of the device are the ones the
  specification ends with. The order respects real time: the log of the earlier moment is an
  initial part of the later one, it holds every command that was delivered by then, and what
  is submitted after that moment is executed in the part that follows.
\<close>

theorem pipeline_linearizable:
  assumes "circular_buffer_laws B content capacity"
    and "(pipe_step B)\<^sup>*\<^sup>* (pipe_init B sqs cqs ns) s0" and "(pipe_step B)\<^sup>*\<^sup>* s0 s" and "ns_ready ns"
    and "\<forall>q. list_all (carries rq) (p_submitted s q)"
  shows "map (\<lambda>x. ctx_reply (ioctx (snd x))) (p_log s) =
      map Some (fst (spec_run (map (rq \<circ> fst) (p_log s)) (ns_contents ns)))
    \<and> ns_contents (p_ns s) = snd (spec_run (map (rq \<circ> fst) (p_log s)) (ns_contents ns))
    \<and> (\<forall>q. p_submitted s q = map fst (log_of q (p_log s)) @ taken (p_worker s q) @ content (q_buf (p_sq s q)))
    \<and> (\<forall>q. \<exists>rest. map snd (log_of q (p_log s)) = of_sq q (p_done s (completion_queue_id (sqs q))) @ rest)
    \<and> (\<forall>c. \<forall>x \<in> set (p_done s c). c = completion_queue_id (sqs (get_sqid x)))
    \<and> (\<exists>later. p_log s = p_log s0 @ later)
    \<and> (\<forall>q. (\<exists>new. p_submitted s q = p_submitted s0 q @ new)
        \<and> (\<exists>rest. map snd (log_of q (p_log s0)) = of_sq q (p_done s0 (completion_queue_id (sqs q))) @ rest)
        \<and> length (log_of q (p_log s0)) \<le> length (p_submitted s0 q))"
proof -
  have reach: "(pipe_step B)\<^sup>*\<^sup>* (pipe_init B sqs cqs ns) s" using assms(2,3) by simp
  note inv = pipe_reach_inv [OF assms(1) reach] and inv0 = pipe_reach_inv [OF assms(1,2)]
  have "length (log_of q (p_log s0)) \<le> length (p_submitted s0 q)" for q by (simp add: pi_sub [OF inv0])
  moreover have "\<forall>c. \<forall>x \<in> set (p_done s c). c = completion_queue_id (sqs (get_sqid x))"
    using pipe_home [OF assms(1) reach] pipe_reach_caps [OF assms(1) reach]
    by (metis Un_iff set_append)
  ultimately show ?thesis
    using pipe_refines(1,3) [OF inv assms(4,5)] pi_sub [OF inv] pipe_delivered [OF assms(1,2)]
      pipe_delivered [OF assms(1) reach] pipe_grows [OF assms(3)] by blast
qed

text \<open>
  C7. Every command is answered. From every state the device can reach with well-formed
  requests and completion queues of a positive size, the threads on their own finish after a
  bounded number of steps, in whatever order they run, and then every submitted command had
  its callback; as long as one is missing, some thread can take a step.
\<close>

theorem pipeline_drains:
  assumes "circular_buffer_laws B content capacity"
    and "(pipe_step B)\<^sup>*\<^sup>* (pipe_init B sqs cqs ns) s" and "ns_ready ns"
    and "\<forall>q. list_all (carries rq) (p_submitted s q)" and "\<forall>c. queue_size (cqs c) \<noteq> 0"
  shows "(\<forall>n s'. (sys_step B ^^ n) s s' \<longrightarrow> n \<le> pipe_work content s
        \<and> (all_delivered s' \<or> (\<exists>s''. sys_step B s' s'')))
    \<and> (\<exists>s'. (sys_step B ^^ pipe_work content s) s s' \<and> all_delivered s' \<and> p_submitted s' = p_submitted s)"
proof -
  note B = assms(1)
  have inv: "pipe_inv content capacity ns s" by (rule pipe_reach_inv [OF assms(1,2)])
  have cap: "\<forall>c. 0 < capacity (q_buf (p_cq s c))"
    using pipe_reach_caps [OF assms(1,2)] assms(5) by (metis neq0_conv unat_eq_0)
  have "n + pipe_work content s' = pipe_work content s \<and> pipe_inv content capacity ns s'
      \<and> p_submitted s' = p_submitted s \<and> (\<forall>c. 0 < capacity (q_buf (p_cq s' c)))"
    if "(sys_step B ^^ n) s s'" for n s'
    using that
  proof (induction n arbitrary: s')
    case 0
    then show ?case using inv cap by simp
  next
    case (Suc n)
    then obtain s1 where s1: "(sys_step B ^^ n) s s1" "sys_step B s1 s'" by auto
    then have p: "pipe_step B s1 s'" "p_submitted s' = p_submitted s1" by (auto simp: sys_step_def)
    note IH = Suc.IH [OF s1(1)]
    show ?case
      using IH p sys_step_work [OF B _ s1(2), of ns] pipe_step_inv [OF B _ p(1), of ns]
        sys_step_caps(2) [OF B _ p(1), of ns] by simp
  qed
  then have "n \<le> pipe_work content s \<and> (all_delivered s' \<or> (\<exists>s''. sys_step B s' s''))"
    if "(sys_step B ^^ n) s s'" for n s'
    using that no_work_delivered [of content capacity ns s'] assms(4)
      sys_step_progress [OF B _ assms(3), of s' rq] by (metis le_add1)
  with pipe_drain [OF B assms(3) inv assms(4) cap] show ?thesis by blast
qed

theorem pipeline_fifo_witness:
  "\<exists>s. (pipe_step list_buffer)\<^sup>*\<^sup>* sample_start s \<and> p_log s = []
    \<and> taken (p_worker s 1) @ fst (q_buf (p_sq s 1)) = [sample_cmd]"
proof -
  obtain s where s: "(pipe_step list_buffer)\<^sup>*\<^sup>* sample_start s" "p_log s = []"
    "p_submitted s = (\<lambda>q. if q = 1 then [sample_cmd] else [])" using sample_submit by blast
  with pipeline_fifo [OF list_buffer_laws s(1) [unfolded sample_start_def], of 1] show ?thesis
    by (auto simp: log_of_def)
qed

theorem pipeline_drains_witness:
  "\<exists>s s'. (pipe_step list_buffer)\<^sup>*\<^sup>* sample_start s \<and> p_submitted s 1 = [sample_cmd]
    \<and> (sys_step list_buffer ^^ pipe_work fst s) s s' \<and> length (of_sq 1 (p_done s' (p_out s' 1))) = 1"
proof -
  obtain s where s: "(pipe_step list_buffer)\<^sup>*\<^sup>* sample_start s"
    "p_submitted s = (\<lambda>q. if q = 1 then [sample_cmd] else [])" using sample_submit by blast
  have "\<forall>q. list_all (carries (\<lambda>_. sample_request)) (p_submitted s q)" by (simp add: s(2) sample_carries)
  from pipeline_drains [OF list_buffer_laws s(1) [unfolded sample_start_def] sample_ns_ready this]
  obtain s' where "(sys_step list_buffer ^^ pipe_work fst s) s s'" "all_delivered s'" "p_submitted s' = p_submitted s"
    by (auto simp: sample_cqs_def)
  moreover from this have "length (of_sq 1 (p_done s' (p_out s' 1))) = 1" by (simp add: all_delivered_def s(2))
  moreover have "p_submitted s 1 = [sample_cmd]" by (simp add: s(2))
  ultimately show ?thesis using s(1) by blast
qed

theorem pipeline_linearizable_witness:
  "\<exists>s0 s. (pipe_step list_buffer)\<^sup>*\<^sup>* sample_start s0 \<and> (pipe_step list_buffer)\<^sup>*\<^sup>* s0 s
    \<and> p_log s0 = [] \<and> p_submitted s0 1 = [sample_cmd] \<and> map fst (p_log s) = [sample_cmd]
    \<and> map (\<lambda>x. ctx_reply (ioctx (snd x))) (p_log s) =
        map Some (fst (spec_run [sample_request] (ns_contents sample_ns)))"
proof -
  obtain s where s: "(pipe_step list_buffer)\<^sup>*\<^sup>* sample_start s"
    "p_submitted s = (\<lambda>q. if q = 1 then [sample_cmd] else [])" "p_log s = []" using sample_submit by blast
  have car: "\<forall>q. list_all (carries (\<lambda>_. sample_request)) (p_submitted s q)" by (simp add: s(2) sample_carries)
  note L = list_buffer_laws and r = s(1) [unfolded sample_start_def]
  have cap: "\<forall>c. 0 < snd (q_buf (p_cq s c))"
    using pipe_reach_caps [OF L r] by (simp add: sample_cqs_def)
  obtain s' where s': "(sys_step list_buffer ^^ pipe_work fst s) s s'" "all_delivered s'"
    "p_submitted s' = p_submitted s"
    using pipe_drain [OF L sample_ns_ready pipe_reach_inv [OF L r] car cap] by blast
  have r': "(pipe_step list_buffer)\<^sup>*\<^sup>* (pipe_init list_buffer sample_sqs sample_cqs sample_ns) s'"
    using r sys_steps_reach [OF s'(1)] by simp
  note inv = pipe_reach_inv [OF L r']
  have log: "map fst (log_of q (p_log s')) = p_submitted s' q" for q
  proof -
    have "length (p_submitted s' q) \<le> length (log_of q (p_log s'))"
      using s'(2) arg_cong [OF pi_done [OF inv, of q], of length] by (simp add: all_delivered_def)
    then show ?thesis using pi_sub [OF inv, of q] by (auto dest: arg_cong [of _ _ length])
  qed
  have "log_of 1 (p_log s') = p_log s'"
    unfolding log_of_def
  proof (rule filter_True, rule ballI)
    fix x assume "x \<in> set (p_log s')"
    then have "fst x \<in> set (p_submitted s' (get_sqid (fst x)))" by (rule log_submitted [OF inv])
    then show "get_sqid (fst x) = 1" by (auto simp: s'(3) s(2) split: if_splits)
  qed
  then have one: "map fst (p_log s') = [sample_cmd]" using log [of 1] by (simp add: s'(3) s(2))
  have rqs: "map ((\<lambda>_. sample_request) \<circ> fst) (p_log s') = [sample_request]"
    using arg_cong [OF one, of "map (\<lambda>_. sample_request)"] by (simp add: comp_def)
  have "\<forall>q. list_all (carries (\<lambda>_. sample_request)) (p_submitted s' q)" using car s'(3) by simp
  from pipeline_linearizable [OF L r sys_steps_reach [OF s'(1)] sample_ns_ready this, unfolded rqs] show ?thesis
    using s one sys_steps_reach [OF s'(1)] by (intro exI [of _ s] exI [of _ s']) simp
qed

end
