(* ===== verification/Kv_Config.thy ===== *)
theory Kv_Config
  imports Kv_Adi_Types
begin

text \<open>
  The configuration file of the emulator: \<open>kv_config\<close>
  (\<open>PDK/core/src/device_abstract_layer/emulator/src/kv_config.cpp\<close>) with the library
  functions it uses on strings, and the settings the constructor of \<open>kv_device_internal\<close>
  (\<open>kv_device.cpp\<close>) reads from it.

  The lines \<open>std::getline\<close> gives are a parameter; a file that cannot be opened has none. A
  position \<open>std::string::npos\<close> is \<open>None\<close>. An exception that \<open>std::stoull\<close> or \<open>std::stoi\<close>
  throws and nothing catches is \<open>None\<close> as well.
\<close>

section \<open>Strings\<close>

definition find_first_not_of :: "string \<Rightarrow> string \<Rightarrow> nat option" where
  "find_first_not_of delims s =
     (let n = length (takeWhile (\<lambda>c. c \<in> set delims) s) in if n < length s then Some n else None)"

definition find_last_not_of :: "string \<Rightarrow> string \<Rightarrow> nat option" where
  "find_last_not_of delims s =
     (let n = length (takeWhile (\<lambda>c. c \<in> set delims) (rev s)) in
      if n < length s then Some (length s - Suc n) else None)"

definition find_char :: "char \<Rightarrow> string \<Rightarrow> nat option" where
  "find_char c s = (let n = length (takeWhile (\<lambda>d. d \<noteq> c) s) in if n < length s then Some n else None)"

fun starts_with :: "string \<Rightarrow> string \<Rightarrow> bool" where
  "starts_with [] s \<longleftrightarrow> True"
| "starts_with (c # cs) s \<longleftrightarrow> (case s of [] \<Rightarrow> False | d # ds \<Rightarrow> c = d \<and> starts_with cs ds)"

fun contains :: "string \<Rightarrow> string \<Rightarrow> bool" where
  "contains [] p \<longleftrightarrow> p = []"
| "contains (c # cs) p \<longleftrightarrow> starts_with p (c # cs) \<or> contains cs p"

definition c_tolower :: "char \<Rightarrow> char" where
  "c_tolower c = (if 65 \<le> (of_char c :: nat) \<and> (of_char c :: nat) \<le> 90 then char_of ((of_char c :: nat) + 32) else c)"

definition strcasecmp_eq :: "string \<Rightarrow> string \<Rightarrow> bool" where
  "strcasecmp_eq s t \<longleftrightarrow> map c_tolower s = map c_tolower t"

definition c_isspace :: "char \<Rightarrow> bool" where
  "c_isspace c \<longleftrightarrow> (of_char c :: nat) = 32 \<or> 9 \<le> (of_char c :: nat) \<and> (of_char c :: nat) \<le> 13"

definition c_isdigit :: "char \<Rightarrow> bool" where
  "c_isdigit c \<longleftrightarrow> 48 \<le> (of_char c :: nat) \<and> (of_char c :: nat) \<le> 57"

definition digits_val :: "string \<Rightarrow> nat" where
  "digits_val = foldl (\<lambda>v c. 10 * v + ((of_char c :: nat) - 48)) 0"

text \<open>White space, a sign, and a maximal run of digits: its value, the sign and the end.\<close>

definition scan_number :: "string \<Rightarrow> (bool \<times> nat \<times> nat) option" where
  "scan_number s =
     (let sp = length (takeWhile c_isspace s); s1 = drop sp s;
          neg = (s1 \<noteq> [] \<and> hd s1 = CHR ''-'');
          sg = (if s1 \<noteq> [] \<and> (hd s1 = CHR ''-'' \<or> hd s1 = CHR ''+'') then 1 else 0);
          ds = takeWhile c_isdigit (drop sg s1)
      in if ds = [] then None else Some (neg, digits_val ds, sp + sg + length ds))"

definition stoull :: "string \<Rightarrow> (u64 \<times> nat) option" where
  "stoull s =
     do { (neg, n, pos) \<leftarrow> scan_number s;
          require (n < 2 ^ 64);
          Some (if neg then - word_of_nat n else word_of_nat n, pos) }"

definition stoi :: "string \<Rightarrow> int option" where
  "stoi s =
     do { (neg, n, pos) \<leftarrow> scan_number s;
          let v = (if neg then - int n else int n);
          require (- (2 ^ 31) \<le> v \<and> v < 2 ^ 31);
          Some v }"

section \<open>\<open>kv_config\<close>\<close>

definition white :: string where
  "white = [CHR '' '', CHR 0x09, CHR 0x0D, CHR 0x0A]"

definition trim :: "string \<Rightarrow> string" where
  "trim source =
     (let result = (case find_last_not_of white source of
                      Some index \<Rightarrow> take (Suc index) source | None \<Rightarrow> source)
      in case find_first_not_of white result of
           Some index \<Rightarrow> drop index result | None \<Rightarrow> [])"

type_synonym kv_config = "(string, string) map"

definition getkv :: "kv_config \<Rightarrow> string \<Rightarrow> string \<Rightarrow> string" where
  "getkv m_config_kv section key =
     (case m_config_kv (section @ ''/'' @ key) of None \<Rightarrow> '''' | Some v \<Rightarrow> v)"

text \<open>One turn of the loop of \<open>load_config\<close>; \<open>insert\<close> keeps an entry that is already there.\<close>

definition config_line :: "string \<Rightarrow> string \<times> kv_config \<Rightarrow> string \<times> kv_config" where
  "config_line raw st =
     (let line = trim raw; (section_name, m) = st in
      if line = [] then st
      else if hd line = CHR ''#'' then st
      else if hd line = CHR '';'' then st
      else if hd line = CHR ''['' then
        (trim (case find_char (CHR '']'') line of
                 Some p \<Rightarrow> take (p - 1) (drop 1 line) | None \<Rightarrow> drop 1 line), m)
      else
        let (key, val) = (case find_char (CHR ''='') line of
                            Some p \<Rightarrow> (trim (take p line), trim (drop (Suc p) line))
                          | None \<Rightarrow> (trim line, trim line));
            k = section_name @ ''/'' @ key
        in (section_name, if k \<in> dom m then m else m(k \<mapsto> val)))"

definition load_config :: "string list \<Rightarrow> kv_config" where
  "load_config lines = snd (fold config_line lines ([], Map.empty))"

definition opcode_to_string :: "cmd_opcode_t \<Rightarrow> string" where
  "opcode_to_string opcode =
     (case opcode of
        KV_OPC_GET \<Rightarrow> ''GET'' | KV_OPC_STORE \<Rightarrow> ''STORE'' | KV_OPC_DELETE \<Rightarrow> ''DELETE''
      | KV_OPC_PURGE \<Rightarrow> ''PURGE'' | KV_OPC_CHECK_KEY_EXIST \<Rightarrow> ''CHECK_KEY_EXIST''
      | KV_OPC_OPEN_ITERATOR \<Rightarrow> ''OPEN_ITERATOR'' | KV_OPC_CLOSE_ITERATOR \<Rightarrow> ''CLOSE_ITERATOR''
      | KV_OPC_ITERATE_NEXT \<Rightarrow> ''ITERATE_NEXT'' | KV_OPC_SANITIZE_DEVICE \<Rightarrow> ''SANITIZE_DEVICE''
      | _ \<Rightarrow> '''')"

definition get_mean_latency :: "kv_config \<Rightarrow> cmd_opcode_t \<Rightarrow> u32 option" where
  "get_mean_latency m opcode =
     map_option word_of_int
       (stoi (case m (''latency'' @ ''/'' @ opcode_to_string opcode @ ''.mean'') of
                None \<Rightarrow> ''0'' | Some l \<Rightarrow> l))"

definition get_stdev_latency :: "kv_config \<Rightarrow> cmd_opcode_t \<Rightarrow> u32 option" where
  "get_stdev_latency m opcode =
     map_option word_of_int
       (stoi (case m (''latency'' @ ''/'' @ opcode_to_string opcode @ ''.stdev'') of
                None \<Rightarrow> ''0'' | Some l \<Rightarrow> l))"

section \<open>The settings of a device\<close>

abbreviation GB :: u64 where "GB \<equiv> 1073741824"

definition config_capacity :: "string \<Rightarrow> u64 option" where
  "config_capacity cap_str =
     (if cap_str = [] then Some (512 * GB)
      else do { (n, pos) \<leftarrow> stoull cap_str;
                let unit_str = map c_tolower (drop pos cap_str);
                let n' = (if n \<le> 0 then 4 * GB else n);
                Some (if contains unit_str ''gb'' then n' * GB
                      else n' * (1024 * 1024)) })"

definition config_polling :: "string \<Rightarrow> bool \<Rightarrow> bool" where
  "config_polling poll is_polling =
     (if strcasecmp_eq poll ''false'' then False
      else if strcasecmp_eq poll ''true'' then True else is_polling)"

definition config_flag :: "string \<Rightarrow> bool" where
  "config_flag s = (\<not> strcasecmp_eq s ''false'')"

section \<open>Trimming\<close>

abbreviation is_white :: "char \<Rightarrow> bool" where "is_white c \<equiv> c \<in> set white"

definition rtrim :: "string \<Rightarrow> string" where
  "rtrim s = rev (dropWhile is_white (rev s))"

lemma dropWhile_take_drop: "dropWhile P xs = drop (length (takeWhile P xs)) xs"
  by (metis append_eq_conv_conj takeWhile_dropWhile_id)

lemma takeWhile_all: "\<not> length (takeWhile P xs) < length xs \<Longrightarrow> dropWhile P xs = []"
  by (simp add: dropWhile_take_drop)

lemma dropWhile_white [simp]: "set w \<subseteq> set white \<Longrightarrow> dropWhile is_white (w @ s) = dropWhile is_white s"
  by (induction w) auto

lemma trim_eq: "trim s = dropWhile is_white (rtrim s)"
proof -
  have r: "rtrim s = take (length s - length (takeWhile is_white (rev s))) s"
    by (simp add: rtrim_def dropWhile_take_drop rev_drop)
  have f: "(case find_first_not_of white t of Some i \<Rightarrow> drop i t | None \<Rightarrow> []) = dropWhile is_white t" for t
    using takeWhile_all [of is_white t] by (simp add: find_first_not_of_def Let_def dropWhile_take_drop)
  have "dropWhile is_white s = []" if "\<not> length (takeWhile is_white (rev s)) < length s"
    using takeWhile_all [of is_white "rev s"] that by (auto simp: dropWhile_eq_Nil_conv)
  moreover have "Suc (length s - Suc n) = length s - n" if "n < length s" for n using that by simp
  ultimately show ?thesis
    unfolding trim_def f Let_def find_last_not_of_def r
    by (auto simp: dropWhile_eq_Nil_conv dest: in_set_takeD)
qed

lemma rtrim_simps [simp]:
  "rtrim [] = []" "set w \<subseteq> set white \<Longrightarrow> rtrim (s @ w) = rtrim s"
  "\<not> is_white c \<Longrightarrow> rtrim (x @ c # s) = x @ c # rtrim s"
proof -
  show "rtrim (s @ w) = rtrim s" if "set w \<subseteq> set white"
    using that dropWhile_white [of "rev w" "rev s"] by (simp add: rtrim_def)
  show "rtrim (x @ c # s) = x @ c # rtrim s" if "\<not> is_white c"
    using that by (auto simp: rtrim_def dropWhile_append dropWhile_eq_Nil_conv)
qed (simp add: rtrim_def)

text \<open>A string that begins and ends with a character that is not white.\<close>

definition tight :: "string \<Rightarrow> bool" where
  "tight s \<longleftrightarrow> (s \<noteq> [] \<longrightarrow> \<not> is_white (hd s) \<and> \<not> is_white (last s))"

lemma tight_trim:
  assumes "tight s" and "set w \<subseteq> set white" and "set w' \<subseteq> set white"
  shows "trim (w @ s @ w') = s"
proof (cases "s = []")
  case True
  then have "rtrim (w @ s @ w') = []"
    using assms(2,3) rtrim_simps(2) [of "w @ w'" "[]"] by simp
  then show ?thesis using True by (simp add: trim_eq)
next
  case False
  then obtain s' c where s: "s = s' @ [c]" by (metis rev_exhaust)
  then have "\<not> is_white c" using assms(1) by (simp add: tight_def)
  then have "rtrim (w @ s @ w') = w @ s" using assms(3) rtrim_simps(3) [of c "w @ s'" "w'"]
      rtrim_simps(2) [of w' "[]"] by (simp add: s)
  then show ?thesis using assms(1,2) False by (cases s) (auto simp: trim_eq tight_def)
qed

lemma find_char_append [simp]: "c \<notin> set x \<Longrightarrow> find_char c (x @ c # s) = Some (length x)"
  by (auto simp: find_char_def Let_def takeWhile_append)

section \<open>What a configuration file means\<close>

datatype config_item = Sect string | Entry string string

text \<open>The line shapes of the file: blank lines and comments, section headers, entries.\<close>

inductive line_for :: "string \<Rightarrow> config_item option \<Rightarrow> bool" where
  "set w \<subseteq> set white \<Longrightarrow> line_for w None"
| "set w \<subseteq> set white \<Longrightarrow> c = CHR ''#'' \<or> c = CHR '';'' \<Longrightarrow> line_for (w @ c # s) None"
| "set w \<subseteq> set white \<Longrightarrow> set w1 \<subseteq> set white \<Longrightarrow> set w2 \<subseteq> set white \<Longrightarrow> tight n \<Longrightarrow>
     CHR '']'' \<notin> set n \<Longrightarrow> line_for (w @ CHR ''['' # (w1 @ n @ w2) @ CHR '']'' # s) (Some (Sect n))"
| "set w \<subseteq> set white \<Longrightarrow> set w1 \<subseteq> set white \<Longrightarrow> set w2 \<subseteq> set white \<Longrightarrow> set w3 \<subseteq> set white \<Longrightarrow>
     tight k \<Longrightarrow> k \<noteq> [] \<Longrightarrow> hd k \<notin> set ''#;['' \<Longrightarrow> CHR ''='' \<notin> set k \<Longrightarrow> tight v \<Longrightarrow>
     line_for (w @ (k @ w1) @ CHR ''='' # (w2 @ v @ w3)) (Some (Entry k v))"

fun config_entries :: "string \<Rightarrow> config_item option list \<Rightarrow> (string \<times> string) list" where
  "config_entries sec [] = []"
| "config_entries sec (None # r) = config_entries sec r"
| "config_entries sec (Some (Sect n) # r) = config_entries n r"
| "config_entries sec (Some (Entry k v) # r) = (sec @ ''/'' @ k, v) # config_entries sec r"

fun item_step :: "config_item option \<Rightarrow> string \<times> kv_config \<Rightarrow> string \<times> kv_config" where
  "item_step None st = st"
| "item_step (Some (Sect n)) st = (n, snd st)"
| "item_step (Some (Entry k v)) st =
     (fst st, let k' = fst st @ ''/'' @ k in if k' \<in> dom (snd st) then snd st else (snd st)(k' \<mapsto> v))"

lemma not_white [simp]:
  "\<not> is_white (CHR ''#'')" "\<not> is_white (CHR '';'')" "\<not> is_white (CHR ''['')" "\<not> is_white (CHR '']'')"
  "\<not> is_white (CHR ''='')"
  by (simp_all add: white_def)

lemma white_not_delim: "set w \<subseteq> set white \<Longrightarrow> CHR '']'' \<notin> set w \<and> CHR ''='' \<notin> set w"
  using not_white by blast

lemma config_line_item:
  assumes "line_for l i"
  shows "config_line l st = item_step i st"
  using assms
proof cases
  case 1
  then have "trim l = []" using tight_trim [of "[]" l "[]"] by (simp add: tight_def)
  then show ?thesis using 1 by (simp add: config_line_def split: prod.split)
next
  case (2 w c s)
  then have "\<not> is_white c" by auto
  then have "trim l = c # rtrim s" using 2 by (simp add: trim_eq)
  then show ?thesis using 2 by (auto simp: config_line_def Let_def split: prod.split)
next
  case (3 w w1 w2 n s)
  let ?h = "CHR ''['' # (w1 @ n @ w2)"
  have "rtrim l = w @ ?h @ CHR '']'' # rtrim s"
    using rtrim_simps(3) [of "CHR '']''" "w @ ?h" s] by (simp add: 3)
  then have t: "trim l = ?h @ CHR '']'' # rtrim s" using 3 by (simp add: trim_eq)
  have "find_char (CHR '']'') (trim l) = Some (length ?h)"
    unfolding t by (rule find_char_append) (use 3 white_not_delim in auto)
  moreover have "trim (w1 @ n @ w2) = n" by (rule tight_trim) (use 3 in auto)
  ultimately show ?thesis unfolding config_line_def t Let_def by (simp add: 3 split: prod.split)
next
  case (4 w w1 w2 w3 k v)
  let ?r = "rtrim (w2 @ v @ w3)"
  have "rtrim l = w @ (k @ w1) @ CHR ''='' # ?r"
    using rtrim_simps(3) [of "CHR ''=''" "w @ k @ w1" "w2 @ v @ w3"] by (simp add: 4)
  moreover obtain c k' where k: "k = c # k'" using 4 by (cases k) auto
  ultimately have t: "trim l = (k @ w1) @ CHR ''='' # ?r" using 4 by (simp add: trim_eq tight_def)
  have f: "find_char (CHR ''='') (trim l) = Some (length (k @ w1))"
    unfolding t by (rule find_char_append) (use 4 white_not_delim in auto)
  have r: "rtrim ?r = ?r" by (simp add: rtrim_def dropWhile_idem)
  have "trim ?r = trim (w2 @ v @ w3)" unfolding trim_eq r ..
  moreover have "trim (k @ w1) = k" using tight_trim [of k "[]" w1] 4 by simp
  moreover have "trim (w2 @ v @ w3) = v" by (rule tight_trim) (use 4 in auto)
  ultimately show ?thesis using 4 f unfolding config_line_def t Let_def
    by (auto simp: k split: prod.split)
qed

lemma item_steps: "snd (fold item_step items (sec, m)) = map_of (config_entries sec items) ++ m"
  by (induction sec items arbitrary: m rule: config_entries.induct)
    (auto simp: Let_def fun_eq_iff map_add_def split: option.split)

section \<open>Decimal numbers\<close>

function decimal :: "nat \<Rightarrow> string" where
  "decimal n = (if n < 10 then [char_of (48 + n)] else decimal (n div 10) @ [char_of (48 + n mod 10)])"
  by auto
termination by (relation "measure id") auto

declare decimal.simps [simp del]

lemma decimal_digits: "list_all c_isdigit (decimal n) \<and> decimal n \<noteq> [] \<and> digits_val (decimal n) = n"
proof (induction n rule: decimal.induct)
  case (1 n)
  have d: "(of_char (char_of (48 + k) :: char) :: nat) = 48 + k" if "k < 10" for k :: nat
    using that by simp
  show ?case
  proof (cases "n < 10")
    case True
    then show ?thesis using d [of n] by (simp add: decimal.simps [of n] c_isdigit_def digits_val_def)
  next
    case False
    have "n mod 10 < 10" by simp
    from d [OF this] 1 [OF False] False show ?thesis
      by (simp add: decimal.simps [of n] c_isdigit_def digits_val_def)
  qed
qed

lemma stoull_decimal:
  assumes "n < 2 ^ 64" and "u = [] \<or> \<not> c_isdigit (hd u)"
  shows "stoull (decimal n @ u) = Some (word_of_nat n, length (decimal n))"
proof -
  obtain c ds where d: "decimal n = c # ds" "c_isdigit c" "list_all c_isdigit ds"
    using decimal_digits [of n] by (cases "decimal n") auto
  have c: "\<not> c_isspace c" "c \<noteq> CHR ''-''" "c \<noteq> CHR ''+''"
    using d(2) by (auto simp: c_isdigit_def c_isspace_def)
  have "takeWhile c_isdigit (ds @ u) = ds"
    using d(3) assms(2) by (subst takeWhile_append2) (auto simp: list_all_iff, cases u, auto)
  then have "scan_number (decimal n @ u) = Some (False, digits_val (decimal n), length (decimal n))"
    using d c by (simp add: scan_number_def)
  then show ?thesis using assms(1) decimal_digits [of n] by (simp add: stoull_def)
qed

section \<open>Properties\<close>

text \<open>
  C36. Loading a configuration file gives every entry of every section its value. For a file
  of blank lines, comments, section headers and entries, with any white space around names
  and values, the table holds exactly the entries under \<open>section/key\<close>, and where a key
  occurs twice in a section the first entry counts.
\<close>

theorem load_config_correct:
  assumes "list_all2 line_for lines items"
  shows "load_config lines = map_of (config_entries [] items)"
proof -
  have "fold config_line lines st = fold item_step items st" for st
    using assms by (induction arbitrary: st rule: list_all2_induct) (simp_all add: config_line_item)
  then show ?thesis by (simp add: load_config_def item_steps)
qed

theorem load_config_correct_witness:
  "load_config [''# device'', ''[general]'', ''  capacity = 2GB '', ''capacity=1MB''] =
     map_of [(''general/capacity'', ''2GB''), (''general/capacity'', ''1MB'')]"
proof -
  have "list_all2 line_for [''# device'', ''[general]'', ''  capacity = 2GB '', ''capacity=1MB'']
      [None, Some (Sect ''general''), Some (Entry ''capacity'' ''2GB''), Some (Entry ''capacity'' ''1MB'')]"
    using line_for.intros(2) [of "[]" "CHR ''#''" "'' device''"]
      line_for.intros(3) [of "[]" "[]" "[]" "''general''" "[]"]
      line_for.intros(4) [of "''  ''" "'' ''" "'' ''" "'' ''" "''capacity''" "''2GB''"]
      line_for.intros(4) [of "[]" "[]" "[]" "[]" "''capacity''" "''1MB''"]
    by (simp add: tight_def white_def)
  from load_config_correct [OF this] show ?thesis by simp
qed

text \<open>
  The capacity of the device is the configured number times its unit, in 64-bit
  arithmetic: gigabytes when the unit holds \<open>gb\<close> in any case, megabytes otherwise.
\<close>

theorem config_capacity_units:
  assumes "0 < n" and "n < 2 ^ 64" and "u = [] \<or> \<not> c_isdigit (hd u)"
  shows "config_capacity (decimal n @ u) =
    Some (word_of_nat n * (if contains (map c_tolower u) ''gb'' then 2 ^ 30 else 2 ^ 20))"
proof -
  have "unat (word_of_nat n :: u64) = n" using assms(2) by (simp add: unat_of_nat take_bit_nat_eq_self)
  then have "\<not> (word_of_nat n :: u64) \<le> 0" using assms(1) by (auto simp: word_le_nat_alt)
  moreover have "decimal n \<noteq> []" using decimal_digits [of n] by simp
  ultimately show ?thesis by (simp add: config_capacity_def stoull_decimal [OF assms(2,3)])
qed

theorem config_capacity_units_witness: "config_capacity ''16GB'' = Some 17179869184"
proof -
  have "decimal 16 = ''16''" by (simp add: decimal.simps [of 16] decimal.simps [of "Suc 0"] char_of_def bit_Suc_0_iff)
  with config_capacity_units [of 16 "''GB''"] show ?thesis
    by (simp add: c_isdigit_def c_tolower_def char_of_def bit_Suc_0_iff)
qed

text \<open>
  A configured capacity of zero does not give the four gigabytes the code falls back to:
  the fallback, already in bytes, is multiplied by the unit again.
\<close>

theorem config_capacity_zero:
  "config_capacity ''0GB'' = Some (4 * 2 ^ 60) \<and> config_capacity ''0MB'' = Some (4 * 2 ^ 50)"
  by (simp add: config_capacity_def stoull_def scan_number_def c_isspace_def c_isdigit_def digits_val_def
      c_tolower_def char_of_def bit_Suc_0_iff)

end
