(* ===== verification/Kv_Device.thy ===== *)
theory Kv_Device
  imports Kv_Pipeline Kv_Config
begin

text \<open>
  The emulated device and its queues: \<open>kv_device_internal\<close>
  (\<open>PDK/core/src/device_abstract_layer/emulator/src/kv_device.cpp\<close>), the part that creates and
  deletes devices and queues and answers queries about them.

  Queue and device objects live at addresses, so that a pointer to a deleted object is a
  value of the model: the queue table, the handles and the \<open>out\<close> member of a submission queue
  hold addresses, and using one that holds no object any more is undefined behaviour. The
  unordered maps are lists of pairs; no theorem depends on their order. A call returns, waits
  for another thread, or is undefined.
\<close>

section \<open>State\<close>

record kv_device_stat =
  namespace_count :: u16
  queue_count :: u16
  utilization :: u16
  waf :: u16

record kv_device =
  dev_version :: u32
  max_namespaces :: u16
  max_queues :: u16
  dev_capacity :: u64
  min_value_len :: u32
  max_value_len :: u32
  min_key_len :: u16
  max_key_len :: u16

text \<open>\<open>_kv_device_handle\<close>, \<open>_kv_queue_handle\<close> and \<open>_kv_namespace_handle\<close>.\<close>

record kv_device_handle =
  dh_devid :: u32
  dh_dev :: "nat option"

record kv_queue_handle =
  qh_qid :: u16
  qh_dev :: "nat option"
  qh_queue :: "nat option"

record kv_namespace_handle =
  nh_nsid :: u32
  nh_dev :: "nat option"
  nh_ns :: "u32 option"

text \<open>A queue object: the queue, its \<open>out\<close> pointer, and whether an interrupt handler is set.\<close>

record 'b ioqueue =
  io_que :: "'b emul_ioqueue"
  io_out :: "nat option"
  io_interrupt :: bool

record 'b kv_device_internal =
  m_initialized :: bool
  m_init_status :: kv_result
  m_devid :: u32
  m_device_info :: kv_device
  m_device_stat :: kv_device_stat
  m_ns_list :: "(u32 \<times> kv_namespace_internal) list"
  m_ioque_list :: "(u16 \<times> nat) list"
  m_sq_to_cq_pairs :: "(u16 \<times> u16) list"
  m_is_poll :: bool
  m_has_fixed_keylen :: bool
  m_use_iops_model :: bool
  m_capacity :: u64
  io_objects :: "nat \<rightharpoonup> 'b ioqueue"
  next_object :: nat

section \<open>Initialisation\<close>

text \<open>
  The constructor; \<open>None\<close> is an exception of \<open>stoull\<close>. The members that only hold times,
  paths and vendor data are left out.
\<close>

definition kv_device_internal_new :: "kv_config \<Rightarrow> bool \<Rightarrow> u32 \<Rightarrow> 'b kv_device_internal option" where
  "kv_device_internal_new m_config is_polling devid =
     do { capacity \<leftarrow> config_capacity (getkv m_config ''general'' ''capacity'');
          Some
            \<lparr>m_initialized = True, m_init_status = KV_SUCCESS, m_devid = devid,
             m_device_info =
               \<lparr>dev_version = 1, max_namespaces = 1, max_queues = 65535, dev_capacity = capacity,
                min_value_len = of_nat SAMSUNG_KV_MIN_VALUE_LEN, max_value_len = of_nat SAMSUNG_KV_MAX_VALUE_LEN,
                min_key_len = of_nat SAMSUNG_KV_MIN_KEY_LEN, max_key_len = of_nat SAMSUNG_KV_MAX_KEY_LEN\<rparr>,
             m_device_stat = \<lparr>namespace_count = 1, queue_count = 2, utilization = 0, waf = 0\<rparr>,
             m_ns_list = [], m_ioque_list = [], m_sq_to_cq_pairs = [],
             m_is_poll = config_polling (getkv m_config ''general'' ''polling'') is_polling,
             m_has_fixed_keylen = config_flag (getkv m_config ''general'' ''keylen_fixed''),
             m_use_iops_model = config_flag (getkv m_config ''general'' ''use_iops_model''),
             m_capacity = capacity, io_objects = Map.empty, next_object = 0\<rparr> }"

text \<open>\<open>unordered_map::insert\<close> and \<open>erase\<close>.\<close>

definition umap_insert :: "'k \<Rightarrow> 'v \<Rightarrow> ('k \<times> 'v) list \<Rightarrow> ('k \<times> 'v) list" where
  "umap_insert k v l = (if map_of l k = None then (k, v) # l else l)"

definition umap_erase :: "'k \<Rightarrow> ('k \<times> 'v) list \<Rightarrow> ('k \<times> 'v) list" where
  "umap_erase k l = filter (\<lambda>x. fst x \<noteq> k) l"

definition insert_namespace :: "u32 \<Rightarrow> kv_namespace_internal \<Rightarrow> 'b kv_device_internal \<Rightarrow> 'b kv_device_internal" where
  "insert_namespace nsid ns dev = dev\<lparr>m_ns_list := umap_insert nsid ns (m_ns_list dev)\<rparr>"

definition get_namespace :: "'b kv_device_internal \<Rightarrow> u32 \<Rightarrow> kv_namespace_internal option" where
  "get_namespace dev nsid = map_of (m_ns_list dev) nsid"

text \<open>The class-wide state: the device table, the next device id, and the device objects.\<close>

record 'b device_class =
  s_next_devid :: u32
  s_global_device_list :: "(u32 \<times> nat) list"
  dev_objects :: "nat \<rightharpoonup> 'b kv_device_internal"
  next_dev :: nat

definition get_next_devid :: "'b device_class \<Rightarrow> u32 \<times> 'b device_class" where
  "get_next_devid st = (s_next_devid st, st\<lparr>s_next_devid := s_next_devid st + 1\<rparr>)"

definition get_device_instance :: "'b device_class \<Rightarrow> u32 \<Rightarrow> nat option" where
  "get_device_instance st devid = map_of (s_global_device_list st) devid"

text \<open>
  \<open>kv_initialize_device\<close>. The pointer \<open>dev_hdl\<close> may be null, and so may what it points to.
  \<open>purging\<close> and \<open>h\<close> are the arguments of the namespace constructor.
\<close>

definition kv_initialize_device ::
    "kv_config \<Rightarrow> bool \<Rightarrow> bool \<Rightarrow> kv_history \<Rightarrow> kv_device_handle option option \<Rightarrow> 'b device_class \<Rightarrow>
     (kv_result \<times> kv_device_handle option \<times> 'b device_class) option" where
  "kv_initialize_device m_config is_polling purging h dev_hdl st =
     (case dev_hdl of
        None \<Rightarrow> Some (KV_ERR_PARAM_INVALID, None, st)
      | Some hdl \<Rightarrow>
          do { initialized \<leftarrow>
                 (case hdl of None \<Rightarrow> Some False
                  | Some x \<Rightarrow> (case dh_dev x of None \<Rightarrow> Some False
                               | Some a \<Rightarrow> map_option m_initialized (dev_objects st a)));
               if initialized then Some (KV_ERR_DEV_INITIALIZED, hdl, st)
               else
                 do { let (devid, st1) = get_next_devid st;
                      dev \<leftarrow> kv_device_internal_new m_config is_polling devid;
                      let nsinfo = \<lparr>ns_nsid = KV_NAMESPACE_DEFAULT, ns_attached = True, ns_capacity = m_capacity dev\<rparr>;
                      let ns = kv_namespace_internal_new purging (m_has_fixed_keylen dev) (m_use_iops_model dev) h
                                 KV_NAMESPACE_DEFAULT nsinfo;
                      let dev' = (insert_namespace KV_NAMESPACE_DEFAULT ns dev)\<lparr>m_init_status := ns_init_status ns\<rparr>;
                      Some (ns_init_status ns, Some \<lparr>dh_devid = devid, dh_dev = Some (next_dev st1)\<rparr>,
                            st1\<lparr>s_global_device_list :=
                                  umap_insert devid (next_dev st1) (s_global_device_list st1),
                                dev_objects := (dev_objects st1)(next_dev st1 \<mapsto> dev'),
                                next_dev := Suc (next_dev st1)\<rparr>) } })"

text \<open>\<open>kv_cleanup_device\<close>: the destructor deletes the queues and the namespace with the device.\<close>

definition kv_cleanup_device :: "kv_device_handle \<Rightarrow> 'b device_class \<Rightarrow> (kv_result \<times> 'b device_class) option" where
  "kv_cleanup_device hdl st =
     (let st1 = st\<lparr>s_global_device_list := umap_erase (dh_devid hdl) (s_global_device_list st)\<rparr> in
      case dh_dev hdl of
        None \<Rightarrow> Some (KV_SUCCESS, st1)
      | Some a \<Rightarrow>
          do { dev \<leftarrow> dev_objects st1 a;
               ns \<leftarrow> get_namespace dev KV_NAMESPACE_DEFAULT;
               Some (KV_SUCCESS, st1\<lparr>dev_objects := (dev_objects st1)(a := None)\<rparr>) })"

section \<open>Queues\<close>

definition get_ioqueue :: "'b kv_device_internal \<Rightarrow> u16 \<Rightarrow> nat option" where
  "get_ioqueue dev qid = map_of (m_ioque_list dev) qid"

definition qid_exist :: "u16 \<Rightarrow> (u16 \<times> nat) list \<Rightarrow> bool" where
  "qid_exist qid qlist = (map_of qlist qid \<noteq> None)"

definition get_paired_SQ_ids :: "'b kv_device_internal \<Rightarrow> u16 \<Rightarrow> u16 list" where
  "get_paired_SQ_ids dev CQ_id = map fst (filter (\<lambda>p. snd p = CQ_id) (m_sq_to_cq_pairs dev))"

definition get_cqid_from_sqid :: "'b kv_device_internal \<Rightarrow> u16 \<Rightarrow> u16" where
  "get_cqid_from_sqid dev sqid = (case map_of (m_sq_to_cq_pairs dev) sqid of Some c \<Rightarrow> c | None \<Rightarrow> 0)"

text \<open>
  \<open>create_queue\<close>; \<open>que_hdl\<close> says whether the pointer for the handle is given. The handle the
  call stores there is the second result.
\<close>

definition create_queue ::
    "('b, io_cmd) circular_buffer \<Rightarrow> nat \<Rightarrow> kv_queue option \<Rightarrow> bool \<Rightarrow> 'b kv_device_internal \<Rightarrow>
     kv_result \<times> kv_queue_handle option \<times> 'b kv_device_internal" where
  "create_queue B this queinfo que_hdl dev =
     (case queinfo of
        None \<Rightarrow> (KV_ERR_PARAM_INVALID, None, dev)
      | Some info \<Rightarrow>
          if \<not> que_hdl then (KV_ERR_PARAM_INVALID, None, dev)
          else if length (m_ioque_list dev) = 64 * 1024 - 1 then (KV_ERR_QUEUE_MAX_QUEUE, None, dev)
          else if unat (queue_size info) > 64 * 1024 - 1 then (KV_ERR_QUEUE_QSIZE_INVALID, None, dev)
          else if qid_exist (queue_id info) (m_ioque_list dev) then
            (if queue_type info = SUBMISSION_Q_TYPE then (KV_ERR_QUEUE_QID_INVALID, None, dev)
             else (KV_ERR_QUEUE_CQID_INVALID, None, dev))
          else
            let qid = queue_id info;
                out_q = (if queue_type info = SUBMISSION_Q_TYPE
                         then get_ioqueue dev (completion_queue_id info) else None)
            in if queue_type info = SUBMISSION_Q_TYPE \<and> out_q = None
               then (KV_ERR_QUEUE_CQID_INVALID, None, dev)
               else
                 let que = next_object dev;
                     stat = m_device_stat dev
                 in (KV_SUCCESS, Some \<lparr>qh_qid = qid, qh_dev = Some this, qh_queue = Some que\<rparr>,
                     dev\<lparr>m_device_stat := stat\<lparr>queue_count := queue_count stat + 1\<rparr>,
                         m_ioque_list := umap_insert qid que (m_ioque_list dev),
                         m_sq_to_cq_pairs :=
                           (if queue_type info = SUBMISSION_Q_TYPE
                            then umap_insert qid (completion_queue_id info) (m_sq_to_cq_pairs dev)
                            else m_sq_to_cq_pairs dev),
                         io_objects := (io_objects dev)(que \<mapsto>
                           \<lparr>io_que = emul_ioqueue_new B info, io_out = out_q, io_interrupt = False\<rparr>),
                         next_object := Suc que\<rparr>))"

text \<open>
  \<open>remove_queue\<close>. \<open>terminate\<close> drops the commands still queued and the queue object is deleted
  with its worker thread.
\<close>

definition remove_queue :: "u16 \<Rightarrow> 'b kv_device_internal \<Rightarrow> (kv_result \<times> 'b kv_device_internal) option" where
  "remove_queue qid dev =
     (case get_ioqueue dev qid of
        None \<Rightarrow> Some (KV_ERR_QUEUE_QID_INVALID, dev)
      | Some que \<Rightarrow>
          do { q \<leftarrow> io_objects dev que;
               if queue_type (q_info (io_que q)) = COMPLETION_Q_TYPE
                  \<and> list_ex (\<lambda>sq. map_of (m_ioque_list dev) sq \<noteq> None) (get_paired_SQ_ids dev qid)
               then Some (KV_ERR_QUEUE_DELETION_INVALID, dev)
               else
                 let stat = m_device_stat dev in
                 Some (KV_SUCCESS,
                       dev\<lparr>m_ioque_list := umap_erase qid (m_ioque_list dev),
                           m_sq_to_cq_pairs := umap_erase qid (m_sq_to_cq_pairs dev),
                           io_objects := (io_objects dev)(que := None),
                           m_device_stat := stat\<lparr>queue_count := queue_count stat - 1\<rparr>\<rparr>) })"

definition kv_delete_queue :: "kv_device_handle option \<Rightarrow> kv_queue_handle option \<Rightarrow> 'b device_class \<Rightarrow>
    (kv_result \<times> 'b device_class) option" where
  "kv_delete_queue dev_hdl que_hdl st =
     (case (dev_hdl, que_hdl) of
        (Some d, Some q) \<Rightarrow>
          (case dh_dev d of
             None \<Rightarrow> Some (KV_ERR_DEV_NOT_EXIST, st)
           | Some a \<Rightarrow>
               do { dev \<leftarrow> dev_objects st a;
                    (ret, dev') \<leftarrow> remove_queue (qh_qid q) dev;
                    Some (ret, st\<lparr>dev_objects := (dev_objects st)(a \<mapsto> dev')\<rparr>) })
      | _ \<Rightarrow> Some (KV_ERR_PARAM_INVALID, st))"

definition kv_create_queue ::
    "('b, io_cmd) circular_buffer \<Rightarrow> kv_device_handle option \<Rightarrow> kv_queue option \<Rightarrow> bool \<Rightarrow> 'b device_class \<Rightarrow>
     (kv_result \<times> kv_queue_handle option \<times> 'b device_class) option" where
  "kv_create_queue B dev_hdl queinfo que_hdl st =
     (case (dev_hdl, queinfo) of
        (Some d, Some info) \<Rightarrow>
          if \<not> que_hdl then Some (KV_ERR_PARAM_INVALID, None, st)
          else (case dh_dev d of
             None \<Rightarrow> Some (KV_ERR_DEV_NOT_EXIST, None, st)
           | Some a \<Rightarrow>
               do { dev \<leftarrow> dev_objects st a;
                    let (r, h, dev') = create_queue B a (Some info) que_hdl dev;
                    Some (r, h, st\<lparr>dev_objects := (dev_objects st)(a \<mapsto> dev')\<rparr>) })
      | _ \<Rightarrow> Some (KV_ERR_PARAM_INVALID, None, st))"

section \<open>Queries\<close>

text \<open>
  \<open>kv_get_queue_handles\<close> on the handles \<open>que_hdls\<close> points to: those it fills, the count and
  the result.
\<close>

definition kv_get_queue_handles :: "nat \<Rightarrow> kv_queue_handle list \<Rightarrow> u16 \<Rightarrow> 'b kv_device_internal \<Rightarrow>
    (kv_result \<times> kv_queue_handle list \<times> u16) option" where
  "kv_get_queue_handles this que_hdls que_cnt dev =
     (let n = min (length (m_ioque_list dev)) (unat que_cnt);
          res = (if length (m_ioque_list dev) > unat que_cnt then KV_WRN_MORE else KV_SUCCESS)
      in do { require (n \<le> length que_hdls);
              Some (res,
                    map (\<lambda>(h, q). h\<lparr>qh_qid := fst q, qh_dev := Some this\<rparr>)
                      (zip (take n que_hdls) (m_ioque_list dev)) @ drop n que_hdls,
                    word_of_nat n) })"

definition get_io_queue_info :: "u16 \<Rightarrow> kv_queue option \<Rightarrow> 'b kv_device_internal \<Rightarrow>
    (kv_result \<times> kv_queue option) option" where
  "get_io_queue_info qid queue_info dev =
     (if queue_info = None then Some (KV_ERR_PARAM_INVALID, queue_info)
      else case get_ioqueue dev qid of
             None \<Rightarrow> Some (KV_ERR_QUEUE_QID_INVALID, queue_info)
           | Some a \<Rightarrow> do { q \<leftarrow> io_objects dev a; Some (KV_SUCCESS, Some (q_info (io_que q))) })"

definition kv_get_queue_info :: "kv_device_handle option \<Rightarrow> kv_queue_handle option \<Rightarrow> kv_queue option \<Rightarrow>
    'b kv_device_internal \<Rightarrow> (kv_result \<times> kv_queue option) option" where
  "kv_get_queue_info dev_hdl que_hdl queinfo dev =
     (case (queinfo, dev_hdl, que_hdl) of
        (Some _, Some d, Some h) \<Rightarrow>
          if dh_dev d = None then Some (KV_ERR_DEV_NOT_EXIST, queinfo)
          else (case qh_queue h of
                  None \<Rightarrow> Some (KV_ERR_QUEUE_QID_INVALID, queinfo)
                | Some a \<Rightarrow> do { q \<leftarrow> io_objects dev a; Some (KV_SUCCESS, Some (q_info (io_que q))) })
      | _ \<Rightarrow> Some (KV_ERR_PARAM_INVALID, queinfo))"

definition kv_get_queue_stat :: "kv_device_handle option \<Rightarrow> kv_queue_handle option \<Rightarrow> u16 option \<Rightarrow>
    'b kv_device_internal \<Rightarrow> (kv_result \<times> u16 option) option" where
  "kv_get_queue_stat dev_hdl que_hdl que_stat dev =
     (case (que_stat, dev_hdl, que_hdl) of
        (Some _, Some d, Some h) \<Rightarrow>
          if dh_dev d = None then Some (KV_ERR_DEV_NOT_EXIST, que_stat)
          else (case qh_queue h of
                  None \<Rightarrow> Some (KV_ERR_QUEUE_QID_INVALID, que_stat)
                | Some a \<Rightarrow> do { q \<leftarrow> io_objects dev a; Some (KV_SUCCESS, Some (queue_id (q_info (io_que q)))) })
      | _ \<Rightarrow> Some (KV_ERR_PARAM_INVALID, que_stat))"

text \<open>
  \<open>update_capacity_consumed\<close>; \<open>util\<close> is the rounded floating-point quotient of the consumed
  space and the capacity.
\<close>

definition update_capacity_consumed :: "(u64 \<Rightarrow> u64 \<Rightarrow> u16) \<Rightarrow> 'b kv_device_internal \<Rightarrow> 'b kv_device_internal" where
  "update_capacity_consumed util dev =
     (let nss = map (\<lambda>(i, ns). (i, get_consumed_space ns)) (m_ns_list dev);
          consumed = sum_list (map (\<lambda>(i, c, ns). c) nss);
          capacity = sum_list (map (\<lambda>(i, c, ns). ns_get_total_capacity ns) nss)
      in dev\<lparr>m_ns_list := map (\<lambda>(i, c, ns). (i, ns)) nss, m_capacity := capacity,
             m_device_info := (m_device_info dev)\<lparr>dev_capacity := capacity\<rparr>,
             m_device_stat := (m_device_stat dev)\<lparr>utilization := util consumed capacity\<rparr>\<rparr>)"

definition kv_get_device_info :: "(u64 \<Rightarrow> u64 \<Rightarrow> u16) \<Rightarrow> bool \<Rightarrow> kv_device option \<Rightarrow> 'b kv_device_internal \<Rightarrow>
    kv_result \<times> kv_device option \<times> 'b kv_device_internal" where
  "kv_get_device_info util exists devinfo dev =
     (if devinfo = None then (KV_ERR_PARAM_INVALID, devinfo, dev)
      else if \<not> exists then (KV_ERR_DEV_NOT_EXIST, devinfo, dev)
      else let dev' = update_capacity_consumed util dev in (KV_SUCCESS, Some (m_device_info dev'), dev'))"

definition kv_get_device_stat :: "(u64 \<Rightarrow> u64 \<Rightarrow> u16) \<Rightarrow> bool \<Rightarrow> kv_device_stat option \<Rightarrow> 'b kv_device_internal \<Rightarrow>
    kv_result \<times> kv_device_stat option \<times> 'b kv_device_internal" where
  "kv_get_device_stat util exists devstat dev =
     (if devstat = None then (KV_ERR_PARAM_INVALID, devstat, dev)
      else if \<not> exists then (KV_ERR_DEV_NOT_EXIST, devstat, dev)
      else let dev' = update_capacity_consumed util dev in (KV_SUCCESS, Some (m_device_stat dev'), dev'))"

section \<open>Namespaces\<close>

text \<open>The device has one namespace; the calls that manage others are refused.\<close>

definition kv_create_namespace :: "kv_result" where
  "kv_create_namespace = KV_ERR_DEV_MAX_NS"

definition kv_delete_namespace :: "kv_namespace_handle option \<Rightarrow> kv_result" where
  "kv_delete_namespace ns_hdl = (if ns_hdl \<noteq> None then KV_SUCCESS else KV_ERR_NS_DEFAULT)"

definition kv_attach_namespace :: "kv_result" where
  "kv_attach_namespace = KV_ERR_NS_DEFAULT"

definition kv_detach_namespace :: "kv_result" where
  "kv_detach_namespace = KV_ERR_NS_DEFAULT"

definition kv_list_namespaces :: "kv_device_handle option \<Rightarrow> kv_namespace_handle list option \<Rightarrow> u32 option \<Rightarrow>
    'b kv_device_internal \<Rightarrow> (kv_result \<times> kv_namespace_handle list option \<times> u32 option) option" where
  "kv_list_namespaces dev_hdl ns_hdls ns_cnt dev =
     (case (dev_hdl, ns_hdls, ns_cnt) of
        (Some d, Some hs, Some _) \<Rightarrow>
          if dh_dev d = None then Some (KV_ERR_DEV_NOT_EXIST, ns_hdls, ns_cnt)
          else (case hs of
                  [] \<Rightarrow> None
                | h # r \<Rightarrow> Some (KV_SUCCESS,
                    Some (\<lparr>nh_nsid = KV_NAMESPACE_DEFAULT, nh_dev = dh_dev d,
                           nh_ns = map_option (\<lambda>_. KV_NAMESPACE_DEFAULT) (get_namespace dev KV_NAMESPACE_DEFAULT)\<rparr> # r),
                    Some 1))
      | _ \<Rightarrow> Some (KV_ERR_PARAM_INVALID, ns_hdls, ns_cnt))"

definition dev_get_namespace_info :: "kv_device_handle option \<Rightarrow> kv_namespace_handle \<Rightarrow> kv_namespace option \<Rightarrow>
    'b kv_device_internal \<Rightarrow> (kv_result \<times> kv_namespace option) option" where
  "dev_get_namespace_info dev_hdl ns_hdl nsinfo dev =
     (case (dev_hdl, nsinfo) of
        (Some d, Some _) \<Rightarrow>
          if dh_dev d = None then Some (KV_ERR_DEV_NOT_EXIST, nsinfo)
          else (case nh_ns ns_hdl of
                  None \<Rightarrow> Some (KV_ERR_NS_INVALID, nsinfo)
                | Some i \<Rightarrow> map_option (kv_get_namespace_info nsinfo) (get_namespace dev i))
      | _ \<Rightarrow> Some (KV_ERR_PARAM_INVALID, nsinfo))"

definition kv_bypass_namespace :: "kv_namespace_handle \<Rightarrow> bool \<Rightarrow> 'b kv_device_internal \<Rightarrow>
    (kv_result \<times> 'b kv_device_internal) option" where
  "kv_bypass_namespace ns_hdl bypass dev =
     (case nh_ns ns_hdl of
        None \<Rightarrow> Some (KV_ERR_NS_INVALID, dev)
      | Some i \<Rightarrow> do { ns \<leftarrow> get_namespace dev i;
                      Some (KV_SUCCESS, dev\<lparr>m_ns_list := map (\<lambda>(j, n). (j, if j = i then swap_device bypass n else n))
                                             (m_ns_list dev)\<rparr>) })"

definition dev_get_namespace_stat :: "kv_device_handle option \<Rightarrow> kv_namespace_handle \<Rightarrow> kv_namespace_stat option \<Rightarrow>
    'b kv_device_internal \<Rightarrow> (kv_result \<times> kv_namespace_stat option \<times> 'b kv_device_internal) option" where
  "dev_get_namespace_stat dev_hdl ns_hdl nsst dev =
     (case (dev_hdl, nsst) of
        (Some d, Some _) \<Rightarrow>
          if dh_dev d = None then Some (KV_ERR_DEV_NOT_EXIST, nsst, dev)
          else (case nh_ns ns_hdl of
                  None \<Rightarrow> Some (KV_ERR_NS_INVALID, nsst, dev)
                | Some i \<Rightarrow>
                    do { ns \<leftarrow> get_namespace dev i;
                         let (r, st, ns') = kv_get_namespace_stat nsst ns;
                         Some (r, st, dev\<lparr>m_ns_list := map (\<lambda>(j, n). (j, if j = i then ns' else n)) (m_ns_list dev)\<rparr>) })
      | _ \<Rightarrow> Some (KV_ERR_PARAM_INVALID, nsst, dev))"

section \<open>The invariant of the queue table\<close>

abbreviation que_info :: "'b ioqueue \<Rightarrow> kv_queue" where
  "que_info q \<equiv> q_info (io_que q)"

text \<open>
  The table and the queue objects agree, the pairs are the submission queues with their
  completion queue ids, and the statistics count the queues on top of the two admin queues.
\<close>

definition dev_inv :: "'b kv_device_internal \<Rightarrow> bool" where
  "dev_inv dev \<longleftrightarrow>
     distinct (map fst (m_ioque_list dev)) \<and>
     (\<forall>qid a. map_of (m_ioque_list dev) qid = Some a \<longrightarrow>
        (\<exists>q. io_objects dev a = Some q \<and> queue_id (que_info q) = qid)) \<and>
     (\<forall>a q. io_objects dev a = Some q \<longrightarrow>
        map_of (m_ioque_list dev) (queue_id (que_info q)) = Some a \<and> a < next_object dev) \<and>
     (\<forall>qid c. map_of (m_sq_to_cq_pairs dev) qid = Some c \<longleftrightarrow>
        (\<exists>a q. map_of (m_ioque_list dev) qid = Some a \<and> io_objects dev a = Some q
           \<and> queue_type (que_info q) = SUBMISSION_Q_TYPE \<and> completion_queue_id (que_info q) = c)) \<and>
     distinct (map fst (m_sq_to_cq_pairs dev)) \<and>
     length (m_ioque_list dev) \<le> 65535 \<and>
     queue_count (m_device_stat dev) = word_of_nat (2 + length (m_ioque_list dev))"

text \<open>Every submission queue completes into a completion queue of the table.\<close>

definition dev_linked :: "'b kv_device_internal \<Rightarrow> bool" where
  "dev_linked dev \<longleftrightarrow>
     (\<forall>a q. io_objects dev a = Some q \<longrightarrow> queue_type (que_info q) = SUBMISSION_Q_TYPE \<longrightarrow>
        (\<exists>b p. io_out q = Some b \<and> io_objects dev b = Some p
           \<and> queue_type (que_info p) = COMPLETION_Q_TYPE
           \<and> queue_id (que_info p) = completion_queue_id (que_info q)))"

lemma dev_invD:
  assumes "dev_inv dev"
  shows di_dist: "distinct (map fst (m_ioque_list dev))"
    and di_obj: "map_of (m_ioque_list dev) qid = Some a \<Longrightarrow> \<exists>q. io_objects dev a = Some q \<and> queue_id (que_info q) = qid"
    and di_tab: "io_objects dev a = Some q \<Longrightarrow> map_of (m_ioque_list dev) (queue_id (que_info q)) = Some a"
    and di_next: "io_objects dev a = Some q \<Longrightarrow> a < next_object dev"
    and di_pair: "map_of (m_sq_to_cq_pairs dev) qid = Some c \<longleftrightarrow>
        (\<exists>a q. map_of (m_ioque_list dev) qid = Some a \<and> io_objects dev a = Some q
           \<and> queue_type (que_info q) = SUBMISSION_Q_TYPE \<and> completion_queue_id (que_info q) = c)"
    and di_pdist: "distinct (map fst (m_sq_to_cq_pairs dev))"
    and di_len: "length (m_ioque_list dev) \<le> 65535"
    and di_count: "queue_count (m_device_stat dev) = word_of_nat (2 + length (m_ioque_list dev))"
  using assms unfolding dev_inv_def by blast+

lemma umap_insert_new:
  assumes "map_of l k = None"
  shows "map_of (umap_insert k v l) = (map_of l)(k \<mapsto> v)" and "length (umap_insert k v l) = Suc (length l)"
    and "distinct (map fst (umap_insert k v l)) \<longleftrightarrow> distinct (map fst l)"
  using assms by (auto simp: umap_insert_def map_of_eq_None_iff)

lemma umap_erase_map_of: "map_of (umap_erase k l) = (map_of l)(k := None)"
  by (induction l) (auto simp: umap_erase_def)

lemma umap_erase_distinct: "distinct (map fst l) \<Longrightarrow> distinct (map fst (umap_erase k l))"
  unfolding umap_erase_def by (induction l) auto

lemma umap_erase_length:
  "distinct (map fst l) \<Longrightarrow> map_of l k = Some v \<Longrightarrow> Suc (length (umap_erase k l)) = length l"
proof (induction l)
  case (Cons x l)
  have "umap_erase k l = l" if "k \<notin> fst ` set l" using that by (force simp: umap_erase_def filter_id_conv)
  with Cons show ?case by (cases "fst x = k") (auto simp: umap_erase_def)
qed simp

lemma create_queue_error:
  assumes "create_queue B this qi hdl dev = (r, h, dev')" and "r \<noteq> KV_SUCCESS"
  shows "dev' = dev"
  using assms by (auto simp: create_queue_def Let_def split: option.splits if_splits)

lemma create_queue_success:
  assumes "create_queue B this qi hdl dev = (KV_SUCCESS, h, dev')"
  obtains info out where "qi = Some info" and "hdl"
    and "map_of (m_ioque_list dev) (queue_id info) = None" and "length (m_ioque_list dev) \<noteq> 65535"
    and "queue_type info = SUBMISSION_Q_TYPE \<longrightarrow> map_of (m_ioque_list dev) (completion_queue_id info) = out \<and> out \<noteq> None"
    and "h = Some \<lparr>qh_qid = queue_id info, qh_dev = Some this, qh_queue = Some (next_object dev)\<rparr>"
    and "m_ioque_list dev' = umap_insert (queue_id info) (next_object dev) (m_ioque_list dev)"
    and "m_sq_to_cq_pairs dev' = (if queue_type info = SUBMISSION_Q_TYPE
         then umap_insert (queue_id info) (completion_queue_id info) (m_sq_to_cq_pairs dev) else m_sq_to_cq_pairs dev)"
    and "io_objects dev' = (io_objects dev)(next_object dev \<mapsto>
         \<lparr>io_que = emul_ioqueue_new B info, io_out = out, io_interrupt = False\<rparr>)"
    and "next_object dev' = Suc (next_object dev)"
    and "queue_count (m_device_stat dev') = queue_count (m_device_stat dev) + 1"
proof -
  obtain info where qi: "qi = Some info" using assms by (cases qi) (auto simp: create_queue_def)
  define out where "out = (if queue_type info = SUBMISSION_Q_TYPE
    then map_of (m_ioque_list dev) (completion_queue_id info) else None)"
  show thesis
    by (rule that [of info out])
      (use assms in \<open>auto simp: create_queue_def qi out_def qid_exist_def get_ioqueue_def Let_def split: if_splits\<close>)
qed

lemma create_queue_inv:
  assumes inv: "dev_inv dev" and create: "create_queue B this qi hdl dev = (r, h, dev')"
  shows "dev_inv dev'"
proof (cases "r = KV_SUCCESS")
  case False
  then show ?thesis using inv create_queue_error [OF create] by simp
next
  case True
  with create have "create_queue B this qi hdl dev = (KV_SUCCESS, h, dev')" by simp
  then obtain info out where
    new: "map_of (m_ioque_list dev) (queue_id info) = None" "length (m_ioque_list dev) \<noteq> 65535"
    and dev': "m_ioque_list dev' = umap_insert (queue_id info) (next_object dev) (m_ioque_list dev)"
      "m_sq_to_cq_pairs dev' = (if queue_type info = SUBMISSION_Q_TYPE
         then umap_insert (queue_id info) (completion_queue_id info) (m_sq_to_cq_pairs dev) else m_sq_to_cq_pairs dev)"
      "next_object dev' = Suc (next_object dev)"
      "queue_count (m_device_stat dev') = queue_count (m_device_stat dev) + 1"
    and objs: "io_objects dev' = (io_objects dev)(next_object dev \<mapsto>
         \<lparr>io_que = emul_ioqueue_new B info, io_out = out, io_interrupt = False\<rparr>)"
    by (rule create_queue_success)
  obtain o1 where o1: "io_objects dev' = (io_objects dev)(next_object dev \<mapsto> o1)" "que_info o1 = info"
    using objs by (metis emul_ioqueue.select_convs(1) emul_ioqueue_new_def ioqueue.select_convs(1))
  have fresh: "io_objects dev (next_object dev) = None" using di_next [OF inv] by (metis less_irrefl not_Some_eq)
  have nopair: "map_of (m_sq_to_cq_pairs dev) (queue_id info) = None"
    using di_pair [OF inv, of "queue_id info"] new(1) by (metis not_Some_eq)
  note ins = umap_insert_new [OF new(1)] and pins = umap_insert_new [OF nopair]
  have old: "a \<noteq> next_object dev" if "map_of (m_ioque_list dev) q = Some a" for q a
    using di_obj [OF inv that] di_next [OF inv] by blast
  have "distinct (map fst (m_ioque_list dev'))" using di_dist [OF inv] by (simp add: dev' ins)
  moreover have "\<exists>q. io_objects dev' a = Some q \<and> queue_id (que_info q) = qid"
    if "map_of (m_ioque_list dev') qid = Some a" for qid a
    using that di_obj [OF inv, of qid a] old [of qid a] by (auto simp: dev' ins o1 split: if_splits)
  moreover have "map_of (m_ioque_list dev') (queue_id (que_info q)) = Some a \<and> a < next_object dev'"
    if "io_objects dev' a = Some q" for a q
    using that di_tab [OF inv, of a q] di_next [OF inv, of a q] new(1) o1(2) unfolding dev' ins o1(1)
    by (cases "a = next_object dev") auto
  moreover have "map_of (m_sq_to_cq_pairs dev') qid = Some c \<longleftrightarrow>
        (\<exists>a q. map_of (m_ioque_list dev') qid = Some a \<and> io_objects dev' a = Some q
           \<and> queue_type (que_info q) = SUBMISSION_Q_TYPE \<and> completion_queue_id (que_info q) = c)" for qid c
    using di_pair [OF inv, of qid c] nopair new(1) old [of qid]
    by (auto simp: dev' ins pins o1 split: if_splits)
  moreover have "distinct (map fst (m_sq_to_cq_pairs dev'))" using di_pdist [OF inv] by (simp add: dev' pins)
  moreover have "length (m_ioque_list dev') \<le> 65535"
    "queue_count (m_device_stat dev') = word_of_nat (2 + length (m_ioque_list dev'))"
    using di_len [OF inv] di_count [OF inv] new(2) by (simp_all add: dev' ins)
  ultimately show ?thesis unfolding dev_inv_def by blast
qed

lemma remove_queue_error:
  assumes "remove_queue qid dev = Some (r, dev')" and "r \<noteq> KV_SUCCESS"
  shows "dev' = dev"
  using assms by (auto simp: remove_queue_def Let_def split: option.splits if_splits bind_splits)

lemma remove_queue_inv:
  assumes inv: "dev_inv dev" and remove: "remove_queue qid dev = Some (r, dev')"
  shows "dev_inv dev'"
proof (cases "r = KV_SUCCESS")
  case False
  then show ?thesis using inv remove_queue_error [OF remove] by simp
next
  case True
  then obtain b where b: "map_of (m_ioque_list dev) qid = Some b"
    and dev': "m_ioque_list dev' = umap_erase qid (m_ioque_list dev)"
      "m_sq_to_cq_pairs dev' = umap_erase qid (m_sq_to_cq_pairs dev)"
      "io_objects dev' = (io_objects dev)(b := None)" "next_object dev' = next_object dev"
      "queue_count (m_device_stat dev') = queue_count (m_device_stat dev) - 1"
    using remove
    by (auto simp: remove_queue_def get_ioqueue_def Let_def split: option.splits if_splits bind_splits)
  have len: "Suc (length (m_ioque_list dev')) = length (m_ioque_list dev)"
    unfolding dev' by (rule umap_erase_length [OF di_dist [OF inv] b])
  have own: "map_of (m_ioque_list dev) q = Some b \<Longrightarrow> q = qid" for q
    using di_obj [OF inv b] di_obj [OF inv, of q b] by auto
  have "distinct (map fst (m_ioque_list dev'))" "distinct (map fst (m_sq_to_cq_pairs dev'))"
    by (simp_all add: dev' umap_erase_distinct di_dist [OF inv] di_pdist [OF inv])
  moreover have "\<exists>q. io_objects dev' a = Some q \<and> queue_id (que_info q) = k"
    if "map_of (m_ioque_list dev') k = Some a" for k a
    using that di_obj [OF inv, of k a] own [of k] by (auto simp: dev' umap_erase_map_of split: if_splits)
  moreover have "map_of (m_ioque_list dev') (queue_id (que_info q)) = Some a \<and> a < next_object dev'"
    if "io_objects dev' a = Some q" for a q
    using that di_tab [OF inv, of a q] di_next [OF inv, of a q] b
    by (auto simp: dev' umap_erase_map_of split: if_splits)
  moreover have "map_of (m_sq_to_cq_pairs dev') k = Some c \<longleftrightarrow>
        (\<exists>a q. map_of (m_ioque_list dev') k = Some a \<and> io_objects dev' a = Some q
           \<and> queue_type (que_info q) = SUBMISSION_Q_TYPE \<and> completion_queue_id (que_info q) = c)" for k c
    using di_pair [OF inv, of k c] own [of k]
    by (cases "k = qid") (simp add: dev' umap_erase_map_of, simp add: dev' umap_erase_map_of, metis)
  moreover have "length (m_ioque_list dev') \<le> 65535" using di_len [OF inv] len by simp
  moreover have "queue_count (m_device_stat dev') = word_of_nat (2 + length (m_ioque_list dev'))"
    using di_count [OF inv] by (simp add: dev'(5) len [symmetric])
  ultimately show ?thesis unfolding dev_inv_def by blast
qed

lemma create_queue_linked:
  assumes inv: "dev_inv dev" and linked: "dev_linked dev"
    and create: "create_queue B this (Some info) hdl dev = (r, h, dev')"
    and cq: "queue_type info = SUBMISSION_Q_TYPE \<Longrightarrow>
      \<exists>b p. map_of (m_ioque_list dev) (completion_queue_id info) = Some b \<and> io_objects dev b = Some p
        \<and> queue_type (que_info p) = COMPLETION_Q_TYPE"
  shows "dev_linked dev'"
proof (cases "r = KV_SUCCESS")
  case False
  then show ?thesis using linked create_queue_error [OF create] by simp
next
  case True
  with create have "create_queue B this (Some info) hdl dev = (KV_SUCCESS, h, dev')" by simp
  then obtain info' out where i: "Some info = Some info'"
    and out: "queue_type info' = SUBMISSION_Q_TYPE \<longrightarrow>
      map_of (m_ioque_list dev) (completion_queue_id info') = out \<and> out \<noteq> None"
    and objs: "io_objects dev' = (io_objects dev)(next_object dev \<mapsto>
         \<lparr>io_que = emul_ioqueue_new B info', io_out = out, io_interrupt = False\<rparr>)"
    by (rule create_queue_success)
  have new: "b \<noteq> next_object dev" if "io_objects dev b = Some p" for b p using di_next [OF inv that] by simp
  show ?thesis unfolding dev_linked_def
  proof (intro allI impI)
    fix a q assume a: "io_objects dev' a = Some q" "queue_type (que_info q) = SUBMISSION_Q_TYPE"
    show "\<exists>b p. io_out q = Some b \<and> io_objects dev' b = Some p
        \<and> queue_type (que_info p) = COMPLETION_Q_TYPE \<and> queue_id (que_info p) = completion_queue_id (que_info q)"
    proof (cases "a = next_object dev")
      case True
      then have q: "que_info q = info" "io_out q = out" using a(1) i by (auto simp: objs emul_ioqueue_new_def)
      then obtain b p where "out = Some b" "io_objects dev b = Some p" "queue_type (que_info p) = COMPLETION_Q_TYPE"
        "map_of (m_ioque_list dev) (completion_queue_id info) = Some b"
        using cq a(2) out i by fastforce
      then show ?thesis using q new di_obj [OF inv] by (fastforce simp: objs)
    next
      case False
      then have "io_objects dev a = Some q" using a(1) by (simp add: objs)
      then show ?thesis using linked a(2) new unfolding dev_linked_def objs by (metis fun_upd_other)
    qed
  qed
qed

lemma remove_queue_linked:
  assumes inv: "dev_inv dev" and linked: "dev_linked dev" and remove: "remove_queue qid dev = Some (r, dev')"
  shows "dev_linked dev'"
proof (cases "r = KV_SUCCESS")
  case False
  then show ?thesis using linked remove_queue_error [OF remove] by simp
next
  case True
  then obtain c qc where c: "map_of (m_ioque_list dev) qid = Some c" "io_objects dev c = Some qc"
    and free: "queue_type (que_info qc) = COMPLETION_Q_TYPE \<longrightarrow>
      (\<forall>sq \<in> set (get_paired_SQ_ids dev qid). map_of (m_ioque_list dev) sq = None)"
    and objs: "io_objects dev' = (io_objects dev)(c := None)"
    using remove by (auto simp: remove_queue_def get_ioqueue_def list_ex_iff Let_def
        split: option.splits if_splits bind_splits)
  show ?thesis unfolding dev_linked_def
  proof (intro allI impI)
    fix a q assume a': "io_objects dev' a = Some q" and sub: "queue_type (que_info q) = SUBMISSION_Q_TYPE"
    then have a: "io_objects dev a = Some q" by (simp add: objs split: if_splits)
    with linked sub obtain b p where b: "io_out q = Some b" "io_objects dev b = Some p"
      "queue_type (que_info p) = COMPLETION_Q_TYPE" "queue_id (que_info p) = completion_queue_id (que_info q)"
      unfolding dev_linked_def by blast
    have "b \<noteq> c"
    proof
      assume "b = c"
      then have p: "p = qc" "queue_id (que_info qc) = qid" using b(2) c di_obj [OF inv c(1)] by auto
      have "map_of (m_sq_to_cq_pairs dev) (queue_id (que_info q)) = Some qid"
        using di_pair [OF inv] di_tab [OF inv a] a sub b(4) p by auto
      then have "queue_id (que_info q) \<in> set (get_paired_SQ_ids dev qid)"
        by (force simp: get_paired_SQ_ids_def dest: map_of_SomeD)
      with free b(3) p(1) di_tab [OF inv a] show False by auto
    qed
    with b show "\<exists>b p. io_out q = Some b \<and> io_objects dev' b = Some p
        \<and> queue_type (que_info p) = COMPLETION_Q_TYPE \<and> queue_id (que_info p) = completion_queue_id (que_info q)"
      by (auto simp: objs)
  qed
qed

lemma device_new_inv:
  assumes "kv_device_internal_new cfg poll devid = Some dev"
  shows "dev_inv dev" and "dev_linked dev"
  using assms by (auto simp: kv_device_internal_new_def dev_inv_def dev_linked_def split: bind_splits)

text \<open>Changing the buffer or the handler of a queue keeps the table.\<close>

lemma touch_queue:
  assumes "io_objects dev a = Some q" and "que_info q' = que_info q" and "io_out q' = io_out q"
  shows "dev_inv dev \<Longrightarrow> dev_inv (dev\<lparr>io_objects := (io_objects dev)(a \<mapsto> q')\<rparr>)"
    and "dev_linked dev \<Longrightarrow> dev_linked (dev\<lparr>io_objects := (io_objects dev)(a \<mapsto> q')\<rparr>)"
proof -
  let ?o = "(io_objects dev)(a \<mapsto> q')"
  have o: "(\<exists>x. ?o b = Some x \<and> P (que_info x) (io_out x)) \<longleftrightarrow> (\<exists>x. io_objects dev b = Some x \<and> P (que_info x) (io_out x))"
    for b P using assms by auto
  have u: "(\<forall>b x. ?o b = Some x \<longrightarrow> P b (que_info x) (io_out x)) \<longleftrightarrow>
      (\<forall>b x. io_objects dev b = Some x \<longrightarrow> P b (que_info x) (io_out x))" for P
    using assms by auto
  show "dev_inv (dev\<lparr>io_objects := ?o\<rparr>)" if "dev_inv dev"
    using that o [of _ "\<lambda>i _. queue_id i = _"] o [of _ "\<lambda>i _. queue_type i = SUBMISSION_Q_TYPE \<and> completion_queue_id i = _"]
      u [of "\<lambda>b i _. map_of (m_ioque_list dev) (queue_id i) = Some b \<and> b < next_object dev"]
    unfolding dev_inv_def by simp
  show "dev_linked (dev\<lparr>io_objects := ?o\<rparr>)" if "dev_linked dev"
  proof -
    have "(\<exists>b p. out = Some b \<and> ?o b = Some p \<and> queue_type (que_info p) = COMPLETION_Q_TYPE \<and> queue_id (que_info p) = c)
      \<longleftrightarrow> (\<exists>b p. out = Some b \<and> io_objects dev b = Some p \<and> queue_type (que_info p) = COMPLETION_Q_TYPE \<and> queue_id (que_info p) = c)"
      for out c using assms by auto
    with that u [of "\<lambda>b i out. queue_type i = SUBMISSION_Q_TYPE \<longrightarrow> (\<exists>b p. out = Some b \<and> io_objects dev b = Some p
        \<and> queue_type (que_info p) = COMPLETION_Q_TYPE \<and> queue_id (que_info p) = completion_queue_id i)"]
    show ?thesis unfolding dev_linked_def by simp
  qed
qed

end
