(* ===== verification/Kv_Device_Io.thy ===== *)
theory Kv_Device_Io
  imports Kv_Device
begin

text \<open>
  The input and output calls of \<open>kv_device_internal\<close>
  (\<open>PDK/core/src/device_abstract_layer/emulator/src/kv_device.cpp\<close>) and the wrappers of
  \<open>kvs_adi.cpp\<close>: each call checks its arguments, builds an \<open>io_cmd\<close> and submits it to the
  queue of the handle, or polls a completion queue.

  A new command holds indeterminate memory \<open>c0\<close>; each call sets the fields it sets in the
  source and no others. Calls of a member function on a null device are undefined.
\<close>

section \<open>Commands\<close>

record kv_postprocess_function =
  post_fn :: bool
  private_data :: nat

definition set_post :: "kv_postprocess_function option \<Rightarrow> io_ctx_t \<Rightarrow> io_ctx_t" where
  "set_post p c =
     (case p of
        Some f \<Rightarrow> c\<lparr>ctx_post_fn := post_fn f, ctx_private_data := private_data f\<rparr>
      | None \<Rightarrow> c\<lparr>ctx_post_fn := False\<rparr>)"

text \<open>The constructor of \<open>io_cmd\<close> reads the id of the queue object.\<close>

definition io_cmd_new :: "kv_queue_handle \<Rightarrow> io_ctx_t \<Rightarrow> 'b kv_device_internal \<Rightarrow> io_cmd option" where
  "io_cmd_new que_hdl c0 dev =
     do { a \<leftarrow> qh_queue que_hdl;
          que \<leftarrow> io_objects dev a;
          Some \<lparr>ioctx = c0, cmd_sqid = queue_id (que_info que)\<rparr> }"

definition submit_io :: "('b, io_cmd) circular_buffer \<Rightarrow> kv_queue_handle \<Rightarrow> io_cmd \<Rightarrow> 'b kv_device_internal \<Rightarrow>
    (kv_result \<times> 'b kv_device_internal) call" where
  "submit_io B que_hdl cmd dev =
     (case qh_queue que_hdl of
        None \<Rightarrow> Returns (KV_ERR_QUEUE_QID_INVALID, dev)
      | Some a \<Rightarrow>
          (case io_objects dev a of
             None \<Rightarrow> Undefined
           | Some que \<Rightarrow>
               if queue_type (que_info que) \<noteq> SUBMISSION_Q_TYPE then Returns (KV_ERR_QUEUE_QID_INVALID, dev)
               else (case enqueue B cmd True (io_que que) of
                       None \<Rightarrow> Waits
                     | Some (res, q') \<Rightarrow>
                         Returns (res, dev\<lparr>io_objects := (io_objects dev)(a \<mapsto> que\<lparr>io_que := q'\<rparr>)\<rparr>))))"

text \<open>The end of every call: a new command, its fields, and its submission.\<close>

definition submit_cmd ::
    "('b, io_cmd) circular_buffer \<Rightarrow> kv_queue_handle \<Rightarrow> io_ctx_t \<Rightarrow> (io_ctx_t \<Rightarrow> io_ctx_t) \<Rightarrow> 'b kv_device_internal \<Rightarrow>
     (kv_result \<times> 'b kv_device_internal) call" where
  "submit_cmd B que_hdl c0 fill dev =
     (case io_cmd_new que_hdl c0 dev of
        None \<Rightarrow> Undefined
      | Some cmd \<Rightarrow> submit_io B que_hdl (cmd\<lparr>ioctx := fill (ioctx cmd)\<rparr>) dev)"

text \<open>An early return.\<close>

abbreviation (input) fails :: "kv_result \<Rightarrow> 'b kv_device_internal \<Rightarrow> (kv_result \<times> 'b kv_device_internal) call" where
  "fails r dev \<equiv> Returns (r, dev)"

definition dev_kv_purge ::
    "('b, io_cmd) circular_buffer \<Rightarrow> kv_queue_handle option \<Rightarrow> kv_namespace_handle option \<Rightarrow> u8 \<Rightarrow> kv_purge_option \<Rightarrow> kv_postprocess_function option \<Rightarrow>
     io_ctx_t \<Rightarrow> 'b kv_device_internal \<Rightarrow> (kv_result \<times> 'b kv_device_internal) call" where
  "dev_kv_purge B que_hdl ns_hdl ks_id opt post c0 dev =
     (case (que_hdl, ns_hdl) of
        (Some q, Some n) \<Rightarrow>
          (if opt = KV_PURGE_OPT_OTHER then fails KV_ERR_OPTION_INVALID dev
           else if ks_id_invalid ks_id then fails KV_ERR_KEYSPACE_INVALID dev
           else if qh_dev q = None then fails KV_ERR_DEV_NOT_EXIST dev
           else if nh_ns n = None then fails KV_ERR_NS_INVALID dev
           else if qh_queue q = None then fails KV_ERR_QUEUE_QID_INVALID dev
           else submit_cmd B q c0 (\<lambda>c. set_post post (c\<lparr>ctx_timeout_usec := 0, ctx_opcode := KV_OPC_PURGE,
             ctx_command := purge_info opt, ctx_key := None, ctx_value := None, ctx_ks_id := ks_id\<rparr>)) dev)
      | _ \<Rightarrow> fails KV_ERR_PARAM_INVALID dev)"

definition dev_kv_open_iterator ::
    "('b, io_cmd) circular_buffer \<Rightarrow> kv_queue_handle option \<Rightarrow> kv_namespace_handle option \<Rightarrow> u8 \<Rightarrow> kv_iterator_option \<Rightarrow> kv_group_condition option \<Rightarrow> kv_postprocess_function option \<Rightarrow>
     io_ctx_t \<Rightarrow> 'b kv_device_internal \<Rightarrow> (kv_result \<times> 'b kv_device_internal) call" where
  "dev_kv_open_iterator B que_hdl ns_hdl ks_id it_op it_cond post c0 dev =
     (case (que_hdl, ns_hdl, it_cond) of
        (Some q, Some n, Some cond) \<Rightarrow>
          (if it_op = KV_ITERATOR_OPT_OTHER then fails KV_ERR_OPTION_INVALID dev
           else if ks_id_invalid ks_id then fails KV_ERR_KEYSPACE_INVALID dev
           else if nh_ns n = None then fails KV_ERR_NS_INVALID dev
           else if qh_dev q = None then fails KV_ERR_DEV_NOT_EXIST dev
           else if qh_queue q = None then fails KV_ERR_QUEUE_QID_INVALID dev
           else submit_cmd B q c0 (\<lambda>c. set_post post (c\<lparr>ctx_timeout_usec := 0, ctx_hiter := 0, ctx_opcode := KV_OPC_OPEN_ITERATOR,
             ctx_command := iterator_open_info it_op cond, ctx_key := None, ctx_value := None, ctx_ks_id := ks_id\<rparr>)) dev)
      | _ \<Rightarrow> fails KV_ERR_PARAM_INVALID dev)"

definition dev_kv_close_iterator ::
    "('b, io_cmd) circular_buffer \<Rightarrow> kv_queue_handle option \<Rightarrow> kv_namespace_handle option \<Rightarrow> kv_postprocess_function option \<Rightarrow> u8 \<Rightarrow>
     io_ctx_t \<Rightarrow> 'b kv_device_internal \<Rightarrow> (kv_result \<times> 'b kv_device_internal) call" where
  "dev_kv_close_iterator B que_hdl ns_hdl post iter_hdl c0 dev =
     (case (que_hdl, ns_hdl) of
        (Some q, Some n) \<Rightarrow>
          (if iter_hdl = 0 then fails KV_ERR_PARAM_INVALID dev
           else if nh_ns n = None then fails KV_ERR_NS_INVALID dev
           else if qh_dev q = None then fails KV_ERR_DEV_NOT_EXIST dev
           else if qh_queue q = None then fails KV_ERR_QUEUE_QID_INVALID dev
           else submit_cmd B q c0 (\<lambda>c. set_post post (c\<lparr>ctx_timeout_usec := 0, ctx_hiter := iter_hdl, ctx_opcode := KV_OPC_CLOSE_ITERATOR,
             ctx_command := iterator_close_info iter_hdl, ctx_key := None, ctx_value := None\<rparr>)) dev)
      | _ \<Rightarrow> fails KV_ERR_PARAM_INVALID dev)"

text \<open>The \<open>key\<close> and \<open>value\<close> of the command are not set here, and no command of this kind reads them.\<close>

definition dev_kv_iterator_next_set ::
    "('b, io_cmd) circular_buffer \<Rightarrow> kv_queue_handle option \<Rightarrow> kv_namespace_handle option \<Rightarrow> u8 \<Rightarrow> kv_postprocess_function option \<Rightarrow> kv_iterator_list option \<Rightarrow>
     io_ctx_t \<Rightarrow> 'b kv_device_internal \<Rightarrow> (kv_result \<times> 'b kv_device_internal) call" where
  "dev_kv_iterator_next_set B que_hdl ns_hdl iter_hdl post iter_list c0 dev =
     (case (que_hdl, ns_hdl) of
        (Some q, Some n) \<Rightarrow>
          (if iter_hdl = 0 then fails KV_ERR_PARAM_INVALID dev
           else if qh_queue q = None then fails KV_ERR_QUEUE_QID_INVALID dev
           else if qh_dev q = None then fails KV_ERR_DEV_NOT_EXIST dev
           else if nh_ns n = None then fails KV_ERR_NS_INVALID dev
           else submit_cmd B q c0 (\<lambda>c. set_post post (c\<lparr>ctx_timeout_usec := 0, ctx_hiter := iter_hdl, ctx_opcode := KV_OPC_ITERATE_NEXT,
             ctx_command := iterator_next_info iter_hdl iter_list None None, ctx_key := None, ctx_value := None\<rparr>)) dev)
      | _ \<Rightarrow> fails KV_ERR_PARAM_INVALID dev)"

definition dev_kv_iterator_next ::
    "('b, io_cmd) circular_buffer \<Rightarrow> kv_queue_handle option \<Rightarrow> kv_namespace_handle option \<Rightarrow> u8 \<Rightarrow> kv_postprocess_function option \<Rightarrow> kv_key option \<Rightarrow> kv_value option \<Rightarrow>
     io_ctx_t \<Rightarrow> 'b kv_device_internal \<Rightarrow> (kv_result \<times> 'b kv_device_internal) call" where
  "dev_kv_iterator_next B que_hdl ns_hdl iter_hdl post key val c0 dev =
     (case (que_hdl, ns_hdl) of
        (Some q, Some n) \<Rightarrow>
          (if iter_hdl = 0 then fails KV_ERR_PARAM_INVALID dev
           else if qh_queue q = None then fails KV_ERR_QUEUE_QID_INVALID dev
           else if qh_dev q = None then fails KV_ERR_DEV_NOT_EXIST dev
           else if nh_ns n = None then fails KV_ERR_NS_INVALID dev
           else submit_cmd B q c0 (\<lambda>c. set_post post (c\<lparr>ctx_timeout_usec := 0, ctx_hiter := iter_hdl, ctx_opcode := KV_OPC_ITERATE_NEXT_SINGLE_KV,
             ctx_command := iterator_next_info iter_hdl None key val, ctx_key := None, ctx_value := None\<rparr>)) dev)
      | _ \<Rightarrow> fails KV_ERR_PARAM_INVALID dev)"

definition dev_kv_delete ::
    "('b, io_cmd) circular_buffer \<Rightarrow> kv_queue_handle option \<Rightarrow> kv_namespace_handle option \<Rightarrow> u8 \<Rightarrow> kv_key option \<Rightarrow> kv_delete_option \<Rightarrow> kv_postprocess_function option \<Rightarrow>
     io_ctx_t \<Rightarrow> 'b kv_device_internal \<Rightarrow> (kv_result \<times> 'b kv_device_internal) call" where
  "dev_kv_delete B que_hdl ns_hdl ks_id key opt post c0 dev =
     (case (que_hdl, ns_hdl, key) of
        (Some q, Some n, Some k) \<Rightarrow>
          (if validate_key_value k None \<noteq> KV_SUCCESS then fails (validate_key_value k None) dev
           else if ks_id_invalid ks_id then fails KV_ERR_KEYSPACE_INVALID dev
           else if qh_dev q = None then fails KV_ERR_DEV_NOT_EXIST dev
           else if qh_queue q = None then fails KV_ERR_QUEUE_QID_INVALID dev
           else if nh_ns n = None then fails KV_ERR_NS_INVALID dev
           else submit_cmd B q c0 (\<lambda>c. set_post post (c\<lparr>ctx_key := Some [k], ctx_value := None, ctx_timeout_usec := 0,
             ctx_opcode := KV_OPC_DELETE, ctx_command := delete_info opt, ctx_ks_id := ks_id\<rparr>)) dev)
      | _ \<Rightarrow> fails KV_ERR_PARAM_INVALID dev)"

definition dev_kv_delete_group ::
    "('b, io_cmd) circular_buffer \<Rightarrow> kv_queue_handle option \<Rightarrow> kv_namespace_handle option \<Rightarrow> u8 \<Rightarrow> kv_group_condition option \<Rightarrow> kv_postprocess_function option \<Rightarrow>
     io_ctx_t \<Rightarrow> 'b kv_device_internal \<Rightarrow> (kv_result \<times> 'b kv_device_internal) call" where
  "dev_kv_delete_group B que_hdl ns_hdl ks_id grp_cond post c0 dev =
     (case (que_hdl, ns_hdl, grp_cond) of
        (Some q, Some n, Some _) \<Rightarrow>
          (if qh_dev q = None then fails KV_ERR_DEV_NOT_EXIST dev
           else if ks_id_invalid ks_id then fails KV_ERR_KEYSPACE_INVALID dev
           else if qh_queue q = None then fails KV_ERR_QUEUE_QID_INVALID dev
           else if nh_ns n = None then fails KV_ERR_NS_INVALID dev
           else submit_cmd B q c0 (\<lambda>c. set_post post (c\<lparr>ctx_key := None, ctx_value := None, ctx_timeout_usec := 0,
             ctx_opcode := KV_OPC_DELETE_GROUP, ctx_command := delete_group_info grp_cond, ctx_ks_id := ks_id\<rparr>)) dev)
      | _ \<Rightarrow> fails KV_ERR_PARAM_INVALID dev)"

definition dev_kv_retrieve ::
    "('b, io_cmd) circular_buffer \<Rightarrow> kv_queue_handle option \<Rightarrow> kv_namespace_handle option \<Rightarrow> u8 \<Rightarrow> kv_key option \<Rightarrow> kv_retrieve_option \<Rightarrow> kv_postprocess_function option \<Rightarrow> kv_value option \<Rightarrow>
     io_ctx_t \<Rightarrow> 'b kv_device_internal \<Rightarrow> (kv_result \<times> 'b kv_device_internal) call" where
  "dev_kv_retrieve B que_hdl ns_hdl ks_id key opt post val c0 dev =
     (case (que_hdl, ns_hdl, key, val) of
        (Some q, Some n, Some k, Some v) \<Rightarrow>
          (if validate_key_value k (Some v) \<noteq> KV_SUCCESS then fails (validate_key_value k (Some v)) dev
           else if ks_id_invalid ks_id then fails KV_ERR_KEYSPACE_INVALID dev
           else if qh_dev q = None then fails KV_ERR_DEV_NOT_EXIST dev
           else if qh_queue q = None then fails KV_ERR_QUEUE_QID_INVALID dev
           else if nh_ns n = None then fails KV_ERR_NS_INVALID dev
           else submit_cmd B q c0 (\<lambda>c. set_post post (c\<lparr>ctx_key := Some [k], ctx_value := Some v, ctx_timeout_usec := 0,
             ctx_opcode := KV_OPC_GET, ctx_command := get_info opt, ctx_ks_id := ks_id\<rparr>)) dev)
      | _ \<Rightarrow> fails KV_ERR_PARAM_INVALID dev)"

definition dev_kv_store ::
    "('b, io_cmd) circular_buffer \<Rightarrow> kv_queue_handle option \<Rightarrow> kv_namespace_handle option \<Rightarrow> u8 \<Rightarrow> kv_key option \<Rightarrow> kv_value option \<Rightarrow> kv_store_option \<Rightarrow> kv_postprocess_function option \<Rightarrow>
     io_ctx_t \<Rightarrow> 'b kv_device_internal \<Rightarrow> (kv_result \<times> 'b kv_device_internal) call" where
  "dev_kv_store B que_hdl ns_hdl ks_id key val opt post c0 dev =
     (case (que_hdl, ns_hdl, key, val) of
        (Some q, Some n, Some k, Some v) \<Rightarrow>
          (if validate_key_value k (Some v) \<noteq> KV_SUCCESS then fails (validate_key_value k (Some v)) dev
           else if ks_id_invalid ks_id then fails KV_ERR_KEYSPACE_INVALID dev
           else if qh_dev q = None then fails KV_ERR_DEV_NOT_EXIST dev
           else if qh_queue q = None then fails KV_ERR_QUEUE_QID_INVALID dev
           else if nh_ns n = None then fails KV_ERR_NS_INVALID dev
           else submit_cmd B q c0 (\<lambda>c. set_post post (c\<lparr>ctx_key := Some [k], ctx_value := Some v, ctx_timeout_usec := 0,
             ctx_opcode := KV_OPC_STORE, ctx_command := store_info opt, ctx_ks_id := ks_id\<rparr>)) dev)
      | _ \<Rightarrow> fails KV_ERR_PARAM_INVALID dev)"

text \<open>\<open>kv_exist\<close> checks each of the \<open>key_cnt\<close> keys, and reads past a shorter array.\<close>

fun validate_keys :: "nat \<Rightarrow> kv_key list \<Rightarrow> kv_result option" where
  "validate_keys 0 keys = Some KV_SUCCESS"
| "validate_keys (Suc n) [] = None"
| "validate_keys (Suc n) (k # ks) =
     (if validate_key_value k None \<noteq> KV_SUCCESS then Some (validate_key_value k None) else validate_keys n ks)"

definition dev_kv_exist ::
    "('b, io_cmd) circular_buffer \<Rightarrow> kv_queue_handle option \<Rightarrow> kv_namespace_handle option \<Rightarrow> u8 \<Rightarrow> kv_key list option \<Rightarrow> u32 \<Rightarrow>
     kv_postprocess_function option \<Rightarrow> u32 \<Rightarrow> byte list option \<Rightarrow>
     io_ctx_t \<Rightarrow> 'b kv_device_internal \<Rightarrow> (kv_result \<times> 'b kv_device_internal) call" where
  "dev_kv_exist B que_hdl ns_hdl ks_id keys key_cnt post buffer_size buffer c0 dev =
     (case (que_hdl, ns_hdl, keys, buffer) of
        (Some q, Some n, Some ks, Some buf) \<Rightarrow>
          (case validate_keys (unat key_cnt) ks of
             None \<Rightarrow> Undefined
           | Some res \<Rightarrow>
               if res \<noteq> KV_SUCCESS then fails res dev
               else if ks_id_invalid ks_id then fails KV_ERR_KEYSPACE_INVALID dev
               else if qh_queue q = None then fails KV_ERR_QUEUE_QID_INVALID dev
               else if qh_dev q = None then fails KV_ERR_DEV_NOT_EXIST dev
               else if nh_ns n = None then fails KV_ERR_NS_INVALID dev
               else submit_cmd B q c0 (\<lambda>c. set_post post (c\<lparr>ctx_key := Some ks, ctx_value := None, ctx_timeout_usec := 0,
                      ctx_opcode := KV_OPC_CHECK_KEY_EXIST, ctx_command := key_exist_info key_cnt (Some buf) buffer_size,
                      ctx_ks_id := ks_id\<rparr>)) dev)
      | _ \<Rightarrow> fails KV_ERR_PARAM_INVALID dev)"

text \<open>\<open>kv_sanitize\<close> does not set the key space of its command.\<close>

definition dev_kv_sanitize ::
    "('b, io_cmd) circular_buffer \<Rightarrow> kv_queue_handle option \<Rightarrow> kv_device_handle option \<Rightarrow> kv_sanitize_option \<Rightarrow>
     kv_postprocess_function option \<Rightarrow> io_ctx_t \<Rightarrow> 'b kv_device_internal \<Rightarrow> (kv_result \<times> 'b kv_device_internal) call" where
  "dev_kv_sanitize B que_hdl dev_hdl opt post c0 dev =
     (if opt \<noteq> KV_SANITIZE_OPT_KV_ERASE \<and> opt \<noteq> KV_SANITIZE_OPT_CRYPTO_ERASE \<and> opt \<noteq> KV_SANITIZE_OPT_OVERWRITE
      then fails KV_ERR_OPTION_INVALID dev
      else (case (que_hdl, dev_hdl) of
              (Some q, Some d) \<Rightarrow>
                (if dh_dev d = None then fails KV_ERR_DEV_NOT_EXIST dev
                 else if qh_queue q = None then fails KV_ERR_QUEUE_QID_INVALID dev
                 else if get_namespace dev KV_NAMESPACE_DEFAULT = None then fails KV_ERR_VENDOR dev
                 else submit_cmd B q c0 (\<lambda>c. set_post post (c\<lparr>ctx_timeout_usec := 0,
                        ctx_opcode := KV_OPC_SANITIZE_DEVICE, ctx_command := sanitize_info opt,
                        ctx_key := None, ctx_value := None\<rparr>)) dev)
            | _ \<Rightarrow> fails KV_ERR_PARAM_INVALID dev))"

text \<open>\<open>kv_list_iterators\<close> asks the namespace at once.\<close>

definition dev_kv_list_iterators ::
    "kv_queue_handle option \<Rightarrow> kv_namespace_handle option \<Rightarrow> kv_iterator list option \<Rightarrow> u32 option \<Rightarrow> 'b kv_device_internal \<Rightarrow>
     (kv_result \<times> kv_iterator list option \<times> u32 option) option" where
  "dev_kv_list_iterators que_hdl ns_hdl kv_iters iter_cnt dev =
     (case (que_hdl, ns_hdl, kv_iters, iter_cnt) of
        (Some q, Some n, Some _, Some _) \<Rightarrow>
          if qh_queue q = None then Some (KV_ERR_QUEUE_QID_INVALID, kv_iters, iter_cnt)
          else if qh_dev q = None then Some (KV_ERR_DEV_NOT_EXIST, kv_iters, iter_cnt)
          else (case nh_ns n of
                  None \<Rightarrow> Some (KV_ERR_NS_INVALID, kv_iters, iter_cnt)
                | Some i \<Rightarrow> do { ns \<leftarrow> get_namespace dev i; ns_kv_list_iterators kv_iters iter_cnt ns })
      | _ \<Rightarrow> Some (KV_ERR_PARAM_INVALID, kv_iters, iter_cnt))"

section \<open>Completions\<close>

text \<open>\<open>kv_poll_completion\<close>: the result, the events and the commands whose callback was called.\<close>

definition dev_kv_poll_completion ::
    "('b, io_cmd) circular_buffer \<Rightarrow> kv_queue_handle option \<Rightarrow> u32 \<Rightarrow> u32 option \<Rightarrow> 'b kv_device_internal \<Rightarrow>
     (kv_result \<times> u32 option \<times> io_cmd list \<times> 'b kv_device_internal) option" where
  "dev_kv_poll_completion B que_hdl timeout_usec num_events dev =
     (case (que_hdl, num_events) of
        (Some h, Some num) \<Rightarrow>
          (case qh_queue h of
             None \<Rightarrow> Some (KV_ERR_QUEUE_QID_INVALID, num_events, [], dev)
           | Some a \<Rightarrow>
               do { q \<leftarrow> io_objects dev a;
                    if queue_type (que_info q) \<noteq> COMPLETION_Q_TYPE
                    then Some (KV_ERR_QUEUE_QID_INVALID, num_events, [], dev)
                    else let (r, k, cmds, q') = poll_completion B timeout_usec num (io_que q) in
                         Some (r, Some k, cmds, dev\<lparr>io_objects := (io_objects dev)(a \<mapsto> q\<lparr>io_que := q'\<rparr>)\<rparr>) })
      | _ \<Rightarrow> Some (KV_ERR_PARAM_INVALID, num_events, [], dev))"

definition dev_kv_set_interrupt_handler :: "kv_queue_handle option \<Rightarrow> bool \<Rightarrow> 'b kv_device_internal \<Rightarrow>
    (kv_result \<times> 'b kv_device_internal) option" where
  "dev_kv_set_interrupt_handler que_hdl int_hdl dev =
     (case que_hdl of
        None \<Rightarrow> Some (KV_ERR_PARAM_INVALID, dev)
      | Some h \<Rightarrow>
          if \<not> int_hdl then Some (KV_ERR_PARAM_INVALID, dev)
          else (case qh_queue h of
             None \<Rightarrow> Some (KV_ERR_QUEUE_QID_INVALID, dev)
           | Some a \<Rightarrow>
               do { q \<leftarrow> io_objects dev a;
                    if queue_type (que_info q) \<noteq> COMPLETION_Q_TYPE then Some (KV_ERR_QUEUE_QID_INVALID, dev)
                    else if m_is_poll dev then Some (KV_ERR_OPTION_INVALID, dev)
                    else Some (KV_SUCCESS,
                      dev\<lparr>io_objects := (io_objects dev)(a \<mapsto> q\<lparr>io_interrupt := True\<rparr>)\<rparr>) }))"

definition get_queued_commands_count :: "('b, io_cmd) circular_buffer \<Rightarrow> kv_queue_handle option \<Rightarrow>
    'b kv_device_internal \<Rightarrow> u32 option" where
  "get_queued_commands_count B que_hdl dev =
     (case que_hdl of
        None \<Rightarrow> Some 0
      | Some h \<Rightarrow> (case qh_queue h of
          None \<Rightarrow> Some 0
        | Some a \<Rightarrow> map_option (\<lambda>q. word_of_nat (queue_len B (io_que q))) (io_objects dev a)))"

end
