(* ===== verification/Kv_Adi.thy ===== *)
theory Kv_Adi
  imports Kv_Device_Io
begin

text \<open>
  The C interface of the emulated device, \<open>kvs_adi.cpp\<close>
  (\<open>PDK/core/src/device_abstract_layer/emulator/src\<close>), and what a device does on the calls:
  the invariant of its queue table, and what a submitted request becomes.
\<close>

section \<open>The calls\<close>

text \<open>A member function is called on the device the queue handle points to.\<close>

definition on_device :: "kv_queue_handle option \<Rightarrow> 'a call \<Rightarrow> 'a call" where
  "on_device que_hdl c = (if que_hdl \<noteq> None \<and> qh_dev (the que_hdl) = None then Undefined else c)"

definition adi_kv_purge ::
    "('b, io_cmd) circular_buffer \<Rightarrow> kv_queue_handle option \<Rightarrow> kv_namespace_handle option \<Rightarrow> u8 \<Rightarrow> kv_purge_option \<Rightarrow> kv_postprocess_function option \<Rightarrow>
     io_ctx_t \<Rightarrow> 'b kv_device_internal \<Rightarrow> (kv_result \<times> 'b kv_device_internal) call" where
  "adi_kv_purge B que_hdl ns_hdl ks_id opt post c0 dev =
     (if que_hdl = None \<or> ns_hdl = None then fails KV_ERR_PARAM_INVALID dev
      else on_device que_hdl (dev_kv_purge B que_hdl ns_hdl ks_id opt post c0 dev))"

definition adi_kv_open_iterator ::
    "('b, io_cmd) circular_buffer \<Rightarrow> kv_queue_handle option \<Rightarrow> kv_namespace_handle option \<Rightarrow> u8 \<Rightarrow> kv_iterator_option \<Rightarrow> kv_group_condition option \<Rightarrow> kv_postprocess_function option \<Rightarrow>
     io_ctx_t \<Rightarrow> 'b kv_device_internal \<Rightarrow> (kv_result \<times> 'b kv_device_internal) call" where
  "adi_kv_open_iterator B que_hdl ns_hdl ks_id it_op it_cond post c0 dev =
     (if que_hdl = None \<or> ns_hdl = None \<or> it_cond = None then fails KV_ERR_PARAM_INVALID dev
      else on_device que_hdl (dev_kv_open_iterator B que_hdl ns_hdl ks_id it_op
        (map_option (\<lambda>c. \<lparr>gc_bitmask = htobe32 (gc_bitmask c), gc_bit_pattern = htobe32 (gc_bit_pattern c)\<rparr>) it_cond) post c0 dev))"

definition adi_kv_close_iterator ::
    "('b, io_cmd) circular_buffer \<Rightarrow> kv_queue_handle option \<Rightarrow> kv_namespace_handle option \<Rightarrow> u8 \<Rightarrow> kv_postprocess_function option \<Rightarrow>
     io_ctx_t \<Rightarrow> 'b kv_device_internal \<Rightarrow> (kv_result \<times> 'b kv_device_internal) call" where
  "adi_kv_close_iterator B que_hdl ns_hdl iter_hdl post c0 dev =
     (if que_hdl = None \<or> ns_hdl = None \<or> iter_hdl = 0 then fails KV_ERR_PARAM_INVALID dev
      else on_device que_hdl (dev_kv_close_iterator B que_hdl ns_hdl post iter_hdl c0 dev))"

definition adi_kv_iterator_next ::
    "('b, io_cmd) circular_buffer \<Rightarrow> kv_queue_handle option \<Rightarrow> kv_namespace_handle option \<Rightarrow> u8 \<Rightarrow> kv_iterator_list option \<Rightarrow> kv_postprocess_function option \<Rightarrow>
     io_ctx_t \<Rightarrow> 'b kv_device_internal \<Rightarrow> (kv_result \<times> 'b kv_device_internal) call" where
  "adi_kv_iterator_next B que_hdl ns_hdl iter_hdl iter_list post c0 dev =
     (if que_hdl = None \<or> ns_hdl = None \<or> iter_list = None \<or> iter_hdl = 0 then fails KV_ERR_PARAM_INVALID dev
      else on_device que_hdl (dev_kv_iterator_next_set B que_hdl ns_hdl iter_hdl post iter_list c0 dev))"

definition adi_kv_delete ::
    "('b, io_cmd) circular_buffer \<Rightarrow> kv_queue_handle option \<Rightarrow> kv_namespace_handle option \<Rightarrow> u8 \<Rightarrow> kv_key option \<Rightarrow> kv_delete_option \<Rightarrow> kv_postprocess_function option \<Rightarrow>
     io_ctx_t \<Rightarrow> 'b kv_device_internal \<Rightarrow> (kv_result \<times> 'b kv_device_internal) call" where
  "adi_kv_delete B que_hdl ns_hdl ks_id key opt post c0 dev =
     (if que_hdl = None \<or> ns_hdl = None \<or> key = None then fails KV_ERR_PARAM_INVALID dev
      else on_device que_hdl (dev_kv_delete B que_hdl ns_hdl ks_id key opt post c0 dev))"

definition adi_kv_delete_group ::
    "('b, io_cmd) circular_buffer \<Rightarrow> kv_queue_handle option \<Rightarrow> kv_namespace_handle option \<Rightarrow> u8 \<Rightarrow> kv_group_condition option \<Rightarrow> kv_postprocess_function option \<Rightarrow>
     io_ctx_t \<Rightarrow> 'b kv_device_internal \<Rightarrow> (kv_result \<times> 'b kv_device_internal) call" where
  "adi_kv_delete_group B que_hdl ns_hdl ks_id grp_cond post c0 dev =
     (if que_hdl = None \<or> ns_hdl = None \<or> grp_cond = None then fails KV_ERR_PARAM_INVALID dev
      else on_device que_hdl (dev_kv_delete_group B que_hdl ns_hdl ks_id grp_cond post c0 dev))"

definition adi_kv_exist ::
    "('b, io_cmd) circular_buffer \<Rightarrow> kv_queue_handle option \<Rightarrow> kv_namespace_handle option \<Rightarrow> u8 \<Rightarrow> kv_key list option \<Rightarrow> u32 \<Rightarrow> u32 \<Rightarrow> byte list option \<Rightarrow> kv_postprocess_function option \<Rightarrow>
     io_ctx_t \<Rightarrow> 'b kv_device_internal \<Rightarrow> (kv_result \<times> 'b kv_device_internal) call" where
  "adi_kv_exist B que_hdl ns_hdl ks_id key key_cnt buffer_size buffer post c0 dev =
     (if que_hdl = None \<or> ns_hdl = None \<or> key = None \<or> buffer = None then fails KV_ERR_PARAM_INVALID dev
      else on_device que_hdl (dev_kv_exist B que_hdl ns_hdl ks_id key key_cnt post buffer_size buffer c0 dev))"

definition adi_kv_retrieve ::
    "('b, io_cmd) circular_buffer \<Rightarrow> kv_queue_handle option \<Rightarrow> kv_namespace_handle option \<Rightarrow> u8 \<Rightarrow> kv_key option \<Rightarrow> kv_retrieve_option \<Rightarrow> kv_value option \<Rightarrow> kv_postprocess_function option \<Rightarrow>
     io_ctx_t \<Rightarrow> 'b kv_device_internal \<Rightarrow> (kv_result \<times> 'b kv_device_internal) call" where
  "adi_kv_retrieve B que_hdl ns_hdl ks_id key opt val post c0 dev =
     (if que_hdl = None \<or> ns_hdl = None \<or> key = None \<or> val = None then fails KV_ERR_PARAM_INVALID dev
      else on_device que_hdl (dev_kv_retrieve B que_hdl ns_hdl ks_id key opt post val c0 dev))"

definition adi_kv_store ::
    "('b, io_cmd) circular_buffer \<Rightarrow> kv_queue_handle option \<Rightarrow> kv_namespace_handle option \<Rightarrow> u8 \<Rightarrow> kv_key option \<Rightarrow> kv_value option \<Rightarrow> kv_store_option \<Rightarrow> kv_postprocess_function option \<Rightarrow>
     io_ctx_t \<Rightarrow> 'b kv_device_internal \<Rightarrow> (kv_result \<times> 'b kv_device_internal) call" where
  "adi_kv_store B que_hdl ns_hdl ks_id key val opt post c0 dev =
     (if que_hdl = None \<or> ns_hdl = None \<or> key = None \<or> val = None then fails KV_ERR_PARAM_INVALID dev
      else on_device que_hdl (dev_kv_store B que_hdl ns_hdl ks_id key val opt post c0 dev))"

definition adi_kv_poll_completion ::
    "('b, io_cmd) circular_buffer \<Rightarrow> kv_queue_handle option \<Rightarrow> u32 \<Rightarrow> u32 option \<Rightarrow> 'b kv_device_internal \<Rightarrow>
     (kv_result \<times> u32 option \<times> io_cmd list \<times> 'b kv_device_internal) option" where
  "adi_kv_poll_completion B que_hdl timeout_usec num_events dev =
     (if que_hdl = None \<or> num_events = None then Some (KV_ERR_PARAM_INVALID, num_events, [], dev)
      else if qh_dev (the que_hdl) = None then None
      else dev_kv_poll_completion B que_hdl timeout_usec num_events dev)"

definition adi_kv_set_interrupt_handler :: "kv_queue_handle option \<Rightarrow> bool \<Rightarrow> 'b kv_device_internal \<Rightarrow>
    (kv_result \<times> 'b kv_device_internal) option" where
  "adi_kv_set_interrupt_handler que_hdl int_hdl dev =
     (if que_hdl = None \<or> \<not> int_hdl then Some (KV_ERR_PARAM_INVALID, dev)
      else if qh_dev (the que_hdl) = None then None
      else dev_kv_set_interrupt_handler que_hdl int_hdl dev)"

text \<open>\<open>get_namespace_default\<close>; \<open>ns_hdl\<close> says whether the pointer for the handle is given.\<close>

definition get_namespace_default :: "kv_device_handle option \<Rightarrow> bool \<Rightarrow> 'b device_class \<Rightarrow>
    (kv_result \<times> kv_namespace_handle option) option" where
  "get_namespace_default dev_hdl ns_hdl st =
     (case dev_hdl of
        None \<Rightarrow> Some (KV_ERR_PARAM_INVALID, None)
      | Some d \<Rightarrow>
          if \<not> ns_hdl then Some (KV_ERR_PARAM_INVALID, None)
          else (case dh_dev d of
             None \<Rightarrow> Some (KV_ERR_DEV_NOT_EXIST, None)
           | Some a \<Rightarrow>
               do { dev \<leftarrow> dev_objects st a;
                    case get_namespace dev KV_NAMESPACE_DEFAULT of
                      None \<Rightarrow> Some (KV_ERR_NS_INVALID, None)
                    | Some ns \<Rightarrow> Some (KV_SUCCESS, Some \<lparr>nh_nsid = get_nsid ns, nh_dev = Some a,
                                                       nh_ns = Some KV_NAMESPACE_DEFAULT\<rparr>) }))"

section \<open>Requests\<close>

text \<open>The call for a request, and the request the caller's memory is large enough for.\<close>

fun adi_request ::
    "('b, io_cmd) circular_buffer \<Rightarrow> kv_queue_handle option \<Rightarrow> kv_namespace_handle option \<Rightarrow> kv_postprocess_function option \<Rightarrow>
     io_ctx_t \<Rightarrow> kv_request \<Rightarrow> 'b kv_device_internal \<Rightarrow> (kv_result \<times> 'b kv_device_internal) call" where
  "adi_request B q n p c0 (ReqStore ks k v opt) dev = adi_kv_store B q n ks (Some k) (Some v) opt p c0 dev"
| "adi_request B q n p c0 (ReqRetrieve ks k v opt) dev = adi_kv_retrieve B q n ks (Some k) opt (Some v) p c0 dev"
| "adi_request B q n p c0 (ReqExist ks keys cnt buf bsize) dev =
     adi_kv_exist B q n ks (Some keys) cnt bsize (Some buf) p c0 dev"
| "adi_request B q n p c0 (ReqDelete ks k opt) dev = adi_kv_delete B q n ks (Some k) opt p c0 dev"
| "adi_request B q n p c0 (ReqPurge ks opt) dev = adi_kv_purge B q n ks opt p c0 dev"

fun request_readable :: "kv_request \<Rightarrow> bool" where
  "request_readable (ReqStore ks k v opt) \<longleftrightarrow> key_readable k \<and> value_readable v"
| "request_readable (ReqRetrieve ks k v opt) \<longleftrightarrow> key_readable k \<and> value_readable v"
| "request_readable (ReqExist ks keys cnt buf bsize) \<longleftrightarrow>
     list_all key_readable keys \<and> unat cnt = length keys \<and> unat cnt < 2 ^ 31 \<and> unat bsize \<le> length buf"
| "request_readable (ReqDelete ks k opt) \<longleftrightarrow> key_readable k"
| "request_readable (ReqPurge ks opt) \<longleftrightarrow> True"

lemma enqueue_error:
  "enqueue B cmd block q = Some (r, q') \<Longrightarrow> r \<noteq> KV_SUCCESS \<Longrightarrow> q' = q"
  by (auto simp: enqueue_def enqueue_loop_def split: if_splits)

lemma submit_io_error:
  assumes "submit_io B h cmd dev = Returns (r, dev')" and "r \<noteq> KV_SUCCESS"
  shows "dev' = dev"
proof (cases "qh_queue h")
  case None
  then show ?thesis using assms(1) by (simp add: submit_io_def)
next
  case (Some a)
  show ?thesis
  proof (cases "io_objects dev a")
    case None
    then show ?thesis using assms(1) Some by (simp add: submit_io_def)
  next
    case que: (Some que)
    show ?thesis
    proof (cases "enqueue B cmd True (io_que que)")
      case None
      then show ?thesis using assms(1) Some que by (simp add: submit_io_def split: if_splits)
    next
      case e: (Some x)
      obtain r1 q1 where x: "x = (r1, q1)" by (cases x)
      from assms(1) have "dev' = dev \<or> r = r1 \<and> dev' = dev\<lparr>io_objects := (io_objects dev)(a \<mapsto> que\<lparr>io_que := q1\<rparr>)\<rparr>"
        unfolding submit_io_def Some que e x option.case prod.case by (simp split: if_splits)
      moreover have "q1 = io_que que" if "r1 \<noteq> KV_SUCCESS" using enqueue_error [OF e [unfolded x] that] .
      moreover have "(io_objects dev)(a \<mapsto> que\<lparr>io_que := io_que que\<rparr>) = io_objects dev"
        using que by (simp add: fun_upd_idem)
      ultimately show ?thesis using assms(2) by (metis kv_device_internal.surjective kv_device_internal.update_convs(13))
    qed
  qed
qed

lemma submit_cmd_error: "submit_cmd B h c0 f dev = Returns (r, dev') \<Longrightarrow> r \<noteq> KV_SUCCESS \<Longrightarrow> dev' = dev"
  by (auto simp: submit_cmd_def split: option.splits dest: submit_io_error)

lemmas call_defs = adi_kv_store_def adi_kv_retrieve_def adi_kv_exist_def adi_kv_delete_def adi_kv_purge_def
  dev_kv_store_def dev_kv_retrieve_def dev_kv_exist_def dev_kv_delete_def dev_kv_purge_def on_device_def

lemma adi_request_error:
  assumes "adi_request B h n p c0 rq dev = Returns (r, dev')" and "r \<noteq> KV_SUCCESS"
  shows "dev' = dev"
  using assms
  by (cases rq) (auto simp: call_defs split: option.splits if_splits dest: submit_cmd_error)

lemma validate_key_ok: "validate_key_value k vo = KV_SUCCESS \<Longrightarrow> key_readable k \<Longrightarrow> key_ok k"
  using validate_success [of k vo] by (simp add: key_ok_def)

lemma validate_keys_ok:
  "validate_keys n ks = Some KV_SUCCESS \<Longrightarrow> length ks = n \<Longrightarrow> list_all key_readable ks \<Longrightarrow> list_all key_ok ks"
  by (induction n ks rule: validate_keys.induct) (auto dest: validate_key_ok split: if_splits)

text \<open>A successful call submits the command of its request.\<close>

lemma adi_request_submits:
  assumes "adi_request B h n p c0 rq dev = Returns (KV_SUCCESS, dev')"
  shows "\<exists>q c. h = Some q \<and> submit_cmd B q c0 (\<lambda>_. request_ctx rq c) dev = Returns (KV_SUCCESS, dev')
    \<and> (request_readable rq \<longrightarrow> request_ok rq)"
proof -
  let ?c = "(set_post p c0)\<lparr>ctx_timeout_usec := 0\<rparr>"
  have "\<exists>q f. h = Some q \<and> submit_cmd B q c0 f dev = Returns (KV_SUCCESS, dev') \<and> f c0 = request_ctx rq ?c
    \<and> (request_readable rq \<longrightarrow> request_ok rq)"
    using assms
  proof (cases rq)
    case (ReqStore ks k v opt)
    with assms show ?thesis
      by (fastforce simp: adi_kv_store_def dev_kv_store_def on_device_def set_post_def dest: validate_key_ok
          split: option.splits if_splits)
  next
    case (ReqRetrieve ks k v opt)
    with assms show ?thesis
      by (fastforce simp: adi_kv_retrieve_def dev_kv_retrieve_def on_device_def set_post_def dest: validate_key_ok
          split: option.splits if_splits)
  next
    case (ReqExist ks keys cnt buf bsize)
    with assms show ?thesis
      by (fastforce simp: adi_kv_exist_def dev_kv_exist_def on_device_def set_post_def dest: validate_keys_ok
          split: option.splits if_splits)
  next
    case (ReqDelete ks k opt)
    with assms show ?thesis
      by (fastforce simp: adi_kv_delete_def dev_kv_delete_def on_device_def set_post_def dest: validate_key_ok
          split: option.splits if_splits)
  next
    case (ReqPurge ks opt)
    with assms show ?thesis
      by (fastforce simp: adi_kv_purge_def dev_kv_purge_def on_device_def set_post_def split: option.splits if_splits)
  qed
  then obtain q f where "h = Some q" "submit_cmd B q c0 f dev = Returns (KV_SUCCESS, dev')" "f c0 = request_ctx rq ?c"
    "request_readable rq \<longrightarrow> request_ok rq" by blast
  moreover have "submit_cmd B q c0 f dev = submit_cmd B q c0 (\<lambda>_. f c0) dev"
    by (auto simp: submit_cmd_def io_cmd_new_def split: option.splits bind_splits)
  ultimately show ?thesis by auto
qed

section \<open>The life of a device\<close>

text \<open>
  The steps of a device: the calls of clients, the worker and interrupt threads taking
  commands out of queues and putting them into others, and queries. With \<open>strict\<close>, clients
  name a completion queue when they create a submission queue.
\<close>

definition names_cq :: "kv_queue \<Rightarrow> 'b kv_device_internal \<Rightarrow> bool" where
  "names_cq info dev \<longleftrightarrow> queue_type info = SUBMISSION_Q_TYPE \<longrightarrow>
     (\<exists>b p. map_of (m_ioque_list dev) (completion_queue_id info) = Some b \<and> io_objects dev b = Some p
        \<and> queue_type (que_info p) = COMPLETION_Q_TYPE)"

inductive dev_trans :: "('b, io_cmd) circular_buffer \<Rightarrow> bool \<Rightarrow> 'b kv_device_internal \<Rightarrow> 'b kv_device_internal \<Rightarrow> bool"
  for B strict where
  create: "create_queue B this (Some info) hdl dev = (r, h, dev') \<Longrightarrow> strict \<longrightarrow> names_cq info dev \<Longrightarrow> dev_trans B strict dev dev'"
| remove: "remove_queue qid dev = Some (r, dev') \<Longrightarrow> dev_trans B strict dev dev'"
| request: "adi_request B h n p c0 rq dev = Returns (r, dev') \<Longrightarrow> dev_trans B strict dev dev'"
| submit: "submit_io B h' cmd dev = Returns (r, dev') \<Longrightarrow> dev_trans B strict dev dev'"
| poll: "adi_kv_poll_completion B h t k dev = Some (r, k', cmds, dev') \<Longrightarrow> dev_trans B strict dev dev'"
| interrupt: "adi_kv_set_interrupt_handler h i dev = Some (r, dev') \<Longrightarrow> dev_trans B strict dev dev'"
| thread_take: "io_objects dev a = Some q \<Longrightarrow> dequeue B block t timed_out (io_que q) = Some (r, cmd', q') \<Longrightarrow>
    dev_trans B strict dev (dev\<lparr>io_objects := (io_objects dev)(a \<mapsto> q\<lparr>io_que := q'\<rparr>)\<rparr>)"
| thread_put: "io_objects dev a = Some q \<Longrightarrow> enqueue B cmd block (io_que q) = Some (r, q') \<Longrightarrow>
    dev_trans B strict dev (dev\<lparr>io_objects := (io_objects dev)(a \<mapsto> q\<lparr>io_que := q'\<rparr>)\<rparr>)"
| query: "dev_trans B strict dev (update_capacity_consumed util dev)"

definition dev_good :: "bool \<Rightarrow> 'b kv_device_internal \<Rightarrow> bool" where
  "dev_good strict dev \<longleftrightarrow> dev_inv dev \<and> (strict \<longrightarrow> dev_linked dev)"

lemma touch_good:
  assumes "dev_good strict dev" and "io_objects dev a = Some q" and "que_info q' = que_info q" and "io_out q' = io_out q"
  shows "dev_good strict (dev\<lparr>io_objects := (io_objects dev)(a \<mapsto> q')\<rparr>)"
  using assms touch_queue [OF assms(2-4)] by (simp add: dev_good_def)

lemma enqueue_info: "enqueue B cmd block q = Some (r, q') \<Longrightarrow> q_info q' = q_info q"
  by (auto simp: enqueue_def enqueue_loop_def split: if_splits)

lemma dequeue_info: "dequeue B block t to q = Some (r, c, q') \<Longrightarrow> q_info q' = q_info q"
  by (auto simp: dequeue_def split: if_splits)

lemma poll_loop_info: "poll_loop B n t q d = (r, d', q') \<Longrightarrow> q_info q' = q_info q"
proof (induction n arbitrary: q d)
  case (Suc n)
  show ?case
  proof (cases "dequeue B False t False q")
    case None
    then show ?thesis using Suc.prems by simp
  next
    case (Some x)
    obtain r1 c1 q1 where x: "x = (r1, c1, q1)" by (cases x)
    then have q1: "q_info q1 = q_info q" using dequeue_info Some by blast
    from Suc.prems Some x have "q_info q' = q_info q1"
      by (cases r1; cases c1) (auto dest: Suc.IH)
    then show ?thesis using q1 by simp
  qed
qed simp

lemma poll_completion_info: "poll_completion B t k q = (r, k', d, q') \<Longrightarrow> q_info q' = q_info q"
  by (auto simp: poll_completion_def Let_def split: if_splits prod.splits dest: poll_loop_info)

lemma submit_io_good:
  assumes "dev_good strict dev" and "submit_io B h cmd dev = Returns (r, dev')"
  shows "dev_good strict dev'"
proof -
  obtain a q where "dev' = dev \<or> io_objects dev a = Some q \<and>
      (\<exists>q'. enqueue B cmd True (io_que q) = Some (r, q')
        \<and> dev' = dev\<lparr>io_objects := (io_objects dev)(a \<mapsto> q\<lparr>io_que := q'\<rparr>)\<rparr>)"
    using assms(2) unfolding submit_io_def by (auto split: option.splits if_splits)
  then show ?thesis using assms(1) touch_good [of strict dev a q] enqueue_info by fastforce
qed

lemma submit_cmd_good:
  "dev_good strict dev \<Longrightarrow> submit_cmd B h c0 f dev = Returns (r, dev') \<Longrightarrow> dev_good strict dev'"
  by (auto simp: submit_cmd_def split: option.splits intro: submit_io_good)

lemma adi_request_good:
  assumes "dev_good strict dev" and "adi_request B h n p c0 rq dev = Returns (r, dev')"
  shows "dev_good strict dev'"
proof (cases "r = KV_SUCCESS")
  case True
  then show ?thesis using adi_request_submits [of B h n p c0 rq dev dev'] assms submit_cmd_good by blast
next
  case False
  then show ?thesis using adi_request_error [OF assms(2)] assms(1) by simp
qed

lemma poll_good:
  assumes "dev_good strict dev" and "adi_kv_poll_completion B h t k dev = Some (r, k', cmds, dev')"
  shows "dev_good strict dev'"
proof -
  have "dev' = dev \<or> (\<exists>a q n n' r q'. io_objects dev a = Some q \<and> poll_completion B t n (io_que q) = (r, n', cmds, q')
        \<and> dev' = dev\<lparr>io_objects := (io_objects dev)(a \<mapsto> q\<lparr>io_que := q'\<rparr>)\<rparr>)"
    using assms(2) unfolding adi_kv_poll_completion_def dev_kv_poll_completion_def
    by (auto simp: Let_def split: option.splits if_splits bind_splits prod.splits) blast
  then show ?thesis using assms(1) poll_completion_info by (fastforce intro: touch_good)
qed

lemma interrupt_good:
  assumes "dev_good strict dev" and "adi_kv_set_interrupt_handler h i dev = Some (r, dev')"
  shows "dev_good strict dev'"
proof -
  obtain a q where "dev' = dev \<or> io_objects dev a = Some q \<and>
      dev' = dev\<lparr>io_objects := (io_objects dev)(a \<mapsto> q\<lparr>io_interrupt := True\<rparr>)\<rparr>"
    using assms(2) unfolding adi_kv_set_interrupt_handler_def dev_kv_set_interrupt_handler_def
    by (auto split: option.splits if_splits bind_splits)
  then show ?thesis using assms(1) touch_good [of strict dev a q] by fastforce
qed

lemma query_good: "dev_good strict dev \<Longrightarrow> dev_good strict (update_capacity_consumed util dev)"
  by (simp add: dev_good_def dev_inv_def dev_linked_def update_capacity_consumed_def Let_def)

lemma dev_trans_good: "dev_trans B strict dev dev' \<Longrightarrow> dev_good strict dev \<Longrightarrow> dev_good strict dev'"
proof (induction rule: dev_trans.induct)
  case (create this info hdl dev r h dev')
  then show ?case using create_queue_inv [OF _ create(1)] create_queue_linked [OF _ _ create(1)]
    by (auto simp: dev_good_def names_cq_def)
next
  case (remove qid dev r dev')
  then show ?case using remove_queue_inv [OF _ remove(1)] remove_queue_linked [OF _ _ remove(1)]
    by (auto simp: dev_good_def)
next
  case (thread_take dev a q block t timed_out r cmd' q')
  then show ?case using touch_good [OF thread_take(3,1)] dequeue_info [OF thread_take(2)] by simp
next
  case (thread_put dev a q cmd block r q')
  then show ?case using touch_good [OF thread_put(3,1)] enqueue_info [OF thread_put(2)] by simp
qed (auto intro: adi_request_good submit_io_good poll_good interrupt_good query_good)

lemma dev_reach_good:
  assumes "kv_device_internal_new cfg is_polling devid = Some dev0" and "(dev_trans B strict)\<^sup>*\<^sup>* dev0 dev"
  shows "dev_good strict dev"
  using assms(2)
proof (induction rule: rtranclp_induct)
  case base
  then show ?case using device_new_inv [OF assms(1)] by (simp add: dev_good_def)
next
  case (step y z)
  then show ?case using dev_trans_good by blast
qed

section \<open>Properties\<close>

text \<open>A device with the default settings, and queue descriptions for it.\<close>

definition sample_dev :: "(io_cmd list \<times> nat) kv_device_internal" where
  "sample_dev = the (kv_device_internal_new Map.empty True 1)"

lemma sample_dev_new: "kv_device_internal_new Map.empty True 1 = Some sample_dev"
proof -
  obtain d where "kv_device_internal_new Map.empty True 1 = Some (d :: (io_cmd list \<times> nat) kv_device_internal)"
    by (simp add: kv_device_internal_new_def getkv_def config_capacity_def)
  then show ?thesis by (simp add: sample_dev_def)
qed

definition sample_queue :: "u16 \<Rightarrow> u16 \<Rightarrow> queue_type_t \<Rightarrow> kv_queue" where
  "sample_queue qid cq ty = \<lparr>queue_id = qid, queue_size = 16, completion_queue_id = cq, queue_type = ty\<rparr>"

definition sample_create :: "kv_queue \<Rightarrow> (io_cmd list \<times> nat) kv_device_internal \<Rightarrow> (io_cmd list \<times> nat) kv_device_internal" where
  "sample_create info dev = snd (snd (create_queue list_buffer 0 (Some info) True dev))"

lemma sample_create_step:
  "strict \<longrightarrow> names_cq info dev \<Longrightarrow> dev_trans list_buffer strict dev (sample_create info dev)"
  by (rule create [of _ 0 info True _ "fst (create_queue list_buffer 0 (Some info) True dev)"
        "fst (snd (create_queue list_buffer 0 (Some info) True dev))"]) (simp_all add: sample_create_def)

text \<open>No 16-bit size exceeds the limit \<open>create_queue\<close> checks.\<close>

lemma queue_size_fits: "\<not> 65535 < unat (s :: u16)"
  using unsigned_less [of s, where ?'a = nat] by simp

lemmas sample_eval = queue_size_fits sample_create_def create_queue_def sample_queue_def qid_exist_def get_ioqueue_def Let_def
  umap_insert_def emul_ioqueue_new_def

text \<open>One completion queue, a submission queue for it.\<close>

definition sample_dev2 :: "(io_cmd list \<times> nat) kv_device_internal" where
  "sample_dev2 = sample_create (sample_queue 2 1 SUBMISSION_Q_TYPE)
     (sample_create (sample_queue 1 0 COMPLETION_Q_TYPE) sample_dev)"

lemma sample_dev_fields:
  "m_ioque_list sample_dev = []" "m_sq_to_cq_pairs sample_dev = []" "io_objects sample_dev = Map.empty"
  "next_object sample_dev = 0" "m_device_stat sample_dev = \<lparr>namespace_count = 1, queue_count = 2, utilization = 0, waf = 0\<rparr>"
  by (simp_all add: sample_dev_def kv_device_internal_new_def getkv_def config_capacity_def)

lemma sample_dev2_fields:
  "m_ioque_list sample_dev2 = [(2, 1), (1, 0)]" "m_sq_to_cq_pairs sample_dev2 = [(2, 1)]"
  "io_objects sample_dev2 =
     [0 \<mapsto> \<lparr>io_que = emul_ioqueue_new list_buffer (sample_queue 1 0 COMPLETION_Q_TYPE), io_out = None, io_interrupt = False\<rparr>,
      1 \<mapsto> \<lparr>io_que = emul_ioqueue_new list_buffer (sample_queue 2 1 SUBMISSION_Q_TYPE), io_out = Some 0, io_interrupt = False\<rparr>]"
  "next_object sample_dev2 = Suc (Suc 0)"
  by (simp_all add: sample_dev2_def sample_eval sample_dev_fields)

lemma sample_dev2_reach: "(dev_trans list_buffer strict)\<^sup>*\<^sup>* sample_dev sample_dev2"
proof -
  have "dev_trans list_buffer strict sample_dev (sample_create (sample_queue 1 0 COMPLETION_Q_TYPE) sample_dev)"
    by (rule sample_create_step) (simp add: names_cq_def sample_queue_def)
  moreover have "dev_trans list_buffer strict (sample_create (sample_queue 1 0 COMPLETION_Q_TYPE) sample_dev) sample_dev2"
    unfolding sample_dev2_def
    by (rule sample_create_step) (simp add: names_cq_def sample_eval sample_dev_fields)
  ultimately show ?thesis by simp
qed

text \<open>
  C15. The queue table of a device stays consistent. Whatever clients and threads do, queue
  ids are unique, every table entry points to a live queue with that id and every live queue
  is in the table, the table of pairs holds exactly the submission queues with their
  completion queue ids, there are at most 65535 queues, and the statistics count them.
\<close>

theorem queue_table_invariant:
  assumes "kv_device_internal_new cfg is_polling devid = Some dev0" and "(dev_trans B strict)\<^sup>*\<^sup>* dev0 dev"
  shows "dev_inv dev"
  using dev_reach_good [OF assms] by (simp add: dev_good_def)

theorem queue_table_invariant_witness:
  "dev_inv sample_dev2 \<and> m_sq_to_cq_pairs sample_dev2 = [(2, 1)]"
  using queue_table_invariant [OF sample_dev_new sample_dev2_reach] by (simp add: sample_dev2_fields)

text \<open>
  C18. A submission queue never outlives its completion queue, as long as clients name a
  completion queue when they create it: its \<open>out\<close> pointer is a live completion queue with the
  id it was created for.
\<close>

theorem completion_queue_kept:
  assumes "kv_device_internal_new cfg is_polling devid = Some dev0" and "(dev_trans B True)\<^sup>*\<^sup>* dev0 dev"
    and "io_objects dev a = Some q" and "queue_type (que_info q) = SUBMISSION_Q_TYPE"
  shows "\<exists>b p. io_out q = Some b \<and> io_objects dev b = Some p \<and> queue_type (que_info p) = COMPLETION_Q_TYPE
    \<and> queue_id (que_info p) = completion_queue_id (que_info q)"
  using dev_reach_good [OF assms(1,2)] assms(3,4) by (simp add: dev_good_def dev_linked_def)

theorem completion_queue_kept_witness:
  "\<exists>b p. io_out (the (io_objects sample_dev2 1)) = Some b \<and> io_objects sample_dev2 b = Some p
    \<and> queue_id (que_info p) = 1"
  using completion_queue_kept [OF sample_dev_new sample_dev2_reach, of 1]
  by (simp add: sample_dev2_fields emul_ioqueue_new_def sample_queue_def)

text \<open>
  C37. Nothing makes clients do so: a submission queue can be created on top of another
  submission queue, which can then be deleted, and the worker of the first completes its
  commands into a deleted object.
\<close>

theorem out_queue_dangling:
  "\<exists>dev a q b. (dev_trans list_buffer False)\<^sup>*\<^sup>* sample_dev dev \<and> io_objects dev a = Some q
    \<and> queue_type (que_info q) = SUBMISSION_Q_TYPE \<and> io_out q = Some b \<and> io_objects dev b = None"
proof -
  let ?d = "sample_create (sample_queue 3 2 SUBMISSION_Q_TYPE) sample_dev2"
  have "dev_trans list_buffer False sample_dev2 ?d" by (rule sample_create_step) simp
  with sample_dev2_reach have r: "(dev_trans list_buffer False)\<^sup>*\<^sup>* sample_dev ?d" by (rule rtranclp.rtrancl_into_rtrancl)
  obtain d where d: "remove_queue 2 ?d = Some (KV_SUCCESS, d)"
    "io_objects d = (io_objects ?d)(1 := None)"
    by (simp add: remove_queue_def sample_eval sample_dev2_fields)
  have "(dev_trans list_buffer False)\<^sup>*\<^sup>* sample_dev d"
    using r remove [OF d(1)] by (rule rtranclp.rtrancl_into_rtrancl)
  moreover have "\<exists>q. io_objects d 2 = Some q \<and> queue_type (que_info q) = SUBMISSION_Q_TYPE \<and> io_out q = Some 1"
    by (simp add: d(2) sample_eval sample_dev2_fields)
  moreover have "io_objects d 1 = None" by (simp add: d(2))
  ultimately show ?thesis by blast
qed

text \<open>
  C14. What a submitted request becomes. A call that fails leaves the device as it was. A call
  that succeeds was made on a live submission queue; it put exactly one command at the end of
  it, the command of the request with the id of that queue, and changed nothing else; and the
  checks it made are enough: if the caller's memory is as large as the lengths say, the
  request is well formed.
\<close>

theorem request_submitted:
  assumes "circular_buffer_laws B content capacity" and "\<forall>a q. io_objects dev a = Some q \<longrightarrow> q_ok content capacity (io_que q)"
    and "adi_request B h n p c0 rq dev = Returns (r, dev')"
  shows "if r \<noteq> KV_SUCCESS then dev' = dev
    else (request_readable rq \<longrightarrow> request_ok rq) \<and>
      (\<exists>a q q' cmd c. h \<noteq> None \<and> qh_queue (the h) = Some a \<and> io_objects dev a = Some q
        \<and> queue_type (que_info q) = SUBMISSION_Q_TYPE
        \<and> dev' = dev\<lparr>io_objects := (io_objects dev)(a \<mapsto> q\<lparr>io_que := q'\<rparr>)\<rparr>
        \<and> content (q_buf q') = content (q_buf (io_que q)) @ [cmd]
        \<and> ioctx cmd = request_ctx rq c \<and> get_sqid cmd = queue_id (que_info q))"
proof (cases "r = KV_SUCCESS")
  case False
  then show ?thesis using adi_request_error [OF assms(3)] by simp
next
  case True
  then obtain qh c where s: "h = Some qh" "submit_cmd B qh c0 (\<lambda>_. request_ctx rq c) dev = Returns (KV_SUCCESS, dev')"
    and ok: "request_readable rq \<longrightarrow> request_ok rq"
    using adi_request_submits [of B h n p c0 rq dev dev'] assms(3) by blast
  from s(2) obtain a q q' where q: "qh_queue qh = Some a" "io_objects dev a = Some q" "queue_type (que_info q) = SUBMISSION_Q_TYPE"
    "enqueue B \<lparr>ioctx = request_ctx rq c, cmd_sqid = queue_id (que_info q)\<rparr> True (io_que q) = Some (KV_SUCCESS, q')"
    "dev' = dev\<lparr>io_objects := (io_objects dev)(a \<mapsto> q\<lparr>io_que := q'\<rparr>)\<rparr>"
    by (auto simp: submit_cmd_def io_cmd_new_def submit_io_def split: option.splits if_splits bind_splits)
  have "content (q_buf q') = content (q_buf (io_que q)) @ [\<lparr>ioctx = request_ctx rq c, cmd_sqid = queue_id (que_info q)\<rparr>]"
    using enqueue_success(1) [OF assms(1) _ q(4)] assms(2) q(2) by blast
  then show ?thesis using s(1) ok q True by (simp add: get_sqid_def) (metis io_cmd.select_convs)
qed

text \<open>Handles for the sample device, and a fresh command.\<close>

definition sample_qh :: kv_queue_handle where
  "sample_qh = \<lparr>qh_qid = 2, qh_dev = Some 0, qh_queue = Some 1\<rparr>"

definition sample_nh :: kv_namespace_handle where
  "sample_nh = \<lparr>nh_nsid = 0, nh_dev = Some 0, nh_ns = Some 0\<rparr>"

lemma sample_submit_cmd:
  "\<exists>d q. submit_cmd list_buffer sample_qh c0 f sample_dev2 = Returns (KV_SUCCESS, d) \<and> io_objects d 1 = Some q
    \<and> fst (q_buf (io_que q)) = [\<lparr>ioctx = f c0, cmd_sqid = 2\<rparr>]"
  by (simp add: submit_cmd_def submit_io_def io_cmd_new_def sample_qh_def sample_dev2_fields emul_ioqueue_new_def
      sample_queue_def enqueue_def enqueue_loop_def list_buffer_def)

theorem request_submitted_witness:
  "\<exists>dev'. adi_request list_buffer (Some sample_qh) (Some sample_nh) None (ioctx sample_cmd) sample_request sample_dev2
      = Returns (KV_SUCCESS, dev')
    \<and> (\<exists>a q q' cmd c. qh_queue sample_qh = Some a \<and> io_objects sample_dev2 a = Some q
        \<and> dev' = sample_dev2\<lparr>io_objects := (io_objects sample_dev2)(a \<mapsto> q\<lparr>io_que := q'\<rparr>)\<rparr>
        \<and> fst (q_buf q') = fst (q_buf (io_que q)) @ [cmd]
        \<and> ioctx cmd = request_ctx sample_request c \<and> get_sqid cmd = queue_id (que_info q))"
proof -
  have v: "validate_key_value sample_key (Some sample_value) = KV_SUCCESS"
    by (simp add: validate_key_value_def sample_key_def sample_value_def)
  obtain dev' where "adi_request list_buffer (Some sample_qh) (Some sample_nh) None (ioctx sample_cmd) sample_request sample_dev2
      = Returns (KV_SUCCESS, dev')"
  proof -
    obtain f where "adi_request list_buffer (Some sample_qh) (Some sample_nh) None (ioctx sample_cmd) sample_request sample_dev2
      = submit_cmd list_buffer sample_qh (ioctx sample_cmd) f sample_dev2"
      using v by (auto simp: sample_request_def adi_kv_store_def dev_kv_store_def on_device_def sample_qh_def sample_nh_def
          ks_id_invalid_iff)
    then show ?thesis using that sample_submit_cmd by metis
  qed
  moreover have "\<forall>a q. io_objects sample_dev2 a = Some q \<longrightarrow> q_ok fst snd (io_que q)"
    by (simp add: sample_dev2_fields emul_ioqueue_new_def q_ok_def list_buffer_def)
  ultimately show ?thesis
    using request_submitted [OF list_buffer_laws, of sample_dev2 "Some sample_qh" "Some sample_nh" None
        "ioctx sample_cmd" sample_request KV_SUCCESS dev'] unfolding option.sel if_not_P [OF not_not [THEN iffD2, OF refl]]
    by blast
qed

text \<open>The group condition a command carries, and the keys of a group.\<close>

definition cmd_condition :: "io_cmd \<Rightarrow> kv_group_condition option" where
  "cmd_condition cmd = (case ctx_command (ioctx cmd) of
     iterator_open_info _ c \<Rightarrow> Some c | delete_group_info c \<Rightarrow> c | _ \<Rightarrow> None)"

definition group_key :: "kv_group_condition \<Rightarrow> byte list \<Rightarrow> bool" where
  "group_key c k \<longleftrightarrow> read_u32 k AND gc_bitmask c = gc_bit_pattern c AND gc_bitmask c"

definition leading_A :: kv_group_condition where
  "leading_A = \<lparr>gc_bitmask = 0xFF000000, gc_bit_pattern = 0x41000000\<rparr>"

text \<open>
  One condition means two groups. \<open>kv_open_iterator\<close> converts the condition to big-endian
  order and \<open>kv_delete_group\<close> does not, so that the condition that iterates over the keys
  with the leading byte 65 deletes the keys whose fourth byte is 65.
\<close>

theorem group_condition_byte_order:
  "\<exists>d1 q1 c1 d2 q2 c2.
     adi_kv_open_iterator list_buffer (Some sample_qh) (Some sample_nh) 1 KV_ITERATOR_OPT_KEY (Some leading_A) None
       (ioctx sample_cmd) sample_dev2 = Returns (KV_SUCCESS, d1)
   \<and> io_objects d1 1 = Some q1 \<and> map cmd_condition (fst (q_buf (io_que q1))) = [Some c1]
   \<and> adi_kv_delete_group list_buffer (Some sample_qh) (Some sample_nh) 1 (Some leading_A) None
       (ioctx sample_cmd) sample_dev2 = Returns (KV_SUCCESS, d2)
   \<and> io_objects d2 1 = Some q2 \<and> map cmd_condition (fst (q_buf (io_que q2))) = [Some c2]
   \<and> group_key c1 [65, 1, 2, 3] \<and> \<not> group_key c2 [65, 1, 2, 3]
   \<and> \<not> group_key c1 [1, 2, 3, 65] \<and> group_key c2 [1, 2, 3, 65]"
proof -
  let ?c1 = "\<lparr>gc_bitmask = 0xFF, gc_bit_pattern = 0x41\<rparr>"
  have be: "htobe32 (gc_bitmask leading_A) = 0xFF" "htobe32 (gc_bit_pattern leading_A) = 0x41"
    by (simp_all add: htobe32_def u32_bytes_eval leading_A_def)
  obtain f1 where f1: "adi_kv_open_iterator list_buffer (Some sample_qh) (Some sample_nh) 1 KV_ITERATOR_OPT_KEY (Some leading_A)
      None (ioctx sample_cmd) sample_dev2 = submit_cmd list_buffer sample_qh (ioctx sample_cmd) f1 sample_dev2"
    "\<forall>i. cmd_condition \<lparr>ioctx = f1 (ioctx sample_cmd), cmd_sqid = i\<rparr> = Some ?c1"
    by (auto simp: adi_kv_open_iterator_def dev_kv_open_iterator_def on_device_def sample_qh_def sample_nh_def
        ks_id_invalid_iff be cmd_condition_def set_post_def)
  obtain f2 where f2: "adi_kv_delete_group list_buffer (Some sample_qh) (Some sample_nh) 1 (Some leading_A)
      None (ioctx sample_cmd) sample_dev2 = submit_cmd list_buffer sample_qh (ioctx sample_cmd) f2 sample_dev2"
    "\<forall>i. cmd_condition \<lparr>ioctx = f2 (ioctx sample_cmd), cmd_sqid = i\<rparr> = Some leading_A"
    by (auto simp: adi_kv_delete_group_def dev_kv_delete_group_def on_device_def sample_qh_def sample_nh_def
        ks_id_invalid_iff cmd_condition_def set_post_def)
  have "group_key ?c1 [65, 1, 2, 3]" "\<not> group_key leading_A [65, 1, 2, 3]"
    "\<not> group_key ?c1 [1, 2, 3, 65]" "group_key leading_A [1, 2, 3, 65]"
    by (simp_all add: group_key_def leading_A_def read_u32_def)
  then show ?thesis
    using sample_submit_cmd [of "ioctx sample_cmd" f1] sample_submit_cmd [of "ioctx sample_cmd" f2] f1 f2 by fastforce
qed

end
