(* ===== verification/Kv_Space.thy ===== *)
theory Kv_Space
  imports Kv_Emulator
begin

text \<open>
  The space accounting of \<open>kv_emulator\<close> (\<open>kv_emulator.cpp\<close>): how \<open>m_available\<close> changes when
  keys are stored, overwritten and deleted, and the statistics the emulator collects.
\<close>

section \<open>Storing and deleting\<close>

definition stored_size :: "kv_key \<Rightarrow> byte list \<Rightarrow> nat" where
  "stored_size k v = unat (key_length k) + length v"

lemma key_value_sum:
  assumes "unat (key_length k) + unat (value_length v) < 2 ^ 32" and "value_readable v"
  shows "(ucast (ucast (key_length k) + value_length v :: u32) :: u64) = word_of_nat (stored_size k (value_bytes v))"
proof -
  have "unat (ucast (key_length k) + value_length v :: u32) = unat (key_length k) + unat (value_length v)"
  proof -
    have "unat (ucast (key_length k) :: u32) = unat (key_length k)"
      using unsigned_less [of "key_length k", where ?'a = nat] by (simp add: unsigned_ucast_eq take_bit_nat_eq_self)
    then show ?thesis using assms(1) by (simp add: unat_word_ariths)
  qed
  then have "(ucast (ucast (key_length k) + value_length v :: u32) :: u64) =
      word_of_nat (unat (key_length k) + unat (value_length v))"
    by (metis of_nat_unat)
  then show ?thesis by (simp add: stored_size_def assms(2))
qed

lemma kv_store_space:
  assumes "emul_ready e" and "request_ok (ReqStore ks k v KV_STORE_OPT_DEFAULT)"
    and "unat (key_length k) + unat (value_length v) < 2 ^ 32"
  shows "\<exists>c e'. kv_store ks k v KV_STORE_OPT_DEFAULT c0 e = Some (KV_SUCCESS, c, e') \<and> emul_ready e'
    \<and> emul_contents e' = contents_upd (emul_contents e) ks (key_bytes k) (Some (value_bytes v))
    \<and> m_available e' = m_available e -
        (case emul_contents e ks (key_bytes k) of
           None \<Rightarrow> word_of_nat (stored_size k (value_bytes v))
         | Some old \<Rightarrow> word_of_nat (length (value_bytes v)) + word_of_nat (length old))"
proof -
  have inv: "emul_inv e" and cap: "m_capacity e \<noteq> 0" using assms(1) by (auto simp: emul_ready_def)
  have ks: "\<not> ks_id_invalid ks" and k: "key_ok k" and v: "value_readable v" using assms(2) by auto
  have frame: "m_available (emul_collect t n x) = m_available x" "m_available (set_ks_map ks m x) = m_available x" for t n m x
    by (simp_all add: emul_collect_def set_ks_map_def)
  obtain c e' where e': "kv_store ks k v KV_STORE_OPT_DEFAULT c0 e = Some (KV_SUCCESS, c, e')" "emul_ready e'"
    "emul_contents e' = contents_upd (emul_contents e) ks (key_bytes k) (Some (value_bytes v))"
    using kv_store_refines [OF assms(1,2), of c0] by (auto simp: spec_store_def split: option.splits)
  moreover have "m_available e' = m_available e -
        (case emul_contents e ks (key_bytes k) of
           None \<Rightarrow> word_of_nat (stored_size k (value_bytes v))
         | Some old \<Rightarrow> word_of_nat (length (value_bytes v)) + word_of_nat (length old))"
    using e'(1) cap
    by (auto simp: kv_store_def Let_def emul_find_contents [OF inv ks k] v new_kv_key_def key_ok_readable [OF k] frame
        key_value_sum [OF assms(3) v] split: option.splits)
  ultimately show ?thesis by blast
qed

lemma kv_delete_space:
  assumes "emul_ready e" and "request_ok (ReqDelete ks k opt)" and "opt \<noteq> KV_DELETE_OPT_OTHER"
    and "emul_contents e ks (key_bytes k) = Some old" and "stored_size k old < 2 ^ 32"
  shows "\<exists>c e'. kv_delete ks (Some k) opt rb e = Some (KV_SUCCESS, c, e') \<and> emul_ready e'
    \<and> emul_contents e' = contents_upd (emul_contents e) ks (key_bytes k) None
    \<and> m_available e' = m_available e + word_of_nat (stored_size k old)"
proof -
  have inv: "emul_inv e" using assms(1) by (auto simp: emul_ready_def)
  have ks: "\<not> ks_id_invalid ks" and k: "key_ok k" using assms(2) by auto
  have "(ucast (word_of_nat (stored_size k old) :: u32) :: u64) = word_of_nat (stored_size k old)"
    using assms(5) by (simp add: unsigned_of_nat take_bit_nat_eq_self)
  moreover have "length (key_bytes k) + length old = stored_size k old"
    using k by (simp add: stored_size_def key_ok_readable)
  ultimately have len: "(ucast (word_of_nat (length (key_bytes k) + length old) :: u32) :: u64) = word_of_nat (stored_size k old)"
    by metis
  have opt: "opt = KV_DELETE_OPT_DEFAULT \<or> opt = KV_DELETE_OPT_ERROR" using assms(3) by (cases opt) auto
  obtain c e' where e': "kv_delete ks (Some k) opt rb e = Some (KV_SUCCESS, c, e')" "emul_ready e'"
    "emul_contents e' = contents_upd (emul_contents e) ks (key_bytes k) None"
    using kv_delete_refines [OF assms(1,2), of rb] assms(4) opt by (auto simp: spec_delete_def)
  moreover have "m_available e' = m_available e + word_of_nat (stored_size k old)"
    using e'(1) opt k assms(4) len
    by (auto simp: kv_delete_def emul_find_contents [OF inv ks k] Let_def set_ks_map_def key_ok_def
        simp del: of_nat_add key_bytes_length)
  ultimately show ?thesis by blast
qed

section \<open>Properties\<close>

text \<open>
  A store takes exactly the space of what it adds when the key is new, and whatever space
  is left the store succeeds: on a device with a capacity nothing checks the space, and
  \<open>m_available\<close> wraps around.
\<close>

theorem store_new_key_space:
  assumes "emul_ready e" and "request_ok (ReqStore ks k v KV_STORE_OPT_DEFAULT)"
    and "unat (key_length k) + unat (value_length v) < 2 ^ 32" and "emul_contents e ks (key_bytes k) = None"
  shows "\<exists>c e'. kv_store ks k v KV_STORE_OPT_DEFAULT c0 e = Some (KV_SUCCESS, c, e')
    \<and> m_available e' = m_available e - word_of_nat (stored_size k (value_bytes v))"
  using kv_store_space [OF assms(1-3), of c0] assms(4) by auto

lemma sample_store:
  "request_ok (ReqStore 0 sample_key sample_value opt)"
  "unat (key_length sample_key) + unat (value_length sample_value) < 2 ^ 32"
  "stored_size sample_key (value_bytes sample_value) = 8"
  by (simp_all add: ks_id_invalid_iff sample_key_def [THEN arg_cong, of key_length] stored_size_def
      sample_value_def [THEN arg_cong, of value_length])

theorem store_new_key_space_witness:
  "\<exists>c e'. kv_store 0 sample_key sample_value KV_STORE_OPT_DEFAULT 0 (sample_emulator\<lparr>m_available := 3\<rparr>) =
      Some (KV_SUCCESS, c, e') \<and> m_available e' = - 5"
  using store_new_key_space [of "sample_emulator\<lparr>m_available := 3\<rparr>" 0 sample_key sample_value 0] sample_store
  by (auto simp: emul_ready_def contents_empty_def)

text \<open>
  C29. Storing a new key and deleting it gives the space back: the available space is what it
  was before.
\<close>

theorem store_delete_space:
  assumes "emul_ready e" and "request_ok (ReqStore ks k v KV_STORE_OPT_DEFAULT)"
    and "unat (key_length k) + unat (value_length v) < 2 ^ 32" and "emul_contents e ks (key_bytes k) = None"
  shows "\<exists>c e1 r e2. kv_store ks k v KV_STORE_OPT_DEFAULT c0 e = Some (KV_SUCCESS, c, e1)
    \<and> kv_delete ks (Some k) KV_DELETE_OPT_DEFAULT rb e1 = Some (KV_SUCCESS, r, e2)
    \<and> m_available e2 = m_available e \<and> emul_contents e2 = emul_contents e"
proof -
  obtain c e1 where e1: "kv_store ks k v KV_STORE_OPT_DEFAULT c0 e = Some (KV_SUCCESS, c, e1)" "emul_ready e1"
    "emul_contents e1 = contents_upd (emul_contents e) ks (key_bytes k) (Some (value_bytes v))"
    "m_available e1 = m_available e - word_of_nat (stored_size k (value_bytes v))"
    using kv_store_space [OF assms(1-3), of c0] assms(4) by auto
  have "stored_size k (value_bytes v) < 2 ^ 32" using assms(2,3) by (simp add: stored_size_def)
  moreover have "emul_contents e1 ks (key_bytes k) = Some (value_bytes v)" by (simp add: e1(3) contents_upd_def)
  ultimately obtain r e2 where "kv_delete ks (Some k) KV_DELETE_OPT_DEFAULT rb e1 = Some (KV_SUCCESS, r, e2)"
    "emul_contents e2 = contents_upd (emul_contents e1) ks (key_bytes k) None"
    "m_available e2 = m_available e1 + word_of_nat (stored_size k (value_bytes v))"
    using kv_delete_space [OF e1(2), of ks k KV_DELETE_OPT_DEFAULT "value_bytes v" rb] assms(2) by auto
  moreover from this have "emul_contents e2 = emul_contents e"
    using assms(4) by (auto simp: e1(3) contents_upd_def fun_eq_iff)
  ultimately show ?thesis using e1(1,4) by auto
qed

theorem store_delete_space_witness:
  "\<exists>c e1 r e2. kv_store 0 sample_key sample_value KV_STORE_OPT_DEFAULT 0 sample_emulator = Some (KV_SUCCESS, c, e1)
    \<and> kv_delete 0 (Some sample_key) KV_DELETE_OPT_DEFAULT (Some 0) e1 = Some (KV_SUCCESS, r, e2)
    \<and> m_available e2 = m_available sample_emulator"
  using store_delete_space [of sample_emulator 0 sample_key sample_value 0 "Some 0"] sample_store
  by (auto simp: contents_empty_def)

text \<open>
  Overwriting a value loses space for good. The overwriting store charges the length of
  the old value on top of that of the new one instead of giving it back, so that after
  storing, overwriting and deleting a key the available space is smaller than before by twice
  the length of the first value.
\<close>

theorem overwrite_loses_space:
  assumes "emul_ready e" and "request_ok (ReqStore ks k v KV_STORE_OPT_DEFAULT)"
    and "request_ok (ReqStore ks k w KV_STORE_OPT_DEFAULT)"
    and "unat (key_length k) + unat (value_length v) < 2 ^ 32" and "unat (key_length k) + unat (value_length w) < 2 ^ 32"
    and "emul_contents e ks (key_bytes k) = None"
  shows "\<exists>c1 e1 c2 e2 r e3. kv_store ks k v KV_STORE_OPT_DEFAULT c0 e = Some (KV_SUCCESS, c1, e1)
    \<and> kv_store ks k w KV_STORE_OPT_DEFAULT c0 e1 = Some (KV_SUCCESS, c2, e2)
    \<and> kv_delete ks (Some k) KV_DELETE_OPT_DEFAULT rb e2 = Some (KV_SUCCESS, r, e3)
    \<and> emul_contents e3 = emul_contents e
    \<and> m_available e3 = m_available e - 2 * word_of_nat (length (value_bytes v))"
proof -
  obtain c1 e1 where e1: "kv_store ks k v KV_STORE_OPT_DEFAULT c0 e = Some (KV_SUCCESS, c1, e1)" "emul_ready e1"
    "emul_contents e1 = contents_upd (emul_contents e) ks (key_bytes k) (Some (value_bytes v))"
    "m_available e1 = m_available e - word_of_nat (stored_size k (value_bytes v))"
    using kv_store_space [OF assms(1,2,4), of c0] assms(6) by auto
  obtain c2 e2 where e2: "kv_store ks k w KV_STORE_OPT_DEFAULT c0 e1 = Some (KV_SUCCESS, c2, e2)" "emul_ready e2"
    "emul_contents e2 = contents_upd (emul_contents e1) ks (key_bytes k) (Some (value_bytes w))"
    "m_available e2 = m_available e1 - (word_of_nat (length (value_bytes w)) + word_of_nat (length (value_bytes v)))"
    using kv_store_space [OF e1(2) assms(3,5), of c0] by (auto simp: e1(3) contents_upd_def)
  have "stored_size k (value_bytes w) < 2 ^ 32" using assms(3,5) by (simp add: stored_size_def)
  moreover have "emul_contents e2 ks (key_bytes k) = Some (value_bytes w)" by (simp add: e2(3) contents_upd_def)
  ultimately obtain r e3 where e3: "kv_delete ks (Some k) KV_DELETE_OPT_DEFAULT rb e2 = Some (KV_SUCCESS, r, e3)"
    "emul_contents e3 = contents_upd (emul_contents e2) ks (key_bytes k) None"
    "m_available e3 = m_available e2 + word_of_nat (stored_size k (value_bytes w))"
    using kv_delete_space [OF e2(2), of ks k KV_DELETE_OPT_DEFAULT "value_bytes w" rb] assms(3) by auto
  have "emul_contents e3 = emul_contents e"
    using assms(6) by (auto simp: e3(2) e2(3) e1(3) contents_upd_def fun_eq_iff)
  moreover have "m_available e3 = m_available e - 2 * word_of_nat (length (value_bytes v))"
    by (simp add: e3(3) e2(4) e1(4) stored_size_def)
  ultimately show ?thesis using e1(1) e2(1) e3(1) by blast
qed

theorem overwrite_loses_space_witness:
  "\<exists>c1 e1 c2 e2 r e3. kv_store 0 sample_key sample_value KV_STORE_OPT_DEFAULT 0 sample_emulator = Some (KV_SUCCESS, c1, e1)
    \<and> kv_store 0 sample_key sample_value KV_STORE_OPT_DEFAULT 0 e1 = Some (KV_SUCCESS, c2, e2)
    \<and> kv_delete 0 (Some sample_key) KV_DELETE_OPT_DEFAULT None e2 = Some (KV_SUCCESS, r, e3)
    \<and> emul_contents e3 = contents_empty \<and> m_available e3 = m_available sample_emulator - 6"
  using overwrite_loses_space [of sample_emulator 0 sample_key sample_value sample_value 0 None] sample_store
  by (auto simp: contents_empty_def)

text \<open>
  C30. The statistics describe the last sixteen operations: after any sequence of operations
  the counters are the numbers of reads, updates, inserts and deletes among the last sixteen,
  and the sum is that of their value sizes, as a 32-bit number.
\<close>

theorem history_window:
  assumes "length oc = 17" and "length vc = 17"
  shows "oh_counters (op_window (collect_all (kv_history_new oc vc) xs)) = op_counts (last_n 16 (map fst xs))
    \<and> vh_sum (val_window (collect_all (kv_history_new oc vc) xs)) = word_of_int (sum_list (last_n 16 (map snd xs)))
    \<and> oh_length (op_window (collect_all (kv_history_new oc vc) xs)) = int (min 16 (length xs))"
  using collect_all_window [OF assms, of xs]
  by (auto simp: op_history_ok_def value_history_ok_def last_n_def min_def)

theorem history_window_witness:
  "oh_counters (op_window (collect_all (kv_history_new (replicate 17 STAT_READ) (replicate 17 0))
     (replicate 20 (STAT_READ, 5) @ [(STAT_DELETE, 1)]))) = op_counts (replicate 15 STAT_READ @ [STAT_DELETE])"
  using history_window [of "replicate 17 STAT_READ" "replicate 17 0" "replicate 20 (STAT_READ, 5) @ [(STAT_DELETE, 1)]"]
  by (simp add: last_n_def map_replicate_const)

end
