(* ===== verification/Kv_Driver.thy ===== *)
theory Kv_Driver
  imports Kv_Adi Kv_Space
begin

text \<open>
  The emulator driver of the KV API: \<open>KvEmulator\<close>
  (\<open>PDK/core/src/api/src/driver_adapter/kvemuldriver.cpp\<close>) with the conversion of result
  codes, and the interface \<open>KvsDriver\<close> (\<open>private_types.h\<close>) it implements.

  A synchronous call submits a command, waits until the callback of the command ran, and
  returns its result. Its model runs the command on the schedule on which it is the only one
  under way: the worker takes it, executes it and puts it into the completion queue, the
  interrupt thread takes it out and calls back. A call that never comes to that waits.
\<close>

section \<open>Types of the KV API\<close>

datatype kvs_result =
    KVS_SUCCESS | KVS_ERR_BUFFER_SMALL | KVS_ERR_DEV_CAPAPCITY | KVS_ERR_DEV_NOT_EXIST
  | KVS_ERR_KS_CAPACITY | KVS_ERR_KS_EXIST | KVS_ERR_KS_INDEX | KVS_ERR_KS_NAME
  | KVS_ERR_KS_NOT_EXIST | KVS_ERR_KS_NOT_OPEN | KVS_ERR_KS_OPEN | KVS_ERR_ITERATOR_FILTER_INVALID
  | KVS_ERR_ITERATOR_MAX | KVS_ERR_ITERATOR_NOT_EXIST | KVS_ERR_ITERATOR_OPEN
  | KVS_ERR_KEY_LENGTH_INVALID | KVS_ERR_KEY_NOT_EXIST | KVS_ERR_OPTION_INVALID
  | KVS_ERR_PARAM_INVALID | KVS_ERR_SYS_IO | KVS_ERR_VALUE_LENGTH_INVALID
  | KVS_ERR_VALUE_OFFSET_INVALID | KVS_ERR_VALUE_OFFSET_MISALIGNED
  | KVS_ERR_VALUE_UPDATE_NOT_ALLOWED | KVS_ERR_DEV_NOT_OPENED

datatype kvs_store_type =
  KVS_STORE_POST | KVS_STORE_UPDATE_ONLY | KVS_STORE_NOOVERWRITE | KVS_STORE_APPEND | KVS_STORE_OTHER

datatype kvs_iterator_type = KVS_ITERATOR_KEY | KVS_ITERATOR_KEY_VALUE | KVS_ITERATOR_OTHER

record kvs_exist_list =
  el_num_keys :: u32
  el_keys :: "kv_key list"
  el_length :: u32
  el_result_buffer :: "byte list option"

text \<open>\<open>code_map\<close> and \<open>convert_return_code\<close>.\<close>

definition convert_return_code :: "kv_result \<Rightarrow> kvs_result" where
  "convert_return_code r =
     (case r of
        KV_SUCCESS \<Rightarrow> KVS_SUCCESS
      | KV_ERR_DEV_CAPACITY \<Rightarrow> KVS_ERR_KS_CAPACITY
      | KV_ERR_DEV_NOT_EXIST \<Rightarrow> KVS_ERR_DEV_NOT_EXIST
      | KV_ERR_ITERATOR_NOT_EXIST \<Rightarrow> KVS_ERR_ITERATOR_NOT_EXIST
      | KV_ERR_ITERATOR_ALREADY_OPEN \<Rightarrow> KVS_ERR_ITERATOR_OPEN
      | KV_ERR_KEY_LENGTH_INVALID \<Rightarrow> KVS_ERR_KEY_LENGTH_INVALID
      | KV_ERR_KEY_NOT_EXIST \<Rightarrow> KVS_ERR_KEY_NOT_EXIST
      | KV_ERR_OPTION_INVALID \<Rightarrow> KVS_ERR_OPTION_INVALID
      | KV_ERR_PARAM_INVALID \<Rightarrow> KVS_ERR_PARAM_INVALID
      | KV_ERR_VALUE_LENGTH_INVALID \<Rightarrow> KVS_ERR_VALUE_LENGTH_INVALID
      | KV_ERR_VALUE_LENGTH_MISALIGNED \<Rightarrow> KVS_ERR_VALUE_OFFSET_MISALIGNED
      | KV_ERR_VALUE_OFFSET_INVALID \<Rightarrow> KVS_ERR_VALUE_OFFSET_INVALID
      | KV_ERR_MISALIGNED_VALUE_OFFSET \<Rightarrow> KVS_ERR_VALUE_OFFSET_MISALIGNED
      | KV_ERR_BUFFER_SMALL \<Rightarrow> KVS_ERR_BUFFER_SMALL
      | KV_ERR_ITERATOR_COND_INVALID \<Rightarrow> KVS_ERR_ITERATOR_FILTER_INVALID
      | KV_ERR_KEY_EXIST \<Rightarrow> KVS_ERR_VALUE_UPDATE_NOT_ALLOWED
      | KV_ERR_NS_CAPACITY \<Rightarrow> KVS_ERR_KS_CAPACITY
      | KV_ERR_TOO_MANY_ITERATORS_OPEN \<Rightarrow> KVS_ERR_ITERATOR_MAX
      | _ \<Rightarrow> KVS_ERR_SYS_IO)"

section \<open>The driver object\<close>

text \<open>
  The members of \<open>KvEmulator\<close>, the number of free contexts in its pool, and the state of the
  device library below it.
\<close>

record 'b KvEmulator =
  devH :: "kv_device_handle option"
  nsH :: "kv_namespace_handle option"
  sqH :: "kv_queue_handle option"
  cqH :: "kv_queue_handle option"
  int_handler :: bool
  kv_ctx_pool :: nat
  drv_st :: "'b device_class"

definition drv_dev :: "'b KvEmulator \<Rightarrow> 'b kv_device_internal option" where
  "drv_dev d = (case devH d of None \<Rightarrow> None | Some h \<Rightarrow>
     (case dh_dev h of None \<Rightarrow> None | Some a \<Rightarrow> dev_objects (drv_st d) a))"

definition set_drv_dev :: "'b kv_device_internal \<Rightarrow> 'b KvEmulator \<Rightarrow> 'b KvEmulator" where
  "set_drv_dev dev d = (case devH d of None \<Rightarrow> d | Some h \<Rightarrow>
     (case dh_dev h of None \<Rightarrow> d | Some a \<Rightarrow>
        d\<lparr>drv_st := (drv_st d)\<lparr>dev_objects := (dev_objects (drv_st d))(a \<mapsto> dev)\<rparr>\<rparr>))"

text \<open>\<open>KvEmulator::create_queue\<close>: \<open>qid\<close> is the static counter, \<open>handle\<close> the queue handle it fills.\<close>

definition drv_create_queue ::
    "('b, io_cmd) circular_buffer \<Rightarrow> int \<Rightarrow> queue_type_t \<Rightarrow> kv_queue_handle option \<Rightarrow> int \<Rightarrow> bool \<Rightarrow> int \<Rightarrow> 'b KvEmulator \<Rightarrow>
     (int \<times> kv_queue_handle option \<times> 'b KvEmulator) option" where
  "drv_create_queue B qdepth qtype handle cqid is_polling qid d =
     (let qid' = qid + 1;
          qinfo = \<lparr>queue_id = word_of_int qid', queue_size = word_of_int qdepth,
                   completion_queue_id = word_of_int cqid, queue_type = qtype\<rparr>
      in do { (ret, h, st) \<leftarrow> kv_create_queue B (devH d) (Some qinfo) True (drv_st d);
              let handle' = (if h = None then handle else h);
              let d1 = d\<lparr>drv_st := st\<rparr>;
              if qtype = COMPLETION_Q_TYPE \<and> \<not> is_polling then
                do { dev \<leftarrow> drv_dev d1;
                     (r, dev') \<leftarrow> adi_kv_set_interrupt_handler handle' True dev;
                     Some (qid', handle', (set_drv_dev dev' d1)\<lparr>int_handler := True\<rparr>) }
              else Some (qid', handle', d1) })"

text \<open>
  \<open>KvEmulator::init\<close> on a new driver object, the device library in state \<open>st\<close> and the queue
  counter at \<open>qid\<close>. \<open>purging\<close> and \<open>h\<close> go to the constructor of the namespace.
\<close>

definition KvEmulator_init ::
    "('b, io_cmd) circular_buffer \<Rightarrow> kv_config \<Rightarrow> bool \<Rightarrow> kv_history \<Rightarrow> int \<Rightarrow> bool \<Rightarrow> int \<Rightarrow> 'b device_class \<Rightarrow>
     (kvs_result \<times> int \<times> 'b KvEmulator) option" where
  "KvEmulator_init B m_config purging h queuedepth is_polling qid st =
     do { (ret, dh, st1) \<leftarrow> kv_initialize_device m_config is_polling purging h (Some None) st;
          let d = \<lparr>devH = dh, nsH = None, sqH = None, cqH = None, int_handler = False,
                   kv_ctx_pool = 10240, drv_st = st1\<rparr>;
          if ret \<noteq> KV_SUCCESS then Some (convert_return_code ret, qid, d)
          else
            do { (ret2, ns) \<leftarrow> get_namespace_default dh True st1;
                 if ret2 \<noteq> KV_SUCCESS then Some (convert_return_code ret2, qid, d\<lparr>nsH := ns\<rparr>)
                 else
                   do { (cqid, cq, d1) \<leftarrow> drv_create_queue B queuedepth COMPLETION_Q_TYPE None 0 is_polling qid (d\<lparr>nsH := ns\<rparr>);
                        (sqid, sq, d2) \<leftarrow> drv_create_queue B queuedepth SUBMISSION_Q_TYPE None cqid is_polling cqid d1;
                        Some (convert_return_code ret2, sqid, d2\<lparr>cqH := cq, sqH := sq\<rparr>) } } }"

section \<open>Completion\<close>

text \<open>
  The way of the command that is alone in the submission queue at \<open>a\<close>, up to its callback;
  \<open>polled\<close> says whether the caller polls the completion queue itself.
\<close>

definition complete_cmd ::
    "('b, io_cmd) circular_buffer \<Rightarrow> bool \<Rightarrow> nat \<Rightarrow> 'b kv_device_internal \<Rightarrow> (io_cmd \<times> 'b kv_device_internal) call" where
  "complete_cmd B polled a dev =
     (case io_objects dev a of
        None \<Rightarrow> Undefined
      | Some sq \<Rightarrow>
          (case dequeue B True 0 False (io_que sq) of
             None \<Rightarrow> Waits
           | Some (r1, None, sq') \<Rightarrow> Waits
           | Some (r1, Some cmd, sq') \<Rightarrow>
               (case get_namespace dev KV_NAMESPACE_DEFAULT of
                  None \<Rightarrow> Undefined
                | Some ns \<Rightarrow>
                    (case execute_cmd cmd ns of
                       None \<Rightarrow> Undefined
                     | Some (cmd1, ns1) \<Rightarrow>
                         (case io_out sq of
                            None \<Rightarrow> Waits
                          | Some b \<Rightarrow>
                              let dev1 = dev\<lparr>io_objects := (io_objects dev)(a \<mapsto> sq\<lparr>io_que := sq'\<rparr>),
                                             m_ns_list := map (\<lambda>(i, n). (i, if i = KV_NAMESPACE_DEFAULT then ns1 else n))
                                                            (m_ns_list dev)\<rparr>
                              in (case io_objects dev1 b of
                                    None \<Rightarrow> Undefined
                                  | Some cq \<Rightarrow>
                                      (case enqueue B cmd1 True (io_que cq) of
                                         None \<Rightarrow> Waits
                                       | Some (r2, cq1) \<Rightarrow>
                                           if r2 \<noteq> KV_SUCCESS \<or> \<not> (polled \<or> io_interrupt cq) then Waits
                                           else (case dequeue B (\<not> polled) 0 False cq1 of
                                                   None \<Rightarrow> Waits
                                                 | Some (r3, None, cq2) \<Rightarrow> Waits
                                                 | Some (r3, Some cmd2, cq2) \<Rightarrow>
                                                     Returns (cmd2, dev1\<lparr>io_objects := (io_objects dev1)
                                                       (b \<mapsto> cq\<lparr>io_que := cq2\<rparr>)\<rparr>)))))))))"

text \<open>
  \<open>on_io_complete\<close> for a synchronous call: the result, the value with the size that is left
  from its offset on, and the iterator handle.
\<close>

definition on_io_complete :: "io_ctx_t \<Rightarrow> kv_result \<times> kv_value option \<times> u8" where
  "on_io_complete context =
     (ctx_retcode context,
      (if ctx_opcode context = KV_OPC_GET
       then map_option (\<lambda>v. v\<lparr>actual_value_size := actual_value_size v - value_offset v\<rparr>) (ctx_value context)
       else ctx_value context),
      ctx_hiter context)"

text \<open>
  A call of the device library and what follows: an error is converted and returned; an
  asynchronous call returns at once and keeps its context; a synchronous one waits for the
  context of its command.
\<close>

definition issue ::
    "('b, io_cmd) circular_buffer \<Rightarrow> bool \<Rightarrow> bool \<Rightarrow> ('b kv_device_internal \<Rightarrow> (kv_result \<times> 'b kv_device_internal) call) \<Rightarrow>
     'b KvEmulator \<Rightarrow> (kvs_result \<times> io_ctx_t option \<times> 'b KvEmulator) call" where
  "issue B syncio polled adi d =
     (if kv_ctx_pool d = 0 then Waits
      else case drv_dev d of
        None \<Rightarrow> Undefined
      | Some dev \<Rightarrow>
          (case adi dev of
             Undefined \<Rightarrow> Undefined
           | Waits \<Rightarrow> Waits
           | Returns (ret, dev1) \<Rightarrow>
               if ret \<noteq> KV_SUCCESS then Returns (convert_return_code ret, None, set_drv_dev dev1 d)
               else if \<not> syncio then
                 Returns (convert_return_code ret, None, set_drv_dev dev1 (d\<lparr>kv_ctx_pool := kv_ctx_pool d - 1\<rparr>))
               else (case sqH d of
                       None \<Rightarrow> Undefined
                     | Some q \<Rightarrow>
                         (case qh_queue q of
                            None \<Rightarrow> Undefined
                          | Some a \<Rightarrow>
                              (case complete_cmd B polled a dev1 of
                                 Undefined \<Rightarrow> Undefined
                               | Waits \<Rightarrow> Waits
                               | Returns (cmd, dev2) \<Rightarrow>
                                   Returns (convert_return_code (fst (on_io_complete (ioctx cmd))),
                                            Some (ioctx cmd), set_drv_dev dev2 d))))))"

abbreviation (input) the_post :: "kv_postprocess_function option" where
  "the_post \<equiv> Some \<lparr>post_fn = True, private_data = 0\<rparr>"

section \<open>The entry points\<close>

definition trans_store_cmd_opt :: "kvs_store_type \<Rightarrow> kv_store_option option" where
  "trans_store_cmd_opt st_type =
     (case st_type of
        KVS_STORE_POST \<Rightarrow> Some KV_STORE_OPT_DEFAULT
      | KVS_STORE_UPDATE_ONLY \<Rightarrow> Some KV_STORE_OPT_UPDATE_ONLY
      | KVS_STORE_NOOVERWRITE \<Rightarrow> Some KV_STORE_OPT_IDEMPOTENT
      | KVS_STORE_APPEND \<Rightarrow> Some KV_STORE_OPT_APPEND
      | KVS_STORE_OTHER \<Rightarrow> None)"

definition emul_store_tuple ::
    "('b, io_cmd) circular_buffer \<Rightarrow> io_ctx_t \<Rightarrow> u8 \<Rightarrow> kv_key option \<Rightarrow> kv_value option \<Rightarrow> kvs_store_type \<Rightarrow> bool \<Rightarrow>
     'b KvEmulator \<Rightarrow> (kvs_result \<times> 'b KvEmulator) call" where
  "emul_store_tuple B c0 keyspace_id key val st_type syncio d =
     (if kv_ctx_pool d = 0 then Waits
      else case trans_store_cmd_opt st_type of
        None \<Rightarrow> Returns (KVS_ERR_OPTION_INVALID, d)
      | Some option_adi \<Rightarrow>
          (case issue B syncio False (\<lambda>dev. adi_kv_store B (sqH d) (nsH d) keyspace_id key val option_adi the_post c0 dev) d of
             Undefined \<Rightarrow> Undefined
           | Waits \<Rightarrow> Waits
           | Returns (r, _, d') \<Rightarrow> Returns (r, d')))"

text \<open>The value pointer of the caller is the one of the command.\<close>

definition emul_retrieve_tuple ::
    "('b, io_cmd) circular_buffer \<Rightarrow> io_ctx_t \<Rightarrow> u8 \<Rightarrow> kv_key option \<Rightarrow> kv_value option \<Rightarrow> bool \<Rightarrow> bool \<Rightarrow>
     'b KvEmulator \<Rightarrow> (kvs_result \<times> kv_value option \<times> 'b KvEmulator) call" where
  "emul_retrieve_tuple B c0 keyspace_id key val retrieve_delete syncio d =
     (let option_adi = (if \<not> retrieve_delete then KV_RETRIEVE_OPT_DEFAULT else KV_RETRIEVE_OPT_DELETE) in
      case issue B syncio False (\<lambda>dev. adi_kv_retrieve B (sqH d) (nsH d) keyspace_id key option_adi val the_post c0 dev) d of
        Undefined \<Rightarrow> Undefined
      | Waits \<Rightarrow> Waits
      | Returns (r, None, d') \<Rightarrow> Returns (r, val, d')
      | Returns (r, Some c, d') \<Rightarrow> Returns (r, fst (snd (on_io_complete c)), d'))"

definition emul_delete_tuple ::
    "('b, io_cmd) circular_buffer \<Rightarrow> io_ctx_t \<Rightarrow> u8 \<Rightarrow> kv_key option \<Rightarrow> bool \<Rightarrow> bool \<Rightarrow>
     'b KvEmulator \<Rightarrow> (kvs_result \<times> 'b KvEmulator) call" where
  "emul_delete_tuple B c0 keyspace_id key delete_error syncio d =
     (let option_adi = (if \<not> delete_error then KV_DELETE_OPT_DEFAULT else KV_DELETE_OPT_ERROR) in
      case issue B syncio False (\<lambda>dev. adi_kv_delete B (sqH d) (nsH d) keyspace_id key option_adi the_post c0 dev) d of
        Undefined \<Rightarrow> Undefined
      | Waits \<Rightarrow> Waits
      | Returns (r, _, d') \<Rightarrow> Returns (r, d'))"

definition emul_exist_tuple ::
    "('b, io_cmd) circular_buffer \<Rightarrow> io_ctx_t \<Rightarrow> u8 \<Rightarrow> u32 \<Rightarrow> kv_key list option \<Rightarrow> kvs_exist_list \<Rightarrow> bool \<Rightarrow>
     'b KvEmulator \<Rightarrow> (kvs_result \<times> kvs_exist_list \<times> 'b KvEmulator) call" where
  "emul_exist_tuple B c0 keyspace_id key_cnt keys l syncio d =
     (case issue B syncio False (\<lambda>dev. adi_kv_exist B (sqH d) (nsH d) keyspace_id keys key_cnt (el_length l)
             (el_result_buffer l) the_post c0 dev) d of
        Undefined \<Rightarrow> Undefined
      | Waits \<Rightarrow> Waits
      | Returns (r, None, d') \<Rightarrow> Returns (r, l, d')
      | Returns (r, Some c, d') \<Rightarrow>
          Returns (r, (case ctx_command c of key_exist_info _ buf _ \<Rightarrow> l\<lparr>el_result_buffer := buf\<rparr> | _ \<Rightarrow> l), d'))"

definition emul_create_iterator ::
    "('b, io_cmd) circular_buffer \<Rightarrow> io_ctx_t \<Rightarrow> u8 \<Rightarrow> kvs_iterator_type \<Rightarrow> u32 \<Rightarrow> u32 \<Rightarrow> u8 \<Rightarrow>
     'b KvEmulator \<Rightarrow> (kvs_result \<times> u8 \<times> 'b KvEmulator) call" where
  "emul_create_iterator B c0 keyspace_id iter_type bitmask bit_pattern iter_hd d =
     (let option_adi = (if iter_type = KVS_ITERATOR_KEY then KV_ITERATOR_OPT_KEY else KV_ITERATOR_OPT_KV) in
      case issue B True (\<not> int_handler d) (\<lambda>dev. adi_kv_open_iterator B (sqH d) (nsH d) keyspace_id option_adi
             (Some \<lparr>gc_bitmask = bitmask, gc_bit_pattern = bit_pattern\<rparr>) the_post c0 dev) d of
        Undefined \<Rightarrow> Undefined
      | Waits \<Rightarrow> Waits
      | Returns (r, None, d') \<Rightarrow> Returns (r, iter_hd, d')
      | Returns (r, Some c, d') \<Rightarrow> Returns (r, snd (snd (on_io_complete c)), d'))"

text \<open>The result of the closed iterator is not looked at.\<close>

definition emul_delete_iterator ::
    "('b, io_cmd) circular_buffer \<Rightarrow> io_ctx_t \<Rightarrow> u8 \<Rightarrow> 'b KvEmulator \<Rightarrow> (kvs_result \<times> 'b KvEmulator) call" where
  "emul_delete_iterator B c0 hiter d =
     (case issue B True (\<not> int_handler d) (\<lambda>dev. adi_kv_close_iterator B (sqH d) (nsH d) hiter the_post c0 dev) d of
        Undefined \<Rightarrow> Undefined
      | Waits \<Rightarrow> Waits
      | Returns (r, None, d') \<Rightarrow> Returns (r, d')
      | Returns (r, Some c, d') \<Rightarrow> Returns (KVS_SUCCESS, d'))"

definition delete_iterator_all :: kvs_result where
  "delete_iterator_all = KVS_ERR_OPTION_INVALID"

definition emul_iterator_next ::
    "('b, io_cmd) circular_buffer \<Rightarrow> io_ctx_t \<Rightarrow> u8 \<Rightarrow> kv_iterator_list option \<Rightarrow> bool \<Rightarrow>
     'b KvEmulator \<Rightarrow> (kvs_result \<times> kv_iterator_list option \<times> 'b KvEmulator) call" where
  "emul_iterator_next B c0 hiter iter_list syncio d =
     (case issue B syncio False (\<lambda>dev. adi_kv_iterator_next B (sqH d) (nsH d) hiter iter_list the_post c0 dev) d of
        Undefined \<Rightarrow> Undefined
      | Waits \<Rightarrow> Waits
      | Returns (r, None, d') \<Rightarrow> Returns (r, iter_list, d')
      | Returns (r, Some c, d') \<Rightarrow>
          Returns (r, (case ctx_command c of iterator_next_info _ l _ _ \<Rightarrow> l | _ \<Rightarrow> iter_list), d'))"

text \<open>
  \<open>get_used_size\<close> and \<open>get_total_size\<close>; the program ends when the device cannot be asked.
\<close>

definition emul_get_used_size :: "(u64 \<Rightarrow> u64 \<Rightarrow> u16) \<Rightarrow> 'b KvEmulator \<Rightarrow> (kvs_result \<times> u32 \<times> 'b KvEmulator) option" where
  "emul_get_used_size util d =
     do { dev \<leftarrow> drv_dev d;
          case kv_get_device_stat util True (Some (m_device_stat dev)) dev of
            (ret, Some dst, dev') \<Rightarrow>
              if ret \<noteq> KV_SUCCESS then None else Some (convert_return_code ret, ucast (utilization dst), set_drv_dev dev' d)
          | _ \<Rightarrow> None }"

definition emul_get_total_size :: "(u64 \<Rightarrow> u64 \<Rightarrow> u16) \<Rightarrow> 'b KvEmulator \<Rightarrow> (kvs_result \<times> u64 \<times> 'b KvEmulator) option" where
  "emul_get_total_size util d =
     do { dev \<leftarrow> drv_dev d;
          case kv_get_device_info util True (Some (m_device_info dev)) dev of
            (ret, Some info, dev') \<Rightarrow>
              if ret \<noteq> KV_SUCCESS then None else Some (convert_return_code ret, dev_capacity info, set_drv_dev dev' d)
          | _ \<Rightarrow> None }"

definition emul_process_completions ::
    "('b, io_cmd) circular_buffer \<Rightarrow> 'b KvEmulator \<Rightarrow> (u32 \<times> io_cmd list \<times> 'b KvEmulator) option" where
  "emul_process_completions B d =
     do { dev \<leftarrow> drv_dev d;
          (ret, processed, cmds, dev') \<leftarrow> adi_kv_poll_completion B (cqH d) 0 (Some 0) dev;
          n \<leftarrow> processed;
          Some (n, cmds, set_drv_dev dev' d) }"

text \<open>The destructor; the program ends when a queue cannot be deleted.\<close>

definition KvEmulator_delete :: "'b KvEmulator \<Rightarrow> 'b device_class option" where
  "KvEmulator_delete d =
     do { (r1, st1) \<leftarrow> kv_delete_queue (devH d) (sqH d) (drv_st d);
          require (r1 = KV_SUCCESS);
          (r2, st2) \<leftarrow> kv_delete_queue (devH d) (cqH d) st1;
          require (r2 = KV_SUCCESS);
          let r3 = kv_delete_namespace (nsH d);
          h \<leftarrow> devH d;
          (r4, st4) \<leftarrow> kv_cleanup_device h st2;
          Some st4 }"

end
