(* ===== verification/Kv_Driver_Api.thy ===== *)
theory Kv_Driver_Api
  imports Kv_Driver
begin

text \<open>
  The interface between the KV API and its drivers: the virtual functions of \<open>KvsDriver\<close>
  (\<open>PDK/core/src/api/include/private/private_types.h\<close>) as a record of functions over the state
  of a driver object, with its destructor, and the contract a driver keeps, the locale \<open>kvs_driver_api\<close>. The contract
  is stated over the specification of single-key operations, with the result codes of the KV
  API; the frontend is verified against it and the emulator driver satisfies it.
\<close>

record 'd KvsDriver =
  store_tuple :: "u8 \<Rightarrow> kv_key option \<Rightarrow> kv_value option \<Rightarrow> kvs_store_type \<Rightarrow> bool \<Rightarrow> 'd \<Rightarrow> (kvs_result \<times> 'd) call"
  retrieve_tuple :: "u8 \<Rightarrow> kv_key option \<Rightarrow> kv_value option \<Rightarrow> bool \<Rightarrow> bool \<Rightarrow> 'd \<Rightarrow> (kvs_result \<times> kv_value option \<times> 'd) call"
  delete_tuple :: "u8 \<Rightarrow> kv_key option \<Rightarrow> bool \<Rightarrow> bool \<Rightarrow> 'd \<Rightarrow> (kvs_result \<times> 'd) call"
  exist_tuple :: "u8 \<Rightarrow> u32 \<Rightarrow> kv_key list option \<Rightarrow> kvs_exist_list \<Rightarrow> bool \<Rightarrow> 'd \<Rightarrow> (kvs_result \<times> kvs_exist_list \<times> 'd) call"
  create_iterator :: "u8 \<Rightarrow> kvs_iterator_type \<Rightarrow> u32 \<Rightarrow> u32 \<Rightarrow> u8 \<Rightarrow> 'd \<Rightarrow> (kvs_result \<times> u8 \<times> 'd) call"
  delete_iterator :: "u8 \<Rightarrow> 'd \<Rightarrow> (kvs_result \<times> 'd) call"
  iterator_next :: "u8 \<Rightarrow> kv_iterator_list option \<Rightarrow> bool \<Rightarrow> 'd \<Rightarrow> (kvs_result \<times> kv_iterator_list option \<times> 'd) call"
  get_used_size :: "'d \<Rightarrow> (kvs_result \<times> u32 \<times> 'd) call"
  get_total_size :: "'d \<Rightarrow> (kvs_result \<times> u64 \<times> 'd) call"
  delete_driver :: "'d \<Rightarrow> unit call"

section \<open>What a driver promises\<close>

text \<open>
  The requests are validated before they reach the device; the key space must be one of the
  two the device has.
\<close>

definition store_spec :: "u8 \<Rightarrow> kv_key \<Rightarrow> kv_value \<Rightarrow> kvs_store_type \<Rightarrow> kv_contents \<Rightarrow> kvs_result \<times> kv_contents" where
  "store_spec ks k v st C =
     (case trans_store_cmd_opt st of
        None \<Rightarrow> (KVS_ERR_OPTION_INVALID, C)
      | Some opt \<Rightarrow>
          if validate_key_value k (Some v) \<noteq> KV_SUCCESS then (convert_return_code (validate_key_value k (Some v)), C)
          else if ks_id_invalid ks then (KVS_ERR_SYS_IO, C)
          else case spec_store ks k v opt C of (r, C') \<Rightarrow> (convert_return_code r, C'))"

text \<open>The size reported for a value is what is left of it from the offset on.\<close>

definition retrieve_spec :: "u8 \<Rightarrow> kv_key \<Rightarrow> kv_value \<Rightarrow> bool \<Rightarrow> kv_contents \<Rightarrow> kvs_result \<times> kv_value" where
  "retrieve_spec ks k v del C =
     (if validate_key_value k (Some v) \<noteq> KV_SUCCESS then (convert_return_code (validate_key_value k (Some v)), v)
      else if ks_id_invalid ks then (KVS_ERR_SYS_IO, v)
      else case spec_retrieve ks k v (if del then KV_RETRIEVE_OPT_DELETE else KV_RETRIEVE_OPT_DEFAULT) C of
        (r, w) \<Rightarrow> (convert_return_code r, w\<lparr>actual_value_size := actual_value_size w - value_offset w\<rparr>))"

definition delete_spec :: "u8 \<Rightarrow> kv_key \<Rightarrow> bool \<Rightarrow> kv_contents \<Rightarrow> kvs_result \<times> kv_contents" where
  "delete_spec ks k err C =
     (if validate_key_value k None \<noteq> KV_SUCCESS then (convert_return_code (validate_key_value k None), C)
      else if ks_id_invalid ks then (KVS_ERR_SYS_IO, C)
      else case spec_delete ks k (if err then KV_DELETE_OPT_ERROR else KV_DELETE_OPT_DEFAULT) C of
        (r, C') \<Rightarrow> (convert_return_code r, C'))"

definition exist_spec :: "u8 \<Rightarrow> u32 \<Rightarrow> kv_key list \<Rightarrow> u32 \<Rightarrow> byte list \<Rightarrow> kv_contents \<Rightarrow> kvs_result \<times> byte list" where
  "exist_spec ks cnt keys len buf C =
     (case validate_keys (unat cnt) keys of
        None \<Rightarrow> (KVS_ERR_SYS_IO, buf)
      | Some r \<Rightarrow>
          if r \<noteq> KV_SUCCESS then (convert_return_code r, buf)
          else if ks_id_invalid ks then (KVS_ERR_SYS_IO, buf)
          else case spec_exist ks keys cnt buf len C of (r, b, n) \<Rightarrow> (convert_return_code r, b))"

lemma spec_contents_other:
  "ks' \<noteq> ks \<Longrightarrow> snd (store_spec ks k v st C) ks' = C ks'"
  "ks' \<noteq> ks \<Longrightarrow> snd (delete_spec ks k err C) ks' = C ks'"
  by (auto simp: store_spec_def delete_spec_def spec_store_def spec_delete_def contents_upd_def split: option.split)

locale kvs_driver_api =
  fixes inv :: "'d \<Rightarrow> bool"
    and contents :: "'d \<Rightarrow> kv_contents"
    and D :: "'d KvsDriver"
  assumes store_law:
    "inv d \<Longrightarrow> key_readable k \<Longrightarrow> value_readable v \<Longrightarrow>
      \<exists>d'. store_tuple D ks (Some k) (Some v) st True d = Returns (fst (store_spec ks k v st (contents d)), d')
        \<and> inv d' \<and> contents d' = snd (store_spec ks k v st (contents d))"
    and retrieve_law:
    "inv d \<Longrightarrow> key_readable k \<Longrightarrow> value_readable v \<Longrightarrow>
      \<exists>d'. retrieve_tuple D ks (Some k) (Some v) del True d =
          Returns (fst (retrieve_spec ks k v del (contents d)), Some (snd (retrieve_spec ks k v del (contents d))), d')
        \<and> inv d' \<and> contents d' = contents d"
    and delete_law:
    "inv d \<Longrightarrow> key_readable k \<Longrightarrow>
      \<exists>d'. delete_tuple D ks (Some k) err True d = Returns (fst (delete_spec ks k err (contents d)), d')
        \<and> inv d' \<and> contents d' = snd (delete_spec ks k err (contents d))"
    and exist_law:
    "inv d \<Longrightarrow> list_all key_readable keys \<Longrightarrow> unat cnt = length keys \<Longrightarrow> unat cnt < 2 ^ 31 \<Longrightarrow>
      el_result_buffer l = Some buf \<Longrightarrow> unat (el_length l) \<le> length buf \<Longrightarrow>
      \<exists>d'. exist_tuple D ks cnt (Some keys) l True d =
          Returns (fst (exist_spec ks cnt keys (el_length l) buf (contents d)),
            l\<lparr>el_result_buffer := Some (snd (exist_spec ks cnt keys (el_length l) buf (contents d)))\<rparr>, d')
        \<and> inv d' \<and> contents d' = contents d"
    and end_law: "inv d \<Longrightarrow> delete_driver D d = Returns ()"

section \<open>The emulator behind the interface\<close>

definition emulator_driver ::
    "('b, io_cmd) circular_buffer \<Rightarrow> (u64 \<Rightarrow> u64 \<Rightarrow> u16) \<Rightarrow> io_ctx_t \<Rightarrow> 'b KvEmulator KvsDriver" where
  "emulator_driver B util c0 =
     \<lparr>store_tuple = emul_store_tuple B c0, retrieve_tuple = emul_retrieve_tuple B c0,
      delete_tuple = emul_delete_tuple B c0, exist_tuple = emul_exist_tuple B c0,
      create_iterator = emul_create_iterator B c0, delete_iterator = emul_delete_iterator B c0,
      iterator_next = emul_iterator_next B c0,
      get_used_size = (\<lambda>d. case emul_get_used_size util d of None \<Rightarrow> Undefined | Some x \<Rightarrow> Returns x),
      get_total_size = (\<lambda>d. case emul_get_total_size util d of None \<Rightarrow> Undefined | Some x \<Rightarrow> Returns x),
      delete_driver = (\<lambda>d. andThen (defined (KvEmulator_delete d)) (\<lambda>_. Returns ()))\<rparr>"

end
