(* ===== verification/Kv_Meta.thy ===== *)
theory Kv_Meta
  imports Kv_Driver_Api
begin

text \<open>
  The records of the metadata key space, as \<open>PDK/core/src/api/src/cfrontend.cpp\<close> encodes
  them, the filters of iterators, and the validation of requests.

  A key space has one record, stored under its name, with its id and its statistics in 27
  bytes; one more record lists the key spaces. A C string is the list of its bytes without
  the terminator; a character array is the list of all its bytes.
\<close>

section \<open>Constants and strings\<close>

abbreviation (input) "KVS_MIN_KEY_LENGTH \<equiv> (4 :: nat)"
abbreviation (input) "KVS_MAX_KEY_LENGTH \<equiv> (255 :: nat)"
abbreviation (input) "KVS_MAX_VALUE_LENGTH \<equiv> (2097152 :: nat)"
abbreviation (input) "MAX_CONT_PATH_LEN \<equiv> (255 :: nat)"
abbreviation (input) "MAX_KEYSPACE_NAME_LEN \<equiv> (255 :: nat)"
abbreviation (input) "KS_MAX_CONT \<equiv> (1 :: nat)"
abbreviation (input) "META_DATA_KEYSPACE_ID \<equiv> (0 :: u8)"
abbreviation (input) "USER_DATA_KEYSPACE_START_ID \<equiv> (1 :: u8)"
abbreviation (input) "INVALID_USER_KEYSPACE_ID \<equiv> (0 :: u8)"

definition KEY_SPACE_LIST_KEY_NAME :: "byte list" where
  "KEY_SPACE_LIST_KEY_NAME = map of_char ''key_space_list''"

text \<open>
  The string in an array, \<open>snprintf(buf, n, "%s", s)\<close>, and \<open>strncmp(a, b, n) == 0\<close> for a
  string and an array.
\<close>

definition cstr :: "byte list \<Rightarrow> byte list" where
  "cstr buf = takeWhile (\<lambda>b. b \<noteq> 0) buf"

definition snprintf_s :: "byte list \<Rightarrow> nat \<Rightarrow> byte list \<Rightarrow> byte list" where
  "snprintf_s buf n s = (if n = 0 then buf else mem_write buf 0 (take (n - 1) s @ [0]))"

definition strncmp_eq :: "byte list \<Rightarrow> byte list \<Rightarrow> nat \<Rightarrow> bool" where
  "strncmp_eq a b n \<longleftrightarrow> take n a = take n (cstr b)"

definition strnlen :: "byte list \<Rightarrow> nat \<Rightarrow> nat" where
  "strnlen s n = min (length s) n"

section \<open>The record of a key space\<close>

record ks_metadata =
  md_keyspace_id :: u8
  md_opened :: u8
  md_key_order :: u8
  md_capacity :: u64
  md_free_size :: u64
  md_kv_count :: u64

text \<open>
  The conversion to little-endian order followed by \<open>memcpy\<close>, and back: the bytes of the
  integer, least significant first, whatever the byte order of the host.
\<close>

definition copy_int_to_payload :: "'a::len word \<Rightarrow> byte list \<Rightarrow> nat \<Rightarrow> byte list \<times> nat" where
  "copy_int_to_payload w payload_buff curr_posi =
     (mem_write payload_buff curr_posi (le_bytes (LENGTH('a) div 8) (unat w)), curr_posi + LENGTH('a) div 8)"

definition copy_payload_to_int :: "byte list \<Rightarrow> nat \<Rightarrow> 'a::len word \<times> nat" where
  "copy_payload_to_int payload_buff curr_posi =
     (word_of_nat (le_val (take (LENGTH('a) div 8) (drop curr_posi payload_buff))), curr_posi + LENGTH('a) div 8)"

definition get_key_space_payload_size :: u16 where
  "get_key_space_payload_size = 1 + 1 + 1 + 8 + 8 + 8"

definition parse_key_space_metadata_payload :: "byte list \<Rightarrow> ks_metadata" where
  "parse_key_space_metadata_payload payload_buff =
     (let curr_posi = 0;
          (ksid, curr_posi) = copy_payload_to_int payload_buff curr_posi;
          (op, curr_posi) = copy_payload_to_int payload_buff curr_posi;
          (order, curr_posi) = copy_payload_to_int payload_buff curr_posi;
          (cap, curr_posi) = copy_payload_to_int payload_buff curr_posi;
          (free, curr_posi) = copy_payload_to_int payload_buff curr_posi;
          (cnt, curr_posi) = copy_payload_to_int payload_buff curr_posi
      in \<lparr>md_keyspace_id = ksid, md_opened = op, md_key_order = order, md_capacity = cap,
          md_free_size = free, md_kv_count = cnt\<rparr>)"

definition construct_key_space_metadata_payload :: "ks_metadata \<Rightarrow> byte list \<Rightarrow> byte list" where
  "construct_key_space_metadata_payload ks payload_buff =
     (let curr_posi = 0;
          (payload_buff, curr_posi) = copy_int_to_payload (md_keyspace_id ks) payload_buff curr_posi;
          (payload_buff, curr_posi) = copy_int_to_payload (md_opened ks) payload_buff curr_posi;
          (payload_buff, curr_posi) = copy_int_to_payload (md_key_order ks) payload_buff curr_posi;
          (payload_buff, curr_posi) = copy_int_to_payload (md_capacity ks) payload_buff curr_posi;
          (payload_buff, curr_posi) = copy_int_to_payload (md_free_size ks) payload_buff curr_posi;
          (payload_buff, curr_posi) = copy_int_to_payload (md_kv_count ks) payload_buff curr_posi
      in payload_buff)"

section \<open>The list of key spaces\<close>

record ks_list_entry =
  names_buffer :: "byte list"
  le_keyspace_id :: u8

record ks_list =
  ks_num :: u8
  ks_entries :: "ks_list_entry list"

text \<open>\<open>calloc(1, sizeof(ks_list))\<close>.\<close>

definition ks_list_zero :: ks_list where
  "ks_list_zero = \<lparr>ks_num = 0, ks_entries =
     replicate KS_MAX_CONT \<lparr>names_buffer = replicate (MAX_CONT_PATH_LEN + 1) 0, le_keyspace_id = 0\<rparr>\<rparr>"

definition sizeof_ks_list :: nat where
  "sizeof_ks_list = 1 + KS_MAX_CONT * (MAX_CONT_PATH_LEN + 1 + 1)"

text \<open>
  The loop of \<open>_parse_key_space_list_payload\<close>: the number of entries comes from the record, so
  it may leave the array and the buffer.
\<close>

fun parse_entries :: "nat \<Rightarrow> nat \<Rightarrow> byte list \<Rightarrow> nat \<Rightarrow> ks_list_entry list \<Rightarrow> ks_list_entry list option" where
  "parse_entries 0 idx payload curr_posi es = Some es"
| "parse_entries (Suc n) idx payload curr_posi es =
     do { require (idx < length es \<and> curr_posi + 1 + MAX_CONT_PATH_LEN \<le> length payload);
          let e = es ! idx;
          let ksid = payload ! curr_posi;
          let names = mem_write (names_buffer e) 0 (take MAX_CONT_PATH_LEN (drop (curr_posi + 1) payload));
          parse_entries n (Suc idx) payload (curr_posi + 1 + MAX_CONT_PATH_LEN)
            (es[idx := \<lparr>names_buffer = names, le_keyspace_id = ksid\<rparr>]) }"

definition parse_key_space_list_payload :: "byte list \<Rightarrow> u32 \<Rightarrow> ks_list \<Rightarrow> ks_list option" where
  "parse_key_space_list_payload payload data_len kslist =
     (if unat data_len < 1 then Some (kslist\<lparr>ks_num := 0\<rparr>)
      else do { require (0 < length payload);
                es \<leftarrow> parse_entries (unat (payload ! 0)) 0 payload 1 (ks_entries kslist);
                Some \<lparr>ks_num = payload ! 0, ks_entries = es\<rparr> })"

fun construct_entries :: "nat \<Rightarrow> nat \<Rightarrow> ks_list_entry list \<Rightarrow> byte list \<Rightarrow> nat \<Rightarrow> (byte list \<times> nat) option" where
  "construct_entries 0 idx es payload_buff curr_position = Some (payload_buff, curr_position)"
| "construct_entries (Suc n) idx es payload_buff curr_position =
     do { require (idx < length es \<and> curr_position + 1 + (MAX_KEYSPACE_NAME_LEN + 1) \<le> length payload_buff);
          let e = es ! idx;
          let b1 = mem_write payload_buff curr_position [le_keyspace_id e];
          let b2 = mem_write b1 (curr_position + 1) (take (MAX_KEYSPACE_NAME_LEN + 1) (names_buffer e));
          construct_entries n (Suc idx) es b2 (curr_position + 1 + (MAX_KEYSPACE_NAME_LEN + 1)) }"

definition construct_key_space_list_payload :: "ks_list \<Rightarrow> byte list \<Rightarrow> (byte list \<times> u32) option" where
  "construct_key_space_list_payload kslist payload_buff =
     do { (b, n) \<leftarrow> construct_entries (unat (ks_num kslist)) 0 (ks_entries kslist)
                      (mem_write payload_buff 0 [ks_num kslist]) 1;
          Some (b, ucast (word_of_nat n :: u16)) }"

definition search_an_avaliable_keyspace_id :: "ks_list \<Rightarrow> u8" where
  "search_an_avaliable_keyspace_id kslist = USER_DATA_KEYSPACE_START_ID"

text \<open>The loops that look for an id and for a name, up to the number of entries.\<close>

definition contain_keyspace :: "ks_list \<Rightarrow> u8 \<Rightarrow> bool" where
  "contain_keyspace kslist ks_id = list_ex (\<lambda>e. ks_id = le_keyspace_id e) (take (unat (ks_num kslist)) (ks_entries kslist))"

fun find_name :: "byte list \<Rightarrow> ks_list_entry list \<Rightarrow> nat option" where
  "find_name name [] = None"
| "find_name name (e # es) =
     (if strncmp_eq name (names_buffer e) MAX_KEYSPACE_NAME_LEN then Some 0 else map_option Suc (find_name name es))"

section \<open>Filters\<close>

record kvs_key_group_filter =
  fltr_bitmask :: "byte list"
  fltr_bit_pattern :: "byte list"

definition be_u32 :: "byte list \<Rightarrow> u32" where
  "be_u32 b = ucast (b ! 3) OR push_bit 8 (ucast (b ! 2)) OR push_bit 16 (ucast (b ! 1)) OR push_bit 24 (ucast (b ! 0))"

definition filter2context :: "kvs_key_group_filter \<Rightarrow> u32 \<times> u32" where
  "filter2context fltr = (be_u32 (fltr_bitmask fltr), be_u32 (fltr_bit_pattern fltr))"

text \<open>The two loops of \<open>_is_valid_bitmask\<close>, with \<open>BITMASK_LEN\<close> 32.\<close>

function prefix_ones :: "u32 \<Rightarrow> nat \<Rightarrow> nat" where
  "prefix_ones bitmask cnt =
     (if cnt < 32 then
        (let bit_idx = 32 - cnt - 1 in
         if bitmask AND push_bit bit_idx 1 = 0 then cnt else prefix_ones bitmask (cnt + 1))
      else cnt)"
  by auto
termination by (relation "measure (\<lambda>(b, cnt). 32 - cnt)") auto

function remain_zeros :: "u32 \<Rightarrow> nat \<Rightarrow> bool" where
  "remain_zeros bitmask cnt =
     (if cnt < 32 then
        (let bit_idx = 32 - cnt - 1 in
         if bitmask AND push_bit bit_idx 1 \<noteq> 0 then False else remain_zeros bitmask (cnt + 1))
      else True)"
  by auto
termination by (relation "measure (\<lambda>(b, cnt). 32 - cnt)") auto

declare prefix_ones.simps [simp del] remain_zeros.simps [simp del]

definition is_valid_bitmask :: "u32 \<Rightarrow> bool" where
  "is_valid_bitmask bitmask =
     (let cnt = prefix_ones bitmask 0 in if cnt = 32 then True else remain_zeros bitmask (cnt + 1))"

section \<open>Validation\<close>

definition validate_kv_pair :: "kv_key option \<Rightarrow> kv_value option \<Rightarrow> nat \<Rightarrow> kvs_result" where
  "validate_kv_pair key val max_valid_val_len =
     (let key_result =
        (case key of
           None \<Rightarrow> KVS_SUCCESS
         | Some k \<Rightarrow>
             if unat (key_length k) < KVS_MIN_KEY_LENGTH \<or> unat (key_length k) > KVS_MAX_KEY_LENGTH
             then KVS_ERR_KEY_LENGTH_INVALID
             else if key_ptr k = None then KVS_ERR_PARAM_INVALID else KVS_SUCCESS)
      in if key_result \<noteq> KVS_SUCCESS then key_result
         else case val of
           None \<Rightarrow> KVS_SUCCESS
         | Some v \<Rightarrow>
             if unat (value_length v) < 0 \<or> unat (value_length v) > max_valid_val_len then KVS_ERR_VALUE_LENGTH_INVALID
             else if value_offset v AND (512 - 1) \<noteq> 0 then KVS_ERR_VALUE_OFFSET_MISALIGNED
             else if value_ptr v = None \<and> 0 < value_length v then KVS_ERR_PARAM_INVALID
             else KVS_SUCCESS)"

definition validate_request :: "kv_key option \<Rightarrow> kv_value option \<Rightarrow> kvs_result" where
  "validate_request key val = validate_kv_pair key val KVS_MAX_VALUE_LENGTH"

section \<open>Lemmas on the encodings\<close>

lemma unat_mod_word [simp]: "unat (w :: u64) mod 18446744073709551616 = unat w" "unat (b :: u8) mod 256 = unat b"
  using unsigned_less [of w, where ?'a = nat] by simp_all

text \<open>The record in 27 bytes.\<close>

definition metadata_bytes :: "ks_metadata \<Rightarrow> byte list" where
  "metadata_bytes m = le_bytes 1 (unat (md_keyspace_id m)) @ le_bytes 1 (unat (md_opened m)) @ le_bytes 1 (unat (md_key_order m))
     @ le_bytes 8 (unat (md_capacity m)) @ le_bytes 8 (unat (md_free_size m)) @ le_bytes 8 (unat (md_kv_count m))"

lemma length_metadata_bytes [simp]: "length (metadata_bytes m) = 27"
  by (simp add: metadata_bytes_def)

lemma copy_int_append:
  fixes w :: "'a::len word"
  assumes "pos = length p" and "n = LENGTH('a) div 8" and "q = p @ le_bytes n (unat w)"
  shows "copy_int_to_payload w (p @ r) pos = (q @ drop n r, length q)"
  using assms by (simp add: copy_int_to_payload_def mem_write_def)

lemma construct_metadata:
  assumes "length buf = 27"
  shows "construct_key_space_metadata_payload m buf = metadata_bytes m"
proof -
  define p1 where "p1 = le_bytes 1 (unat (md_keyspace_id m))"
  define p2 where "p2 = p1 @ le_bytes 1 (unat (md_opened m))"
  define p3 where "p3 = p2 @ le_bytes 1 (unat (md_key_order m))"
  define p4 where "p4 = p3 @ le_bytes 8 (unat (md_capacity m))"
  define p5 where "p5 = p4 @ le_bytes 8 (unat (md_free_size m))"
  define p6 where "p6 = p5 @ le_bytes 8 (unat (md_kv_count m))"
  note c = copy_int_append [OF refl]
  have "copy_int_to_payload (md_keyspace_id m) buf 0 = (p1 @ drop 1 buf, length p1)"
    by (simp add: copy_int_to_payload_def mem_write_def p1_def)
  moreover have "copy_int_to_payload (md_opened m) (p1 @ r) (length p1) = (p2 @ drop 1 r, length p2)" for r
    by (rule c) (simp_all add: p2_def)
  moreover have "copy_int_to_payload (md_key_order m) (p2 @ r) (length p2) = (p3 @ drop 1 r, length p3)" for r
    by (rule c) (simp_all add: p3_def)
  moreover have "copy_int_to_payload (md_capacity m) (p3 @ r) (length p3) = (p4 @ drop 8 r, length p4)" for r
    by (rule c) (simp_all add: p4_def)
  moreover have "copy_int_to_payload (md_free_size m) (p4 @ r) (length p4) = (p5 @ drop 8 r, length p5)" for r
    by (rule c) (simp_all add: p5_def)
  moreover have "copy_int_to_payload (md_kv_count m) (p5 @ r) (length p5) = (p6 @ drop 8 r, length p6)" for r
    by (rule c) (simp_all add: p6_def)
  ultimately have "construct_key_space_metadata_payload m buf = p6 @ drop 27 buf"
    by (simp add: construct_key_space_metadata_payload_def)
  moreover have "p6 = metadata_bytes m"
    by (simp add: metadata_bytes_def p1_def p2_def p3_def p4_def p5_def p6_def)
  ultimately show ?thesis using assms by simp
qed

lemma parse_metadata: "parse_key_space_metadata_payload (metadata_bytes m @ rest) = m"
  by (cases m) (simp add: parse_key_space_metadata_payload_def copy_payload_to_int_def metadata_bytes_def)

text \<open>A name in its array.\<close>

definition name_bytes :: "byte list \<Rightarrow> byte list" where
  "name_bytes name = name @ replicate (256 - length name) 0"

lemma length_name_bytes [simp]: "length name \<le> 255 \<Longrightarrow> length (name_bytes name) = 256"
  by (simp add: name_bytes_def)

lemma cstr_name_bytes: "0 \<notin> set name \<Longrightarrow> cstr (name_bytes name) = name"
  by (auto simp: cstr_def name_bytes_def takeWhile_append takeWhile_replicate)

lemma snprintf_name:
  assumes "length name \<le> 255"
  shows "snprintf_s (replicate 256 0) 256 name = name_bytes name"
proof -
  have "drop (Suc (length name)) (replicate 256 (0 :: byte)) = replicate (255 - length name) 0" by simp
  moreover have "replicate (256 - length name) (0 :: byte) = 0 # replicate (255 - length name) 0"
  proof -
    have "256 - length name = Suc (255 - length name)" using assms by simp
    then show ?thesis by (simp only: replicate_Suc)
  qed
  ultimately show ?thesis using assms by (simp add: snprintf_s_def mem_write_def name_bytes_def)
qed

lemma parse_name:
  assumes "length name \<le> 255"
  shows "mem_write (replicate 256 0) 0 (take 255 (name_bytes name)) = name_bytes name"
proof -
  have "drop 255 (name_bytes name) = [0]" using assms by (simp add: name_bytes_def)
  moreover have "mem_write (replicate 256 0) 0 (take 255 (name_bytes name)) = take 255 (name_bytes name) @ [0]"
    using assms by (simp add: mem_write_def)
  ultimately show ?thesis by (metis append_take_drop_id)
qed

text \<open>The list record with no key space and with one.\<close>

definition one_list :: "byte list \<Rightarrow> u8 \<Rightarrow> ks_list" where
  "one_list name ksid = \<lparr>ks_num = 1, ks_entries = [\<lparr>names_buffer = name_bytes name, le_keyspace_id = ksid\<rparr>]\<rparr>"

definition one_list_bytes :: "byte list \<Rightarrow> u8 \<Rightarrow> byte list" where
  "one_list_bytes name ksid = 1 # ksid # name_bytes name"

lemma length_one_list_bytes [simp]: "length name \<le> 255 \<Longrightarrow> length (one_list_bytes name ksid) = 258"
  by (simp add: one_list_bytes_def)

lemma construct_one_list:
  assumes "length name \<le> 255" and "length buf = 258"
  shows "construct_key_space_list_payload (one_list name ksid) buf = Some (one_list_bytes name ksid, 258)"
proof -
  have "mem_write (mem_write (mem_write buf 0 [1]) 1 [ksid]) 2 (name_bytes name) = one_list_bytes name ksid"
    using assms by (simp add: mem_write_def one_list_bytes_def)
  then show ?thesis
    using assms by (simp add: construct_key_space_list_payload_def one_list_def numeral_2_eq_2 [symmetric] Let_def)
qed

lemma construct_no_list:
  assumes "length buf = 258"
  shows "construct_key_space_list_payload (l\<lparr>ks_num := 0\<rparr>) buf = Some (0 # tl buf, 1)"
  using assms by (cases buf) (simp_all add: construct_key_space_list_payload_def mem_write_def)

lemma parse_one_list:
  assumes "length name \<le> 255" and "1 \<le> unat data_len"
  shows "parse_key_space_list_payload (one_list_bytes name ksid @ rest) data_len ks_list_zero = Some (one_list name ksid)"
  using assms parse_name [OF assms(1)]
  by (simp add: parse_key_space_list_payload_def one_list_bytes_def ks_list_zero_def one_list_def Let_def)

lemma parse_no_list: "parse_key_space_list_payload (0 # rest) data_len ks_list_zero = Some ks_list_zero"
  by (simp add: parse_key_space_list_payload_def ks_list_zero_def)

section \<open>Masks\<close>

lemma and_one_bit: "(m AND 2 ^ k = 0) \<longleftrightarrow> \<not> bit m k" for m :: u32
  by (simp add: and_exp_eq_0_iff_not_bit)

lemma prefix_ones_spec:
  assumes "cnt \<le> 32"
  shows "cnt \<le> prefix_ones m cnt" and "prefix_ones m cnt \<le> 32"
    and "\<forall>i. cnt \<le> i \<and> i < prefix_ones m cnt \<longrightarrow> bit m (31 - i)"
    and "prefix_ones m cnt < 32 \<longrightarrow> \<not> bit m (31 - prefix_ones m cnt)"
proof -
  have "cnt \<le> prefix_ones m cnt \<and> prefix_ones m cnt \<le> 32 \<and> (\<forall>i. cnt \<le> i \<and> i < prefix_ones m cnt \<longrightarrow> bit m (31 - i))
    \<and> (prefix_ones m cnt < 32 \<longrightarrow> \<not> bit m (31 - prefix_ones m cnt))"
    using assms
  proof (induction m cnt rule: prefix_ones.induct)
    case (1 m cnt)
    show ?case
    proof (cases "cnt < 32 \<and> bit m (31 - cnt)")
      case True
      then have "prefix_ones m cnt = prefix_ones m (cnt + 1)"
        by (simp add: prefix_ones.simps [of m cnt] and_one_bit Let_def)
      moreover have "i = cnt \<or> cnt + 1 \<le> i" if "cnt \<le> i" for i using that by auto
      ultimately show ?thesis using 1 True by (auto simp: and_one_bit)
    next
      case False
      then show ?thesis using 1(2) by (auto simp: prefix_ones.simps [of m cnt] and_one_bit Let_def)
    qed
  qed
  then show "cnt \<le> prefix_ones m cnt" "prefix_ones m cnt \<le> 32"
    "\<forall>i. cnt \<le> i \<and> i < prefix_ones m cnt \<longrightarrow> bit m (31 - i)"
    "prefix_ones m cnt < 32 \<longrightarrow> \<not> bit m (31 - prefix_ones m cnt)" by blast+
qed

lemma remain_zeros_iff: "remain_zeros m cnt \<longleftrightarrow> (\<forall>i. cnt \<le> i \<and> i < 32 \<longrightarrow> \<not> bit m (31 - i))"
proof (induction m cnt rule: remain_zeros.induct)
  case (1 m cnt)
  have "i = cnt \<or> cnt + 1 \<le> i" if "cnt \<le> i" for i using that by auto
  then show ?case
    using 1 by (auto simp: remain_zeros.simps [of m cnt] and_one_bit Let_def)
qed

lemma bit_high_mask: "bit (high_mask j) n \<longleftrightarrow> j \<le> n \<and> n < 32"
  by (auto simp: high_mask_def bit_simps)

section \<open>Properties\<close>

text \<open>
  C27. \<open>_is_valid_bitmask\<close> accepts exactly the masks of high-order bits: a bit mask passes its two
  loops if and only if it is a run of ones from the top followed by zeros, the masks for which an
  iteration over a key group is complete.
\<close>

theorem valid_bitmask_iff: "is_valid_bitmask m \<longleftrightarrow> (\<exists>j. j \<le> 32 \<and> m = high_mask j)"
proof
  define c where "c = prefix_ones m 0"
  note p = prefix_ones_spec [of 0 m, folded c_def, simplified]
  assume "is_valid_bitmask m"
  then have z: "c < 32 \<Longrightarrow> remain_zeros m (c + 1)" by (auto simp: is_valid_bitmask_def c_def Let_def split: if_splits)
  have bits: "bit m n \<longleftrightarrow> 32 - c \<le> n" if n: "n < 32" for n
  proof -
    have up: "bit m (31 - i)" if "i < c" for i using p(3) that by blast
    have down: "\<not> bit m (31 - i)" if "c \<le> i" "i < 32" for i
      using that p(4) z remain_zeros_iff [of m "c + 1"] by (cases "i = c") auto
    show ?thesis using up [of "31 - n"] down [of "31 - n"] n by fastforce
  qed
  have "m = high_mask (32 - c)"
    by (rule bit_word_eqI) (use bits in \<open>simp add: bit_high_mask\<close>)
  then show "\<exists>j. j \<le> 32 \<and> m = high_mask j" by (intro exI [of _ "32 - c"]) simp
next
  assume "\<exists>j. j \<le> 32 \<and> m = high_mask j"
  then obtain j where j: "j \<le> 32" "m = high_mask j" by blast
  define c where "c = prefix_ones m 0"
  note p = prefix_ones_spec [of 0 m, folded c_def, simplified]
  have "remain_zeros m (c + 1)" if "c < 32"
    using p(4) that unfolding remain_zeros_iff j(2) by (auto simp: bit_high_mask)
  then show "is_valid_bitmask m" using p(2) by (auto simp: is_valid_bitmask_def c_def [symmetric] Let_def)
qed

text \<open>
  C26. What the frontend keeps of the key spaces survives its trip to the device. The 27 bytes it
  builds from the metadata of a key space, read back into the longer buffer of a retrieve
  whatever it held before, parse to the same metadata. The bytes it builds from a list with one
  key space, whatever its identifier and its name in the array of 256 bytes with the final zero,
  and from the empty list, read back in the same way, parse to the same list.
\<close>

theorem metadata_roundtrip:
  fixes ksid :: u8
  assumes "length payload_buff = 27" and "length buf = 28"
    and "length list_buff = 258" and "258 \<le> length list_buf" and "length nm = 255"
  defines "one \<equiv> \<lparr>ks_num = 1, ks_entries = [\<lparr>names_buffer = nm @ [0], le_keyspace_id = ksid\<rparr>]\<rparr>"
  shows "parse_key_space_metadata_payload (mem_write buf 0 (construct_key_space_metadata_payload m payload_buff)) = m
    \<and> (\<exists>b n. construct_key_space_list_payload one list_buff = Some (b, n) \<and> unat n \<le> length b
        \<and> parse_key_space_list_payload (mem_write list_buf 0 (take (unat n) b)) n ks_list_zero = Some one)
    \<and> (\<exists>b n. construct_key_space_list_payload ks_list_zero list_buff = Some (b, n) \<and> unat n \<le> length b
        \<and> parse_key_space_list_payload (mem_write list_buf 0 (take (unat n) b)) n ks_list_zero = Some ks_list_zero)"
proof -
  have "parse_key_space_metadata_payload (mem_write buf 0 (construct_key_space_metadata_payload m payload_buff)) = m"
    using assms(1,2) parse_metadata [of m "drop 27 buf"] by (simp add: construct_metadata mem_write_def)
  moreover have "mem_write (mem_write (mem_write list_buff 0 [1]) 1 [ksid]) 2 (nm @ [0]) = 1 # ksid # nm @ [0]"
    using assms(3,5) by (simp add: mem_write_def)
  then have "construct_key_space_list_payload one list_buff = Some (1 # ksid # nm @ [0], 258)"
    using assms(3,5) by (simp add: construct_key_space_list_payload_def one_def numeral_2_eq_2 [symmetric] Let_def)
  moreover have "parse_key_space_list_payload (mem_write list_buf 0 (1 # ksid # nm @ [0])) 258 ks_list_zero = Some one"
    using assms(4,5) by (simp add: parse_key_space_list_payload_def ks_list_zero_def one_def Let_def mem_write_def)
  moreover have "construct_key_space_list_payload ks_list_zero list_buff = Some (0 # tl list_buff, 1)"
    using construct_no_list [OF assms(3), of ks_list_zero] by (simp add: ks_list_zero_def)
  moreover have "parse_key_space_list_payload (mem_write list_buf 0 [0]) 1 ks_list_zero = Some ks_list_zero"
    using parse_no_list by (simp add: mem_write_def)
  ultimately show ?thesis using assms(5) by auto
qed

theorem metadata_roundtrip_witness:
  "parse_key_space_metadata_payload (mem_write (replicate 28 7) 0 (construct_key_space_metadata_payload
     \<lparr>md_keyspace_id = 1, md_opened = 0, md_key_order = 0, md_capacity = 1048576, md_free_size = 0, md_kv_count = 0\<rparr> (replicate 27 9)))
   = \<lparr>md_keyspace_id = 1, md_opened = 0, md_key_order = 0, md_capacity = 1048576, md_free_size = 0, md_kv_count = 0\<rparr>
   \<and> (\<exists>b n. construct_key_space_list_payload
        \<lparr>ks_num = 1, ks_entries = [\<lparr>names_buffer = (97 # replicate 254 0) @ [0], le_keyspace_id = 1\<rparr>]\<rparr> (replicate 258 9) = Some (b, n)
      \<and> parse_key_space_list_payload (mem_write (replicate 300 7) 0 (take (unat n) b)) n ks_list_zero =
          Some \<lparr>ks_num = 1, ks_entries = [\<lparr>names_buffer = (97 # replicate 254 0) @ [0], le_keyspace_id = 1\<rparr>]\<rparr>)"
proof -
  have len: "258 \<le> length (replicate 300 7 :: byte list)" "length (97 # replicate 254 0 :: byte list) = 255" by simp_all
  show ?thesis
    using metadata_roundtrip [OF length_replicate length_replicate length_replicate len, where ksid = 1
      and m = "\<lparr>md_keyspace_id = 1, md_opened = 0, md_key_order = 0, md_capacity = 1048576, md_free_size = 0, md_kv_count = 0\<rparr>"]
    by blast
qed

end
