(* ===== verification/Kv_Frontend.thy ===== *)
theory Kv_Frontend
  imports Kv_Meta
begin

text \<open>
  The KV API (\<open>PDK/core/src/api/src/cfrontend.cpp\<close>): the environment with the open devices and
  key spaces, the management of key spaces in the metadata key space, and the calls on key-value
  pairs. It is the build for the emulator; the driver is the record \<open>KvsDriver\<close> of functions.

  Device and key space handles live at addresses, so that a handle that was closed is a value of
  the model: using the memory of one that was freed is undefined behaviour. Allocation does not
  fail; what a fresh allocation holds is the argument \<open>fresh\<close>, from the size to the bytes.
  Calls run one at a time, as they do under \<open>env_mutex\<close>. An asynchronous call only submits; the
  callback and its two pointers belong to the driver.
\<close>

section \<open>State\<close>

record kvs_key_space_handle =
  kh_keyspace_id :: u8
  kh_dev :: nat
  kh_name :: "byte list"

record 'd kvs_device_handle =
  dvh_driver :: 'd
  dvh_path :: string
  dvh_open_ks_hds :: "nat list"

record 'd g_env =
  ge_initialized :: bool
  ge_queuedepth :: int
  ge_configfile :: string
  ge_opened_device_num :: int
  ge_open_devices :: "nat list"
  ge_list_open_ks :: "nat list"
  device_handles :: "nat \<rightharpoonup> 'd kvs_device_handle"
  ks_handles :: "nat \<rightharpoonup> kvs_key_space_handle"
  next_handle :: nat

definition g_env_start :: "'d g_env" where
  "g_env_start = \<lparr>ge_initialized = False, ge_queuedepth = 0, ge_configfile = [], ge_opened_device_num = 0,
     ge_open_devices = [], ge_list_open_ks = [], device_handles = Map.empty, ks_handles = Map.empty, next_handle = 0\<rparr>"

section \<open>The environment\<close>

text \<open>What the host provides: environment variables, the file \<open>env_init.conf\<close>, and \<open>access\<close>.\<close>

record host_env =
  h_getenv :: "string \<Rightarrow> string option"
  h_cfg :: kv_config
  h_exists :: "string \<Rightarrow> bool"
  h_readable :: "string \<Rightarrow> bool"

record kvs_init_options =
  opt_use_dpdk :: int
  opt_max_cachesize_mb :: u64
  opt_iocoremask :: u64
  opt_queuedepth :: u32
  opt_emul_config_file :: "string option"

text \<open>The buffer for the path of the configuration file has \<open>PATH_MAX\<close> bytes.\<close>

abbreviation (input) "PATH_MAX \<equiv> (4096 :: nat)"

text \<open>\<open>atoi\<close>: 0 without a number, undefined for a number outside of \<open>int\<close>.\<close>

definition atoi :: "string \<Rightarrow> int option" where
  "atoi s = (if scan_number s = None then Some 0 else stoi s)"

definition init_default_option :: kvs_init_options where
  "init_default_option = \<lparr>opt_use_dpdk = 0, opt_max_cachesize_mb = 0, opt_iocoremask = 0, opt_queuedepth = 64,
     opt_emul_config_file = Some ''../kvssd_emul.conf''\<rparr>"

definition init_env_from_environ :: "host_env \<Rightarrow> kvs_init_options \<Rightarrow> kvs_init_options option" where
  "init_env_from_environ host options =
     do { o1 \<leftarrow> (case h_getenv host ''KVSSD_QUEUE_DEPTH'' of None \<Rightarrow> Some options
                  | Some s \<Rightarrow> do { n \<leftarrow> atoi s; Some (options\<lparr>opt_queuedepth := word_of_int n\<rparr>) });
          o2 \<leftarrow> (case h_getenv host ''KVSSD_IOCOREMASK'' of None \<Rightarrow> Some o1
                  | Some s \<Rightarrow> do { n \<leftarrow> atoi s; Some (o1\<lparr>opt_iocoremask := word_of_int n\<rparr>) });
          (case h_getenv host ''KVSSD_EMU_CONFIGFILE'' of None \<Rightarrow> Some o2
           | Some s \<Rightarrow> do { require (length s < PATH_MAX); Some (o2\<lparr>opt_emul_config_file := Some s\<rparr>) }) }"

definition init_env_from_cfgfile :: "host_env \<Rightarrow> kvs_init_options \<Rightarrow> kvs_init_options option" where
  "init_env_from_cfgfile host options =
     do { queue_depth \<leftarrow> atoi (getkv (h_cfg host) ''aio'' ''queue_depth'');
          iocoremask \<leftarrow> atoi (getkv (h_cfg host) ''aio'' ''iocoremask'');
          let cfg_file_path = getkv (h_cfg host) ''emu'' ''cfg_file'';
          require (length cfg_file_path < PATH_MAX);
          Some (options\<lparr>opt_iocoremask := word_of_int iocoremask,
                  opt_queuedepth := (if queue_depth = 0 then opt_queuedepth options else word_of_int queue_depth),
                  opt_emul_config_file := (if cfg_file_path \<noteq> [] then Some cfg_file_path else opt_emul_config_file options)\<rparr>) }"

text \<open>
  \<open>kvs_init_env\<close> in the build for the emulator; asking for SPDK ends the program there. The path
  is cut to the 256 bytes of \<open>g_env.configfile\<close>.
\<close>

definition kvs_init_env :: "host_env \<Rightarrow> kvs_init_options option \<Rightarrow> 'd g_env \<Rightarrow> (kvs_result \<times> 'd g_env) option" where
  "kvs_init_env host options env =
     (if ge_initialized env then Some (KVS_SUCCESS, env)
      else case options of
        None \<Rightarrow> Some (KVS_SUCCESS, env\<lparr>ge_initialized := True\<rparr>)
      | Some opt \<Rightarrow>
          let env1 = env\<lparr>ge_queuedepth := (if opt_queuedepth opt > 0 then sint (opt_queuedepth opt) else 256)\<rparr> in
          if opt_use_dpdk opt = 1 then None
          else case opt_emul_config_file opt of
            None \<Rightarrow> Some (KVS_ERR_OPTION_INVALID, env1)
          | Some f \<Rightarrow>
              if \<not> h_exists host f \<or> \<not> h_readable host f then Some (KVS_ERR_OPTION_INVALID, env1)
              else
                let env2 = env1\<lparr>ge_configfile := take 255 f\<rparr> in
                if opt_max_cachesize_mb opt > 0 then Some (KVS_ERR_OPTION_INVALID, env2)
                else Some (KVS_SUCCESS, env2\<lparr>ge_initialized := True\<rparr>))"

definition init_env :: "host_env \<Rightarrow> 'd g_env \<Rightarrow> (kvs_result \<times> 'd g_env) option" where
  "init_env host env =
     (if ge_initialized env then Some (KVS_SUCCESS, env)
      else do { o1 \<leftarrow> init_env_from_environ host init_default_option;
                o2 \<leftarrow> init_env_from_cfgfile host o1;
                (ret, env1) \<leftarrow> kvs_init_env host (Some o2) env;
                Some (ret, if ret = KVS_SUCCESS then env1\<lparr>ge_initialized := True\<rparr> else env1) })"

section \<open>Devices\<close>

text \<open>The two functions \<open>_device_opened\<close>, by path and by handle; the first one reads every handle.\<close>

definition device_path_opened :: "string \<Rightarrow> 'd g_env \<Rightarrow> bool option" where
  "device_path_opened dev_path env =
     do { require (list_all (\<lambda>a. device_handles env a \<noteq> None) (ge_open_devices env));
          Some (list_ex (\<lambda>a. dvh_path (the (device_handles env a)) = dev_path) (ge_open_devices env)) }"

definition device_opened :: "nat \<Rightarrow> 'd g_env \<Rightarrow> bool" where
  "device_opened dev_hd env = (dev_hd \<in> set (ge_open_devices env))"

text \<open>
  \<open>_select_driver\<close> and the \<open>init\<close> of its driver in the build for the emulator, where polling is
  never asked for. \<open>cfgs\<close> has the contents of the configuration files; the state of the device
  library and the queue counter when a device is opened are arguments.
\<close>

definition select_driver_init ::
    "('b, io_cmd) circular_buffer \<Rightarrow> (string \<Rightarrow> kv_config) \<Rightarrow> bool \<Rightarrow> kv_history \<Rightarrow> (string \<Rightarrow> int) \<Rightarrow> (string \<Rightarrow> 'b device_class) \<Rightarrow>
     string \<Rightarrow> string \<Rightarrow> int \<Rightarrow> (kvs_result \<times> 'b KvEmulator) call" where
  "select_driver_init B cfgs purging h qid st path configfile queuedepth =
     andThen (defined (KvEmulator_init B (cfgs configfile) purging h queuedepth False (qid path) (st path)))
       (\<lambda>(ret, _, d). Returns (ret, d))"

text \<open>
  \<open>kvs_open_device\<close>. \<open>init\<close> makes a driver for a path. The result is the code and the handle, if
  one is stored.
\<close>

definition kvs_open_device ::
    "host_env \<Rightarrow> (string \<Rightarrow> string \<Rightarrow> int \<Rightarrow> (kvs_result \<times> 'd) call) \<Rightarrow> string option \<Rightarrow> bool \<Rightarrow> 'd g_env \<Rightarrow>
     (kvs_result \<times> nat option \<times> 'd g_env) call" where
  "kvs_open_device host init URI dev_hd env =
     andThen (defined (init_env host env)) (\<lambda>(ret, env1).
       if ret \<noteq> KVS_SUCCESS then Returns (ret, None, env1)
       else case URI of
         None \<Rightarrow> Returns (KVS_ERR_PARAM_INVALID, None, env1)
       | Some uri \<Rightarrow>
           if \<not> dev_hd then Returns (KVS_ERR_PARAM_INVALID, None, env1)
           else if length uri = 0 \<or> length uri > 255 then Returns (KVS_ERR_PARAM_INVALID, None, env1)
           else andThen (defined (device_path_opened uri env1)) (\<lambda>opened.
             if opened then Returns (KVS_ERR_SYS_IO, None, env1)
             else andThen (init uri (ge_configfile env1) (ge_queuedepth env1)) (\<lambda>(ret, drv).
               if ret \<noteq> KVS_SUCCESS then Returns (ret, None, env1)
               else
                 let a = next_handle env1 in
                 Returns (ret, Some a,
                   env1\<lparr>device_handles := (device_handles env1)(a \<mapsto>
                           \<lparr>dvh_driver = drv, dvh_path = uri, dvh_open_ks_hds = []\<rparr>),
                        ge_open_devices := ge_open_devices env1 @ [a],
                        ge_opened_device_num := ge_opened_device_num env1 + 1,
                        next_handle := Suc a\<rparr>))))"

text \<open>
  \<open>kvs_close_device\<close> with \<open>_remove_key_space_from_g_env\<close> and \<open>_kvs_exit_env\<close>. The key space
  handles of the device are freed and its driver is deleted with it. When the count of open devices gets to 0 with a
  device still open, \<open>_kvs_exit_env\<close> calls \<open>kvs_close_device\<close> again, which waits for the mutex
  its caller holds.
\<close>

definition remove_all :: "nat list \<Rightarrow> nat list \<Rightarrow> nat list" where
  "remove_all ks l = fold remove1 ks l"

definition free_all :: "nat list \<Rightarrow> (nat \<rightharpoonup> 'a) \<Rightarrow> (nat \<rightharpoonup> 'a)" where
  "free_all ks m = (\<lambda>a. if a \<in> set ks then None else m a)"

definition kvs_close_device :: "'d KvsDriver \<Rightarrow> nat option \<Rightarrow> 'd g_env \<Rightarrow> (kvs_result \<times> 'd g_env) call" where
  "kvs_close_device D dev_hd env =
     (case dev_hd of
        None \<Rightarrow> Returns (KVS_ERR_PARAM_INVALID, env)
      | Some a \<Rightarrow>
          if \<not> device_opened a env then Returns (KVS_ERR_DEV_NOT_OPENED, env)
          else case device_handles env a of
            None \<Rightarrow> Undefined
          | Some h \<Rightarrow>
              let ks = dvh_open_ks_hds h;
                  env1 = env\<lparr>ge_list_open_ks := remove_all ks (ge_list_open_ks env),
                             ks_handles := free_all ks (ks_handles env),
                             ge_open_devices := removeAll a (ge_open_devices env),
                             device_handles := (device_handles env)(a := None),
                             ge_opened_device_num := ge_opened_device_num env - 1\<rparr>
              in andThen (delete_driver D (dvh_driver h)) (\<lambda>_.
                   if ge_opened_device_num env1 = 0 then
                     (if ge_open_devices env1 = [] then Returns (KVS_SUCCESS, env1\<lparr>ge_initialized := False\<rparr>) else Waits)
                   else Returns (KVS_SUCCESS, env1)))"

text \<open>Running a call of the driver of an open device.\<close>

definition on_driver :: "nat \<Rightarrow> ('d \<Rightarrow> ('r \<times> 'd) call) \<Rightarrow> 'd g_env \<Rightarrow> ('r \<times> 'd g_env) call" where
  "on_driver a f env =
     (case device_handles env a of
        None \<Rightarrow> Undefined
      | Some h \<Rightarrow> andThen (f (dvh_driver h)) (\<lambda>(r, d).
          Returns (r, env\<lparr>device_handles := (device_handles env)(a \<mapsto> h\<lparr>dvh_driver := d\<rparr>)\<rparr>)))"

record kvs_device =
  kd_capacity :: u64
  kd_unalloc_capacity :: u64
  kd_max_value_len :: u32
  kd_max_key_len :: u32
  kd_optimal_value_len :: u32

text \<open>The result and, when it is stored, the answer.\<close>

definition kvs_get_device_info :: "'d KvsDriver \<Rightarrow> nat option \<Rightarrow> bool \<Rightarrow> 'd g_env \<Rightarrow>
    (kvs_result \<times> kvs_device option \<times> 'd g_env) call" where
  "kvs_get_device_info D dev_hd dev_info env =
     (case dev_hd of
        None \<Rightarrow> Returns (KVS_ERR_PARAM_INVALID, None, env)
      | Some a \<Rightarrow>
          if \<not> dev_info then Returns (KVS_ERR_PARAM_INVALID, None, env)
          else if \<not> device_opened a env then Returns (KVS_ERR_DEV_NOT_OPENED, None, env)
          else andThen (on_driver a (\<lambda>d. andThen (get_total_size D d) (\<lambda>(r, c, d'). Returns ((r, c), d'))) env)
            (\<lambda>((ret, cap), env'). Returns (ret,
               Some \<lparr>kd_capacity = cap, kd_unalloc_capacity = 0, kd_max_value_len = word_of_nat KVS_MAX_VALUE_LENGTH,
                     kd_max_key_len = word_of_nat KVS_MAX_KEY_LENGTH, kd_optimal_value_len = 4096\<rparr>, env')))"

definition kvs_get_device_capacity :: "'d KvsDriver \<Rightarrow> nat option \<Rightarrow> bool \<Rightarrow> 'd g_env \<Rightarrow>
    (kvs_result \<times> u64 option \<times> 'd g_env) call" where
  "kvs_get_device_capacity D dev_hd dev_capa env =
     (case dev_hd of
        None \<Rightarrow> Returns (KVS_ERR_PARAM_INVALID, None, env)
      | Some a \<Rightarrow>
          if \<not> dev_capa then Returns (KVS_ERR_PARAM_INVALID, None, env)
          else if \<not> device_opened a env then Returns (KVS_ERR_DEV_NOT_OPENED, None, env)
          else andThen (on_driver a (\<lambda>d. andThen (get_total_size D d) (\<lambda>(r, c, d'). Returns ((r, c), d'))) env)
            (\<lambda>((ret, cap), env'). Returns (ret, Some cap, env')))"

definition kvs_get_device_utilization :: "'d KvsDriver \<Rightarrow> nat option \<Rightarrow> bool \<Rightarrow> 'd g_env \<Rightarrow>
    (kvs_result \<times> u32 option \<times> 'd g_env) call" where
  "kvs_get_device_utilization D dev_hd dev_utilization env =
     (case dev_hd of
        None \<Rightarrow> Returns (KVS_ERR_PARAM_INVALID, None, env)
      | Some a \<Rightarrow>
          if \<not> dev_utilization then Returns (KVS_ERR_PARAM_INVALID, None, env)
          else if \<not> device_opened a env then Returns (KVS_ERR_DEV_NOT_OPENED, None, env)
          else andThen (on_driver a (\<lambda>d. andThen (get_used_size D d) (\<lambda>(r, c, d'). Returns ((r, c), d'))) env)
            (\<lambda>((ret, used), env'). Returns (ret, Some used, env')))"

text \<open>The five functions that only report a limit.\<close>

definition get_limit :: "nat \<Rightarrow> nat option \<Rightarrow> bool \<Rightarrow> 'd g_env \<Rightarrow> kvs_result \<times> u32 option" where
  "get_limit limit dev_hd out env =
     (case dev_hd of
        None \<Rightarrow> (KVS_ERR_PARAM_INVALID, None)
      | Some a \<Rightarrow>
          if \<not> out then (KVS_ERR_PARAM_INVALID, None)
          else if \<not> device_opened a env then (KVS_ERR_DEV_NOT_OPENED, None)
          else (KVS_SUCCESS, Some (word_of_nat limit)))"

definition kvs_get_min_key_length :: "nat option \<Rightarrow> bool \<Rightarrow> 'd g_env \<Rightarrow> kvs_result \<times> u32 option" where
  "kvs_get_min_key_length = get_limit KVS_MIN_KEY_LENGTH"

definition kvs_get_max_key_length :: "nat option \<Rightarrow> bool \<Rightarrow> 'd g_env \<Rightarrow> kvs_result \<times> u32 option" where
  "kvs_get_max_key_length = get_limit KVS_MAX_KEY_LENGTH"

definition kvs_get_min_value_length :: "nat option \<Rightarrow> bool \<Rightarrow> 'd g_env \<Rightarrow> kvs_result \<times> u32 option" where
  "kvs_get_min_value_length = get_limit 0"

definition kvs_get_max_value_length :: "nat option \<Rightarrow> bool \<Rightarrow> 'd g_env \<Rightarrow> kvs_result \<times> u32 option" where
  "kvs_get_max_value_length = get_limit KVS_MAX_VALUE_LENGTH"

definition kvs_get_optimal_value_length :: "nat option \<Rightarrow> bool \<Rightarrow> 'd g_env \<Rightarrow> kvs_result \<times> u32 option" where
  "kvs_get_optimal_value_length = get_limit 4096"

section \<open>The metadata key space\<close>

text \<open>
  \<open>_sync_io_to_meta_keyspace\<close>: one synchronous call on the key space of the metadata, with the
  option its operation has.
\<close>

datatype meta_io = META_STORE kvs_store_type | META_RETRIEVE bool | META_DELETE bool | META_OTHER

definition sync_io_to_meta_keyspace ::
    "'d KvsDriver \<Rightarrow> kv_key \<Rightarrow> kv_value option \<Rightarrow> meta_io \<Rightarrow> 'd \<Rightarrow> (kvs_result \<times> kv_value option \<times> 'd) call" where
  "sync_io_to_meta_keyspace D key val io_op d =
     (case io_op of
        META_STORE st \<Rightarrow>
          andThen (store_tuple D META_DATA_KEYSPACE_ID (Some key) val st True d) (\<lambda>(ret, d'). Returns (ret, val, d'))
      | META_RETRIEVE del \<Rightarrow> retrieve_tuple D META_DATA_KEYSPACE_ID (Some key) val del True d
      | META_DELETE err \<Rightarrow>
          andThen (delete_tuple D META_DATA_KEYSPACE_ID (Some key) err True d) (\<lambda>(ret, d'). Returns (ret, val, d'))
      | META_OTHER \<Rightarrow> Returns (KVS_ERR_SYS_IO, val, d))"

text \<open>
  The key of a record: \<open>klen\<close> bytes are allocated and \<open>snprintf(key, klen, "%s", name)\<close> writes into
  them, so the last byte is the terminator.
\<close>

definition name_key :: "u16 \<Rightarrow> byte list \<Rightarrow> kv_key" where
  "name_key klen name =
     \<lparr>key_ptr = Some (if klen = 0 then [] else take (unat klen - 1) name @ [0]), key_length = klen\<rparr>"

definition exist_key_space_entry :: "'d KvsDriver \<Rightarrow> byte list \<Rightarrow> 'd \<Rightarrow> (kvs_result \<times> u8 \<times> 'd) call" where
  "exist_key_space_entry D name d =
     (let klen = word_of_nat (length name);
          kvskey = name_key klen name;
          l = \<lparr>el_num_keys = 1, el_keys = [kvskey], el_length = 1, el_result_buffer = Some [0]\<rparr>
      in andThen (exist_tuple D META_DATA_KEYSPACE_ID 1 (Some [kvskey]) l True d) (\<lambda>(ret, l', d').
           andThen (defined (el_result_buffer l')) (\<lambda>buf. Returns (ret, hd buf, d'))))"

text \<open>The length is rounded up to the alignment of the DMA, 4 bytes.\<close>

definition retrieve_key_space_metadata ::
    "'d KvsDriver \<Rightarrow> (nat \<Rightarrow> byte list) \<Rightarrow> byte list \<Rightarrow> ks_metadata \<Rightarrow> 'd \<Rightarrow> (kvs_result \<times> ks_metadata \<times> 'd) call" where
  "retrieve_key_space_metadata D fresh name cont d =
     (let vlen = ((get_key_space_payload_size - 1) div 4 + 1) * 4;
          klen = word_of_nat (length name);
          kvskey = name_key klen name;
          kvsvalue = \<lparr>value_ptr = Some (fresh (unat vlen)), value_length = ucast vlen, actual_value_size = 0, value_offset = 0\<rparr>
      in andThen (sync_io_to_meta_keyspace D kvskey (Some kvsvalue) (META_RETRIEVE False) d) (\<lambda>(ret, v, d').
           if ret \<noteq> KVS_SUCCESS then Returns (ret, cont, d')
           else andThen (defined (Option.bind v value_ptr)) (\<lambda>payload.
             Returns (ret, parse_key_space_metadata_payload payload, d'))))"

definition store_key_space_metadata ::
    "'d KvsDriver \<Rightarrow> (nat \<Rightarrow> byte list) \<Rightarrow> byte list \<Rightarrow> ks_metadata \<Rightarrow> kvs_store_type \<Rightarrow> 'd \<Rightarrow> (kvs_result \<times> 'd) call" where
  "store_key_space_metadata D fresh name cont st_type d =
     (let payload_size = get_key_space_payload_size;
          klen = word_of_nat (strnlen name MAX_CONT_PATH_LEN);
          payload_buff = construct_key_space_metadata_payload cont (fresh (unat payload_size));
          kvskey = name_key klen name;
          kvsvalue = \<lparr>value_ptr = Some payload_buff, value_length = ucast payload_size, actual_value_size = 0, value_offset = 0\<rparr>
      in andThen (sync_io_to_meta_keyspace D kvskey (Some kvsvalue) (META_STORE st_type) d) (\<lambda>(ret, _, d').
           Returns (ret, d')))"

text \<open>The list of key spaces, under the key \<open>key_space_list\<close> with its terminator.\<close>

definition list_key :: kv_key where
  "list_key = name_key (word_of_nat (length KEY_SPACE_LIST_KEY_NAME + 1)) KEY_SPACE_LIST_KEY_NAME"

definition retreive_key_space_list ::
    "'d KvsDriver \<Rightarrow> (nat \<Rightarrow> byte list) \<Rightarrow> ks_list \<Rightarrow> 'd \<Rightarrow> (kvs_result \<times> ks_list \<times> 'd) call" where
  "retreive_key_space_list D fresh kslist d =
     (let vlen = word_of_nat (((sizeof_ks_list + 3) div 4) * 4);
          kvsvalue = \<lparr>value_ptr = Some (fresh (unat vlen)), value_length = vlen, actual_value_size = 0, value_offset = 0\<rparr>
      in andThen (sync_io_to_meta_keyspace D list_key (Some kvsvalue) (META_RETRIEVE False) d) (\<lambda>(ret, v, d').
           if ret \<noteq> KVS_SUCCESS then
             Returns (if ret = KVS_ERR_KEY_NOT_EXIST then KVS_SUCCESS else ret, kslist\<lparr>ks_num := 0\<rparr>, d')
           else andThen (defined v) (\<lambda>w. andThen (defined (value_ptr w)) (\<lambda>payload.
             andThen (defined (parse_key_space_list_payload payload (value_length w) kslist)) (\<lambda>kslist'.
               Returns (ret, kslist', d'))))))"

definition store_key_space_list ::
    "'d KvsDriver \<Rightarrow> (nat \<Rightarrow> byte list) \<Rightarrow> ks_list \<Rightarrow> 'd \<Rightarrow> (kvs_result \<times> 'd) call" where
  "store_key_space_list D fresh kslist d =
     andThen (defined (construct_key_space_list_payload kslist (fresh sizeof_ks_list))) (\<lambda>(payload_buff, vlen).
       let kvsvalue = \<lparr>value_ptr = Some payload_buff, value_length = vlen, actual_value_size = 0, value_offset = 0\<rparr> in
       andThen (sync_io_to_meta_keyspace D list_key (Some kvsvalue) (META_STORE KVS_STORE_POST) d) (\<lambda>(ret, _, d').
         Returns (ret, d')))"

text \<open>
  \<open>_add_to_key_space_list\<close>; the id is an argument and a result. The name goes into the first
  entry that is not used.
\<close>

definition add_to_key_space_list ::
    "'d KvsDriver \<Rightarrow> (nat \<Rightarrow> byte list) \<Rightarrow> byte list \<Rightarrow> u8 \<Rightarrow> 'd \<Rightarrow> (kvs_result \<times> u8 \<times> 'd) call" where
  "add_to_key_space_list D fresh name keyspace_id d =
     andThen (retreive_key_space_list D fresh ks_list_zero d) (\<lambda>(ret, kslist, d1).
       if ret \<noteq> KVS_SUCCESS then Returns (ret, keyspace_id, d1)
       else if unat (ks_num kslist) \<ge> KS_MAX_CONT then Returns (KVS_ERR_SYS_IO, keyspace_id, d1)
       else if find_name name (take (unat (ks_num kslist)) (ks_entries kslist)) \<noteq> None
       then Returns (KVS_ERR_KS_EXIST, keyspace_id, d1)
       else if keyspace_id \<noteq> INVALID_USER_KEYSPACE_ID \<and> contain_keyspace kslist keyspace_id
       then Returns (KVS_ERR_SYS_IO, keyspace_id, d1)
       else
         let ks_id = (if keyspace_id = INVALID_USER_KEYSPACE_ID then search_an_avaliable_keyspace_id kslist else keyspace_id);
             n = unat (ks_num kslist);
             e = ks_entries kslist ! n;
             e' = \<lparr>names_buffer = snprintf_s (names_buffer e) (MAX_KEYSPACE_NAME_LEN + 1) name, le_keyspace_id = ks_id\<rparr>;
             kslist' = \<lparr>ks_num = ks_num kslist + 1, ks_entries = (ks_entries kslist)[n := e']\<rparr>
         in andThen (store_key_space_list D fresh kslist' d1) (\<lambda>(ret, d2).
              Returns (ret, if ret = KVS_SUCCESS then ks_id else keyspace_id, d2)))"

text \<open>\<open>_remove_from_key_space_list\<close>: the entries after the removed one move forward.\<close>

definition remove_from_key_space_list ::
    "'d KvsDriver \<Rightarrow> (nat \<Rightarrow> byte list) \<Rightarrow> byte list \<Rightarrow> u8 \<Rightarrow> 'd \<Rightarrow> (kvs_result \<times> u8 \<times> 'd) call" where
  "remove_from_key_space_list D fresh name keyspace_id d =
     andThen (retreive_key_space_list D fresh ks_list_zero d) (\<lambda>(ret, kslist, d1).
       if ret \<noteq> KVS_SUCCESS then Returns (ret, keyspace_id, d1)
       else
         let n = unat (ks_num kslist); used = take n (ks_entries kslist) in
         case find_name name used of
           None \<Rightarrow> Returns (KVS_ERR_KS_NOT_EXIST, keyspace_id, d1)
         | Some idx \<Rightarrow>
             let ks_id = le_keyspace_id (used ! idx);
                 es = take idx used @ drop (Suc idx) used @ drop (n - 1) (ks_entries kslist);
                 kslist' = \<lparr>ks_num = ks_num kslist - 1, ks_entries = es\<rparr>
             in andThen (store_key_space_list D fresh kslist' d1) (\<lambda>(ret, d2).
                  Returns (ret, if ret \<noteq> KVS_SUCCESS then INVALID_USER_KEYSPACE_ID else ks_id, d2)))"

text \<open>The initial metadata of the functions that read a record.\<close>

definition ks_metadata_zero :: ks_metadata where
  "ks_metadata_zero = \<lparr>md_keyspace_id = 0, md_opened = 0, md_key_order = 0, md_capacity = 0, md_free_size = 0, md_kv_count = 0\<rparr>"

definition open_key_space :: "'d KvsDriver \<Rightarrow> (nat \<Rightarrow> byte list) \<Rightarrow> byte list \<Rightarrow> 'd \<Rightarrow> (kvs_result \<times> u8 \<times> 'd) call" where
  "open_key_space D fresh name d =
     andThen (retrieve_key_space_metadata D fresh name ks_metadata_zero d) (\<lambda>(ret, cont, d1).
       if ret \<noteq> KVS_SUCCESS then Returns (ret, 0, d1)
       else andThen (store_key_space_metadata D fresh name (cont\<lparr>md_opened := 1\<rparr>) KVS_STORE_POST d1) (\<lambda>(ret, d2).
         Returns (ret, md_keyspace_id cont, d2)))"

datatype kvs_key_order = KVS_KEY_ORDER_NONE | KVS_KEY_ORDER_ASCEND | KVS_KEY_ORDER_DESCEND

fun key_order_code :: "kvs_key_order \<Rightarrow> u8" where
  "key_order_code KVS_KEY_ORDER_NONE = 0"
| "key_order_code KVS_KEY_ORDER_ASCEND = 1"
| "key_order_code KVS_KEY_ORDER_DESCEND = 2"

definition create_key_space_entry ::
    "'d KvsDriver \<Rightarrow> (nat \<Rightarrow> byte list) \<Rightarrow> byte list \<Rightarrow> u8 \<Rightarrow> u64 \<Rightarrow> kvs_key_order \<Rightarrow> 'd \<Rightarrow> (kvs_result \<times> 'd) call" where
  "create_key_space_entry D fresh name keyspace_id cap_size key_ordering d =
     store_key_space_metadata D fresh name
       \<lparr>md_keyspace_id = keyspace_id, md_opened = 0, md_key_order = key_order_code key_ordering, md_capacity = cap_size,
        md_free_size = 0, md_kv_count = 0\<rparr> KVS_STORE_NOOVERWRITE d"

definition delete_key_space_entry :: "'d KvsDriver \<Rightarrow> byte list \<Rightarrow> 'd \<Rightarrow> (kvs_result \<times> 'd) call" where
  "delete_key_space_entry D name d =
     andThen (sync_io_to_meta_keyspace D (name_key (word_of_nat (length name)) name) None (META_DELETE True) d)
       (\<lambda>(ret, _, d'). Returns (ret, d'))"

definition close_key_space :: "'d KvsDriver \<Rightarrow> (nat \<Rightarrow> byte list) \<Rightarrow> byte list \<Rightarrow> 'd \<Rightarrow> (kvs_result \<times> 'd) call" where
  "close_key_space D fresh name d =
     andThen (retrieve_key_space_metadata D fresh name ks_metadata_zero d) (\<lambda>(ret, ks_meta, d1).
       if ret \<noteq> KVS_SUCCESS then Returns (ret, d1)
       else store_key_space_metadata D fresh name (ks_meta\<lparr>md_opened := 0\<rparr>) KVS_STORE_POST d1)"

section \<open>Key spaces\<close>

text \<open>What \<open>kvs_create_key_space\<close>, \<open>kvs_delete_key_space\<close> and \<open>kvs_open_key_space\<close> do on the device.\<close>

definition create_on_device ::
    "'d KvsDriver \<Rightarrow> (nat \<Rightarrow> byte list) \<Rightarrow> byte list \<Rightarrow> u64 \<Rightarrow> kvs_key_order \<Rightarrow> 'd \<Rightarrow> (kvs_result \<times> 'd) call" where
  "create_on_device D fresh name sz key_ordering d =
     andThen (add_to_key_space_list D fresh name INVALID_USER_KEYSPACE_ID d) (\<lambda>(ret, keyspace_id, d1).
       if ret \<noteq> KVS_SUCCESS then Returns (ret, d1)
       else andThen (create_key_space_entry D fresh name keyspace_id sz key_ordering d1) (\<lambda>(ret, d2).
         if ret \<noteq> KVS_SUCCESS then
           andThen (remove_from_key_space_list D fresh name keyspace_id d2) (\<lambda>(_, _, d3). Returns (ret, d3))
         else Returns (ret, d2)))"

definition delete_on_device :: "'d KvsDriver \<Rightarrow> (nat \<Rightarrow> byte list) \<Rightarrow> byte list \<Rightarrow> 'd \<Rightarrow> (kvs_result \<times> 'd) call" where
  "delete_on_device D fresh name d =
     andThen (remove_from_key_space_list D fresh name INVALID_USER_KEYSPACE_ID d) (\<lambda>(ret, keyspace_id_removed, d1).
       if ret \<noteq> KVS_SUCCESS then Returns (ret, d1)
       else andThen (delete_key_space_entry D name d1) (\<lambda>(ret, d2).
         if ret \<noteq> KVS_SUCCESS then
           andThen (add_to_key_space_list D fresh name keyspace_id_removed d2) (\<lambda>(_, _, d3). Returns (ret, d3))
         else Returns (KVS_SUCCESS, d2)))"

definition open_on_device :: "'d KvsDriver \<Rightarrow> (nat \<Rightarrow> byte list) \<Rightarrow> byte list \<Rightarrow> 'd \<Rightarrow> ((kvs_result \<times> u8) \<times> 'd) call" where
  "open_on_device D fresh name d =
     andThen (exist_key_space_entry D name d) (\<lambda>(ret, ex, d1).
       if ret \<noteq> KVS_SUCCESS then Returns ((ret, 0), d1)
       else if ex = 0 then Returns ((KVS_ERR_KS_NOT_EXIST, 0), d1)
       else andThen (open_key_space D fresh (take MAX_CONT_PATH_LEN name) d1) (\<lambda>(ret, ksid, d2).
         Returns ((ret, ksid), d2)))"

record kvs_key_space_name =
  ksn_name_len :: u32
  ksn_name :: "byte list option"

text \<open>The two functions \<open>_key_space_opened\<close>, by name and by handle; the first one reads the handles.\<close>

definition ks_name_opened :: "nat \<Rightarrow> byte list \<Rightarrow> 'd g_env \<Rightarrow> bool option" where
  "ks_name_opened dev_hd name env =
     do { h \<leftarrow> device_handles env dev_hd;
          require (list_all (\<lambda>k. ks_handles env k \<noteq> None) (dvh_open_ks_hds h));
          Some (list_ex (\<lambda>k. kh_name (the (ks_handles env k)) = name) (dvh_open_ks_hds h)) }"

definition ks_opened :: "nat \<Rightarrow> 'd g_env \<Rightarrow> bool" where
  "ks_opened ks_hd env = (ks_hd \<in> set (ge_list_open_ks env))"

text \<open>
  \<open>_check_key_space_handle\<close>: the result, and the handle it may read. The device pointer of a
  handle is never null.
\<close>

definition check_key_space_handle :: "nat option \<Rightarrow> 'd g_env \<Rightarrow> (kvs_result \<times> kvs_key_space_handle option) call" where
  "check_key_space_handle ks_hd env =
     (case ks_hd of
        None \<Rightarrow> Returns (KVS_ERR_PARAM_INVALID, None)
      | Some k \<Rightarrow>
          if \<not> ks_opened k env then Returns (KVS_ERR_KS_NOT_OPEN, None)
          else case ks_handles env k of
            None \<Rightarrow> Undefined
          | Some h \<Rightarrow>
              if device_handles env (kh_dev h) = None then Undefined
              else if \<not> device_opened (kh_dev h) env then Returns (KVS_ERR_DEV_NOT_OPENED, None)
              else Returns (KVS_SUCCESS, Some h))"

definition kvs_create_key_space ::
    "'d KvsDriver \<Rightarrow> (nat \<Rightarrow> byte list) \<Rightarrow> nat option \<Rightarrow> kvs_key_space_name option \<Rightarrow> u64 \<Rightarrow> kvs_key_order \<Rightarrow>
     'd g_env \<Rightarrow> (kvs_result \<times> 'd g_env) call" where
  "kvs_create_key_space D fresh dev_hd key_space_name sz key_ordering env =
     (case (key_space_name, Option.bind key_space_name ksn_name, dev_hd) of
        (Some ksn, Some name, Some a) \<Rightarrow>
          (let name_len = word_of_nat (length name) in
           if name_len \<noteq> ksn_name_len ksn \<or> name_len = 0 \<or> unat name_len > MAX_KEYSPACE_NAME_LEN
           then Returns (KVS_ERR_KS_NAME, env)
           else if \<not> device_opened a env then Returns (KVS_ERR_DEV_NOT_EXIST, env)
           else if key_ordering \<noteq> KVS_KEY_ORDER_NONE then Returns (KVS_ERR_OPTION_INVALID, env)
           else on_driver a (create_on_device D fresh name sz key_ordering) env)
      | _ \<Rightarrow> Returns (KVS_ERR_PARAM_INVALID, env))"

definition kvs_delete_key_space ::
    "'d KvsDriver \<Rightarrow> (nat \<Rightarrow> byte list) \<Rightarrow> nat option \<Rightarrow> kvs_key_space_name option \<Rightarrow> 'd g_env \<Rightarrow> (kvs_result \<times> 'd g_env) call" where
  "kvs_delete_key_space D fresh dev_hd key_space_name env =
     (case (dev_hd, Option.bind key_space_name ksn_name) of
        (Some a, Some name) \<Rightarrow>
          if \<not> device_opened a env then Returns (KVS_ERR_DEV_NOT_EXIST, env)
          else andThen (defined (ks_name_opened a name env)) (\<lambda>opened.
            if opened then Returns (KVS_ERR_SYS_IO, env)
            else on_driver a (delete_on_device D fresh name) env)
      | _ \<Rightarrow> Returns (KVS_ERR_PARAM_INVALID, env))"

text \<open>
  The loop of \<open>kvs_list_key_spaces\<close> over the names: \<open>names\<close> are the arrays of the caller. A name is
  written into the array with the index of its entry. The size \<open>name_len + 1\<close> given to \<open>snprintf\<close> is
  computed in 32 bits; when it wraps to 0, nothing is written.
\<close>

fun list_names :: "nat \<Rightarrow> nat \<Rightarrow> u32 \<Rightarrow> ks_list_entry list \<Rightarrow> kvs_key_space_name list \<Rightarrow> u32 \<Rightarrow>
    (kvs_result \<times> kvs_key_space_name list \<times> u32) option" where
  "list_names 0 idx items_buff_cnt es names ks_cnt = Some (KVS_SUCCESS, names, ks_cnt)"
| "list_names (Suc n) idx items_buff_cnt es names ks_cnt =
     (if ks_cnt \<ge> items_buff_cnt then Some (if items_buff_cnt = 0 then KVS_ERR_SYS_IO else KVS_SUCCESS, names, ks_cnt)
      else do { require (idx < length es \<and> idx < length names);
                let s = cstr (names_buffer (es ! idx));
                let nm = names ! idx;
                if length s > unat (ksn_name_len nm) then Some (KVS_ERR_SYS_IO, names, ks_cnt)
                else do { let n_buf = unat (ksn_name_len nm + 1);
                          name' \<leftarrow> (if n_buf = 0 then Some (ksn_name nm)
                                    else do { buf \<leftarrow> ksn_name nm;
                                              require (length s < length buf);
                                              Some (Some (snprintf_s buf n_buf s)) });
                          list_names n (Suc idx) items_buff_cnt es
                            (names[idx := \<lparr>ksn_name_len = word_of_nat (length s), ksn_name = name'\<rparr>])
                            (ks_cnt + 1) } })"

abbreviation (input) "sizeof_key_space_name \<equiv> (16 :: u32)"

definition kvs_list_key_spaces ::
    "'d KvsDriver \<Rightarrow> (nat \<Rightarrow> byte list) \<Rightarrow> nat option \<Rightarrow> u32 \<Rightarrow> u32 \<Rightarrow> kvs_key_space_name list option \<Rightarrow> u32 option \<Rightarrow>
     'd g_env \<Rightarrow> (kvs_result \<times> kvs_key_space_name list option \<times> u32 option \<times> 'd g_env) call" where
  "kvs_list_key_spaces D fresh dev_hd index buffer_size names ks_cnt env =
     (case (dev_hd, names, ks_cnt) of
        (Some a, Some ns, Some _) \<Rightarrow>
          if unat index < 1 \<or> unat index > KS_MAX_CONT then Returns (KVS_ERR_KS_INDEX, names, ks_cnt, env)
          else if \<not> device_opened a env then Returns (KVS_ERR_DEV_NOT_EXIST, names, ks_cnt, env)
          else andThen (on_driver a (\<lambda>d. andThen (retreive_key_space_list D fresh ks_list_zero d)
                          (\<lambda>(ret, l, d'). Returns ((ret, l), d'))) env) (\<lambda>((ret, kslist), env').
            if ret \<noteq> KVS_SUCCESS then Returns (ret, names, Some 0, env')
            else if unat index > unat (ks_num kslist) \<and> ks_num kslist \<noteq> 0
            then Returns (KVS_ERR_KS_INDEX, names, Some 0, env')
            else andThen (defined (list_names (unat (ks_num kslist) - (unat index - 1)) (unat index - 1)
                   (buffer_size div sizeof_key_space_name) (ks_entries kslist) ns 0)) (\<lambda>(r, ns', cnt).
                 Returns (r, Some ns', Some cnt, env')))
      | _ \<Rightarrow> Returns (KVS_ERR_PARAM_INVALID, names, ks_cnt, env))"

text \<open>\<open>kvs_open_key_space\<close>: the result, the handle if one is stored, and the environment.\<close>

definition kvs_open_key_space ::
    "'d KvsDriver \<Rightarrow> (nat \<Rightarrow> byte list) \<Rightarrow> nat option \<Rightarrow> byte list option \<Rightarrow> bool \<Rightarrow> 'd g_env \<Rightarrow>
     (kvs_result \<times> nat option \<times> 'd g_env) call" where
  "kvs_open_key_space D fresh dev_hd name ks_hd env =
     (case (dev_hd, name) of
        (Some a, Some nm) \<Rightarrow>
          if \<not> ks_hd then Returns (KVS_ERR_PARAM_INVALID, None, env)
          else if nm = [] then Returns (KVS_ERR_KS_NAME, None, env)
          else
            let ks_name_len = (word_of_nat (length nm) :: u16) in
            if unat ks_name_len < KVS_MIN_KEY_LENGTH \<or> unat ks_name_len > KVS_MAX_KEY_LENGTH
            then Returns (KVS_ERR_KS_NAME, None, env)
            else if \<not> device_opened a env then Returns (KVS_ERR_DEV_NOT_EXIST, None, env)
            else andThen (defined (ks_name_opened a nm env)) (\<lambda>opened.
              if opened then Returns (KVS_ERR_KS_OPEN, None, env)
              else andThen (on_driver a (open_on_device D fresh nm) env) (\<lambda>((ret, ksid), env1).
                if ret \<noteq> KVS_SUCCESS then Returns (ret, None, env1)
                else
                  let k = next_handle env1 in
                  Returns (KVS_SUCCESS, Some k,
                    env1\<lparr>ks_handles := (ks_handles env1)(k \<mapsto> \<lparr>kh_keyspace_id = ksid, kh_dev = a, kh_name = take MAX_CONT_PATH_LEN nm\<rparr>),
                         device_handles := (device_handles env1)(a := map_option
                           (\<lambda>h. h\<lparr>dvh_open_ks_hds := dvh_open_ks_hds h @ [k]\<rparr>) (device_handles env1 a)),
                         ge_list_open_ks := ge_list_open_ks env1 @ [k], next_handle := Suc k\<rparr>)))
      | _ \<Rightarrow> Returns (KVS_ERR_PARAM_INVALID, None, env))"

definition kvs_close_key_space ::
    "'d KvsDriver \<Rightarrow> (nat \<Rightarrow> byte list) \<Rightarrow> nat option \<Rightarrow> 'd g_env \<Rightarrow> (kvs_result \<times> 'd g_env) call" where
  "kvs_close_key_space D fresh ks_hd env =
     andThen (check_key_space_handle ks_hd env) (\<lambda>(ret, handle).
       case (ks_hd, handle) of
         (Some k, Some h) \<Rightarrow>
           andThen (on_driver (kh_dev h) (close_key_space D fresh (kh_name h)) env) (\<lambda>(ret, env1).
             if ret \<noteq> KVS_SUCCESS then Returns (ret, env1)
             else Returns (ret,
               env1\<lparr>device_handles := (device_handles env1)(kh_dev h := map_option
                       (\<lambda>dh. dh\<lparr>dvh_open_ks_hds := removeAll k (dvh_open_ks_hds dh)\<rparr>) (device_handles env1 (kh_dev h))),
                    ge_list_open_ks := removeAll k (ge_list_open_ks env1),
                    ks_handles := (ks_handles env1)(k := None)\<rparr>))
       | _ \<Rightarrow> Returns (ret, env))"

definition kvs_delete_key_group :: kvs_result where
  "kvs_delete_key_group = KVS_ERR_SYS_IO"

definition kvs_delete_key_group_async :: kvs_result where
  "kvs_delete_key_group_async = KVS_ERR_SYS_IO"

record kvs_key_space =
  ks_is_opened :: bool
  ks_capacity :: u64
  ks_free_size :: u64
  ks_count :: u64
  ks_name :: "byte list"

definition kvs_get_key_space_info ::
    "'d KvsDriver \<Rightarrow> (nat \<Rightarrow> byte list) \<Rightarrow> nat option \<Rightarrow> bool \<Rightarrow> 'd g_env \<Rightarrow> (kvs_result \<times> kvs_key_space option \<times> 'd g_env) call" where
  "kvs_get_key_space_info D fresh ks_hd ks env =
     (if \<not> ks then Returns (KVS_ERR_PARAM_INVALID, None, env)
      else andThen (check_key_space_handle ks_hd env) (\<lambda>(ret, handle).
        case handle of
          None \<Rightarrow> Returns (ret, None, env)
        | Some h \<Rightarrow>
            andThen (on_driver (kh_dev h) (\<lambda>d. andThen (retrieve_key_space_metadata D fresh (kh_name h) ks_metadata_zero d)
               (\<lambda>(ret, m, d'). Returns ((ret, m), d'))) env) (\<lambda>((ret, m), env').
              if ret \<noteq> KVS_SUCCESS then Returns (ret, None, env')
              else Returns (ret, Some \<lparr>ks_is_opened = (md_opened m \<noteq> 0), ks_capacity = md_capacity m, ks_free_size = md_free_size m,
                                       ks_count = md_kv_count m, ks_name = take MAX_CONT_PATH_LEN (kh_name h)\<rparr>, env'))))"

section \<open>Key-value pairs\<close>

text \<open>
  A call on the driver of an open key space: what the handle check returns, and otherwise the
  call with the id of the key space. The answer \<open>unset\<close> stands for results that are not stored.
\<close>

definition on_key_space ::
    "nat option \<Rightarrow> 'r \<Rightarrow> (u8 \<Rightarrow> 'd \<Rightarrow> (kvs_result \<times> 'r \<times> 'd) call) \<Rightarrow> 'd g_env \<Rightarrow> (kvs_result \<times> 'r \<times> 'd g_env) call" where
  "on_key_space ks_hd unset f env =
     andThen (check_key_space_handle ks_hd env) (\<lambda>(ret, handle).
       case handle of
         None \<Rightarrow> Returns (ret, unset, env)
       | Some h \<Rightarrow>
           andThen (on_driver (kh_dev h) (\<lambda>d. andThen (f (kh_keyspace_id h) d) (\<lambda>(r, x, d'). Returns ((r, x), d'))) env)
             (\<lambda>((r, x), env'). Returns (r, x, env')))"

definition store_kvp ::
    "'d KvsDriver \<Rightarrow> bool \<Rightarrow> nat option \<Rightarrow> kv_key option \<Rightarrow> kv_value option \<Rightarrow> kvs_store_type option \<Rightarrow> bool \<Rightarrow> 'd g_env \<Rightarrow>
     (kvs_result \<times> unit \<times> 'd g_env) call" where
  "store_kvp D syncio ks_hd key val opt cbfn env =
     on_key_space ks_hd () (\<lambda>ksid d.
       case (key, val, opt) of
         (Some _, Some _, Some st) \<Rightarrow>
           if \<not> syncio \<and> \<not> cbfn then Returns (KVS_ERR_PARAM_INVALID, (), d)
           else if validate_request key val \<noteq> KVS_SUCCESS then Returns (validate_request key val, (), d)
           else andThen (store_tuple D ksid key val st syncio d) (\<lambda>(r, d'). Returns (r, (), d'))
       | _ \<Rightarrow> Returns (KVS_ERR_PARAM_INVALID, (), d)) env"

definition kvs_store_kvp ::
    "'d KvsDriver \<Rightarrow> nat option \<Rightarrow> kv_key option \<Rightarrow> kv_value option \<Rightarrow> kvs_store_type option \<Rightarrow> 'd g_env \<Rightarrow>
     (kvs_result \<times> unit \<times> 'd g_env) call" where
  "kvs_store_kvp D ks_hd key val opt env = store_kvp D True ks_hd key val opt False env"

definition kvs_store_kvp_async ::
    "'d KvsDriver \<Rightarrow> nat option \<Rightarrow> kv_key option \<Rightarrow> kv_value option \<Rightarrow> kvs_store_type option \<Rightarrow> bool \<Rightarrow> 'd g_env \<Rightarrow>
     (kvs_result \<times> unit \<times> 'd g_env) call" where
  "kvs_store_kvp_async D ks_hd key val opt cbfn env = store_kvp D False ks_hd key val opt cbfn env"

text \<open>The length of the buffer of a retrieve must be a multiple of 4.\<close>

definition retrieve_kvp ::
    "'d KvsDriver \<Rightarrow> bool \<Rightarrow> nat option \<Rightarrow> kv_key option \<Rightarrow> bool option \<Rightarrow> kv_value option \<Rightarrow> bool \<Rightarrow> 'd g_env \<Rightarrow>
     (kvs_result \<times> kv_value option \<times> 'd g_env) call" where
  "retrieve_kvp D syncio ks_hd key opt val cbfn env =
     on_key_space ks_hd val (\<lambda>ksid d.
       case (key, val, opt) of
         (Some _, Some v, Some del) \<Rightarrow>
           if \<not> syncio \<and> \<not> cbfn then Returns (KVS_ERR_PARAM_INVALID, val, d)
           else if validate_request key val \<noteq> KVS_SUCCESS then Returns (validate_request key val, val, d)
           else if value_length v AND (4 - 1) \<noteq> 0 then Returns (KVS_ERR_PARAM_INVALID, val, d)
           else retrieve_tuple D ksid key val del syncio d
       | _ \<Rightarrow> Returns (KVS_ERR_PARAM_INVALID, val, d)) env"

definition kvs_retrieve_kvp ::
    "'d KvsDriver \<Rightarrow> nat option \<Rightarrow> kv_key option \<Rightarrow> bool option \<Rightarrow> kv_value option \<Rightarrow> 'd g_env \<Rightarrow>
     (kvs_result \<times> kv_value option \<times> 'd g_env) call" where
  "kvs_retrieve_kvp D ks_hd key opt val env = retrieve_kvp D True ks_hd key opt val False env"

definition kvs_retrieve_kvp_async ::
    "'d KvsDriver \<Rightarrow> nat option \<Rightarrow> kv_key option \<Rightarrow> bool option \<Rightarrow> kv_value option \<Rightarrow> bool \<Rightarrow> 'd g_env \<Rightarrow>
     (kvs_result \<times> kv_value option \<times> 'd g_env) call" where
  "kvs_retrieve_kvp_async D ks_hd key opt val cbfn env = retrieve_kvp D False ks_hd key opt val cbfn env"

definition delete_kvp ::
    "'d KvsDriver \<Rightarrow> bool \<Rightarrow> nat option \<Rightarrow> kv_key option \<Rightarrow> bool option \<Rightarrow> bool \<Rightarrow> 'd g_env \<Rightarrow>
     (kvs_result \<times> unit \<times> 'd g_env) call" where
  "delete_kvp D syncio ks_hd key opt cbfn env =
     on_key_space ks_hd () (\<lambda>ksid d.
       case (key, opt) of
         (Some _, Some err) \<Rightarrow>
           if \<not> syncio \<and> \<not> cbfn then Returns (KVS_ERR_PARAM_INVALID, (), d)
           else if validate_request key None \<noteq> KVS_SUCCESS then Returns (validate_request key None, (), d)
           else andThen (delete_tuple D ksid key err syncio d) (\<lambda>(r, d'). Returns (r, (), d'))
       | _ \<Rightarrow> Returns (KVS_ERR_PARAM_INVALID, (), d)) env"

definition kvs_delete_kvp ::
    "'d KvsDriver \<Rightarrow> nat option \<Rightarrow> kv_key option \<Rightarrow> bool option \<Rightarrow> 'd g_env \<Rightarrow> (kvs_result \<times> unit \<times> 'd g_env) call" where
  "kvs_delete_kvp D ks_hd key opt env = delete_kvp D True ks_hd key opt False env"

definition kvs_delete_kvp_async ::
    "'d KvsDriver \<Rightarrow> nat option \<Rightarrow> kv_key option \<Rightarrow> bool option \<Rightarrow> bool \<Rightarrow> 'd g_env \<Rightarrow> (kvs_result \<times> unit \<times> 'd g_env) call" where
  "kvs_delete_kvp_async D ks_hd key opt cbfn env = delete_kvp D False ks_hd key opt cbfn env"

text \<open>
  The loop over the keys in \<open>kvs_exist_kv_pairs\<close> stops at the first key that is not valid and
  reads past an array that is too short.
\<close>

fun validate_key_list :: "nat \<Rightarrow> kv_key list \<Rightarrow> kvs_result option" where
  "validate_key_list 0 keys = Some KVS_SUCCESS"
| "validate_key_list (Suc n) [] = None"
| "validate_key_list (Suc n) (k # ks) =
     (if validate_kv_pair (Some k) None 0 \<noteq> KVS_SUCCESS then Some (validate_kv_pair (Some k) None 0)
      else validate_key_list n ks)"

definition exist_kv_pairs ::
    "'d KvsDriver \<Rightarrow> bool \<Rightarrow> nat option \<Rightarrow> u32 \<Rightarrow> kv_key list option \<Rightarrow> kvs_exist_list option \<Rightarrow> bool \<Rightarrow> 'd g_env \<Rightarrow>
     (kvs_result \<times> kvs_exist_list option \<times> 'd g_env) call" where
  "exist_kv_pairs D syncio ks_hd key_cnt keys l cbfn env =
     (case (keys, l) of
        (Some ks, Some el) \<Rightarrow>
          if key_cnt = 0 \<or> el_result_buffer el = None \<or> \<not> syncio \<and> \<not> cbfn then Returns (KVS_ERR_PARAM_INVALID, l, env)
          else andThen (defined (validate_key_list (unat key_cnt) ks)) (\<lambda>ret.
            if ret \<noteq> KVS_SUCCESS then Returns (ret, l, env)
            else
              let el1 = el\<lparr>el_keys := ks, el_num_keys := key_cnt\<rparr> in
              on_key_space ks_hd (Some el1) (\<lambda>ksid d.
                if el_length el1 = 0 then Returns (KVS_ERR_BUFFER_SMALL, Some el1, d)
                else andThen (exist_tuple D ksid key_cnt keys el1 syncio d) (\<lambda>(r, el2, d'). Returns (r, Some el2, d'))) env)
      | _ \<Rightarrow> Returns (KVS_ERR_PARAM_INVALID, l, env))"

definition kvs_exist_kv_pairs ::
    "'d KvsDriver \<Rightarrow> nat option \<Rightarrow> u32 \<Rightarrow> kv_key list option \<Rightarrow> kvs_exist_list option \<Rightarrow> 'd g_env \<Rightarrow>
     (kvs_result \<times> kvs_exist_list option \<times> 'd g_env) call" where
  "kvs_exist_kv_pairs D ks_hd key_cnt keys l env = exist_kv_pairs D True ks_hd key_cnt keys l False env"

definition kvs_exist_kv_pairs_async ::
    "'d KvsDriver \<Rightarrow> nat option \<Rightarrow> u32 \<Rightarrow> kv_key list option \<Rightarrow> kvs_exist_list option \<Rightarrow> bool \<Rightarrow> 'd g_env \<Rightarrow>
     (kvs_result \<times> kvs_exist_list option \<times> 'd g_env) call" where
  "kvs_exist_kv_pairs_async D ks_hd key_cnt keys l cbfn env = exist_kv_pairs D False ks_hd key_cnt keys l cbfn env"

record kvs_kvp_info =
  ki_key_len :: u16
  ki_key :: "byte list"
  ki_value_len :: u32

definition kvs_get_kvp_info ::
    "'d KvsDriver \<Rightarrow> (nat \<Rightarrow> byte list) \<Rightarrow> nat option \<Rightarrow> kv_key option \<Rightarrow> bool \<Rightarrow> 'd g_env \<Rightarrow>
     (kvs_result \<times> kvs_kvp_info option \<times> 'd g_env) call" where
  "kvs_get_kvp_info D fresh ks_hd key info env =
     andThen (check_key_space_handle ks_hd env) (\<lambda>(ret, handle).
       if ret \<noteq> KVS_SUCCESS then Returns (ret, None, env)
       else case key of
         None \<Rightarrow> Returns (KVS_ERR_PARAM_INVALID, None, env)
       | Some k \<Rightarrow>
           if \<not> info then Returns (KVS_ERR_PARAM_INVALID, None, env)
           else
             let vlen = word_of_nat KVS_MAX_VALUE_LENGTH;
                 kvsvalue = \<lparr>value_ptr = Some (fresh (unat vlen)), value_length = vlen, actual_value_size = 0, value_offset = 0\<rparr>
             in andThen (kvs_retrieve_kvp D ks_hd key (Some False) (Some kvsvalue) env) (\<lambda>(ret, v, env').
                  if ret \<noteq> KVS_SUCCESS then Returns (ret, None, env')
                  else andThen (defined v) (\<lambda>w.
                    Returns (ret, Some \<lparr>ki_key_len = key_length k, ki_key = key_bytes k, ki_value_len = actual_value_size w\<rparr>, env'))))"

section \<open>Iterators\<close>

definition kvs_create_iterator ::
    "'d KvsDriver \<Rightarrow> nat option \<Rightarrow> kvs_iterator_type option \<Rightarrow> kvs_key_group_filter option \<Rightarrow> u8 option \<Rightarrow> 'd g_env \<Rightarrow>
     (kvs_result \<times> u8 option \<times> 'd g_env) call" where
  "kvs_create_iterator D ks_hd iter_op iter_fltr iter_hd env =
     on_key_space ks_hd iter_hd (\<lambda>ksid d.
       case (iter_op, iter_fltr, iter_hd) of
         (Some ty, Some fltr, Some i) \<Rightarrow>
           (case filter2context fltr of (bitmask, bit_pattern) \<Rightarrow>
              if \<not> is_valid_bitmask bitmask then Returns (KVS_ERR_ITERATOR_FILTER_INVALID, iter_hd, d)
              else andThen (create_iterator D ksid ty bitmask bit_pattern i d) (\<lambda>(r, i', d'). Returns (r, Some i', d')))
       | _ \<Rightarrow> Returns (KVS_ERR_PARAM_INVALID, iter_hd, d)) env"

definition kvs_delete_iterator ::
    "'d KvsDriver \<Rightarrow> nat option \<Rightarrow> u8 \<Rightarrow> 'd g_env \<Rightarrow> (kvs_result \<times> unit \<times> 'd g_env) call" where
  "kvs_delete_iterator D ks_hd iter_hd env =
     on_key_space ks_hd () (\<lambda>ksid d. andThen (delete_iterator D iter_hd d) (\<lambda>(r, d'). Returns (r, (), d'))) env"

text \<open>\<open>buffer\<close> says whether the list has a buffer.\<close>

definition iterate_next ::
    "'d KvsDriver \<Rightarrow> bool \<Rightarrow> nat option \<Rightarrow> u8 \<Rightarrow> kv_iterator_list option \<Rightarrow> bool \<Rightarrow> bool \<Rightarrow> 'd g_env \<Rightarrow>
     (kvs_result \<times> kv_iterator_list option \<times> 'd g_env) call" where
  "iterate_next D syncio ks_hd iter_hd iter_list buffer cbfn env =
     (case iter_list of
        None \<Rightarrow> Returns (KVS_ERR_PARAM_INVALID, iter_list, env)
      | Some l \<Rightarrow>
          if \<not> buffer \<or> \<not> syncio \<and> \<not> cbfn then Returns (KVS_ERR_PARAM_INVALID, iter_list, env)
          else on_key_space ks_hd iter_list (\<lambda>ksid d.
            if list_size l \<noteq> 32 * 1024 then Returns (KVS_ERR_SYS_IO, iter_list, d)
            else iterator_next D iter_hd iter_list syncio d) env)"

definition kvs_iterate_next ::
    "'d KvsDriver \<Rightarrow> nat option \<Rightarrow> u8 \<Rightarrow> kv_iterator_list option \<Rightarrow> bool \<Rightarrow> 'd g_env \<Rightarrow>
     (kvs_result \<times> kv_iterator_list option \<times> 'd g_env) call" where
  "kvs_iterate_next D ks_hd iter_hd iter_list buffer env = iterate_next D True ks_hd iter_hd iter_list buffer False env"

definition kvs_iterate_next_async ::
    "'d KvsDriver \<Rightarrow> nat option \<Rightarrow> u8 \<Rightarrow> kv_iterator_list option \<Rightarrow> bool \<Rightarrow> bool \<Rightarrow> 'd g_env \<Rightarrow>
     (kvs_result \<times> kv_iterator_list option \<times> 'd g_env) call" where
  "kvs_iterate_next_async D ks_hd iter_hd iter_list buffer cbfn env = iterate_next D False ks_hd iter_hd iter_list buffer cbfn env"

end
