(* ===== verification/Kv_Driver_Correct.thy ===== *)
theory Kv_Driver_Correct
  imports Kv_Driver_Api
begin

text \<open>
  The emulator driver keeps the contract of a key-value driver: on an idle device every
  synchronous call returns, with the result the specification gives, converted to the codes of
  the KV API. The contract is the locale \<open>kvs_driver_api\<close>; the frontend rests on it.
\<close>

section \<open>An idle device\<close>

definition idle :: "('b \<Rightarrow> io_cmd list) \<Rightarrow> ('b \<Rightarrow> nat) \<Rightarrow> 'b emul_ioqueue \<Rightarrow> bool" where
  "idle content capacity q \<longleftrightarrow>
     q_ok content capacity q \<and> \<not> q_shutdown q \<and> content (q_buf q) = [] \<and> 0 < capacity (q_buf q)"

text \<open>
  The submission queue object \<open>a\<close> and the completion queue object \<open>b\<close> of an idle device; \<open>i\<close>
  says whether the completion queue has an interrupt handler.
\<close>

definition quiet :: "('b \<Rightarrow> io_cmd list) \<Rightarrow> ('b \<Rightarrow> nat) \<Rightarrow> bool \<Rightarrow> nat \<Rightarrow> nat \<Rightarrow> 'b kv_device_internal \<Rightarrow> bool" where
  "quiet content capacity i a b dev \<longleftrightarrow>
     a \<noteq> b \<and>
     (\<exists>sq. io_objects dev a = Some sq \<and> queue_type (que_info sq) = SUBMISSION_Q_TYPE
        \<and> idle content capacity (io_que sq) \<and> io_out sq = Some b) \<and>
     (\<exists>cq. io_objects dev b = Some cq \<and> idle content capacity (io_que cq) \<and> io_interrupt cq = i) \<and>
     (\<exists>ns. get_namespace dev KV_NAMESPACE_DEFAULT = Some ns \<and> ns_ready ns)"

definition dev_contents :: "'b kv_device_internal \<Rightarrow> kv_contents" where
  "dev_contents dev = (case get_namespace dev KV_NAMESPACE_DEFAULT of Some ns \<Rightarrow> ns_contents ns | None \<Rightarrow> contents_empty)"

lemma idle_roundtrip:
  assumes B: "circular_buffer_laws B content capacity" and i: "idle content capacity q"
  shows "\<exists>q1 q2. enqueue B cmd block q = Some (KV_SUCCESS, q1)
    \<and> (\<forall>block' t to. dequeue B block' t to q1 = Some (KV_SUCCESS, Some cmd, q2))
    \<and> idle content capacity q2 \<and> q_info q1 = q_info q \<and> q_info q2 = q_info q"
proof -
  have ok: "q_ok content capacity q" "content (q_buf q) = []" "0 < capacity (q_buf q)" "\<not> q_shutdown q"
    using i by (auto simp: idle_def)
  obtain q1 where q1: "enqueue B cmd block q = Some (KV_SUCCESS, q1)"
    using enqueue_room [OF B ok(1)] ok(2,3) by fastforce
  note e = enqueue_success [OF B ok(1) q1]
  have s1: "\<not> q_shutdown q1" using q1 ok(4) by (auto simp: enqueue_def enqueue_loop_def split: if_splits)
  obtain q2 where q2: "dequeue B True 0 False q1 = Some (KV_SUCCESS, Some cmd, q2)"
    using dequeue_nonempty [OF B e(2)] e(1) ok(2) by fastforce
  note d = dequeue_success [OF B e(2) q2]
  have s2: "\<not> q_shutdown q2" using q2 s1 by (auto simp: dequeue_def split: if_splits)
  have "dequeue B block' t to q1 = Some (KV_SUCCESS, Some cmd, q2)" for block' t to
    using q2 e(1) s1 by (auto simp: dequeue_def cb_law_empty [OF B])
  moreover have "idle content capacity q2"
    using d e(1,3) ok(2,3) s2 by (simp add: idle_def)
  ultimately show ?thesis using q1 e(4) d(4) by auto
qed

lemma get_namespace_map:
  "get_namespace (dev\<lparr>m_ns_list := map (\<lambda>(i, n). (i, if i = k then f i n else n)) (m_ns_list dev)\<rparr>) k
     = map_option (f k) (get_namespace dev k)"
proof -
  have "map_of (map (\<lambda>(i, n). (i, if i = k then f i n else n)) l) k = map_option (f k) (map_of l k)" for l
    by (induction l) auto
  then show ?thesis by (simp add: get_namespace_def)
qed

text \<open>A command that is submitted to an idle device and can be executed comes back executed.\<close>

lemma submit_executes:
  assumes B: "circular_buffer_laws B content capacity" and q: "quiet content capacity i a b dev"
    and h: "qh_queue h = Some a" and ns: "get_namespace dev KV_NAMESPACE_DEFAULT = Some ns"
    and ex: "\<And>s. \<exists>cmd1. execute_cmd \<lparr>ioctx = f c0, cmd_sqid = s\<rparr> ns = Some (cmd1, ns1) \<and> P (ioctx cmd1)" and rdy: "ns_ready ns1"
  shows "\<exists>dev1 cmd dev2. submit_cmd B h c0 f dev = Returns (KV_SUCCESS, dev1)
    \<and> complete_cmd B polled a dev1 = (if polled \<or> i then Returns (cmd, dev2) else Waits) \<and> quiet content capacity i a b dev2
    \<and> m_ioque_list dev2 = m_ioque_list dev \<and> m_sq_to_cq_pairs dev2 = m_sq_to_cq_pairs dev
    \<and> P (ioctx cmd) \<and> ctx_opcode (ioctx cmd) = ctx_opcode (f c0) \<and> dev_contents dev2 = ns_contents ns1"
proof -
  obtain sq cq where sq: "io_objects dev a = Some sq" "queue_type (que_info sq) = SUBMISSION_Q_TYPE"
      "idle content capacity (io_que sq)" "io_out sq = Some b"
    and cq: "io_objects dev b = Some cq" "idle content capacity (io_que cq)" "io_interrupt cq = i" and ab: "a \<noteq> b"
    using q unfolding quiet_def by blast
  let ?cmd = "\<lparr>ioctx = f c0, cmd_sqid = queue_id (que_info sq)\<rparr>"
  obtain s1 s2 where s: "enqueue B ?cmd True (io_que sq) = Some (KV_SUCCESS, s1)"
      "dequeue B True 0 False s1 = Some (KV_SUCCESS, Some ?cmd, s2)" "idle content capacity s2" "q_info s2 = que_info sq"
    using idle_roundtrip [OF B sq(3), of ?cmd True] by blast
  obtain cmd1 where e: "execute_cmd ?cmd ns = Some (cmd1, ns1)" and P: "P (ioctx cmd1)" using ex by blast
  obtain c1 c2 where c: "enqueue B cmd1 True (io_que cq) = Some (KV_SUCCESS, c1)"
      "\<And>block. dequeue B block 0 False c1 = Some (KV_SUCCESS, Some cmd1, c2)" "idle content capacity c2"
    using idle_roundtrip [OF B cq(2), of cmd1 True] by blast
  let ?d1 = "dev\<lparr>io_objects := (io_objects dev)(a \<mapsto> sq\<lparr>io_que := s1\<rparr>)\<rparr>"
  let ?m = "map (\<lambda>(i, n). (i, if i = KV_NAMESPACE_DEFAULT then ns1 else n)) (m_ns_list dev)"
  let ?d2 = "dev\<lparr>io_objects := (io_objects dev)(a \<mapsto> sq\<lparr>io_que := s2\<rparr>, b \<mapsto> cq\<lparr>io_que := c2\<rparr>), m_ns_list := ?m\<rparr>"
  have sub: "submit_cmd B h c0 f dev = Returns (KV_SUCCESS, ?d1)"
    using s(1) by (simp add: submit_cmd_def io_cmd_new_def submit_io_def h sq)
  have g: "get_namespace ?d1 KV_NAMESPACE_DEFAULT = Some ns" using ns by (simp add: get_namespace_def)
  have com: "complete_cmd B polled a ?d1 = (if polled \<or> i then Returns (cmd1, ?d2) else Waits)"
    using s(2) e c(1,2) ab cq(1,3) sq(4) g by (simp add: complete_cmd_def Let_def fun_upd_twist)
  have g2: "get_namespace ?d2 KV_NAMESPACE_DEFAULT = Some ns1"
    using get_namespace_map [where dev = dev and k = KV_NAMESPACE_DEFAULT and f = "\<lambda>_ _. ns1"] ns
    by (simp add: get_namespace_def)
  have "quiet content capacity i a b ?d2"
    using ab s(3,4) c(3) sq(2,4) cq(3) g2 rdy by (simp add: quiet_def)
  moreover have "dev_contents ?d2 = ns_contents ns1" using g2 by (simp add: dev_contents_def)
  moreover have "ctx_opcode (ioctx cmd1) = ctx_opcode (f c0)" using execute_cmd_frame [OF e] by simp
  moreover have "m_ioque_list ?d2 = m_ioque_list dev" "m_sq_to_cq_pairs ?d2 = m_sq_to_cq_pairs dev" by simp_all
  ultimately show ?thesis using sub com P by blast
qed

lemma submit_complete:
  assumes B: "circular_buffer_laws B content capacity" and q: "quiet content capacity True a b dev"
    and h: "qh_queue h = Some a" and rq: "request_ok rq"
  shows "\<exists>dev1 cmd dev2. submit_cmd B h c0 (\<lambda>_. request_ctx rq c) dev = Returns (KV_SUCCESS, dev1)
    \<and> complete_cmd B polled a dev1 = Returns (cmd, dev2) \<and> quiet content capacity True a b dev2
    \<and> m_ioque_list dev2 = m_ioque_list dev \<and> m_sq_to_cq_pairs dev2 = m_sq_to_cq_pairs dev
    \<and> ctx_reply (ioctx cmd) = Some (fst (spec_step rq (dev_contents dev)))
    \<and> ctx_opcode (ioctx cmd) = ctx_opcode (request_ctx rq c)
    \<and> dev_contents dev2 = snd (spec_step rq (dev_contents dev))"
proof -
  obtain ns where ns: "get_namespace dev KV_NAMESPACE_DEFAULT = Some ns" "ns_ready ns"
    using q unfolding quiet_def by blast
  then have C: "dev_contents dev = ns_contents ns" by (simp add: dev_contents_def)
  obtain ns1 where n1: "ns_step rq ns = Some (fst (spec_step rq (ns_contents ns)), ns1)" "ns_ready ns1"
    "ns_contents ns1 = snd (spec_step rq (ns_contents ns))"
    using nspace.step_refines [OF ns(2) rq] by blast
  have "\<exists>cmd1. execute_cmd \<lparr>ioctx = (\<lambda>_. request_ctx rq c) c0, cmd_sqid = s\<rparr> ns = Some (cmd1, ns1)
      \<and> ctx_reply (ioctx cmd1) = Some (fst (spec_step rq (ns_contents ns)))" for s
    using execute_request [of "\<lparr>ioctx = request_ctx rq c, cmd_sqid = s\<rparr>" rq c ns] n1(1) by auto
  from submit_executes [where P = "\<lambda>x. ctx_reply x = Some (fst (spec_step rq (ns_contents ns)))"
      and f = "\<lambda>_. request_ctx rq c" and ?c0.0 = c0,
      OF B q h ns(1) this n1(2), of polled]
  show ?thesis unfolding n1(3) C by simp
qed

text \<open>The requests the device library accepts.\<close>

fun request_accepted :: "kv_request \<Rightarrow> bool" where
  "request_accepted (ReqStore ks k v opt) \<longleftrightarrow> validate_key_value k (Some v) = KV_SUCCESS \<and> \<not> ks_id_invalid ks"
| "request_accepted (ReqRetrieve ks k v opt) \<longleftrightarrow> validate_key_value k (Some v) = KV_SUCCESS \<and> \<not> ks_id_invalid ks"
| "request_accepted (ReqExist ks keys cnt buf bsize) \<longleftrightarrow>
     validate_keys (unat cnt) keys = Some KV_SUCCESS \<and> \<not> ks_id_invalid ks"
| "request_accepted (ReqDelete ks k opt) \<longleftrightarrow> validate_key_value k None = KV_SUCCESS \<and> \<not> ks_id_invalid ks"
| "request_accepted (ReqPurge ks opt) \<longleftrightarrow> opt \<noteq> KV_PURGE_OPT_OTHER \<and> \<not> ks_id_invalid ks"

lemma submit_cmd_fill: "submit_cmd B h c0 f dev = submit_cmd B h c0 (\<lambda>_. f c0) dev"
  by (auto simp: submit_cmd_def io_cmd_new_def split: option.splits bind_splits)

lemma adi_request_accepted:
  assumes "request_accepted rq" and "qh_dev h \<noteq> None" and "qh_queue h \<noteq> None" and "nh_ns n \<noteq> None"
  shows "\<exists>c. adi_request B (Some h) (Some n) p c0 rq dev = submit_cmd B h c0 (\<lambda>_. request_ctx rq c) dev"
proof -
  let ?c = "(set_post p c0)\<lparr>ctx_timeout_usec := 0\<rparr>"
  have "\<exists>f. adi_request B (Some h) (Some n) p c0 rq dev = submit_cmd B h c0 f dev \<and> f c0 = request_ctx rq ?c"
    using assms by (cases rq) (auto simp: call_defs set_post_def split: option.splits)
  then obtain f where "adi_request B (Some h) (Some n) p c0 rq dev = submit_cmd B h c0 f dev" "f c0 = request_ctx rq ?c"
    by blast
  then show ?thesis using submit_cmd_fill [of B h c0 f dev] by auto
qed

lemma accepted_ok: "request_accepted rq \<Longrightarrow> request_readable rq \<Longrightarrow> request_ok rq"
  by (cases rq) (auto dest: validate_key_ok validate_keys_ok)

section \<open>The driver\<close>

text \<open>The tables of the device for its two queues, the submission queue \<open>h\<close> and the completion queue \<open>c\<close>.\<close>

definition queue_tables :: "kv_queue_handle \<Rightarrow> kv_queue_handle \<Rightarrow> nat \<Rightarrow> nat \<Rightarrow> 'b kv_device_internal \<Rightarrow> bool" where
  "queue_tables h c a b dev \<longleftrightarrow> qh_qid h \<noteq> qh_qid c \<and> m_ioque_list dev = [(qh_qid h, a), (qh_qid c, b)]
     \<and> m_sq_to_cq_pairs dev = [(qh_qid h, qh_qid c)]"

text \<open>An idle driver: its context pool is not empty, its handles name the two idle queues and the namespace of its device.\<close>

definition drv_ok :: "('b, io_cmd) circular_buffer \<Rightarrow> ('b \<Rightarrow> io_cmd list) \<Rightarrow> ('b \<Rightarrow> nat) \<Rightarrow> 'b KvEmulator \<Rightarrow> bool" where
  "drv_ok B content capacity d \<longleftrightarrow>
     circular_buffer_laws B content capacity \<and> 0 < kv_ctx_pool d \<and> devH d \<noteq> None \<and>
     (\<exists>h n a b dev c. sqH d = Some h \<and> qh_dev h \<noteq> None \<and> qh_queue h = Some a \<and> nsH d = Some n \<and> nh_ns n \<noteq> None
        \<and> drv_dev d = Some dev \<and> quiet content capacity True a b dev \<and> cqH d = Some c \<and> queue_tables h c a b dev)"

definition drv_contents :: "'b KvEmulator \<Rightarrow> kv_contents" where
  "drv_contents d = (case drv_dev d of Some dev \<Rightarrow> dev_contents dev | None \<Rightarrow> contents_empty)"

lemma drv_dev_set [simp]:
  "drv_dev d = Some dev0 \<Longrightarrow> drv_dev (set_drv_dev dev d) = Some dev"
  "sqH (set_drv_dev dev d) = sqH d" "nsH (set_drv_dev dev d) = nsH d" "cqH (set_drv_dev dev d) = cqH d" "devH (set_drv_dev dev d) = devH d"
  "kv_ctx_pool (set_drv_dev dev d) = kv_ctx_pool d"
  by (auto simp: drv_dev_def set_drv_dev_def split: option.splits)

text \<open>A synchronous request on an idle device.\<close>

lemma issue_request:
  assumes d: "drv_ok B content capacity d" and acc: "request_accepted rq" and rd: "request_readable rq"
  shows "\<exists>ctx d'. issue B True polled (\<lambda>dev. adi_request B (sqH d) (nsH d) p c0 rq dev) d =
      Returns (convert_return_code (ctx_retcode ctx), Some ctx, d')
    \<and> ctx_reply ctx = Some (fst (spec_step rq (drv_contents d)))
    \<and> ctx_opcode ctx = ctx_opcode (request_ctx rq c0)
    \<and> drv_ok B content capacity d' \<and> drv_contents d' = snd (spec_step rq (drv_contents d))"
proof -
  obtain h n a b dev cq where h: "sqH d = Some h" "qh_dev h \<noteq> None" "qh_queue h = Some a" "nsH d = Some n" "nh_ns n \<noteq> None"
    "drv_dev d = Some dev" "quiet content capacity True a b dev" "cqH d = Some cq" "queue_tables h cq a b dev"
    and B: "circular_buffer_laws B content capacity" and pool: "0 < kv_ctx_pool d" and dh: "devH d \<noteq> None"
    using d unfolding drv_ok_def by blast
  obtain c where c: "adi_request B (sqH d) (nsH d) p c0 rq dev = submit_cmd B h c0 (\<lambda>_. request_ctx rq c) dev"
    using adi_request_accepted [OF acc h(2) _ h(5), of B p c0 dev] h by auto
  obtain dev1 cmd dev2 where s: "submit_cmd B h c0 (\<lambda>_. request_ctx rq c) dev = Returns (KV_SUCCESS, dev1)"
    "complete_cmd B polled a dev1 = Returns (cmd, dev2)" "quiet content capacity True a b dev2"
    "ctx_reply (ioctx cmd) = Some (fst (spec_step rq (dev_contents dev)))"
    "ctx_opcode (ioctx cmd) = ctx_opcode (request_ctx rq c)" "dev_contents dev2 = snd (spec_step rq (dev_contents dev))"
    "m_ioque_list dev2 = m_ioque_list dev" "m_sq_to_cq_pairs dev2 = m_sq_to_cq_pairs dev"
    using submit_complete [OF B h(7) h(3) accepted_ok [OF acc rd], of c0 c polled] by blast
  have "queue_tables h cq a b dev2" using h(9) s(7,8) by (simp add: queue_tables_def)
  have "issue B True polled (\<lambda>dev. adi_request B (sqH d) (nsH d) p c0 rq dev) d =
      Returns (convert_return_code (ctx_retcode (ioctx cmd)), Some (ioctx cmd), set_drv_dev dev2 d)"
    using pool h s(1,2) c by (simp add: issue_def on_io_complete_def)
  moreover have "drv_ok B content capacity (set_drv_dev dev2 d)"
    using h s(3) B pool dh \<open>queue_tables h cq a b dev2\<close> by (auto simp: drv_ok_def)
  moreover have "drv_contents d = dev_contents dev" "drv_contents (set_drv_dev dev2 d) = dev_contents dev2"
    using h(6) by (simp_all add: drv_contents_def)
  moreover have "ctx_opcode (request_ctx rq c) = ctx_opcode (request_ctx rq c0)" by (cases rq) simp_all
  ultimately show ?thesis using s(4-6) by metis
qed

text \<open>A request the device library refuses.\<close>

lemma issue_refused:
  assumes d: "drv_ok B content capacity d" and "\<And>dev. adi dev = Returns (r, dev)" and "r \<noteq> KV_SUCCESS"
  shows "issue B syncio polled adi d = Returns (convert_return_code r, None, d)"
proof -
  obtain h a where h: "0 < kv_ctx_pool d" "devH d = Some h" "dh_dev h = Some a"
    using d by (auto simp: drv_ok_def drv_dev_def split: option.splits)
  obtain dev where dev: "dev_objects (drv_st d) a = Some dev"
    using d h by (auto simp: drv_ok_def drv_dev_def)
  have "(dev_objects (drv_st d))(a \<mapsto> dev) = dev_objects (drv_st d)" using dev by (simp add: fun_upd_idem)
  then have "set_drv_dev dev d = d" using h by (simp add: set_drv_dev_def)
  then show ?thesis using assms(2,3) h dev by (simp add: issue_def drv_dev_def)
qed

lemma drv_ok_handles:
  assumes "drv_ok B content capacity d"
  obtains h n where "sqH d = Some h" "nsH d = Some n" "qh_dev h \<noteq> None" "qh_queue h \<noteq> None" "nh_ns n \<noteq> None"
    "0 < kv_ctx_pool d"
  using assms unfolding drv_ok_def by force

lemma ctx_reply_retcode:
  "ctx_reply c = Some (RepResult r) \<Longrightarrow> ctx_retcode c = r"
  "ctx_reply c = Some (RepValue r v) \<Longrightarrow> ctx_retcode c = r \<and> ctx_value c = Some v"
  "ctx_reply c = Some (RepExist r buf n) \<Longrightarrow> ctx_retcode c = r \<and> (\<exists>k. ctx_command c = key_exist_info k (Some buf) n)"
  by (auto simp: ctx_reply_def split: cmd_opcode_t.splits op_command.splits option.splits)

lemma emul_store_correct:
  assumes d: "drv_ok B content capacity d" and k: "key_readable k" and v: "value_readable v"
  shows "\<exists>d'. emul_store_tuple B c0 ks (Some k) (Some v) st True d = Returns (fst (store_spec ks k v st (drv_contents d)), d')
    \<and> drv_ok B content capacity d' \<and> drv_contents d' = snd (store_spec ks k v st (drv_contents d))"
proof (cases "trans_store_cmd_opt st")
  case None
  with drv_ok_handles [OF d] d show ?thesis by (auto simp: emul_store_tuple_def store_spec_def)
next
  case (Some opt)
  obtain h n where hn: "sqH d = Some h" "nsH d = Some n" "qh_dev h \<noteq> None" "0 < kv_ctx_pool d"
    using drv_ok_handles [OF d] by metis
  show ?thesis
  proof (cases "request_accepted (ReqStore ks k v opt)")
    case True
    from issue_request [OF d True, of False the_post c0] k v obtain ctx d' where
      i: "issue B True False (\<lambda>dev. adi_kv_store B (sqH d) (nsH d) ks (Some k) (Some v) opt the_post c0 dev) d =
        Returns (convert_return_code (ctx_retcode ctx), Some ctx, d')"
      "ctx_reply ctx = Some (fst (spec_step (ReqStore ks k v opt) (drv_contents d)))" "drv_ok B content capacity d'"
      "drv_contents d' = snd (spec_step (ReqStore ks k v opt) (drv_contents d))"
      by auto
    with True Some hn show ?thesis
      by (auto simp: emul_store_tuple_def store_spec_def split: prod.splits dest: ctx_reply_retcode)
  next
    case False
    let ?r = "if validate_key_value k (Some v) \<noteq> KV_SUCCESS then validate_key_value k (Some v) else KV_ERR_KEYSPACE_INVALID"
    have "issue B True False (\<lambda>dev. adi_kv_store B (sqH d) (nsH d) ks (Some k) (Some v) opt the_post c0 dev) d =
        Returns (convert_return_code ?r, None, d)"
      using False hn by (intro issue_refused [OF d]) (auto simp: call_defs)
    with False Some hn d show ?thesis by (auto simp: emul_store_tuple_def store_spec_def convert_return_code_def)
  qed
qed

lemma emul_delete_correct:
  assumes d: "drv_ok B content capacity d" and k: "key_readable k"
  shows "\<exists>d'. emul_delete_tuple B c0 ks (Some k) err True d = Returns (fst (delete_spec ks k err (drv_contents d)), d')
    \<and> drv_ok B content capacity d' \<and> drv_contents d' = snd (delete_spec ks k err (drv_contents d))"
proof -
  obtain h n where hn: "sqH d = Some h" "nsH d = Some n" "qh_dev h \<noteq> None"
    using drv_ok_handles [OF d] by metis
  let ?opt = "if err then KV_DELETE_OPT_ERROR else KV_DELETE_OPT_DEFAULT"
  show ?thesis
  proof (cases "request_accepted (ReqDelete ks k ?opt)")
    case True
    from issue_request [OF d True, of False the_post c0] k obtain ctx d' where
      i: "issue B True False (\<lambda>dev. adi_kv_delete B (sqH d) (nsH d) ks (Some k) ?opt the_post c0 dev) d =
        Returns (convert_return_code (ctx_retcode ctx), Some ctx, d')"
      "ctx_reply ctx = Some (fst (spec_step (ReqDelete ks k ?opt) (drv_contents d)))" "drv_ok B content capacity d'"
      "drv_contents d' = snd (spec_step (ReqDelete ks k ?opt) (drv_contents d))"
      by auto
    with True show ?thesis
      by (cases err) (auto simp: emul_delete_tuple_def delete_spec_def split: prod.splits dest: ctx_reply_retcode)
  next
    case False
    let ?r = "if validate_key_value k None \<noteq> KV_SUCCESS then validate_key_value k None else KV_ERR_KEYSPACE_INVALID"
    have "issue B True False (\<lambda>dev. adi_kv_delete B (sqH d) (nsH d) ks (Some k) ?opt the_post c0 dev) d =
        Returns (convert_return_code ?r, None, d)"
      using False hn by (intro issue_refused [OF d]) (auto simp: call_defs)
    with False d show ?thesis
      by (cases err) (auto simp: emul_delete_tuple_def delete_spec_def convert_return_code_def)
  qed
qed

lemma emul_retrieve_correct:
  assumes d: "drv_ok B content capacity d" and k: "key_readable k" and v: "value_readable v"
  shows "\<exists>d'. emul_retrieve_tuple B c0 ks (Some k) (Some v) del True d =
      Returns (fst (retrieve_spec ks k v del (drv_contents d)), Some (snd (retrieve_spec ks k v del (drv_contents d))), d')
    \<and> drv_ok B content capacity d' \<and> drv_contents d' = drv_contents d"
proof -
  obtain h n where hn: "sqH d = Some h" "nsH d = Some n" "qh_dev h \<noteq> None"
    using drv_ok_handles [OF d] by metis
  let ?opt = "if del then KV_RETRIEVE_OPT_DELETE else KV_RETRIEVE_OPT_DEFAULT"
  show ?thesis
  proof (cases "request_accepted (ReqRetrieve ks k v ?opt)")
    case True
    from issue_request [OF d True, of False the_post c0] k v obtain ctx d' where
      i: "issue B True False (\<lambda>dev. adi_kv_retrieve B (sqH d) (nsH d) ks (Some k) ?opt (Some v) the_post c0 dev) d =
        Returns (convert_return_code (ctx_retcode ctx), Some ctx, d')"
      "ctx_reply ctx = Some (fst (spec_step (ReqRetrieve ks k v ?opt) (drv_contents d)))" "drv_ok B content capacity d'"
      "drv_contents d' = snd (spec_step (ReqRetrieve ks k v ?opt) (drv_contents d))" "ctx_opcode ctx = KV_OPC_GET"
      by auto
    obtain r w where rw: "spec_retrieve ks k v ?opt (drv_contents d) = (r, w)" by fastforce
    with i(2) have "ctx_retcode ctx = r" "ctx_value ctx = Some w" using ctx_reply_retcode(2) by auto
    with True i rw show ?thesis
      by (cases del) (auto simp: emul_retrieve_tuple_def retrieve_spec_def on_io_complete_def)
  next
    case False
    let ?r = "if validate_key_value k (Some v) \<noteq> KV_SUCCESS then validate_key_value k (Some v) else KV_ERR_KEYSPACE_INVALID"
    have "issue B True False (\<lambda>dev. adi_kv_retrieve B (sqH d) (nsH d) ks (Some k) ?opt (Some v) the_post c0 dev) d =
        Returns (convert_return_code ?r, None, d)"
      using False hn by (intro issue_refused [OF d]) (auto simp: call_defs)
    with False d show ?thesis
      by (cases del) (auto simp: emul_retrieve_tuple_def retrieve_spec_def convert_return_code_def)
  qed
qed

lemma validate_keys_total: "n \<le> length ks \<Longrightarrow> validate_keys n ks \<noteq> None"
  by (induction n ks rule: validate_keys.induct) auto

lemma emul_exist_correct:
  assumes d: "drv_ok B content capacity d" and k: "list_all key_readable keys" and n: "unat cnt = length keys" "unat cnt < 2 ^ 31"
    and b: "el_result_buffer l = Some buf" "unat (el_length l) \<le> length buf"
  shows "\<exists>d'. emul_exist_tuple B c0 ks cnt (Some keys) l True d =
      Returns (fst (exist_spec ks cnt keys (el_length l) buf (drv_contents d)),
        l\<lparr>el_result_buffer := Some (snd (exist_spec ks cnt keys (el_length l) buf (drv_contents d)))\<rparr>, d')
    \<and> drv_ok B content capacity d' \<and> drv_contents d' = drv_contents d"
proof -
  obtain h n where hn: "sqH d = Some h" "nsH d = Some n" "qh_dev h \<noteq> None"
    using drv_ok_handles [OF d] by metis
  obtain r0 where r0: "validate_keys (unat cnt) keys = Some r0"
    using validate_keys_total [of "unat cnt" keys] n(1) by auto
  let ?rq = "ReqExist ks keys cnt buf (el_length l)"
  show ?thesis
  proof (cases "request_accepted ?rq")
    case True
    from issue_request [OF d True, of False the_post c0] k assms(3-6) obtain ctx d' where
      i: "issue B True False (\<lambda>dev. adi_kv_exist B (sqH d) (nsH d) ks (Some keys) cnt (el_length l) (Some buf) the_post c0 dev) d =
        Returns (convert_return_code (ctx_retcode ctx), Some ctx, d')"
      "ctx_reply ctx = Some (fst (spec_step ?rq (drv_contents d)))" "drv_ok B content capacity d'"
      "drv_contents d' = snd (spec_step ?rq (drv_contents d))"
      by auto
    obtain r w m where rw: "spec_exist ks keys cnt buf (el_length l) (drv_contents d) = (r, w, m)"
      by (metis prod_cases3)
    with i(2) obtain j where "ctx_retcode ctx = r" "ctx_command ctx = key_exist_info j (Some w) m"
      using ctx_reply_retcode(3) [of ctx r w m] by auto
    with True i rw b show ?thesis by (simp add: emul_exist_tuple_def exist_spec_def)
  next
    case False
    have "l\<lparr>el_result_buffer := Some buf\<rparr> = l" using b(1) by simp
    moreover let ?r = "if r0 \<noteq> KV_SUCCESS then r0 else KV_ERR_KEYSPACE_INVALID"
    have "issue B True False (\<lambda>dev. adi_kv_exist B (sqH d) (nsH d) ks (Some keys) cnt (el_length l) (Some buf) the_post c0 dev) d =
        Returns (convert_return_code ?r, None, d)"
      using False hn r0 by (intro issue_refused [OF d]) (auto simp: call_defs)
    ultimately show ?thesis
      using False d b r0 by (auto simp: emul_exist_tuple_def exist_spec_def convert_return_code_def)
  qed
qed

text \<open>
  The destructor of an idle driver: both queues can be deleted, the submission queue first, and
  the device with its namespace.
\<close>

lemma emul_end_correct:
  assumes "drv_ok B content capacity d"
  shows "\<exists>st. KvEmulator_delete d = Some st"
proof -
  obtain h n a b dev cq where h: "sqH d = Some h" "nsH d = Some n" "drv_dev d = Some dev" "quiet content capacity True a b dev"
    "cqH d = Some cq" "queue_tables h cq a b dev" using assms unfolding drv_ok_def by blast
  obtain dh i where d: "devH d = Some dh" "dh_dev dh = Some i" "dev_objects (drv_st d) i = Some dev"
    using h(3) by (auto simp: drv_dev_def split: option.splits)
  obtain sq q ns where q: "io_objects dev a = Some sq" "queue_type (que_info sq) = SUBMISSION_Q_TYPE" "io_objects dev b = Some q" "a \<noteq> b"
    "get_namespace dev KV_NAMESPACE_DEFAULT = Some ns" using h(4) unfolding quiet_def by blast
  have "\<exists>dev1. remove_queue (qh_qid h) dev = Some (KV_SUCCESS, dev1) \<and> m_ioque_list dev1 = [(qh_qid cq, b)]
      \<and> m_sq_to_cq_pairs dev1 = [] \<and> io_objects dev1 b = Some q \<and> m_ns_list dev1 = m_ns_list dev"
    using h(6) q by (auto simp: remove_queue_def get_ioqueue_def queue_tables_def umap_erase_def Let_def)
  then obtain dev1 where d1: "remove_queue (qh_qid h) dev = Some (KV_SUCCESS, dev1)" "m_ioque_list dev1 = [(qh_qid cq, b)]"
    "m_sq_to_cq_pairs dev1 = []" "io_objects dev1 b = Some q" "m_ns_list dev1 = m_ns_list dev" by blast
  have "\<exists>dev2. remove_queue (qh_qid cq) dev1 = Some (KV_SUCCESS, dev2) \<and> m_ns_list dev2 = m_ns_list dev"
    using d1 by (simp add: remove_queue_def get_ioqueue_def get_paired_SQ_ids_def Let_def)
  then obtain dev2 where "remove_queue (qh_qid cq) dev1 = Some (KV_SUCCESS, dev2)" "m_ns_list dev2 = m_ns_list dev" by blast
  with d d1(1) h(1,5) q(5) show ?thesis
    by (simp add: KvEmulator_delete_def kv_delete_queue_def kv_cleanup_device_def get_namespace_def Let_def)
qed

interpretation emul_drv: kvs_driver_api "drv_ok B content capacity" drv_contents "emulator_driver B util c0"
  for B content capacity util c0
  by unfold_locales
    (use emul_store_correct emul_retrieve_correct emul_delete_correct emul_exist_correct emul_end_correct
     in \<open>fastforce simp: emulator_driver_def\<close>)+

section \<open>Initialisation\<close>

lemma device_new_fields:
  assumes "kv_device_internal_new cfg is_polling devid = Some dev"
  shows "m_ns_list dev = []" "m_ioque_list dev = []" "m_sq_to_cq_pairs dev = []" "io_objects dev = Map.empty" "next_object dev = 0"
  using assms by (auto simp: kv_device_internal_new_def split: bind_splits)

text \<open>The queue with id \<open>i\<close> of a driver, as created.\<close>

definition drv_queue :: "('b, io_cmd) circular_buffer \<Rightarrow> int \<Rightarrow> int \<Rightarrow> int \<Rightarrow> queue_type_t \<Rightarrow> nat option \<Rightarrow> bool \<Rightarrow> 'b ioqueue" where
  "drv_queue B i depth cq ty out handler =
     \<lparr>io_que = emul_ioqueue_new B \<lparr>queue_id = word_of_int i, queue_size = word_of_int depth,
        completion_queue_id = word_of_int cq, queue_type = ty\<rparr>, io_out = out, io_interrupt = handler\<rparr>"

lemma drv_queue_simps [simp]:
  "queue_type (que_info (drv_queue B i depth cq ty out handler)) = ty"
  "io_out (drv_queue B i depth cq ty out handler) = out" "io_interrupt (drv_queue B i depth cq ty out handler) = handler"
  by (simp_all add: drv_queue_def emul_ioqueue_new_def)

text \<open>Creating the queues on the device \<open>dev\<close> at \<open>a\<close>.\<close>

lemma create_completion:
  assumes d: "devH d = Some \<lparr>dh_devid = i, dh_dev = Some a\<rparr>" "dev_objects (drv_st d) a = Some dev"
    and f: "m_ioque_list dev = []" "io_objects dev = Map.empty" "next_object dev = 0"
  shows "\<exists>d1 dev1. drv_create_queue B depth COMPLETION_Q_TYPE None 0 is_polling qid d =
      Some (qid + 1, Some \<lparr>qh_qid = word_of_int (qid + 1), qh_dev = Some a, qh_queue = Some 0\<rparr>, d1)
    \<and> devH d1 = devH d \<and> nsH d1 = nsH d \<and> kv_ctx_pool d1 = kv_ctx_pool d \<and> int_handler d1 = (int_handler d \<or> \<not> is_polling)
    \<and> dev_objects (drv_st d1) a = Some dev1 \<and> m_ns_list dev1 = m_ns_list dev
    \<and> m_ioque_list dev1 = [(word_of_int (qid + 1), 0)] \<and> next_object dev1 = 1 \<and> m_sq_to_cq_pairs dev1 = m_sq_to_cq_pairs dev
    \<and> io_objects dev1 = [0 \<mapsto> drv_queue B (qid + 1) depth 0 COMPLETION_Q_TYPE None (\<not> is_polling \<and> \<not> m_is_poll dev)]"
  using assms
  by (cases is_polling; cases "m_is_poll dev")
    (simp_all add: drv_create_queue_def kv_create_queue_def create_queue_def qid_exist_def queue_size_fits umap_insert_def
      drv_dev_def set_drv_dev_def adi_kv_set_interrupt_handler_def dev_kv_set_interrupt_handler_def emul_ioqueue_new_def
      drv_queue_def Let_def)

lemma create_submission:
  assumes d: "devH d = Some \<lparr>dh_devid = i, dh_dev = Some a\<rparr>" "dev_objects (drv_st d) a = Some dev"
    and f: "m_ioque_list dev = [(word_of_int qid, 0)]" "next_object dev = 1" "m_sq_to_cq_pairs dev = []"
  shows "\<exists>d1 dev1. drv_create_queue B depth SUBMISSION_Q_TYPE None qid is_polling qid d =
      Some (qid + 1, Some \<lparr>qh_qid = word_of_int (qid + 1), qh_dev = Some a, qh_queue = Some 1\<rparr>, d1)
    \<and> devH d1 = devH d \<and> nsH d1 = nsH d \<and> kv_ctx_pool d1 = kv_ctx_pool d \<and> int_handler d1 = int_handler d
    \<and> dev_objects (drv_st d1) a = Some dev1 \<and> m_ns_list dev1 = m_ns_list dev
    \<and> m_ioque_list dev1 = [(word_of_int (qid + 1), 1), (word_of_int qid, 0)] \<and> m_sq_to_cq_pairs dev1 = [(word_of_int (qid + 1), word_of_int qid)]
    \<and> io_objects dev1 = (io_objects dev)(1 \<mapsto> drv_queue B (qid + 1) depth qid SUBMISSION_Q_TYPE (Some 0) False)"
proof -
  have "(word_of_int (qid + 1) :: u16) \<noteq> word_of_int qid" by simp
  then show ?thesis
    using assms
    by (simp add: drv_create_queue_def kv_create_queue_def create_queue_def qid_exist_def queue_size_fits umap_insert_def
        get_ioqueue_def drv_queue_def Let_def)
qed

lemma init_state:
  fixes B :: "('b, io_cmd) circular_buffer" and purging :: bool and h :: kv_history and dev0 :: "'b kv_device_internal"
  assumes "kv_device_internal_new cfg is_polling (s_next_devid st) = Some dev0"
  defines "ns \<equiv> kv_namespace_internal_new purging (m_has_fixed_keylen dev0) (m_use_iops_model dev0) h KV_NAMESPACE_DEFAULT
    \<lparr>ns_nsid = KV_NAMESPACE_DEFAULT, ns_attached = True, ns_capacity = m_capacity dev0\<rparr>"
  shows "\<exists>d dev a. KvEmulator_init B cfg purging h depth is_polling qid st = Some (KVS_SUCCESS, qid + 2, d)
    \<and> drv_dev d = Some dev \<and> devH d \<noteq> None \<and> kv_ctx_pool d = 10240 \<and> int_handler d = (\<not> is_polling)
    \<and> sqH d = Some \<lparr>qh_qid = word_of_int (qid + 2), qh_dev = Some a, qh_queue = Some 1\<rparr>
    \<and> cqH d = Some \<lparr>qh_qid = word_of_int (qid + 1), qh_dev = Some a, qh_queue = Some 0\<rparr>
    \<and> m_ioque_list dev = [(word_of_int (qid + 2), 1), (word_of_int (qid + 1), 0)] \<and> m_sq_to_cq_pairs dev = [(word_of_int (qid + 2), word_of_int (qid + 1))]
    \<and> nsH d = Some \<lparr>nh_nsid = get_nsid ns, nh_dev = Some a, nh_ns = Some KV_NAMESPACE_DEFAULT\<rparr>
    \<and> m_ns_list dev = [(KV_NAMESPACE_DEFAULT, ns)]
    \<and> io_objects dev = [0 \<mapsto> drv_queue B (qid + 1) depth 0 COMPLETION_Q_TYPE None (\<not> is_polling \<and> \<not> m_is_poll dev0),
        1 \<mapsto> drv_queue B (qid + 2) depth (qid + 1) SUBMISSION_Q_TYPE (Some 0) False]"
proof -
  note f = device_new_fields [OF assms(1)]
  let ?a = "next_dev st" and ?dh = "\<lparr>dh_devid = s_next_devid st, dh_dev = Some (next_dev st)\<rparr>"
  define dev1 where "dev1 = dev0\<lparr>m_ns_list := [(KV_NAMESPACE_DEFAULT, ns)], m_init_status := KV_SUCCESS\<rparr>"
  have f1: "m_ioque_list dev1 = []" "io_objects dev1 = Map.empty" "next_object dev1 = 0" by (simp_all add: dev1_def f)
  have ok: "ns_init_status ns = KV_SUCCESS" by (simp add: ns_def kv_namespace_internal_new_def)
  obtain st1 where i: "kv_initialize_device cfg is_polling purging h (Some None) st = Some (KV_SUCCESS, Some ?dh, st1)"
    "dev_objects st1 ?a = Some dev1"
    using ok by (simp add: kv_initialize_device_def get_next_devid_def assms(1) insert_namespace_def umap_insert_def f
        ns_def [symmetric] dev1_def Let_def)
  let ?nh = "\<lparr>nh_nsid = get_nsid ns, nh_dev = Some ?a, nh_ns = Some KV_NAMESPACE_DEFAULT\<rparr>"
  have n: "get_namespace_default (Some ?dh) True st1 = Some (KV_SUCCESS, Some ?nh)"
    using i(2) by (simp add: get_namespace_default_def get_namespace_def dev1_def)
  let ?d = "\<lparr>devH = Some ?dh, nsH = Some ?nh, sqH = None, cqH = None, int_handler = False, kv_ctx_pool = 10240, drv_st = st1\<rparr>"
  let ?cq = "\<lparr>qh_qid = word_of_int (qid + 1), qh_dev = Some ?a, qh_queue = Some 0\<rparr>"
  obtain d1 dev2 where c: "drv_create_queue B depth COMPLETION_Q_TYPE None 0 is_polling qid ?d = Some (qid + 1, Some ?cq, d1)"
    "devH d1 = Some ?dh" "nsH d1 = Some ?nh" "kv_ctx_pool d1 = 10240" "int_handler d1 = (\<not> is_polling)"
    "dev_objects (drv_st d1) ?a = Some dev2" "m_ns_list dev2 = [(KV_NAMESPACE_DEFAULT, ns)]"
    "m_ioque_list dev2 = [(word_of_int (qid + 1), 0)]" "next_object dev2 = 1" "m_sq_to_cq_pairs dev2 = []"
    "io_objects dev2 = [0 \<mapsto> drv_queue B (qid + 1) depth 0 COMPLETION_Q_TYPE None (\<not> is_polling \<and> \<not> m_is_poll dev0)]"
    using create_completion [of ?d, OF _ _ f1, of "s_next_devid st" ?a B depth is_polling qid] i(2) f(3) by (auto simp: dev1_def)
  have two: "qid + 1 + 1 = qid + 2" by simp
  obtain d2 dev3 where s: "drv_create_queue B depth SUBMISSION_Q_TYPE None (qid + 1) is_polling (qid + 1) d1 =
      Some (qid + 2, Some \<lparr>qh_qid = word_of_int (qid + 2), qh_dev = Some ?a, qh_queue = Some 1\<rparr>, d2)"
    "devH d2 = Some ?dh" "nsH d2 = Some ?nh" "kv_ctx_pool d2 = 10240" "int_handler d2 = (\<not> is_polling)"
    "dev_objects (drv_st d2) ?a = Some dev3" "m_ns_list dev3 = [(KV_NAMESPACE_DEFAULT, ns)]"
    "m_ioque_list dev3 = [(word_of_int (qid + 2), 1), (word_of_int (qid + 1), 0)]" "m_sq_to_cq_pairs dev3 = [(word_of_int (qid + 2), word_of_int (qid + 1))]"
    "io_objects dev3 = (io_objects dev2)(1 \<mapsto> drv_queue B (qid + 2) depth (qid + 1) SUBMISSION_Q_TYPE (Some 0) False)"
    using create_submission [OF c(2,6,8-10), of B depth is_polling, unfolded two] c(2-5,7) by auto
  let ?d3 = "d2\<lparr>cqH := Some ?cq, sqH := Some \<lparr>qh_qid = word_of_int (qid + 2), qh_dev = Some ?a, qh_queue = Some 1\<rparr>\<rparr>"
  have "KvEmulator_init B cfg purging h depth is_polling qid st = Some (KVS_SUCCESS, qid + 2, ?d3)"
    using c(1) s(1) by (simp add: KvEmulator_init_def i(1) n Let_def convert_return_code_def)
  moreover have "drv_dev ?d3 = Some dev3" using s(2,6) by (simp add: drv_dev_def)
  ultimately show ?thesis
    using s(2-5,7-10) c(11) by (intro exI [of _ ?d3] exI [of _ dev3] exI [of _ ?a] conjI) simp_all
qed

text \<open>The idle driver after its initialisation, and the state it is in when the device polls.\<close>

lemma idle_new:
  "circular_buffer_laws B content capacity \<Longrightarrow> queue_size info \<noteq> 0 \<Longrightarrow> idle content capacity (emul_ioqueue_new B info)"
  by (simp add: idle_def q_ok_def emul_ioqueue_new_def cb_law_new unat_gt_0)

lemma init_quiet:
  fixes B :: "('b, io_cmd) circular_buffer" and dev0 :: "'b kv_device_internal"
  assumes B: "circular_buffer_laws B content capacity"
    and new: "kv_device_internal_new cfg False (s_next_devid st) = Some dev0" "m_capacity dev0 \<noteq> 0"
    and depth: "(word_of_int depth :: u16) \<noteq> 0"
  shows "\<exists>d h n b dev c. KvEmulator_init B cfg purging hist depth False qid st = Some (KVS_SUCCESS, qid + 2, d)
    \<and> cqH d = Some c \<and> queue_tables h c 1 b dev \<and> 0 < kv_ctx_pool d \<and> devH d \<noteq> None \<and> sqH d = Some h \<and> qh_dev h \<noteq> None \<and> qh_queue h = Some 1
    \<and> nsH d = Some n \<and> nh_ns n \<noteq> None \<and> drv_dev d = Some dev
    \<and> quiet content capacity (\<not> m_is_poll dev0) 1 b dev \<and> dev_contents dev = contents_empty"
proof -
  let ?ns = "kv_namespace_internal_new purging (m_has_fixed_keylen dev0) (m_use_iops_model dev0) hist KV_NAMESPACE_DEFAULT
    \<lparr>ns_nsid = KV_NAMESPACE_DEFAULT, ns_attached = True, ns_capacity = m_capacity dev0\<rparr>"
  have ns: "ns_ready ?ns" "ns_contents ?ns = contents_empty"
    using new(2) emul_contents_new by (simp_all add: ns_ready_def ns_contents_def kv_namespace_internal_new_def emul_ready_def)
      (simp add: kv_emulator_new_def)
  obtain d dev a where d: "KvEmulator_init B cfg purging hist depth False qid st = Some (KVS_SUCCESS, qid + 2, d)"
    "drv_dev d = Some dev" "devH d \<noteq> None" "kv_ctx_pool d = 10240"
    "sqH d = Some \<lparr>qh_qid = word_of_int (qid + 2), qh_dev = Some a, qh_queue = Some 1\<rparr>"
    "nsH d = Some \<lparr>nh_nsid = get_nsid ?ns, nh_dev = Some a, nh_ns = Some KV_NAMESPACE_DEFAULT\<rparr>"
    "m_ns_list dev = [(KV_NAMESPACE_DEFAULT, ?ns)]"
    "io_objects dev = [0 \<mapsto> drv_queue B (qid + 1) depth 0 COMPLETION_Q_TYPE None (\<not> m_is_poll dev0),
        1 \<mapsto> drv_queue B (qid + 2) depth (qid + 1) SUBMISSION_Q_TYPE (Some 0) False]"
    "cqH d = Some \<lparr>qh_qid = word_of_int (qid + 1), qh_dev = Some a, qh_queue = Some 0\<rparr>"
    "m_ioque_list dev = [(word_of_int (qid + 2), 1), (word_of_int (qid + 1), 0)]" "m_sq_to_cq_pairs dev = [(word_of_int (qid + 2), word_of_int (qid + 1))]"
    using init_state [OF new(1), of B purging hist depth qid] by auto
  have "idle content capacity (io_que (drv_queue B j depth cq ty out i))" for j cq ty out i
    using depth by (simp add: drv_queue_def idle_new [OF B])
  moreover have "get_namespace dev KV_NAMESPACE_DEFAULT = Some ?ns" using d(7) by (simp add: get_namespace_def)
  ultimately have "quiet content capacity (\<not> m_is_poll dev0) 1 0 dev" "dev_contents dev = contents_empty"
    using ns d(8) by (auto simp: quiet_def dev_contents_def)
  then show ?thesis
    using d(1-6,9-11) by (intro exI [of _ d] exI conjI) (auto simp: queue_tables_def)
qed

lemma issue_waits:
  assumes B: "circular_buffer_laws B content capacity" and pool: "0 < kv_ctx_pool d" and dev: "drv_dev d = Some dev"
    and h: "sqH d = Some h" "qh_dev h \<noteq> None" "qh_queue h = Some a" and n: "nsH d = Some n" "nh_ns n \<noteq> None"
    and q: "quiet content capacity False a b dev" and rq: "request_accepted rq" "request_readable rq"
  shows "issue B True False (\<lambda>dev. adi_request B (sqH d) (nsH d) p c0 rq dev) d = Waits"
proof -
  obtain ns where ns: "get_namespace dev KV_NAMESPACE_DEFAULT = Some ns" "ns_ready ns" using q unfolding quiet_def by blast
  obtain c where c: "adi_request B (sqH d) (nsH d) p c0 rq dev = submit_cmd B h c0 (\<lambda>_. request_ctx rq c) dev"
    using adi_request_accepted [OF rq(1) h(2) _ n(2), of B p c0 dev] h n by auto
  obtain r ns1 where n1: "ns_step rq ns = Some (r, ns1)" "ns_ready ns1"
    using nspace.step_refines [OF ns(2) accepted_ok [OF rq]] by blast
  have ex: "\<exists>cmd1. execute_cmd \<lparr>ioctx = (\<lambda>_. request_ctx rq c) c0, cmd_sqid = s\<rparr> ns = Some (cmd1, ns1) \<and> True" for s
    using execute_request [of "\<lparr>ioctx = request_ctx rq c, cmd_sqid = s\<rparr>" rq c ns] n1(1) by auto
  obtain dev1 where "submit_cmd B h c0 (\<lambda>_. request_ctx rq c) dev = Returns (KV_SUCCESS, dev1)"
    "complete_cmd B False a dev1 = Waits"
    using submit_executes [where P = "\<lambda>_. True" and f = "\<lambda>_. request_ctx rq c" and ?c0.0 = c0,
        OF B q h(3) ns(1) ex n1(2), of False] by auto
  then show ?thesis using pool dev h c by (simp add: issue_def)
qed

lemma init_drv_ok:
  fixes B :: "('b, io_cmd) circular_buffer" and dev0 :: "'b kv_device_internal"
  assumes "circular_buffer_laws B content capacity"
    and "kv_device_internal_new cfg False (s_next_devid st) = Some dev0" and "m_capacity dev0 \<noteq> 0" and "\<not> m_is_poll dev0"
    and "\<not> 65536 dvd depth"
  shows "\<exists>d. KvEmulator_init B cfg purging hist depth False qid st = Some (KVS_SUCCESS, qid + 2, d)
    \<and> drv_ok B content capacity d \<and> drv_contents d = contents_empty"
proof -
  have "(word_of_int depth :: u16) \<noteq> 0" using assms(5) by (simp add: word_of_int_eq_0_iff)
  from init_quiet [OF assms(1-3) this, of purging hist qid] obtain d h n b dev c where
    "cqH d = Some c" "queue_tables h c 1 b dev"
    "KvEmulator_init B cfg purging hist depth False qid st = Some (KVS_SUCCESS, qid + 2, d)"
    "0 < kv_ctx_pool d" "devH d \<noteq> None" "sqH d = Some h" "qh_dev h \<noteq> None" "qh_queue h = Some 1"
    "nsH d = Some n" "nh_ns n \<noteq> None" "drv_dev d = Some dev" "quiet content capacity True 1 b dev" "dev_contents dev = contents_empty"
    using assms(4) by auto
  moreover from this have "drv_ok B content capacity d" using assms(1) unfolding drv_ok_def by blast
  ultimately show ?thesis by (auto simp: drv_contents_def)
qed

text \<open>A driver on a device with the default configuration.\<close>

definition sample_class :: "(io_cmd list \<times> nat) device_class" where
  "sample_class = \<lparr>s_next_devid = 1, s_global_device_list = [], dev_objects = Map.empty, next_dev = 0\<rparr>"

definition sample_history :: kv_history where
  "sample_history = kv_history_new (replicate 17 STAT_READ) (replicate 17 0)"

lemma default_device:
  "\<exists>dev. kv_device_internal_new Map.empty False 1 = Some dev \<and> m_capacity dev \<noteq> 0 \<and> \<not> m_is_poll dev"
  by (simp add: kv_device_internal_new_def getkv_def config_capacity_def config_polling_def strcasecmp_eq_def)

definition sample_driver :: "(io_cmd list \<times> nat) KvEmulator" where
  "sample_driver = snd (snd (the (KvEmulator_init list_buffer Map.empty False sample_history 64 False (-1) sample_class)))"

lemma sample_driver_ok: "drv_ok list_buffer fst snd sample_driver" "drv_contents sample_driver = contents_empty"
proof -
  obtain dev :: "(io_cmd list \<times> nat) kv_device_internal" where
    "kv_device_internal_new Map.empty False 1 = Some dev" "m_capacity dev \<noteq> 0" "\<not> m_is_poll dev"
    using default_device by blast
  then have "\<exists>d. KvEmulator_init list_buffer Map.empty False sample_history 64 False (-1) sample_class = Some (KVS_SUCCESS, 1, d)
    \<and> drv_ok list_buffer fst snd d \<and> drv_contents d = contents_empty"
    using init_drv_ok [OF list_buffer_laws, of Map.empty sample_class dev 64 False sample_history "-1"]
    by (simp add: sample_class_def)
  then show "drv_ok list_buffer fst snd sample_driver" "drv_contents sample_driver = contents_empty"
    by (auto simp: sample_driver_def)
qed

lemma sample_validates: "validate_key_value sample_key (Some sample_value) = KV_SUCCESS"
  by (simp add: validate_key_value_def sample_key_def sample_value_def)

section \<open>Properties\<close>

text \<open>
  C4. The emulator driver does what the specification says. On an idle driver every
  synchronous store, retrieve, delete and exist call returns, whatever the key, the value, the
  options and the key space: with the result, the value and the presence bits of the
  specification, and the driver is idle again with the contents of the specification.
\<close>

theorem emulator_driver_correct:
  assumes "drv_ok B content capacity d" and "key_readable k" and "value_readable v"
    and "list_all key_readable keys" and "unat cnt = length keys" and "unat cnt < 2 ^ 31"
    and "el_result_buffer l = Some buf" and "unat (el_length l) \<le> length buf"
  shows "(\<exists>d'. emul_store_tuple B c0 ks (Some k) (Some v) st True d = Returns (fst (store_spec ks k v st (drv_contents d)), d')
        \<and> drv_ok B content capacity d' \<and> drv_contents d' = snd (store_spec ks k v st (drv_contents d)))
    \<and> (\<exists>d'. emul_retrieve_tuple B c0 ks (Some k) (Some v) del True d =
          Returns (fst (retrieve_spec ks k v del (drv_contents d)), Some (snd (retrieve_spec ks k v del (drv_contents d))), d')
        \<and> drv_ok B content capacity d' \<and> drv_contents d' = drv_contents d)
    \<and> (\<exists>d'. emul_delete_tuple B c0 ks (Some k) err True d = Returns (fst (delete_spec ks k err (drv_contents d)), d')
        \<and> drv_ok B content capacity d' \<and> drv_contents d' = snd (delete_spec ks k err (drv_contents d)))
    \<and> (\<exists>d'. emul_exist_tuple B c0 ks cnt (Some keys) l True d =
          Returns (fst (exist_spec ks cnt keys (el_length l) buf (drv_contents d)),
            l\<lparr>el_result_buffer := Some (snd (exist_spec ks cnt keys (el_length l) buf (drv_contents d)))\<rparr>, d')
        \<and> drv_ok B content capacity d' \<and> drv_contents d' = drv_contents d)"
  using emul_store_correct [OF assms(1-3)] emul_retrieve_correct [OF assms(1-3)] emul_delete_correct [OF assms(1,2)]
    emul_exist_correct [OF assms(1,4-8)] by blast

theorem emulator_driver_correct_witness:
  "\<exists>d'. emul_store_tuple list_buffer (ioctx sample_cmd) 1 (Some sample_key) (Some sample_value) KVS_STORE_POST True sample_driver =
      Returns (KVS_SUCCESS, d') \<and> drv_ok list_buffer fst snd d' \<and> drv_contents d' 1 [1, 2, 3, 4, 5] = Some [9, 8, 7]"
proof -
  let ?l = "\<lparr>el_num_keys = 1, el_keys = [sample_key], el_length = 1, el_result_buffer = Some [0]\<rparr>"
  have "\<exists>d'. emul_store_tuple list_buffer (ioctx sample_cmd) 1 (Some sample_key) (Some sample_value) KVS_STORE_POST True sample_driver =
      Returns (fst (store_spec 1 sample_key sample_value KVS_STORE_POST (drv_contents sample_driver)), d')
      \<and> drv_ok list_buffer fst snd d'
      \<and> drv_contents d' = snd (store_spec 1 sample_key sample_value KVS_STORE_POST (drv_contents sample_driver))"
    using emulator_driver_correct [OF sample_driver_ok(1), of sample_key sample_value "[sample_key]" 1 ?l "[0]"] sample_ok
    by (simp add: key_ok_def)
  then show ?thesis
    by (auto simp: store_spec_def trans_store_cmd_opt_def sample_validates spec_store_def contents_upd_def convert_return_code_def)
qed

text \<open>
  C19. Initialisation gives an idle driver. With a configuration the device accepts, a device
  of non-zero capacity that is not polled, and a queue depth that is not a multiple of 65536,
  the driver comes up, whatever the state of the device library: idle, with an empty store
  and with queue ids of its own.
\<close>

theorem emulator_driver_init:
  fixes B :: "('b, io_cmd) circular_buffer" and dev0 :: "'b kv_device_internal"
  assumes "circular_buffer_laws B content capacity"
    and "kv_device_internal_new cfg False (s_next_devid st) = Some dev0" and "m_capacity dev0 \<noteq> 0" and "\<not> m_is_poll dev0"
    and "\<not> 65536 dvd depth"
  shows "\<exists>d. KvEmulator_init B cfg purging hist depth False qid st = Some (KVS_SUCCESS, qid + 2, d)
    \<and> drv_ok B content capacity d \<and> drv_contents d = contents_empty"
  using init_drv_ok [OF assms] .

theorem emulator_driver_init_witness:
  "\<exists>d. KvEmulator_init list_buffer Map.empty False sample_history 64 False (-1) sample_class = Some (KVS_SUCCESS, 1, d)
    \<and> drv_ok list_buffer fst snd d \<and> drv_contents d = contents_empty"
proof -
  obtain dev :: "(io_cmd list \<times> nat) kv_device_internal" where
    "kv_device_internal_new Map.empty False 1 = Some dev" "m_capacity dev \<noteq> 0" "\<not> m_is_poll dev"
    using default_device by blast
  then show ?thesis
    using emulator_driver_init [OF list_buffer_laws, of Map.empty sample_class dev 64 False sample_history "-1"]
    by (simp add: sample_class_def)
qed

text \<open>
  A configuration file that asks for polling makes the first call wait for ever. The
  device then refuses the interrupt handler, the driver does not look at that result, nobody
  takes the command out of the completion queue, and a well-formed store never returns.
\<close>

theorem polling_config_waits:
  fixes B :: "('b, io_cmd) circular_buffer" and dev0 :: "'b kv_device_internal"
  assumes "circular_buffer_laws B content capacity"
    and "kv_device_internal_new cfg False (s_next_devid st) = Some dev0" and "m_capacity dev0 \<noteq> 0" and "m_is_poll dev0"
    and "\<not> 65536 dvd depth" and "trans_store_cmd_opt stype = Some opt"
    and "validate_key_value k (Some v) = KV_SUCCESS" and "\<not> ks_id_invalid ks" and "key_readable k" and "value_readable v"
  shows "\<exists>d. KvEmulator_init B cfg purging hist depth False qid st = Some (KVS_SUCCESS, qid + 2, d)
    \<and> emul_store_tuple B c0 ks (Some k) (Some v) stype True d = Waits"
proof -
  have "(word_of_int depth :: u16) \<noteq> 0" using assms(5) by (simp add: word_of_int_eq_0_iff)
  from init_quiet [OF assms(1-3) this, of purging hist qid] obtain d h n b dev where
    d: "KvEmulator_init B cfg purging hist depth False qid st = Some (KVS_SUCCESS, qid + 2, d)"
    "0 < kv_ctx_pool d" "sqH d = Some h" "qh_dev h \<noteq> None" "qh_queue h = Some 1"
    "nsH d = Some n" "nh_ns n \<noteq> None" "drv_dev d = Some dev" "quiet content capacity False 1 b dev"
    using assms(4) by auto
  have "issue B True False (\<lambda>dev. adi_kv_store B (sqH d) (nsH d) ks (Some k) (Some v) opt the_post c0 dev) d = Waits"
    using issue_waits [OF assms(1) d(2,8,3-7,9), of "ReqStore ks k v opt" the_post c0] assms(7-10) by simp
  then have "emul_store_tuple B c0 ks (Some k) (Some v) stype True d = Waits"
    using d(2) assms(6) by (simp add: emul_store_tuple_def)
  with d(1) show ?thesis by blast
qed

theorem polling_config_waits_witness:
  "\<exists>d. KvEmulator_init list_buffer [''general/polling'' \<mapsto> ''true''] False sample_history 64 False (-1) sample_class =
      Some (KVS_SUCCESS, 1, d)
    \<and> emul_store_tuple list_buffer (ioctx sample_cmd) 1 (Some sample_key) (Some sample_value) KVS_STORE_POST True d = Waits"
proof -
  obtain dev :: "(io_cmd list \<times> nat) kv_device_internal" where
    "kv_device_internal_new [''general/polling'' \<mapsto> ''true''] False 1 = Some dev" "m_capacity dev \<noteq> 0" "m_is_poll dev"
    by (simp add: kv_device_internal_new_def getkv_def config_capacity_def config_polling_def strcasecmp_eq_def)
  then show ?thesis
    using polling_config_waits [OF list_buffer_laws, of "[''general/polling'' \<mapsto> ''true'']" sample_class dev 64 KVS_STORE_POST
        KV_STORE_OPT_DEFAULT sample_key sample_value 1 False sample_history "-1" "ioctx sample_cmd"] sample_ok
    by (simp add: sample_class_def trans_store_cmd_opt_def sample_validates key_ok_def)
qed

end
