(* ===== verification/Kv_Key_Spaces.thy ===== *)
theory Kv_Key_Spaces
  imports Kv_Frontend Kv_Driver_Correct
begin

text \<open>
  What the metadata key space says, and that the management of key spaces keeps it. The
  directory of a device, at most one key space with its metadata, is the abstract state; the
  locale lemmas show, for every driver that keeps its contract, what each step on the metadata
  key space returns and how it changes the directory.
\<close>

section \<open>Keys of the metadata key space\<close>

text \<open>The bytes of the key of a record: the name with the last byte replaced by the terminator.\<close>

definition ekey :: "byte list \<Rightarrow> byte list" where
  "ekey name = butlast name @ [0]"

abbreviation (input) klen :: "byte list \<Rightarrow> u16" where
  "klen name \<equiv> word_of_nat (length name)"

definition lkey :: "byte list" where
  "lkey = KEY_SPACE_LIST_KEY_NAME @ [0]"

lemma unat_klen: "length name \<le> 255 \<Longrightarrow> unat (klen name) = length name"
  by (simp add: unat_of_nat take_bit_nat_eq_self)

lemma name_key_entry:
  assumes "name \<noteq> []" and "length name \<le> 255"
  shows "key_bytes (name_key (klen name) name) = ekey name" and "key_readable (name_key (klen name) name)"
    and "unat (key_length (name_key (klen name) name)) = length name" and "key_ptr (name_key (klen name) name) \<noteq> None"
proof -
  have n: "unat (klen name) = length name" using assms(2) by (rule unat_klen)
  then have nz: "klen name \<noteq> 0" using assms(1) by (metis length_0_conv unat_0)
  have k: "name_key (klen name) name = \<lparr>key_ptr = Some (ekey name), key_length = klen name\<rparr>"
    using nz by (simp add: name_key_def ekey_def n butlast_conv_take)
  have len: "length (ekey name) = length name" using assms(1) by (simp add: ekey_def)
  show "key_bytes (name_key (klen name) name) = ekey name" "key_readable (name_key (klen name) name)"
    "unat (key_length (name_key (klen name) name)) = length name" "key_ptr (name_key (klen name) name) \<noteq> None"
    unfolding k by (simp_all add: key_bytes_def key_readable_def ptr_bytes_def n len)
qed

lemma strnlen_klen: "length name \<le> 255 \<Longrightarrow> word_of_nat (strnlen name 255) = klen name"
  by (simp add: strnlen_def)

lemma list_key_facts:
  "key_bytes list_key = lkey" "key_readable list_key" "unat (key_length list_key) = 15" "key_ptr list_key \<noteq> None"
  by (simp_all add: list_key_def name_key_def key_bytes_def key_readable_def ptr_bytes_def lkey_def KEY_SPACE_LIST_KEY_NAME_def)

section \<open>Calls on the metadata key space\<close>

text \<open>A key that passes the checks of the device library, and a value of legal size.\<close>

definition meta_key :: "kv_key \<Rightarrow> bool" where
  "meta_key k \<longleftrightarrow> key_ptr k \<noteq> None \<and> key_readable k \<and> 4 \<le> unat (key_length k) \<and> unat (key_length k) \<le> 255"

abbreviation (input) meta_value :: "byte list \<Rightarrow> u32 \<Rightarrow> kv_value" where
  "meta_value buf n \<equiv> \<lparr>value_ptr = Some buf, value_length = n, actual_value_size = 0, value_offset = 0\<rparr>"

lemma meta_key_validates:
  assumes "meta_key k" and "unat n \<le> 2097152"
  shows "validate_key_value k (Some (meta_value buf n)) = KV_SUCCESS" and "validate_key_value k None = KV_SUCCESS"
  using assms by (auto simp: meta_key_def validate_key_value_def)

lemma meta_key_list: "meta_key list_key"
  using list_key_facts by (simp add: meta_key_def)

lemma meta_key_name: "4 \<le> length name \<Longrightarrow> length name \<le> 255 \<Longrightarrow> meta_key (name_key (klen name) name)"
  using name_key_entry [of name] by (cases name) (auto simp: meta_key_def)

context kvs_driver_api
begin

lemma meta_store:
  assumes "inv d" and "meta_key k" and "unat n \<le> length buf" and "unat n \<le> 2097152"
  shows "\<exists>d'. sync_io_to_meta_keyspace D k (Some (meta_value buf n)) (META_STORE KVS_STORE_POST) d =
      Returns (KVS_SUCCESS, Some (meta_value buf n), d')
    \<and> inv d' \<and> contents d' = contents_upd (contents d) 0 (key_bytes k) (Some (take (unat n) buf))"
proof -
  have "value_readable (meta_value buf n)" using assms(3) by (simp add: value_readable_def ptr_bytes_def)
  from store_law [OF assms(1) _ this, of k 0 KVS_STORE_POST] assms(2) show ?thesis
    by (auto simp: sync_io_to_meta_keyspace_def store_spec_def trans_store_cmd_opt_def meta_key_def
        meta_key_validates [OF assms(2,4)] spec_store_def convert_return_code_def value_bytes_def ptr_bytes_def)
qed

lemma meta_store_new:
  assumes "inv d" and "meta_key k" and "unat n \<le> length buf" and "unat n \<le> 2097152"
  shows "\<exists>d'. sync_io_to_meta_keyspace D k (Some (meta_value buf n)) (META_STORE KVS_STORE_NOOVERWRITE) d =
      Returns (if contents d 0 (key_bytes k) = None then KVS_SUCCESS else KVS_ERR_VALUE_UPDATE_NOT_ALLOWED, Some (meta_value buf n), d')
    \<and> inv d' \<and> contents d' = (if contents d 0 (key_bytes k) = None
        then contents_upd (contents d) 0 (key_bytes k) (Some (take (unat n) buf)) else contents d)"
proof -
  have "value_readable (meta_value buf n)" using assms(3) by (simp add: value_readable_def ptr_bytes_def)
  from store_law [OF assms(1) _ this, of k 0 KVS_STORE_NOOVERWRITE] assms(2) show ?thesis
    by (auto simp: sync_io_to_meta_keyspace_def store_spec_def trans_store_cmd_opt_def meta_key_def
        meta_key_validates [OF assms(2,4)] spec_store_def convert_return_code_def value_bytes_def ptr_bytes_def)
qed

text \<open>A store under a key that is too short.\<close>

lemma meta_store_short:
  assumes "inv d" and "key_readable k" and "key_ptr k \<noteq> None" and "unat (key_length k) < 4" and "unat n \<le> length buf"
  shows "\<exists>d'. sync_io_to_meta_keyspace D k (Some (meta_value buf n)) (META_STORE KVS_STORE_NOOVERWRITE) d =
      Returns (KVS_ERR_KEY_LENGTH_INVALID, Some (meta_value buf n), d') \<and> inv d' \<and> contents d' = contents d"
proof -
  have "value_readable (meta_value buf n)" using assms(5) by (simp add: value_readable_def ptr_bytes_def)
  moreover have "validate_key_value k (Some (meta_value buf n)) = KV_ERR_KEY_LENGTH_INVALID"
    using assms(3,4) by (auto simp: validate_key_value_def)
  ultimately show ?thesis
    using store_law [OF assms(1,2), of "meta_value buf n" 0 KVS_STORE_NOOVERWRITE]
    by (auto simp: sync_io_to_meta_keyspace_def store_spec_def trans_store_cmd_opt_def convert_return_code_def)
qed

lemma meta_retrieve:
  assumes "inv d" and "meta_key k" and "unat n = length buf" and "unat n \<le> 2097152"
  shows "\<exists>d'. inv d' \<and> contents d' = contents d \<and>
    (case contents d 0 (key_bytes k) of
       None \<Rightarrow> \<exists>v. sync_io_to_meta_keyspace D k (Some (meta_value buf n)) (META_RETRIEVE False) d = Returns (KVS_ERR_KEY_NOT_EXIST, v, d')
     | Some x \<Rightarrow>
         if unat n < length x
         then \<exists>v. sync_io_to_meta_keyspace D k (Some (meta_value buf n)) (META_RETRIEVE False) d = Returns (KVS_ERR_BUFFER_SMALL, v, d')
         else \<exists>w. sync_io_to_meta_keyspace D k (Some (meta_value buf n)) (META_RETRIEVE False) d = Returns (KVS_SUCCESS, Some w, d')
           \<and> value_ptr w = Some (mem_write buf 0 x) \<and> value_length w = word_of_nat (length x))"
proof -
  have "value_readable (meta_value buf n)" using assms(3) by (simp add: value_readable_def ptr_bytes_def)
  from retrieve_law [OF assms(1) _ this, of k 0 False] assms(2) obtain d' where
    d': "retrieve_tuple D 0 (Some k) (Some (meta_value buf n)) False True d =
        Returns (fst (retrieve_spec 0 k (meta_value buf n) False (contents d)),
          Some (snd (retrieve_spec 0 k (meta_value buf n) False (contents d))), d')" "inv d'" "contents d' = contents d"
    by (auto simp: meta_key_def)
  then show ?thesis
    by (intro exI [of _ d'] conjI)
      (auto simp: sync_io_to_meta_keyspace_def retrieve_spec_def meta_key_validates [OF assms(2,4)] spec_retrieve_def
        convert_return_code_def Let_def min_def split: option.split)
qed

lemma meta_delete:
  assumes "inv d" and "meta_key k"
  shows "\<exists>d'. sync_io_to_meta_keyspace D k None (META_DELETE True) d =
      Returns (if contents d 0 (key_bytes k) = None then KVS_ERR_KEY_NOT_EXIST else KVS_SUCCESS, None, d')
    \<and> inv d' \<and> contents d' = contents_upd (contents d) 0 (key_bytes k) None"
proof -
  have "contents d 0 (key_bytes k) = None \<Longrightarrow> contents_upd (contents d) 0 (key_bytes k) None = contents d"
    by (auto simp: contents_upd_def fun_eq_iff)
  with delete_law [OF assms(1), of k 0 True] assms(2) show ?thesis
    by (auto simp: sync_io_to_meta_keyspace_def delete_spec_def meta_key_def spec_delete_def
        meta_key_validates(2) [OF assms(2), of 0] convert_return_code_def)
qed

lemma entry_exists:
  assumes "inv d" and "4 \<le> length name" and "length name \<le> 255"
  shows "\<exists>d'. exist_key_space_entry D name d =
      Returns (KVS_SUCCESS, of_bool (contents d 0 (ekey name) \<noteq> None), d') \<and> inv d' \<and> contents d' = contents d"
proof -
  let ?k = "name_key (klen name) name"
  have "name \<noteq> []" using assms(2) by auto
  note k = meta_key_name [OF assms(2,3)] name_key_entry(1) [OF this assms(3)]
  have v: "validate_keys 1 [?k] = Some KV_SUCCESS" using meta_key_validates(2) [OF k(1), of 0] by simp
  let ?l = "\<lparr>el_num_keys = 1, el_keys = [?k], el_length = 1, el_result_buffer = Some [0]\<rparr>"
  have e: "exist_spec 0 1 [?k] 1 [0] (contents d) = (KVS_SUCCESS, [of_bool (contents d 0 (ekey name) \<noteq> None)])"
    using v k(2) by (simp add: exist_spec_def spec_exist_def exist_bytes_def mem_write_def convert_return_code_def)
  have "key_readable ?k" using k(1) by (simp add: meta_key_def)
  with exist_law [OF assms(1), of "[?k]" 1 ?l "[0]" 0] e show ?thesis
    by (auto simp: exist_key_space_entry_def Let_def)
qed

end

section \<open>The directory\<close>

text \<open>An allocation has the size that was asked for.\<close>

definition fresh_ok :: "(nat \<Rightarrow> byte list) \<Rightarrow> bool" where
  "fresh_ok fresh \<longleftrightarrow> (\<forall>n. length (fresh n) = n)"

text \<open>The list record: absent or empty without a key space, and its name with one.\<close>

definition list_rec :: "kv_contents \<Rightarrow> byte list option \<Rightarrow> bool" where
  "list_rec C l \<longleftrightarrow>
     (case l of
        None \<Rightarrow> C 0 lkey = None \<or> C 0 lkey = Some [0]
      | Some nm \<Rightarrow> C 0 lkey = Some (one_list_bytes nm 1) \<and> nm \<noteq> [] \<and> length nm \<le> 255 \<and> 0 \<notin> set nm)"

type_synonym directory = "(byte list \<times> ks_metadata) option"

text \<open>The contents of the metadata key space for a directory.\<close>

definition meta_rep :: "kv_contents \<Rightarrow> directory \<Rightarrow> bool" where
  "meta_rep C dir \<longleftrightarrow>
     list_rec C (map_option fst dir) \<and>
     (\<forall>k. k \<noteq> lkey \<longrightarrow> C 0 k = (case dir of Some (nm, md) \<Rightarrow> if k = ekey nm then Some (metadata_bytes md) else None | None \<Rightarrow> None)) \<and>
     (\<forall>nm md. dir = Some (nm, md) \<longrightarrow> 4 \<le> length nm \<and> ekey nm \<noteq> lkey \<and> md_keyspace_id md = 1)"

lemma payload_size_27: "get_key_space_payload_size = 27"
  by (simp add: get_key_space_payload_size_def)

lemma payload_size [simp]: "unat get_key_space_payload_size = 27" "(ucast get_key_space_payload_size :: u32) = 27"
  "(get_key_space_payload_size - 1) div 4 * 4 + 4 = 28"
  unfolding payload_size_27 by (simp_all add: word_unat_eq_iff unat_div unat_word_ariths)

lemma sizeof_list [simp]: "sizeof_ks_list = 258"
  by (simp add: sizeof_ks_list_def)

lemma find_name_one:
  assumes "0 \<notin> set nm" and "length nm \<le> 255"
  shows "find_name name [\<lparr>names_buffer = name_bytes nm, le_keyspace_id = i\<rparr>] = (if take 255 name = nm then Some 0 else None)"
  using assms by (simp add: strncmp_eq_def cstr_name_bytes)

lemma one_list_rec_new:
  "list_rec (contents_upd C 0 lkey (Some (one_list_bytes nm 1))) (Some nm)"
  if "nm \<noteq> []" "length nm \<le> 255" "0 \<notin> set nm"
  using that by (simp add: list_rec_def contents_upd_def)

context kvs_driver_api
begin

lemma retrieve_list:
  assumes "inv d" and "fresh_ok fresh" and "list_rec (contents d) l"
  shows "\<exists>d'. retreive_key_space_list D fresh ks_list_zero d =
      Returns (KVS_SUCCESS, (case l of None \<Rightarrow> ks_list_zero | Some nm \<Rightarrow> one_list nm 1), d') \<and> inv d' \<and> contents d' = contents d"
proof -
  have len: "unat (260 :: u32) = length (fresh 260)" using assms(2) by (simp add: fresh_ok_def)
  have z: "ks_list_zero\<lparr>ks_num := 0\<rparr> = ks_list_zero" by (simp add: ks_list_zero_def)
  obtain d' where d': "inv d'" "contents d' = contents d"
    and r: "case contents d 0 lkey of
       None \<Rightarrow> \<exists>v. sync_io_to_meta_keyspace D list_key (Some (meta_value (fresh 260) 260)) (META_RETRIEVE False) d = Returns (KVS_ERR_KEY_NOT_EXIST, v, d')
     | Some x \<Rightarrow>
         if unat (260 :: u32) < length x
         then \<exists>v. sync_io_to_meta_keyspace D list_key (Some (meta_value (fresh 260) 260)) (META_RETRIEVE False) d = Returns (KVS_ERR_BUFFER_SMALL, v, d')
         else \<exists>w. sync_io_to_meta_keyspace D list_key (Some (meta_value (fresh 260) 260)) (META_RETRIEVE False) d = Returns (KVS_SUCCESS, Some w, d')
           \<and> value_ptr w = Some (mem_write (fresh 260) 0 x) \<and> value_length w = word_of_nat (length x)"
    using meta_retrieve [OF assms(1) meta_key_list len] list_key_facts(1) by auto
  have p0: "parse_key_space_list_payload (mem_write (fresh 260) 0 [0]) 1 ks_list_zero = Some ks_list_zero"
    by (simp add: mem_write_def parse_no_list)
  have p1: "parse_key_space_list_payload (mem_write (fresh 260) 0 (one_list_bytes nm 1)) 258 ks_list_zero = Some (one_list nm 1)"
    if "length nm \<le> 255" for nm
    using parse_one_list [OF that, of 258 1 "drop 258 (fresh 260)"] that by (simp add: mem_write_def)
  show ?thesis
    using r d' assms(3) p0 p1
    by (intro exI [of _ d']) (cases l; auto simp: retreive_key_space_list_def list_rec_def z Let_def)
qed

lemma store_list_one:
  assumes "inv d" and "fresh_ok fresh" and "length nm \<le> 255"
  shows "\<exists>d'. store_key_space_list D fresh (one_list nm 1) d = Returns (KVS_SUCCESS, d') \<and> inv d'
    \<and> contents d' = contents_upd (contents d) 0 lkey (Some (one_list_bytes nm 1))"
proof -
  have "construct_key_space_list_payload (one_list nm 1) (fresh 258) = Some (one_list_bytes nm 1, 258)"
    using construct_one_list [OF assms(3)] assms(2) by (simp add: fresh_ok_def)
  with meta_store [OF assms(1) meta_key_list, of 258 "one_list_bytes nm 1"] assms(3) list_key_facts(1) show ?thesis
    by (auto simp: store_key_space_list_def)
qed

lemma store_list_none:
  assumes "inv d" and "fresh_ok fresh"
  shows "\<exists>d'. store_key_space_list D fresh (l\<lparr>ks_num := 0\<rparr>) d = Returns (KVS_SUCCESS, d') \<and> inv d'
    \<and> contents d' = contents_upd (contents d) 0 lkey (Some [0])"
proof -
  have "construct_key_space_list_payload (l\<lparr>ks_num := 0\<rparr>) (fresh 258) = Some (0 # tl (fresh 258), 1)"
    using construct_no_list assms(2) by (simp add: fresh_ok_def)
  with meta_store [OF assms(1) meta_key_list, of 1 "0 # tl (fresh 258)"] list_key_facts(1) show ?thesis
    by (auto simp: store_key_space_list_def)
qed

lemma add_list_ok:
  assumes "inv d" and "fresh_ok fresh" and "list_rec (contents d) None"
    and nm: "nm \<noteq> []" "length nm \<le> 255" and i: "i = 0 \<or> i = 1"
  shows "\<exists>d'. add_to_key_space_list D fresh nm i d = Returns (KVS_SUCCESS, 1, d') \<and> inv d'
    \<and> contents d' = contents_upd (contents d) 0 lkey (Some (one_list_bytes nm 1))"
proof -
  obtain d1 where d1: "retreive_key_space_list D fresh ks_list_zero d = Returns (KVS_SUCCESS, ks_list_zero, d1)" "inv d1"
    "contents d1 = contents d" using retrieve_list [OF assms(1-3)] by auto
  have "\<lparr>ks_num = ks_num ks_list_zero + 1, ks_entries = (ks_entries ks_list_zero)[0 := \<lparr>names_buffer =
      snprintf_s (names_buffer (ks_entries ks_list_zero ! 0)) 256 nm, le_keyspace_id = 1\<rparr>]\<rparr> = one_list nm 1"
    using nm(2) by (simp add: ks_list_zero_def one_list_def snprintf_name)
  with d1 store_list_one [OF d1(2) assms(2) nm(2)] i show ?thesis
    by (auto simp: add_to_key_space_list_def ks_list_zero_def contain_keyspace_def search_an_avaliable_keyspace_id_def Let_def)
qed

lemma add_list_full:
  assumes "inv d" and "fresh_ok fresh" and "list_rec (contents d) (Some nm)"
  shows "\<exists>d'. add_to_key_space_list D fresh name i d = Returns (KVS_ERR_SYS_IO, i, d') \<and> inv d' \<and> contents d' = contents d"
  using retrieve_list [OF assms] by (auto simp: add_to_key_space_list_def one_list_def)

lemma remove_list:
  assumes "inv d" and "fresh_ok fresh" and "list_rec (contents d) l"
  shows "\<exists>d'. inv d' \<and>
    (if l \<noteq> None \<and> l = Some (take 255 name)
     then remove_from_key_space_list D fresh name i d = Returns (KVS_SUCCESS, 1, d')
       \<and> contents d' = contents_upd (contents d) 0 lkey (Some [0])
     else remove_from_key_space_list D fresh name i d = Returns (KVS_ERR_KS_NOT_EXIST, i, d') \<and> contents d' = contents d)"
proof (cases l)
  case None
  then show ?thesis
    using retrieve_list [OF assms] by (auto simp: remove_from_key_space_list_def ks_list_zero_def Let_def)
next
  case (Some nm)
  then have nm: "length nm \<le> 255" "0 \<notin> set nm" using assms(3) by (auto simp: list_rec_def)
  obtain d1 where d1: "retreive_key_space_list D fresh ks_list_zero d = Returns (KVS_SUCCESS, one_list nm 1, d1)" "inv d1"
    "contents d1 = contents d" using retrieve_list [OF assms] Some by auto
  have "\<lparr>ks_num = 0, ks_entries = ks_entries (one_list nm 1)\<rparr> = (one_list nm 1)\<lparr>ks_num := 0\<rparr>" by (simp add: one_list_def)
  with d1 Some store_list_none [OF d1(2) assms(2), of "one_list nm 1"] find_name_one [OF nm(2,1), of name 1] show ?thesis
    by (auto simp: remove_from_key_space_list_def one_list_def Let_def split: if_splits)
qed

text \<open>The record of a key space.\<close>

lemma retrieve_record:
  assumes "inv d" and "fresh_ok fresh" and nm: "4 \<le> length name" "length name \<le> 255"
    and C: "\<forall>x. contents d 0 (ekey name) = Some x \<longrightarrow> x = metadata_bytes md"
  shows "\<exists>d'. inv d' \<and> contents d' = contents d \<and> retrieve_key_space_metadata D fresh name c d =
      (if contents d 0 (ekey name) = None then Returns (KVS_ERR_KEY_NOT_EXIST, c, d') else Returns (KVS_SUCCESS, md, d'))"
proof -
  let ?k = "name_key (klen name) name"
  have "name \<noteq> []" using nm by auto
  note k = meta_key_name [OF nm] name_key_entry(1) [OF this nm(2)]
  have len: "unat (28 :: u32) = length (fresh 28)" using assms(2) by (simp add: fresh_ok_def)
  have p: "parse_key_space_metadata_payload (mem_write (fresh 28) 0 (metadata_bytes md)) = md"
    using parse_metadata [of md "drop 27 (fresh 28)"] by (simp add: mem_write_def)
  obtain d' where d': "inv d'" "contents d' = contents d"
    and r: "case contents d 0 (ekey name) of
       None \<Rightarrow> \<exists>v. sync_io_to_meta_keyspace D ?k (Some (meta_value (fresh 28) 28)) (META_RETRIEVE False) d = Returns (KVS_ERR_KEY_NOT_EXIST, v, d')
     | Some x \<Rightarrow>
         if unat (28 :: u32) < length x
         then \<exists>v. sync_io_to_meta_keyspace D ?k (Some (meta_value (fresh 28) 28)) (META_RETRIEVE False) d = Returns (KVS_ERR_BUFFER_SMALL, v, d')
         else \<exists>w. sync_io_to_meta_keyspace D ?k (Some (meta_value (fresh 28) 28)) (META_RETRIEVE False) d = Returns (KVS_SUCCESS, Some w, d')
           \<and> value_ptr w = Some (mem_write (fresh 28) 0 x) \<and> value_length w = word_of_nat (length x)"
    using meta_retrieve [OF assms(1) k(1) len] k(2) by auto
  show ?thesis
    using r d' C p
    by (intro exI [of _ d']) (cases "contents d 0 (ekey name)"; auto simp: retrieve_key_space_metadata_def Let_def)
qed

lemma store_record:
  assumes "inv d" and "fresh_ok fresh" and nm: "4 \<le> length name" "length name \<le> 255"
  shows "\<exists>d'. store_key_space_metadata D fresh name md KVS_STORE_POST d = Returns (KVS_SUCCESS, d') \<and> inv d'
    \<and> contents d' = contents_upd (contents d) 0 (ekey name) (Some (metadata_bytes md))"
proof -
  have "name \<noteq> []" using nm by auto
  note k = meta_key_name [OF nm] name_key_entry(1) [OF this nm(2)]
  have b: "construct_key_space_metadata_payload md (fresh 27) = metadata_bytes md"
    using assms(2) by (simp add: construct_metadata fresh_ok_def)
  from meta_store [OF assms(1) k(1), of 27 "metadata_bytes md"] show ?thesis
    by (auto simp: store_key_space_metadata_def b k(2) strnlen_klen [OF nm(2)] Let_def)
qed

lemma store_record_new:
  assumes "inv d" and "fresh_ok fresh" and nm: "name \<noteq> []" "length name \<le> 255"
  shows "\<exists>d'. inv d' \<and> store_key_space_metadata D fresh name md KVS_STORE_NOOVERWRITE d =
      Returns (if length name < 4 then KVS_ERR_KEY_LENGTH_INVALID
               else if contents d 0 (ekey name) = None then KVS_SUCCESS else KVS_ERR_VALUE_UPDATE_NOT_ALLOWED, d')
    \<and> contents d' = (if 4 \<le> length name \<and> contents d 0 (ekey name) = None
        then contents_upd (contents d) 0 (ekey name) (Some (metadata_bytes md)) else contents d)"
proof -
  note k = name_key_entry [OF nm]
  have b: "construct_key_space_metadata_payload md (fresh 27) = metadata_bytes md"
    using assms(2) by (simp add: construct_metadata fresh_ok_def)
  show ?thesis
  proof (cases "length name < 4")
    case True
    with meta_store_short [OF assms(1) k(2,4), of 27 "metadata_bytes md"] k(3) show ?thesis
      by (auto simp: store_key_space_metadata_def b strnlen_klen [OF nm(2)] Let_def)
  next
    case False
    then have "meta_key (name_key (klen name) name)" using meta_key_name nm by simp
    from meta_store_new [OF assms(1) this, of 27 "metadata_bytes md"] False show ?thesis
      by (auto simp: store_key_space_metadata_def b k(1) strnlen_klen [OF nm(2)] Let_def)
  qed
qed

end

section \<open>The specification of key spaces\<close>

text \<open>
  Creating, opening, closing and deleting a key space, on the directory. There is room for one
  key space; a name that is too short for a key and a name whose record would replace the list
  are refused; a name stands for every name with the same record.
\<close>

definition create_spec :: "byte list \<Rightarrow> u64 \<Rightarrow> directory \<Rightarrow> kvs_result \<times> directory" where
  "create_spec name sz dir =
     (if dir \<noteq> None then (KVS_ERR_SYS_IO, dir)
      else if length name < 4 then (KVS_ERR_KEY_LENGTH_INVALID, dir)
      else if ekey name = lkey then (KVS_ERR_VALUE_UPDATE_NOT_ALLOWED, dir)
      else (KVS_SUCCESS, Some (name, \<lparr>md_keyspace_id = 1, md_opened = 0, md_key_order = 0, md_capacity = sz,
                                      md_free_size = 0, md_kv_count = 0\<rparr>)))"

definition set_opened :: "u8 \<Rightarrow> directory \<Rightarrow> directory" where
  "set_opened b dir = map_option (\<lambda>(nm, md). (nm, md\<lparr>md_opened := b\<rparr>)) dir"

definition has_record :: "byte list \<Rightarrow> directory \<Rightarrow> bool" where
  "has_record name dir \<longleftrightarrow> (\<exists>nm md. dir = Some (nm, md) \<and> ekey nm = ekey name)"

definition open_spec :: "byte list \<Rightarrow> directory \<Rightarrow> (kvs_result \<times> u8) \<times> directory" where
  "open_spec name dir =
     (if has_record name dir then ((KVS_SUCCESS, 1), set_opened 1 dir) else ((KVS_ERR_KS_NOT_EXIST, 0), dir))"

definition close_spec :: "byte list \<Rightarrow> directory \<Rightarrow> kvs_result \<times> directory" where
  "close_spec name dir =
     (if has_record name dir then (KVS_SUCCESS, set_opened 0 dir) else (KVS_ERR_KEY_NOT_EXIST, dir))"

definition remove_spec :: "byte list \<Rightarrow> directory \<Rightarrow> kvs_result \<times> directory" where
  "remove_spec name dir =
     (if map_option fst dir = Some name then (KVS_SUCCESS, None) else (KVS_ERR_KS_NOT_EXIST, dir))"

context kvs_driver_api
begin

lemma create_refines:
  assumes d: "inv d" and f: "fresh_ok fresh" and rep: "meta_rep (contents d) dir"
    and nm: "name \<noteq> []" "length name \<le> 255" "0 \<notin> set name"
  shows "\<exists>d'. create_on_device D fresh name sz KVS_KEY_ORDER_NONE d = Returns (fst (create_spec name sz dir), d')
    \<and> inv d' \<and> meta_rep (contents d') (snd (create_spec name sz dir)) \<and> contents d' 1 = contents d 1"
proof (cases dir)
  case (Some p)
  then have "list_rec (contents d) (Some (fst p))" using rep by (simp add: meta_rep_def)
  from add_list_full [OF d f this, of name 0] Some rep show ?thesis
    by (auto simp: create_on_device_def create_spec_def)
next
  case None
  let ?md = "\<lparr>md_keyspace_id = 1, md_opened = 0, md_key_order = 0, md_capacity = sz, md_free_size = 0, md_kv_count = 0\<rparr>"
  have l: "list_rec (contents d) None" and empty: "\<And>k. k \<noteq> lkey \<Longrightarrow> contents d 0 k = None"
    using rep None by (simp_all add: meta_rep_def)
  obtain d1 where d1: "add_to_key_space_list D fresh name 0 d = Returns (KVS_SUCCESS, 1, d1)" "inv d1"
    "contents d1 = contents_upd (contents d) 0 lkey (Some (one_list_bytes name 1))"
    using add_list_ok [OF d f l nm(1,2), of 0] by auto
  obtain d2 where d2: "inv d2" "store_key_space_metadata D fresh name ?md KVS_STORE_NOOVERWRITE d1 =
      Returns (if length name < 4 then KVS_ERR_KEY_LENGTH_INVALID
               else if contents d1 0 (ekey name) = None then KVS_SUCCESS else KVS_ERR_VALUE_UPDATE_NOT_ALLOWED, d2)"
    "contents d2 = (if 4 \<le> length name \<and> contents d1 0 (ekey name) = None
        then contents_upd (contents d1) 0 (ekey name) (Some (metadata_bytes ?md)) else contents d1)"
    using store_record_new [OF d1(2) f nm(1,2), of ?md] by blast
  have new: "contents d1 0 (ekey name) = None \<longleftrightarrow> ekey name \<noteq> lkey"
    using empty by (auto simp: d1(3) contents_upd_def)
  have lr: "list_rec (contents d1) (Some name)" unfolding d1(3) by (rule one_list_rec_new [OF nm])
  show ?thesis
  proof (cases "4 \<le> length name \<and> ekey name \<noteq> lkey")
    case True
    then have "contents d2 = contents_upd (contents d1) 0 (ekey name) (Some (metadata_bytes ?md))" using d2(3) new by simp
    with True have "meta_rep (contents d2) (Some (name, ?md))" "contents d2 1 = contents d 1"
      using lr empty d1(3) by (auto simp: meta_rep_def list_rec_def contents_upd_def)
    with True d1 d2 new None show ?thesis
      by (auto simp: create_on_device_def create_key_space_entry_def create_spec_def)
  next
    case False
    then have c2: "contents d2 = contents d1" using d2(3) new by auto
    obtain d3 where d3: "remove_from_key_space_list D fresh name 1 d2 = Returns (KVS_SUCCESS, 1, d3)" "inv d3"
      "contents d3 = contents_upd (contents d2) 0 lkey (Some [0])"
      using remove_list [OF d2(1) f, of "Some name" name 1] lr c2 nm(2) by auto
    have "meta_rep (contents d3) None" "contents d3 1 = contents d 1"
      using empty d1(3) d3(3) c2 by (auto simp: meta_rep_def list_rec_def contents_upd_def)
    with False d1 d2(1,2) d3 new None show ?thesis
      by (auto simp: create_on_device_def create_key_space_entry_def create_spec_def)
  qed
qed

lemma record_contents:
  assumes "meta_rep C dir" and "ekey name \<noteq> lkey"
  shows "C 0 (ekey name) = (if has_record name dir then Some (metadata_bytes (snd (the dir))) else None)"
  using assms by (auto simp: meta_rep_def has_record_def split: option.splits)

text \<open>A new record of the key space leaves the list as it is.\<close>

lemma set_opened_rep:
  assumes rep: "meta_rep C dir" and "has_record name dir"
  shows "meta_rep (contents_upd C 0 (ekey name) (Some (metadata_bytes ((snd (the dir))\<lparr>md_opened := b\<rparr>)))) (set_opened b dir)"
  using assms by (auto simp: has_record_def meta_rep_def set_opened_def contents_upd_def list_rec_def)

lemma retrieve_rep:
  assumes "inv d" and "fresh_ok fresh" and "meta_rep (contents d) dir"
    and nm: "4 \<le> length name" "length name \<le> 255" "ekey name \<noteq> lkey"
  shows "\<exists>d'. inv d' \<and> contents d' = contents d \<and> retrieve_key_space_metadata D fresh name c d =
      (if has_record name dir then Returns (KVS_SUCCESS, snd (the dir), d') else Returns (KVS_ERR_KEY_NOT_EXIST, c, d'))"
proof -
  note r = record_contents [OF assms(3) nm(3)]
  then have "\<forall>x. contents d 0 (ekey name) = Some x \<longrightarrow> x = metadata_bytes (snd (the dir))" by simp
  from retrieve_record [OF assms(1,2) nm(1,2) this, of c] show ?thesis
    by (cases "has_record name dir") (auto simp: r)
qed

lemma open_refines:
  assumes d: "inv d" and f: "fresh_ok fresh" and rep: "meta_rep (contents d) dir"
    and nm: "4 \<le> length name" "length name \<le> 255" "ekey name \<noteq> lkey"
  shows "\<exists>d'. open_on_device D fresh name d = Returns (fst (open_spec name dir), d')
    \<and> inv d' \<and> meta_rep (contents d') (snd (open_spec name dir)) \<and> contents d' 1 = contents d 1"
proof -
  let ?md = "snd (the dir)"
  note c = record_contents [OF rep nm(3)]
  obtain d1 where d1: "exist_key_space_entry D name d =
      Returns (KVS_SUCCESS, of_bool (contents d 0 (ekey name) \<noteq> None), d1)" "inv d1" "contents d1 = contents d"
    using entry_exists [OF d nm(1,2)] by auto
  show ?thesis
  proof (cases "has_record name dir")
    case False
    with d1 c rep show ?thesis by (auto simp: open_on_device_def open_spec_def)
  next
    case True
    obtain d2 where d2: "inv d2" "contents d2 = contents d"
      "retrieve_key_space_metadata D fresh name ks_metadata_zero d1 = Returns (KVS_SUCCESS, ?md, d2)"
      using retrieve_rep [OF d1(2) f _ nm, of dir ks_metadata_zero] d1(3) rep True by auto
    obtain d3 where d3: "store_key_space_metadata D fresh name (?md\<lparr>md_opened := 1\<rparr>) KVS_STORE_POST d2 = Returns (KVS_SUCCESS, d3)"
      "inv d3" "contents d3 = contents_upd (contents d) 0 (ekey name) (Some (metadata_bytes (?md\<lparr>md_opened := 1\<rparr>)))"
      using store_record [OF d2(1) f nm(1,2)] d2(2) by auto
    have "md_keyspace_id ?md = 1" using True rep by (auto simp: has_record_def meta_rep_def)
    with d1 c True d2(3) d3(1) nm(2) have "open_on_device D fresh name d = Returns (fst (open_spec name dir), d3)"
      by (simp add: open_on_device_def open_key_space_def open_spec_def)
    moreover have "meta_rep (contents d3) (snd (open_spec name dir))" "contents d3 1 = contents d 1"
      using set_opened_rep [OF rep True, of 1] True by (simp_all add: open_spec_def d3(3) contents_upd_def)
    ultimately show ?thesis using d3(2) by blast
  qed
qed

lemma close_refines:
  assumes d: "inv d" and f: "fresh_ok fresh" and rep: "meta_rep (contents d) dir"
    and nm: "4 \<le> length name" "length name \<le> 255" "ekey name \<noteq> lkey"
  shows "\<exists>d'. close_key_space D fresh name d = Returns (fst (close_spec name dir), d')
    \<and> inv d' \<and> meta_rep (contents d') (snd (close_spec name dir)) \<and> contents d' 1 = contents d 1"
proof -
  let ?md = "snd (the dir)"
  obtain d1 where d1: "inv d1" "contents d1 = contents d" "retrieve_key_space_metadata D fresh name ks_metadata_zero d =
      (if has_record name dir then Returns (KVS_SUCCESS, ?md, d1) else Returns (KVS_ERR_KEY_NOT_EXIST, ks_metadata_zero, d1))"
    using retrieve_rep [OF d f rep nm, of ks_metadata_zero] by blast
  show ?thesis
  proof (cases "has_record name dir")
    case False
    with d1 rep show ?thesis by (auto simp: close_key_space_def close_spec_def)
  next
    case True
    obtain d2 where d2: "store_key_space_metadata D fresh name (?md\<lparr>md_opened := 0\<rparr>) KVS_STORE_POST d1 = Returns (KVS_SUCCESS, d2)"
      "inv d2" "contents d2 = contents_upd (contents d) 0 (ekey name) (Some (metadata_bytes (?md\<lparr>md_opened := 0\<rparr>)))"
      using store_record [OF d1(1) f nm(1,2)] d1(2) by auto
    have "meta_rep (contents d2) (snd (close_spec name dir))" "contents d2 1 = contents d 1"
      using set_opened_rep [OF rep True, of 0] True by (simp_all add: close_spec_def d2(3) contents_upd_def)
    with d1(3) True d2 show ?thesis by (auto simp: close_key_space_def close_spec_def)
  qed
qed

lemma remove_effect:
  assumes d: "inv d" and f: "fresh_ok fresh" and rep: "meta_rep (contents d) dir" and nm: "length name \<le> 255"
  shows "\<exists>d'. delete_on_device D fresh name d = Returns (fst (remove_spec name dir), d')
    \<and> inv d' \<and> meta_rep (contents d') (snd (remove_spec name dir)) \<and> contents d' 1 = contents d 1
    \<and> (map_option fst dir = Some name \<longrightarrow> contents d' 0 lkey = Some [0])"
proof -
  have l: "list_rec (contents d) (map_option fst dir)" using rep by (simp add: meta_rep_def)
  obtain d1 where d1: "inv d1" "if map_option fst dir = Some name
     then remove_from_key_space_list D fresh name 0 d = Returns (KVS_SUCCESS, 1, d1)
       \<and> contents d1 = contents_upd (contents d) 0 lkey (Some [0])
     else remove_from_key_space_list D fresh name 0 d = Returns (KVS_ERR_KS_NOT_EXIST, 0, d1) \<and> contents d1 = contents d"
    using remove_list [OF d f l, of name 0] nm by (auto split: if_splits)
  show ?thesis
  proof (cases "map_option fst dir = Some name")
    case False
    with d1 rep show ?thesis by (auto simp: delete_on_device_def remove_spec_def)
  next
    case True
    then obtain md where dir: "dir = Some (name, md)" by auto
    with rep have n: "4 \<le> length name" "ekey name \<noteq> lkey" by (auto simp: meta_rep_def)
    then have ne: "name \<noteq> []" by auto
    have k: "contents d1 0 (ekey name) \<noteq> None" using True d1(2) rep dir n by (auto simp: meta_rep_def contents_upd_def)
    note mk = meta_key_name [OF n(1) nm] name_key_entry(1) [OF ne nm]
    obtain d2 where d2: "sync_io_to_meta_keyspace D (name_key (klen name) name) None (META_DELETE True) d1 = Returns (KVS_SUCCESS, None, d2)"
      "inv d2" "contents d2 = contents_upd (contents d1) 0 (ekey name) None"
      using meta_delete [OF d1(1) mk(1)] k mk(2) by auto
    have "meta_rep (contents d2) None" "contents d2 1 = contents d 1" "contents d2 0 lkey = Some [0]"
      using True d1(2) rep dir n by (auto simp: d2(3) meta_rep_def contents_upd_def list_rec_def)
    with True d1(2) d2 show ?thesis by (auto simp: delete_on_device_def delete_key_space_entry_def remove_spec_def)
  qed
qed

lemma remove_refines:
  assumes "inv d" and "fresh_ok fresh" and "meta_rep (contents d) dir" and "length name \<le> 255"
  shows "\<exists>d'. delete_on_device D fresh name d = Returns (fst (remove_spec name dir), d')
    \<and> inv d' \<and> meta_rep (contents d') (snd (remove_spec name dir)) \<and> contents d' 1 = contents d 1"
  using remove_effect [OF assms] by blast

text \<open>With an empty list on the device, a name whose record would be the list opens the metadata key space.\<close>

lemma open_list_name:
  assumes d: "inv d" and f: "fresh_ok fresh" and c: "contents d 0 lkey = Some [0]" and nm: "ekey name = lkey" "4 \<le> length name" "length name \<le> 255"
  shows "\<exists>d'. open_on_device D fresh name d = Returns ((KVS_SUCCESS, META_DATA_KEYSPACE_ID), d')
    \<and> (\<exists>x. contents d' 0 lkey = Some x \<and> length x = 27)"
proof -
  let ?k = "name_key (klen name) name" let ?md = "parse_key_space_metadata_payload (mem_write (fresh 28) 0 [0])"
  have ne: "name \<noteq> []" using nm by auto
  note k = meta_key_name [OF nm(2,3)] name_key_entry(1) [OF ne nm(3), unfolded nm(1)]
  have len: "unat (28 :: u32) = length (fresh 28)" using f by (simp add: fresh_ok_def)
  have id: "md_keyspace_id ?md = 0"
    by (simp add: parse_key_space_metadata_payload_def copy_payload_to_int_def mem_write_def)
  obtain d1 where d1: "exist_key_space_entry D name d = Returns (KVS_SUCCESS, 1, d1)" "inv d1" "contents d1 = contents d"
    using entry_exists [OF d nm(2,3)] c nm(1) by auto
  obtain d2 w where d2: "sync_io_to_meta_keyspace D ?k (Some (meta_value (fresh 28) 28)) (META_RETRIEVE False) d1 = Returns (KVS_SUCCESS, Some w, d2)"
    "value_ptr w = Some (mem_write (fresh 28) 0 [0])" "inv d2" "contents d2 = contents d"
    using meta_retrieve [OF d1(2) k(1) len] d1(3) k(2) c by (auto split: if_splits)
  obtain d3 where d3: "store_key_space_metadata D fresh name (?md\<lparr>md_opened := 1\<rparr>) KVS_STORE_POST d2 = Returns (KVS_SUCCESS, d3)"
    "contents d3 = contents_upd (contents d) 0 lkey (Some (metadata_bytes (?md\<lparr>md_opened := 1\<rparr>)))"
    using store_record [OF d2(3) f nm(2,3)] d2(4) nm(1) by auto
  have "open_on_device D fresh name d = Returns ((KVS_SUCCESS, META_DATA_KEYSPACE_ID), d3)"
    using d1(1) d2(1,2) d3(1) nm(3) id by (simp add: open_on_device_def open_key_space_def retrieve_key_space_metadata_def Let_def)
  then show ?thesis using d3(2) by (auto simp: contents_upd_def)
qed

end

end
