(* ===== verification/Kv_Api_Spec.thy ===== *)
theory Kv_Api_Spec
  imports Kv_Key_Spaces
begin

text \<open>
  The specification of the KV API: what a sequence of calls returns, on an abstract state of open
  devices, each with at most one key space and its key-value pairs, and of open key spaces.
  \<open>api_step\<close> is a call of the functions of \<open>cfrontend.cpp\<close>, \<open>abs_step\<close> what it should do.
\<close>

section \<open>Calls and replies\<close>

datatype api_call =
    OpenDevice "string option" bool
  | CloseDevice "nat option"
  | CreateKeySpace "nat option" "kvs_key_space_name option" u64 kvs_key_order
  | DeleteKeySpace "nat option" "kvs_key_space_name option"
  | ListKeySpaces "nat option" u32 u32 "kvs_key_space_name list option" "u32 option"
  | OpenKeySpace "nat option" "byte list option" bool
  | CloseKeySpace "nat option"
  | KeySpaceInfo "nat option" bool
  | StoreKvp "nat option" "kv_key option" "kv_value option" "kvs_store_type option"
  | RetrieveKvp "nat option" "kv_key option" "bool option" "kv_value option"
  | DeleteKvp "nat option" "kv_key option" "bool option"
  | ExistKvPairs "nat option" u32 "kv_key list option" "kvs_exist_list option"

datatype api_reply =
    Status kvs_result
  | NewHandle kvs_result "nat option"
  | Names kvs_result "kvs_key_space_name list option" "u32 option"
  | Info kvs_result "kvs_key_space option"
  | Val kvs_result "kv_value option"
  | Present kvs_result "kvs_exist_list option"

text \<open>A call of the API. \<open>init\<close> makes the driver of a device, \<open>D\<close> are the functions of the driver.\<close>

fun api_step ::
    "host_env \<Rightarrow> (string \<Rightarrow> string \<Rightarrow> int \<Rightarrow> (kvs_result \<times> 'd) call) \<Rightarrow> 'd KvsDriver \<Rightarrow> (nat \<Rightarrow> byte list) \<Rightarrow>
     api_call \<Rightarrow> 'd g_env \<Rightarrow> (api_reply \<times> 'd g_env) call" where
  "api_step host init D fresh (OpenDevice uri dev_hd) env =
     andThen (kvs_open_device host init uri dev_hd env) (\<lambda>(r, h, env'). Returns (NewHandle r h, env'))"
| "api_step host init D fresh (CloseDevice a) env =
     andThen (kvs_close_device D a env) (\<lambda>(r, env'). Returns (Status r, env'))"
| "api_step host init D fresh (CreateKeySpace a name sz key_ordering) env =
     andThen (kvs_create_key_space D fresh a name sz key_ordering env) (\<lambda>(r, env'). Returns (Status r, env'))"
| "api_step host init D fresh (DeleteKeySpace a name) env =
     andThen (kvs_delete_key_space D fresh a name env) (\<lambda>(r, env'). Returns (Status r, env'))"
| "api_step host init D fresh (ListKeySpaces a index sz names cnt) env =
     andThen (kvs_list_key_spaces D fresh a index sz names cnt env) (\<lambda>(r, ns, n, env'). Returns (Names r ns n, env'))"
| "api_step host init D fresh (OpenKeySpace a name ks_hd) env =
     andThen (kvs_open_key_space D fresh a name ks_hd env) (\<lambda>(r, h, env'). Returns (NewHandle r h, env'))"
| "api_step host init D fresh (CloseKeySpace k) env =
     andThen (kvs_close_key_space D fresh k env) (\<lambda>(r, env'). Returns (Status r, env'))"
| "api_step host init D fresh (KeySpaceInfo k ks) env =
     andThen (kvs_get_key_space_info D fresh k ks env) (\<lambda>(r, i, env'). Returns (Info r i, env'))"
| "api_step host init D fresh (StoreKvp k key val opt) env =
     andThen (kvs_store_kvp D k key val opt env) (\<lambda>(r, _, env'). Returns (Status r, env'))"
| "api_step host init D fresh (RetrieveKvp k key opt val) env =
     andThen (kvs_retrieve_kvp D k key opt val env) (\<lambda>(r, v, env'). Returns (Val r v, env'))"
| "api_step host init D fresh (DeleteKvp k key opt) env =
     andThen (kvs_delete_kvp D k key opt env) (\<lambda>(r, _, env'). Returns (Status r, env'))"
| "api_step host init D fresh (ExistKvPairs k cnt keys l) env =
     andThen (kvs_exist_kv_pairs D k cnt keys l env) (\<lambda>(r, l', env'). Returns (Present r l', env'))"

fun api_run ::
    "host_env \<Rightarrow> (string \<Rightarrow> string \<Rightarrow> int \<Rightarrow> (kvs_result \<times> 'd) call) \<Rightarrow> 'd KvsDriver \<Rightarrow> (nat \<Rightarrow> byte list) \<Rightarrow>
     api_call list \<Rightarrow> 'd g_env \<Rightarrow> (api_reply list \<times> 'd g_env) call" where
  "api_run host init D fresh [] env = Returns ([], env)"
| "api_run host init D fresh (c # cs) env =
     andThen (api_step host init D fresh c env) (\<lambda>(r, env1).
       andThen (api_run host init D fresh cs env1) (\<lambda>(rs, env2). Returns (r # rs, env2)))"

section \<open>The abstract state\<close>

record abs_dev =
  ad_path :: string
  ad_dir :: directory
  ad_data :: "byte list \<rightharpoonup> byte list"

text \<open>The open devices, the open key spaces with their device and name, and the next handle.\<close>

record abs_env =
  ab_devs :: "nat \<rightharpoonup> abs_dev"
  ab_open :: "nat \<rightharpoonup> nat \<times> byte list"
  ab_next :: nat

definition abs_start :: abs_env where
  "abs_start = \<lparr>ab_devs = Map.empty, ab_open = Map.empty, ab_next = 0\<rparr>"

definition set_dev :: "nat \<Rightarrow> abs_dev \<Rightarrow> abs_env \<Rightarrow> abs_env" where
  "set_dev a dv ab = ab\<lparr>ab_devs := (ab_devs ab)(a \<mapsto> dv)\<rparr>"

text \<open>The open key space of a handle, or the error of a call on it.\<close>

definition abs_ks :: "nat option \<Rightarrow> abs_env \<Rightarrow> kvs_result + nat \<times> byte list" where
  "abs_ks k ab =
     (case k of None \<Rightarrow> Inl KVS_ERR_PARAM_INVALID
      | Some i \<Rightarrow> (case ab_open ab i of None \<Rightarrow> Inl KVS_ERR_KS_NOT_OPEN | Some p \<Rightarrow> Inr p))"

text \<open>A call on the pairs of an open key space.\<close>

definition abs_on_data ::
    "nat option \<Rightarrow> 'r \<Rightarrow> ((byte list \<rightharpoonup> byte list) \<Rightarrow> kvs_result \<times> 'r \<times> (byte list \<rightharpoonup> byte list)) \<Rightarrow> abs_env \<Rightarrow>
     kvs_result \<times> 'r \<times> abs_env" where
  "abs_on_data k unset g ab =
     (case abs_ks k ab of
        Inl r \<Rightarrow> (r, unset, ab)
      | Inr (a, _) \<Rightarrow>
          let dv = the (ab_devs ab a) in
          case g (ad_data dv) of (r, x, data) \<Rightarrow> (r, x, set_dev a (dv\<lparr>ad_data := data\<rparr>) ab))"

text \<open>The calls on the pairs, on the map of the user data. They are the ones of the driver on key space 1.\<close>

definition data_store :: "kv_key option \<Rightarrow> kv_value option \<Rightarrow> kvs_store_type option \<Rightarrow> (byte list \<rightharpoonup> byte list) \<Rightarrow>
    kvs_result \<times> unit \<times> (byte list \<rightharpoonup> byte list)" where
  "data_store key val opt m =
     (case (key, val, opt) of
        (Some k, Some v, Some st) \<Rightarrow>
          if validate_request key val \<noteq> KVS_SUCCESS then (validate_request key val, (), m)
          else if st = KVS_STORE_POST \<or> st = KVS_STORE_NOOVERWRITE \<and> m (key_bytes k) = None
          then (KVS_SUCCESS, (), m(key_bytes k \<mapsto> value_bytes v))
          else (if st = KVS_STORE_NOOVERWRITE then KVS_ERR_VALUE_UPDATE_NOT_ALLOWED else KVS_ERR_OPTION_INVALID, (), m)
      | _ \<Rightarrow> (KVS_ERR_PARAM_INVALID, (), m))"

definition data_retrieve :: "kv_key option \<Rightarrow> bool option \<Rightarrow> kv_value option \<Rightarrow> (byte list \<rightharpoonup> byte list) \<Rightarrow>
    kvs_result \<times> kv_value option \<times> (byte list \<rightharpoonup> byte list)" where
  "data_retrieve key opt val m =
     (case (key, val, opt) of
        (Some k, Some v, Some del) \<Rightarrow>
          if validate_request key val \<noteq> KVS_SUCCESS then (validate_request key val, val, m)
          else if value_length v AND (4 - 1) \<noteq> 0 then (KVS_ERR_PARAM_INVALID, val, m)
          else (fst (retrieve_spec 1 k v del (\<lambda>_. m)), Some (snd (retrieve_spec 1 k v del (\<lambda>_. m))), m)
      | _ \<Rightarrow> (KVS_ERR_PARAM_INVALID, val, m))"

definition data_delete :: "kv_key option \<Rightarrow> bool option \<Rightarrow> (byte list \<rightharpoonup> byte list) \<Rightarrow>
    kvs_result \<times> unit \<times> (byte list \<rightharpoonup> byte list)" where
  "data_delete key opt m =
     (case (key, opt) of
        (Some k, Some err) \<Rightarrow>
          if validate_request key None \<noteq> KVS_SUCCESS then (validate_request key None, (), m)
          else if err \<and> m (key_bytes k) = None then (KVS_ERR_KEY_NOT_EXIST, (), m)
          else (KVS_SUCCESS, (), m(key_bytes k := None))
      | _ \<Rightarrow> (KVS_ERR_PARAM_INVALID, (), m))"

text \<open>One byte of the result has the presence of eight keys, the first one in the lowest bit.\<close>

definition data_exist :: "u32 \<Rightarrow> kv_key list \<Rightarrow> kvs_exist_list \<Rightarrow> (byte list \<rightharpoonup> byte list) \<Rightarrow>
    kvs_result \<times> kvs_exist_list option \<times> (byte list \<rightharpoonup> byte list)" where
  "data_exist cnt ks l m =
     (let present = exist_bytes (map (\<lambda>k. m (key_bytes k) \<noteq> None) ks) in
      if el_length l = 0 \<or> length present > unat (el_length l) then (KVS_ERR_BUFFER_SMALL, Some l, m)
      else (KVS_SUCCESS, Some (l\<lparr>el_result_buffer := map_option (\<lambda>b. mem_write b 0 present) (el_result_buffer l)\<rparr>), m))"

section \<open>The specification\<close>

text \<open>A buffer that claims the largest 32-bit length is left as it is.\<close>

definition key_space_names :: "kvs_key_space_name list \<Rightarrow> u32 \<Rightarrow> directory \<Rightarrow> kvs_result \<times> kvs_key_space_name list \<times> u32" where
  "key_space_names names sz dir =
     (case dir of
        None \<Rightarrow> (KVS_SUCCESS, names, 0)
      | Some (nm, _) \<Rightarrow>
          if sz div 16 = 0 \<or> length nm > unat (ksn_name_len (names ! 0)) then (KVS_ERR_SYS_IO, names, 0)
          else (KVS_SUCCESS, names[0 := \<lparr>ksn_name_len = word_of_nat (length nm),
                  ksn_name = (if ksn_name_len (names ! 0) = - 1 then ksn_name (names ! 0)
                    else map_option (\<lambda>b. mem_write b 0 (nm @ [0])) (ksn_name (names ! 0)))\<rparr>], 1))"

fun abs_step :: "api_call \<Rightarrow> abs_env \<Rightarrow> api_reply \<times> abs_env" where
  "abs_step (OpenDevice uri dev_hd) ab =
     (case uri of
        None \<Rightarrow> (NewHandle KVS_ERR_PARAM_INVALID None, ab)
      | Some p \<Rightarrow>
          if \<not> dev_hd \<or> p = [] \<or> length p > 255 then (NewHandle KVS_ERR_PARAM_INVALID None, ab)
          else if p \<in> ad_path ` ran (ab_devs ab) then (NewHandle KVS_ERR_SYS_IO None, ab)
          else (NewHandle KVS_SUCCESS (Some (ab_next ab)),
                set_dev (ab_next ab) \<lparr>ad_path = p, ad_dir = None, ad_data = Map.empty\<rparr> (ab\<lparr>ab_next := Suc (ab_next ab)\<rparr>)))"
| "abs_step (CloseDevice dev_hd) ab =
     (case dev_hd of
        None \<Rightarrow> (Status KVS_ERR_PARAM_INVALID, ab)
      | Some a \<Rightarrow>
          if ab_devs ab a = None then (Status KVS_ERR_DEV_NOT_OPENED, ab)
          else (Status KVS_SUCCESS, ab\<lparr>ab_devs := (ab_devs ab)(a := None),
                  ab_open := (\<lambda>k. if map_option fst (ab_open ab k) = Some a then None else ab_open ab k)\<rparr>))"
| "abs_step (CreateKeySpace dev_hd name sz key_ordering) ab =
     (case (name, Option.bind name ksn_name, dev_hd) of
        (Some ksn, Some nm, Some a) \<Rightarrow>
          if length nm \<noteq> unat (ksn_name_len ksn) \<or> nm = [] \<or> length nm > 255 then (Status KVS_ERR_KS_NAME, ab)
          else (case ab_devs ab a of
            None \<Rightarrow> (Status KVS_ERR_DEV_NOT_EXIST, ab)
          | Some dv \<Rightarrow>
              if key_ordering \<noteq> KVS_KEY_ORDER_NONE then (Status KVS_ERR_OPTION_INVALID, ab)
              else (case create_spec nm sz (ad_dir dv) of (r, dir) \<Rightarrow> (Status r, set_dev a (dv\<lparr>ad_dir := dir\<rparr>) ab)))
      | _ \<Rightarrow> (Status KVS_ERR_PARAM_INVALID, ab))"
| "abs_step (DeleteKeySpace dev_hd name) ab =
     (case (dev_hd, Option.bind name ksn_name) of
        (Some a, Some nm) \<Rightarrow>
          (case ab_devs ab a of
             None \<Rightarrow> (Status KVS_ERR_DEV_NOT_EXIST, ab)
           | Some dv \<Rightarrow>
               if (a, nm) \<in> ran (ab_open ab) then (Status KVS_ERR_SYS_IO, ab)
               else (case remove_spec nm (ad_dir dv) of (r, dir) \<Rightarrow> (Status r, set_dev a (dv\<lparr>ad_dir := dir\<rparr>) ab)))
      | _ \<Rightarrow> (Status KVS_ERR_PARAM_INVALID, ab))"
| "abs_step (ListKeySpaces dev_hd index sz names cnt) ab =
     (case (dev_hd, names, cnt) of
        (Some a, Some ns, Some _) \<Rightarrow>
          if index \<noteq> 1 then (Names KVS_ERR_KS_INDEX names cnt, ab)
          else (case ab_devs ab a of
            None \<Rightarrow> (Names KVS_ERR_DEV_NOT_EXIST names cnt, ab)
          | Some dv \<Rightarrow> (case key_space_names ns sz (ad_dir dv) of (r, ns', n) \<Rightarrow> (Names r (Some ns') (Some n), ab)))
      | _ \<Rightarrow> (Names KVS_ERR_PARAM_INVALID names cnt, ab))"
| "abs_step (OpenKeySpace dev_hd name ks_hd) ab =
     (case (dev_hd, name) of
        (Some a, Some nm) \<Rightarrow>
          if \<not> ks_hd then (NewHandle KVS_ERR_PARAM_INVALID None, ab)
          else if length nm < 4 \<or> length nm > 255 then (NewHandle KVS_ERR_KS_NAME None, ab)
          else (case ab_devs ab a of
            None \<Rightarrow> (NewHandle KVS_ERR_DEV_NOT_EXIST None, ab)
          | Some dv \<Rightarrow>
              if (a, nm) \<in> ran (ab_open ab) then (NewHandle KVS_ERR_KS_OPEN None, ab)
              else if \<not> has_record nm (ad_dir dv) then (NewHandle KVS_ERR_KS_NOT_EXIST None, ab)
              else (NewHandle KVS_SUCCESS (Some (ab_next ab)),
                    set_dev a (dv\<lparr>ad_dir := set_opened 1 (ad_dir dv)\<rparr>)
                      (ab\<lparr>ab_open := (ab_open ab)(ab_next ab \<mapsto> (a, nm)), ab_next := Suc (ab_next ab)\<rparr>)))
      | _ \<Rightarrow> (NewHandle KVS_ERR_PARAM_INVALID None, ab))"
| "abs_step (CloseKeySpace k) ab =
     (case abs_ks k ab of
        Inl r \<Rightarrow> (Status r, ab)
      | Inr (a, nm) \<Rightarrow>
          let dv = the (ab_devs ab a) in
          if has_record nm (ad_dir dv)
          then (Status KVS_SUCCESS, set_dev a (dv\<lparr>ad_dir := set_opened 0 (ad_dir dv)\<rparr>) (ab\<lparr>ab_open := (ab_open ab)(the k := None)\<rparr>))
          else (Status KVS_ERR_KEY_NOT_EXIST, ab))"
| "abs_step (KeySpaceInfo k ks) ab =
     (if \<not> ks then (Info KVS_ERR_PARAM_INVALID None, ab)
      else case abs_ks k ab of
        Inl r \<Rightarrow> (Info r None, ab)
      | Inr (a, nm) \<Rightarrow>
          let dv = the (ab_devs ab a) in
          if has_record nm (ad_dir dv)
          then (let m = snd (the (ad_dir dv)) in
                (Info KVS_SUCCESS (Some \<lparr>ks_is_opened = (md_opened m \<noteq> 0), ks_capacity = md_capacity m,
                   ks_free_size = md_free_size m, ks_count = md_kv_count m, ks_name = nm\<rparr>), ab))
          else (Info KVS_ERR_KEY_NOT_EXIST None, ab))"
| "abs_step (StoreKvp k key val opt) ab =
     (case abs_on_data k () (data_store key val opt) ab of (r, _, ab') \<Rightarrow> (Status r, ab'))"
| "abs_step (RetrieveKvp k key opt val) ab =
     (case abs_on_data k val (data_retrieve key opt val) ab of (r, v, ab') \<Rightarrow> (Val r v, ab'))"
| "abs_step (DeleteKvp k key opt) ab =
     (case abs_on_data k () (data_delete key opt) ab of (r, _, ab') \<Rightarrow> (Status r, ab'))"
| "abs_step (ExistKvPairs k cnt keys l) ab =
     (case (keys, l) of
        (Some ks, Some el) \<Rightarrow>
          if cnt = 0 \<or> el_result_buffer el = None then (Present KVS_ERR_PARAM_INVALID l, ab)
          else if validate_key_list (unat cnt) ks \<noteq> Some KVS_SUCCESS then (Present (the (validate_key_list (unat cnt) ks)) l, ab)
          else let el1 = el\<lparr>el_keys := ks, el_num_keys := cnt\<rparr> in
            (case abs_on_data k (Some el1) (data_exist cnt ks el1) ab of (r, l', ab') \<Rightarrow> (Present r l', ab'))
      | _ \<Rightarrow> (Present KVS_ERR_PARAM_INVALID l, ab))"

fun abs_run :: "api_call list \<Rightarrow> abs_env \<Rightarrow> api_reply list \<times> abs_env" where
  "abs_run [] ab = ([], ab)"
| "abs_run (c # cs) ab = (case abs_step c ab of (r, ab1) \<Rightarrow> case abs_run cs ab1 of (rs, ab2) \<Rightarrow> (r # rs, ab2))"

end
