(* ===== verification/Kv_Api_Correct.thy ===== *)
theory Kv_Api_Correct
  imports Kv_Api_Spec Kv_Driver_Correct
begin

text \<open>
  The KV API implements its specification: for every driver that keeps its contract each call
  returns, with the reply of the specification, and the environment still stands for the abstract
  state. The relation between the two is \<open>env_rel\<close>; there is one simulation lemma per call.
\<close>

section \<open>The simulation relation\<close>

text \<open>A driver stands for the directory and the user data of a device.\<close>

definition dev_rel :: "('d \<Rightarrow> bool) \<Rightarrow> ('d \<Rightarrow> kv_contents) \<Rightarrow> 'd \<Rightarrow> abs_dev \<Rightarrow> bool" where
  "dev_rel ok contents d dv \<longleftrightarrow> ok d \<and> meta_rep (contents d) (ad_dir dv) \<and> contents d 1 = ad_data dv"

definition handle_rel :: "('d \<Rightarrow> abs_dev \<Rightarrow> bool) \<Rightarrow> abs_env \<Rightarrow> nat \<Rightarrow> 'd kvs_device_handle \<Rightarrow> abs_dev \<Rightarrow> bool" where
  "handle_rel R ab a h dv \<longleftrightarrow>
     R (dvh_driver h) dv \<and> dvh_path h = ad_path dv \<and> a < ab_next ab \<and>
     (\<forall>k. k \<in> set (dvh_open_ks_hds h) \<longleftrightarrow> map_option fst (ab_open ab k) = Some a)"

definition ks_handle :: "nat \<times> byte list \<Rightarrow> kvs_key_space_handle" where
  "ks_handle p = \<lparr>kh_keyspace_id = 1, kh_dev = fst p, kh_name = snd p\<rparr>"

text \<open>The names of open key spaces are long enough for a key and do not stand for the list.\<close>

definition name_ok :: "byte list \<Rightarrow> bool" where
  "name_ok nm \<longleftrightarrow> 4 \<le> length nm \<and> length nm \<le> 255 \<and> ekey nm \<noteq> lkey"

definition env_rel :: "('d \<Rightarrow> abs_dev \<Rightarrow> bool) \<Rightarrow> 'd g_env \<Rightarrow> abs_env \<Rightarrow> bool" where
  "env_rel R env ab \<longleftrightarrow>
     (ge_initialized env \<longrightarrow> \<not> 65536 dvd ge_queuedepth env) \<and> next_handle env = ab_next ab \<and>
     distinct (ge_open_devices env) \<and> set (ge_open_devices env) = dom (ab_devs ab) \<and>
     ge_opened_device_num env = int (length (ge_open_devices env)) \<and>
     distinct (ge_list_open_ks env) \<and> set (ge_list_open_ks env) = dom (ab_open ab) \<and>
     ks_handles env = map_option ks_handle \<circ> ab_open ab \<and>
     (\<forall>a. rel_option (handle_rel R ab a) (device_handles env a) (ab_devs ab a)) \<and>
     (\<forall>k a nm. ab_open ab k = Some (a, nm) \<longrightarrow> k < ab_next ab \<and> ab_devs ab a \<noteq> None \<and> name_ok nm)"

lemma env_relI:
  assumes "(ge_initialized env \<longrightarrow> \<not> 65536 dvd ge_queuedepth env) \<and> next_handle env = ab_next ab"
    and "distinct (ge_open_devices env)" and "set (ge_open_devices env) = dom (ab_devs ab)"
    and "ge_opened_device_num env = int (length (ge_open_devices env))"
    and "distinct (ge_list_open_ks env)" and "set (ge_list_open_ks env) = dom (ab_open ab)"
    and "ks_handles env = map_option ks_handle \<circ> ab_open ab"
    and "\<And>a. rel_option (handle_rel R ab a) (device_handles env a) (ab_devs ab a)"
    and "\<And>k a nm. ab_open ab k = Some (a, nm) \<Longrightarrow> k < ab_next ab \<and> ab_devs ab a \<noteq> None \<and> name_ok nm"
  shows "env_rel R env ab"
  unfolding env_rel_def using assms by blast

lemma env_relD:
  assumes "env_rel R env ab"
  shows "ge_initialized env \<Longrightarrow> \<not> 65536 dvd ge_queuedepth env" and "next_handle env = ab_next ab"
    and "distinct (ge_open_devices env)" and "set (ge_open_devices env) = dom (ab_devs ab)"
    and "ge_opened_device_num env = int (length (ge_open_devices env))"
    and "distinct (ge_list_open_ks env)" and "set (ge_list_open_ks env) = dom (ab_open ab)"
    and "ks_handles env = map_option ks_handle \<circ> ab_open ab"
    and "rel_option (handle_rel R ab a) (device_handles env a) (ab_devs ab a)"
  using assms unfolding env_rel_def by blast+

lemma env_rel_start: "env_rel R g_env_start abs_start"
  by (simp add: env_rel_def g_env_start_def abs_start_def fun_eq_iff)

lemma rel_opened: "env_rel R env ab \<Longrightarrow> device_opened a env \<longleftrightarrow> ab_devs ab a \<noteq> None"
  by (auto simp: env_rel_def device_opened_def)

lemma rel_handle:
  assumes "env_rel R env ab" and "ab_devs ab a = Some dv"
  obtains h where "device_handles env a = Some h" and "handle_rel R ab a h dv"
proof -
  have "rel_option (handle_rel R ab a) (device_handles env a) (ab_devs ab a)" using assms(1) by (simp add: env_rel_def)
  then show ?thesis using that assms(2) by (auto simp: option_rel_Some2)
qed

lemma rel_open:
  assumes "env_rel R env ab" and "ab_open ab k = Some (a, nm)"
  obtains dv where "ab_devs ab a = Some dv" and "k < ab_next ab" and "name_ok nm"
  using assms unfolding env_rel_def by blast

lemma rel_check:
  assumes "env_rel R env ab"
  shows "check_key_space_handle k env = (case abs_ks k ab of Inl r \<Rightarrow> Returns (r, None) | Inr p \<Rightarrow> Returns (KVS_SUCCESS, Some (ks_handle p)))"
proof (cases k)
  case (Some i)
  show ?thesis
  proof (cases "ab_open ab i")
    case (Some p)
    then obtain dv where dv: "ab_devs ab (fst p) = Some dv" using rel_open [OF assms] by (metis prod.collapse)
    from rel_handle [OF assms dv] obtain h where "device_handles env (fst p) = Some h" by blast
    with assms Some \<open>k = Some i\<close> rel_opened [OF assms, of "fst p"] dv show ?thesis
      by (auto simp: check_key_space_handle_def abs_ks_def ks_opened_def env_rel_def ks_handle_def)
  next
    case None
    with assms \<open>k = Some i\<close> show ?thesis by (auto simp: check_key_space_handle_def abs_ks_def ks_opened_def env_rel_def)
  qed
qed (simp add: check_key_space_handle_def abs_ks_def)

lemma abs_ks_open: "abs_ks k ab = Inr (a, nm) \<longleftrightarrow> (\<exists>i. k = Some i \<and> ab_open ab i = Some (a, nm))"
  by (auto simp: abs_ks_def split: option.splits)

text \<open>A call of the driver of an open device.\<close>

lemma set_dev_simps [simp]:
  "ab_devs (set_dev a dv ab) = (ab_devs ab)(a \<mapsto> dv)" "ab_open (set_dev a dv ab) = ab_open ab" "ab_next (set_dev a dv ab) = ab_next ab"
  by (simp_all add: set_dev_def)

lemma handle_rel_set_dev [simp]: "handle_rel R (set_dev a dv ab) = handle_rel R ab"
  by (simp add: handle_rel_def set_dev_def fun_eq_iff)

lemma rel_set_driver:
  assumes rel: "env_rel R env ab" and h: "device_handles env a = Some h" "ab_devs ab a = Some dv"
    and d: "R d dv'" "ad_path dv' = ad_path dv"
  shows "env_rel R (env\<lparr>device_handles := (device_handles env)(a \<mapsto> h\<lparr>dvh_driver := d\<rparr>)\<rparr>) (set_dev a dv' ab)"
proof -
  have "handle_rel R ab a h dv" using rel_handle [OF rel h(2)] h(1) by auto
  then have "handle_rel R ab a (h\<lparr>dvh_driver := d\<rparr>) dv'" using d by (simp add: handle_rel_def)
  moreover have "insert a (dom (ab_devs ab)) = dom (ab_devs ab)" using h(2) by auto
  ultimately show ?thesis using rel unfolding env_rel_def by auto
qed

lemma rel_on_driver:
  assumes rel: "env_rel R env ab" and dv: "ab_devs ab a = Some dv" and p: "ad_path dv' = ad_path dv"
    and f: "\<forall>d. R d dv \<longrightarrow> (\<exists>d'. f d = Returns (r, d') \<and> R d' dv')"
  shows "\<exists>env'. on_driver a f env = Returns (r, env') \<and> env_rel R env' (set_dev a dv' ab)"
proof -
  obtain h where h: "device_handles env a = Some h" "handle_rel R ab a h dv" using rel_handle [OF rel dv] by blast
  then have "R (dvh_driver h) dv" by (simp add: handle_rel_def)
  with f obtain d where "f (dvh_driver h) = Returns (r, d)" "R d dv'" by blast
  with rel_set_driver [OF rel h(1) dv this(2) p] h(1) show ?thesis by (simp add: on_driver_def)
qed

lemma rel_on_key_space:
  assumes rel: "env_rel R env ab"
    and f: "\<And>d dv. R d dv \<Longrightarrow> \<exists>d'. f 1 d = Returns (fst (g (ad_data dv)), fst (snd (g (ad_data dv))), d')
        \<and> R d' (dv\<lparr>ad_data := snd (snd (g (ad_data dv)))\<rparr>)"
  shows "\<exists>env'. on_key_space k unset f env =
      Returns (fst (abs_on_data k unset g ab), fst (snd (abs_on_data k unset g ab)), env')
    \<and> env_rel R env' (snd (snd (abs_on_data k unset g ab)))"
proof (cases "abs_ks k ab")
  case (Inl r)
  with rel show ?thesis by (simp add: on_key_space_def rel_check abs_on_data_def)
next
  case (Inr p)
  obtain a nm where p: "p = (a, nm)" by (cases p)
  with Inr obtain i where "ab_open ab i = Some (a, nm)" by (auto simp: abs_ks_open)
  then obtain dv where dv: "ab_devs ab a = Some dv" using rel_open [OF rel] by blast
  let ?r = "fst (g (ad_data dv))" and ?x = "fst (snd (g (ad_data dv)))" and ?dv = "dv\<lparr>ad_data := snd (snd (g (ad_data dv)))\<rparr>"
  let ?f = "\<lambda>d. andThen (f 1 d) (\<lambda>(r, x, d'). Returns ((r, x), d'))"
  have "\<forall>d. R d dv \<longrightarrow> (\<exists>d'. ?f d = Returns ((?r, ?x), d') \<and> R d' ?dv)" using f [of _ dv] by fastforce
  from rel_on_driver [OF rel dv _ this] obtain env' where
    "on_driver a ?f env = Returns ((?r, ?x), env')" "env_rel R env' (set_dev a ?dv ab)" by auto
  with Inr p dv rel show ?thesis
    by (auto simp: on_key_space_def rel_check abs_on_data_def ks_handle_def Let_def split: prod.split)
qed

section \<open>Devices\<close>

text \<open>A host whose settings are accepted, and a driver that comes up with an empty store.\<close>

definition host_ok :: "host_env \<Rightarrow> bool" where
  "host_ok host \<longleftrightarrow>
     (\<exists>o1 o2 f. init_env_from_environ host init_default_option = Some o1 \<and> init_env_from_cfgfile host o1 = Some o2 \<and>
       opt_use_dpdk o2 \<noteq> 1 \<and> opt_max_cachesize_mb o2 = 0 \<and> opt_emul_config_file o2 = Some f \<and> h_exists host f \<and> h_readable host f \<and>
       \<not> 65536 dvd sint (opt_queuedepth o2))"

definition init_ok ::
    "('d \<Rightarrow> bool) \<Rightarrow> ('d \<Rightarrow> kv_contents) \<Rightarrow> (string \<Rightarrow> string \<Rightarrow> int \<Rightarrow> (kvs_result \<times> 'd) call) \<Rightarrow> bool" where
  "init_ok ok contents init \<longleftrightarrow>
     (\<forall>path cf depth. \<not> 65536 dvd depth \<longrightarrow>
       (\<exists>d. init path cf depth = Returns (KVS_SUCCESS, d) \<and> ok d \<and> contents d = contents_empty))"

lemma rel_init_env:
  assumes "host_ok host" and "env_rel R env ab"
  shows "\<exists>env'. init_env host env = Some (KVS_SUCCESS, env') \<and> ge_initialized env' \<and> env_rel R env' ab"
proof (cases "ge_initialized env")
  case False
  obtain o1 o2 f where o: "init_env_from_environ host init_default_option = Some o1" "init_env_from_cfgfile host o1 = Some o2"
    "opt_use_dpdk o2 \<noteq> 1" "opt_max_cachesize_mb o2 = 0" "opt_emul_config_file o2 = Some f" "h_exists host f" "h_readable host f"
    "\<not> 65536 dvd sint (opt_queuedepth o2)"
    using assms(1) unfolding host_ok_def by blast
  then have "opt_queuedepth o2 \<noteq> 0" by auto
  then have "opt_queuedepth o2 > 0" by (simp add: word_gt_0)
  with False o assms(2) show ?thesis by (simp add: init_env_def kvs_init_env_def env_rel_def)
qed (use assms(2) in \<open>simp add: init_env_def\<close>)

lemma rel_path_opened:
  assumes "env_rel R env ab"
  shows "device_path_opened p env = Some (p \<in> ad_path ` ran (ab_devs ab))"
proof -
  have dom: "set (ge_open_devices env) = dom (ab_devs ab)" using assms by (simp add: env_rel_def)
  have h: "device_handles env a \<noteq> None \<and> dvh_path (the (device_handles env a)) = ad_path dv" if "ab_devs ab a = Some dv" for a dv
    using rel_handle [OF assms that] by (metis handle_rel_def option.distinct(1) option.sel)
  then have "list_all (\<lambda>a. device_handles env a \<noteq> None) (ge_open_devices env)"
    using dom by (auto simp: list_all_iff)
  moreover have "list_ex (\<lambda>a. dvh_path (the (device_handles env a)) = p) (ge_open_devices env) \<longleftrightarrow>
      (\<exists>a dv. ab_devs ab a = Some dv \<and> ad_path dv = p)"
    unfolding list_ex_iff dom dom_def using h by fastforce
  ultimately show ?thesis by (auto simp: device_path_opened_def ran_def)
qed

text \<open>Handles are fresh.\<close>

lemma rel_fresh:
  assumes "env_rel R env ab"
  shows "ab_devs ab (ab_next ab) = None" and "ab_open ab (ab_next ab) = None"
proof -
  show "ab_devs ab (ab_next ab) = None"
  proof (rule ccontr)
    assume "\<not> ?thesis"
    then obtain dv where "ab_devs ab (ab_next ab) = Some dv" by auto
    then show False using rel_handle [OF assms, of "ab_next ab" dv] by (auto simp: handle_rel_def)
  qed
  show "ab_open ab (ab_next ab) = None"
  proof (rule ccontr)
    assume "\<not> ?thesis"
    then obtain a nm where "ab_open ab (ab_next ab) = Some (a, nm)" by auto
    then show False using rel_open [OF assms, of "ab_next ab" a nm] by auto
  qed
qed

lemma rel_open_device:
  assumes host: "host_ok host" and init: "init_ok ok contents init" and rel: "env_rel (dev_rel ok contents) env ab"
  shows "\<exists>env'. api_step host init D fresh (OpenDevice uri dev_hd) env = Returns (fst (abs_step (OpenDevice uri dev_hd) ab), env')
    \<and> env_rel (dev_rel ok contents) env' (snd (abs_step (OpenDevice uri dev_hd) ab))"
proof -
  obtain env1 where e: "init_env host env = Some (KVS_SUCCESS, env1)" "ge_initialized env1" "env_rel (dev_rel ok contents) env1 ab"
    using rel_init_env [OF host rel] by blast
  show ?thesis
  proof (cases "\<exists>p. uri = Some p \<and> dev_hd \<and> p \<noteq> [] \<and> length p \<le> 255 \<and> p \<notin> ad_path ` ran (ab_devs ab)")
    case False
    with e show ?thesis by (auto simp: kvs_open_device_def rel_path_opened [OF e(3)] split: option.splits)
  next
    case True
    then obtain p where p: "uri = Some p" "dev_hd" "p \<noteq> []" "length p \<le> 255" "p \<notin> ad_path ` ran (ab_devs ab)" by blast
    have "\<not> 65536 dvd ge_queuedepth env1" using e by (simp add: env_rel_def)
    then obtain d where d: "init p (ge_configfile env1) (ge_queuedepth env1) = Returns (KVS_SUCCESS, d)" "ok d" "contents d = contents_empty"
      using init unfolding init_ok_def by blast
    let ?n = "ab_next ab" and ?dv = "\<lparr>ad_path = p, ad_dir = None, ad_data = Map.empty\<rparr>"
    let ?h = "\<lparr>dvh_driver = d, dvh_path = p, dvh_open_ks_hds = []\<rparr>"
    let ?ab = "set_dev ?n ?dv (ab\<lparr>ab_next := Suc ?n\<rparr>)"
    have n: "next_handle env1 = ?n" using e(3) by (simp add: env_rel_def)
    have r: "dev_rel ok contents d ?dv"
      using d by (simp add: dev_rel_def meta_rep_def list_rec_def contents_empty_def fun_eq_iff)
    have none: "map_option fst (ab_open ab k) \<noteq> Some ?n" for k
    proof
      assume "map_option fst (ab_open ab k) = Some ?n"
      then obtain nm where "ab_open ab k = Some (?n, nm)" by auto
      then show False using rel_open [OF e(3)] rel_fresh(1) [OF e(3)] by (metis option.distinct(1))
    qed
    have new: "handle_rel (dev_rel ok contents) ?ab ?n ?h ?dv" using r none by (simp add: handle_rel_def)
    have old: "rel_option (handle_rel (dev_rel ok contents) ?ab a) (device_handles env1 a) (ab_devs ab a)" for a
    proof -
      have "rel_option (handle_rel (dev_rel ok contents) ab a) (device_handles env1 a) (ab_devs ab a)"
        using e(3) by (simp add: env_rel_def)
      then show ?thesis by (rule option.rel_mono_strong) (simp add: handle_rel_def)
    qed
    have "env_rel (dev_rel ok contents) (env1\<lparr>device_handles := (device_handles env1)(?n \<mapsto> ?h),
        ge_open_devices := ge_open_devices env1 @ [?n], ge_opened_device_num := ge_opened_device_num env1 + 1, next_handle := Suc ?n\<rparr>) ?ab"
      using e(3) rel_fresh(1) [OF e(3)] new old unfolding env_rel_def
      by (auto simp: less_Suc_eq dom_def)
    with p e d n show ?thesis by (simp add: kvs_open_device_def rel_path_opened [OF e(3)] Let_def)
  qed
qed

lemma remove_all_distinct: "distinct l \<Longrightarrow> distinct (remove_all ks l) \<and> set (remove_all ks l) = set l - set ks"
  unfolding remove_all_def by (induction ks arbitrary: l) auto

lemma rel_close_device:
  assumes rel: "env_rel R env ab" and D: "\<And>d dv. R d dv \<Longrightarrow> delete_driver D d = Returns ()"
  shows "\<exists>env'. api_step host init D fresh (CloseDevice dev_hd) env = Returns (fst (abs_step (CloseDevice dev_hd) ab), env')
    \<and> env_rel R env' (snd (abs_step (CloseDevice dev_hd) ab))"
proof (cases "\<exists>a dv. dev_hd = Some a \<and> ab_devs ab a = Some dv")
  case False
  with rel show ?thesis by (auto simp: kvs_close_device_def rel_opened [OF rel] split: option.splits)
next
  case True
  then obtain a dv where a: "dev_hd = Some a" "ab_devs ab a = Some dv" by blast
  obtain h where h: "device_handles env a = Some h" "handle_rel R ab a h dv" using rel_handle [OF rel a(2)] by blast
  let ?ks = "dvh_open_ks_hds h" and ?open = "\<lambda>k. if map_option fst (ab_open ab k) = Some a then None else ab_open ab k"
  let ?ab = "ab\<lparr>ab_devs := (ab_devs ab)(a := None), ab_open := ?open\<rparr>"
  let ?env = "env\<lparr>ge_list_open_ks := remove_all ?ks (ge_list_open_ks env), ks_handles := free_all ?ks (ks_handles env),
     ge_open_devices := removeAll a (ge_open_devices env), device_handles := (device_handles env)(a := None),
     ge_opened_device_num := ge_opened_device_num env - 1\<rparr>"
  have ks: "k \<in> set ?ks \<longleftrightarrow> map_option fst (ab_open ab k) = Some a" for k using h(2) by (simp add: handle_rel_def)
  have dis: "distinct (ge_open_devices env)" "a \<in> set (ge_open_devices env)" using rel a(2) by (auto simp: env_rel_def)
  have "length (removeAll a (ge_open_devices env)) = length (ge_open_devices env) - 1" "length (ge_open_devices env) > 0"
    using dis by (auto simp: distinct_remove1_removeAll [symmetric] length_remove1 length_pos_if_in_set)
  moreover have "ge_opened_device_num env = int (length (ge_open_devices env))" using rel by (simp add: env_rel_def)
  ultimately have num: "ge_opened_device_num env - 1 = int (length (removeAll a (ge_open_devices env)))" by linarith
  have hd: "rel_option (handle_rel R ?ab b) (((device_handles env)(a := None)) b) (((ab_devs ab)(a := None)) b)" for b
  proof (cases "b = a")
    case False
    have "rel_option (handle_rel R ab b) (device_handles env b) (ab_devs ab b)" using rel by (simp add: env_rel_def)
    then have "rel_option (handle_rel R ?ab b) (device_handles env b) (ab_devs ab b)"
      by (rule option.rel_mono_strong) (use False in \<open>auto simp: handle_rel_def\<close>)
    with False show ?thesis by simp
  qed simp
  have kh: "free_all ?ks (ks_handles env) = map_option ks_handle \<circ> ?open"
    using rel ks by (auto simp: env_rel_def free_all_def fun_eq_iff)
  have sk: "set (remove_all ?ks (ge_list_open_ks env)) = dom ?open" "distinct (remove_all ?ks (ge_list_open_ks env))"
    using remove_all_distinct [of "ge_list_open_ks env" ?ks] rel ks by (auto simp: env_rel_def split: if_splits)
  have op: "k < ab_next ab \<and> ((ab_devs ab)(a := None)) b \<noteq> None \<and> name_ok nm" if "?open k = Some (b, nm)" for k b nm
    using that rel_open [OF rel, of k b nm] by (auto split: if_splits)
  have e: "env_rel R ?env ?ab"
    unfolding env_rel_def using rel num hd kh sk op by (simp add: env_rel_def distinct_removeAll)
  then have e0: "env_rel R (?env\<lparr>ge_initialized := False\<rparr>) ?ab" by (simp add: env_rel_def)
  have "delete_driver D (dvh_driver h) = Returns ()" using h(2) D by (auto simp: handle_rel_def)
  then have "kvs_close_device D dev_hd env = Returns (KVS_SUCCESS, if removeAll a (ge_open_devices env) = [] then ?env\<lparr>ge_initialized := False\<rparr> else ?env)"
    using a h(1) num by (simp add: kvs_close_device_def rel_opened [OF rel] Let_def)
  then show ?thesis using a e e0 by (cases "removeAll a (ge_open_devices env) = []") simp_all
qed

section \<open>Key spaces\<close>

lemma rel_name_opened:
  assumes rel: "env_rel R env ab" and dv: "ab_devs ab a = Some dv"
  shows "ks_name_opened a nm env = Some ((a, nm) \<in> ran (ab_open ab))"
proof -
  obtain h where h: "device_handles env a = Some h" "handle_rel R ab a h dv" using rel_handle [OF rel dv] by blast
  have kh: "ks_handles env = map_option ks_handle \<circ> ab_open ab" using rel by (simp add: env_rel_def)
  have k: "k \<in> set (dvh_open_ks_hds h) \<longleftrightarrow> (\<exists>n. ab_open ab k = Some (a, n))" for k using h(2) by (auto simp: handle_rel_def)
  then have "list_all (\<lambda>k. ks_handles env k \<noteq> None) (dvh_open_ks_hds h)" using kh by (auto simp: list_all_iff)
  moreover have "list_ex (\<lambda>k. kh_name (the (ks_handles env k)) = nm) (dvh_open_ks_hds h) \<longleftrightarrow> (\<exists>k. ab_open ab k = Some (a, nm))"
    unfolding list_ex_iff Bex_def k by (auto simp: kh ks_handle_def)
  ultimately show ?thesis using h(1) by (simp add: ks_name_opened_def ran_def)
qed

lemma set_dev_same: "ab_devs ab a = Some dv \<Longrightarrow> set_dev a dv ab = ab"
  by (cases ab) (auto simp: set_dev_def fun_upd_idem)

lemma set_dev_commute:
  "set_dev a dv (ab\<lparr>ab_open := x\<rparr>) = (set_dev a dv ab)\<lparr>ab_open := x\<rparr>"
  "set_dev a dv (ab\<lparr>ab_next := n\<rparr>) = (set_dev a dv ab)\<lparr>ab_next := n\<rparr>"
  by (simp_all add: set_dev_def)

text \<open>A key space is opened and closed.\<close>

lemma rel_insert_ks:
  fixes R env ab a nm
  defines "k \<equiv> ab_next ab"
  defines "env' \<equiv> env\<lparr>ks_handles := (ks_handles env)(k \<mapsto> ks_handle (a, nm)),
      device_handles := (device_handles env)(a := map_option (\<lambda>h. h\<lparr>dvh_open_ks_hds := dvh_open_ks_hds h @ [k]\<rparr>) (device_handles env a)),
      ge_list_open_ks := ge_list_open_ks env @ [k], next_handle := Suc k\<rparr>"
  defines "ab' \<equiv> ab\<lparr>ab_open := (ab_open ab)(k \<mapsto> (a, nm)), ab_next := Suc k\<rparr>"
  assumes rel: "env_rel R env ab" and dv: "ab_devs ab a = Some dv" and nm: "name_ok nm"
  shows "env_rel R env' ab'"
proof -
  note fr = rel_fresh [OF rel, folded k_def]
  have ab': "ab_devs ab' = ab_devs ab" "ab_open ab' = (ab_open ab)(k \<mapsto> (a, nm))" "ab_next ab' = Suc k" by (simp_all add: ab'_def)
  have hd: "rel_option (handle_rel R ab' b) (device_handles env' b) (ab_devs ab b)" for b
  proof (cases "b = a")
    case True
    obtain h where h: "device_handles env a = Some h" "handle_rel R ab a h dv" using rel_handle [OF rel dv] by blast
    then have "handle_rel R ab' a (h\<lparr>dvh_open_ks_hds := dvh_open_ks_hds h @ [k]\<rparr>) dv"
      using fr(2) by (auto simp: handle_rel_def ab' k_def)
    then show ?thesis using h(1) dv True by (simp add: env'_def)
  next
    case False
    have "rel_option (handle_rel R ab b) (device_handles env b) (ab_devs ab b)" using rel by (simp add: env_rel_def)
    then have "rel_option (handle_rel R ab' b) (device_handles env b) (ab_devs ab b)"
      by (rule option.rel_mono_strong) (use False fr(2) in \<open>auto simp: handle_rel_def ab' k_def\<close>)
    with False show ?thesis by (simp add: env'_def)
  qed
  have nk: "k \<notin> set (ge_list_open_ks env)" using env_relD(7) [OF rel] fr(2) by auto
  show ?thesis
  proof (rule env_relI)
    show "rel_option (handle_rel R ab' b) (device_handles env' b) (ab_devs ab' b)" for b using hd [of b] by (simp add: ab')
    show "i < ab_next ab' \<and> ab_devs ab' b \<noteq> None \<and> name_ok n" if "ab_open ab' i = Some (b, n)" for i b n
    proof (cases "i = k")
      case True
      with that nm dv show ?thesis by (simp add: ab')
    next
      case False
      with that have "ab_open ab i = Some (b, n)" by (simp add: ab')
      then show ?thesis by (rule rel_open [OF rel]) (simp add: k_def ab')
    qed
    show "ks_handles env' = map_option ks_handle \<circ> ab_open ab'" by (rule ext) (simp add: env_relD(8) [OF rel] env'_def ab')
  qed (use nk env_relD [OF rel] in \<open>simp_all add: env'_def ab'\<close>)
qed

lemma rel_remove_ks:
  assumes rel: "env_rel R env ab" and k: "ab_open ab k = Some (a, nm)"
  shows "env_rel R (env\<lparr>device_handles := (device_handles env)(a := map_option (\<lambda>h. h\<lparr>dvh_open_ks_hds := removeAll k (dvh_open_ks_hds h)\<rparr>)
        (device_handles env a)),
      ge_list_open_ks := removeAll k (ge_list_open_ks env), ks_handles := (ks_handles env)(k := None)\<rparr>)
    (ab\<lparr>ab_open := (ab_open ab)(k := None)\<rparr>)" (is "env_rel R ?env ?ab")
proof -
  have hd: "rel_option (handle_rel R ?ab b) (device_handles ?env b) (ab_devs ab b)" for b
  proof -
    have r: "rel_option (handle_rel R ab b) (device_handles env b) (ab_devs ab b)" using rel by (simp add: env_rel_def)
    show ?thesis
    proof (cases "b = a")
      case True
      then show ?thesis using r by (cases "device_handles env a"; cases "ab_devs ab a") (auto simp: handle_rel_def)
    next
      case False
      from r have "rel_option (handle_rel R ?ab b) (device_handles env b) (ab_devs ab b)"
        by (rule option.rel_mono_strong) (use False k in \<open>auto simp: handle_rel_def\<close>)
      with False show ?thesis by simp
    qed
  qed
  show ?thesis
  proof (rule env_relI)
    show "rel_option (handle_rel R ?ab b) (device_handles ?env b) (ab_devs ?ab b)" for b using hd [of b] by simp
    show "i < ab_next ?ab \<and> ab_devs ?ab b \<noteq> None \<and> name_ok n" if "ab_open ?ab i = Some (b, n)" for i b n
    proof -
      have "ab_open ab i = Some (b, n)" using that by (simp split: if_splits)
      then show ?thesis by (rule rel_open [OF rel]) simp
    qed
    show "ks_handles ?env = map_option ks_handle \<circ> ab_open ?ab" by (rule ext) (simp add: env_relD(8) [OF rel])
  qed (use env_relD [OF rel] in \<open>simp_all add: distinct_removeAll\<close>)
qed

text \<open>
  What a caller must see to, beyond what the code checks:
  \<^item> the name of a key space to create is a string of less than \<open>2 ^ 32\<close> bytes;
  \<^item> the name of a key space to delete has at most 255 bytes: the code does not check its length, and
    compares only the first 255 bytes with the list;
  \<^item> the name of a key space to open has less than 65536 bytes, since its length is kept in 16 bits,
    and its record is not the list of the key spaces, \<open>ekey nm \<noteq> lkey\<close>. This leaves out every name
    that is \<open>key_space_list\<close> with one more character, which the code accepts: there the API does not
    do what the specification says (\<open>list_name_opens_metadata\<close>);
  \<^item> the buffers for names and for the results of an existence check are as large as their lengths
    say, and the numbers of keys and of names are those of the arrays;
  \<^item> keys and values have as many bytes as their lengths say (\<open>key_readable\<close>, \<open>value_readable\<close>).
\<close>

fun call_ok :: "api_call \<Rightarrow> bool" where
  "call_ok (CreateKeySpace _ name _ _) = (\<forall>nm. Option.bind name ksn_name = Some nm \<longrightarrow> length nm < 2 ^ 32 \<and> 0 \<notin> set nm)"
| "call_ok (DeleteKeySpace _ name) = (\<forall>nm. Option.bind name ksn_name = Some nm \<longrightarrow> length nm \<le> 255)"
| "call_ok (ListKeySpaces _ _ sz names _) =
     (\<forall>ns. names = Some ns \<longrightarrow> unat sz \<le> 16 * length ns
       \<and> list_all (\<lambda>n. case ksn_name n of None \<Rightarrow> False | Some b \<Rightarrow> unat (ksn_name_len n) < length b) ns)"
| "call_ok (OpenKeySpace _ name _) = (\<forall>nm. name = Some nm \<longrightarrow> length nm < 65536 \<and> ekey nm \<noteq> lkey)"
| "call_ok (StoreKvp _ key val _) = ((\<forall>k. key = Some k \<longrightarrow> key_readable k) \<and> (\<forall>v. val = Some v \<longrightarrow> value_readable v))"
| "call_ok (RetrieveKvp _ key _ val) = ((\<forall>k. key = Some k \<longrightarrow> key_readable k) \<and> (\<forall>v. val = Some v \<longrightarrow> value_readable v))"
| "call_ok (DeleteKvp _ key _) = (\<forall>k. key = Some k \<longrightarrow> key_readable k)"
| "call_ok (ExistKvPairs _ cnt keys l) =
     ((\<forall>ks. keys = Some ks \<longrightarrow> unat cnt = length ks \<and> unat cnt < 2 ^ 31 \<and> list_all key_readable ks)
      \<and> (\<forall>el b. l = Some el \<longrightarrow> el_result_buffer el = Some b \<longrightarrow> unat (el_length el) \<le> length b))"
| "call_ok _ = True"

context kvs_driver_api
begin

abbreviation (input) "DR \<equiv> dev_rel inv contents"

text \<open>A call that may change the directory.\<close>

lemma rel_on_dir:
  assumes rel: "env_rel DR env ab" and dv: "ab_devs ab a = Some dv"
    and f: "\<And>d. inv d \<Longrightarrow> meta_rep (contents d) (ad_dir dv) \<Longrightarrow>
      \<exists>d'. f d = Returns (r, d') \<and> inv d' \<and> meta_rep (contents d') dir \<and> contents d' 1 = contents d 1"
  shows "\<exists>env'. on_driver a f env = Returns (r, env') \<and> env_rel DR env' (set_dev a (dv\<lparr>ad_dir := dir\<rparr>) ab)"
proof (rule rel_on_driver [OF rel dv])
  show "\<forall>d. DR d dv \<longrightarrow> (\<exists>d'. f d = Returns (r, d') \<and> DR d' (dv\<lparr>ad_dir := dir\<rparr>))"
    using f by (fastforce simp: dev_rel_def)
qed simp

lemma rel_create:
  assumes f: "fresh_ok fresh" and rel: "env_rel DR env ab" and ok: "call_ok (CreateKeySpace a name sz key_ordering)"
  shows "\<exists>env'. api_step host init D fresh (CreateKeySpace a name sz key_ordering) env =
      Returns (fst (abs_step (CreateKeySpace a name sz key_ordering) ab), env')
    \<and> env_rel DR env' (snd (abs_step (CreateKeySpace a name sz key_ordering) ab))"
proof (cases "\<exists>ksn nm i. name = Some ksn \<and> ksn_name ksn = Some nm \<and> a = Some i")
  case False
  with rel show ?thesis by (auto simp: kvs_create_key_space_def split: option.splits)
next
  case True
  then obtain ksn nm i where n: "name = Some ksn" "ksn_name ksn = Some nm" "a = Some i" by blast
  have len: "unat (word_of_nat (length nm) :: u32) = length nm" "0 \<notin> set nm"
    using ok n by (simp_all add: unat_of_nat take_bit_nat_eq_self)
  then have eq: "(word_of_nat (length nm) :: u32) = ksn_name_len ksn \<longleftrightarrow> length nm = unat (ksn_name_len ksn)"
    "(word_of_nat (length nm) :: u32) = 0 \<longleftrightarrow> nm = []"
    by (simp_all add: word_unat_eq_iff)
  show ?thesis
  proof (cases "length nm = unat (ksn_name_len ksn) \<and> nm \<noteq> [] \<and> length nm \<le> 255 \<and> ab_devs ab i \<noteq> None \<and> key_ordering = KVS_KEY_ORDER_NONE")
    case False
    with n rel len eq show ?thesis by (auto simp: kvs_create_key_space_def rel_opened [OF rel] Let_def split: option.splits)
  next
    case True
    then obtain dv where dv: "ab_devs ab i = Some dv" by auto
    let ?s = "create_spec nm sz (ad_dir dv)"
    have "nm \<noteq> []" "length nm \<le> 255" using True by simp_all
    from rel_on_dir [OF rel dv create_refines [OF _ f _ this len(2)]] obtain env' where
      "on_driver i (create_on_device D fresh nm sz KVS_KEY_ORDER_NONE) env = Returns (fst ?s, env')"
      "env_rel DR env' (set_dev i (dv\<lparr>ad_dir := snd ?s\<rparr>) ab)" by blast
    with n True dv len eq show ?thesis
      by (simp add: kvs_create_key_space_def rel_opened [OF rel] Let_def case_prod_beta)
  qed
qed

lemma rel_delete_ks:
  assumes f: "fresh_ok fresh" and rel: "env_rel DR env ab" and ok: "call_ok (DeleteKeySpace a name)"
  shows "\<exists>env'. api_step host init D fresh (DeleteKeySpace a name) env = Returns (fst (abs_step (DeleteKeySpace a name) ab), env')
    \<and> env_rel DR env' (snd (abs_step (DeleteKeySpace a name) ab))"
proof (cases "\<exists>i nm dv. a = Some i \<and> Option.bind name ksn_name = Some nm \<and> ab_devs ab i = Some dv")
  case False
  with rel show ?thesis by (auto simp: kvs_delete_key_space_def rel_opened [OF rel] split: option.splits)
next
  case True
  then obtain i nm dv where n: "a = Some i" "Option.bind name ksn_name = Some nm" and dv: "ab_devs ab i = Some dv" by blast
  show ?thesis
  proof (cases "(i, nm) \<in> ran (ab_open ab)")
    case True
    with n dv rel show ?thesis by (simp add: kvs_delete_key_space_def rel_opened [OF rel] rel_name_opened [OF rel dv])
  next
    case False
    let ?s = "remove_spec nm (ad_dir dv)"
    have "length nm \<le> 255" using ok n(2) by simp
    from rel_on_dir [OF rel dv remove_refines [OF _ f _ this]] obtain env' where
      "on_driver i (delete_on_device D fresh nm) env = Returns (fst ?s, env')"
      "env_rel DR env' (set_dev i (dv\<lparr>ad_dir := snd ?s\<rparr>) ab)" by blast
    with n False dv show ?thesis
      by (simp add: kvs_delete_key_space_def rel_opened [OF rel] rel_name_opened [OF rel dv] case_prod_beta)
  qed
qed

lemma rel_open_ks:
  assumes f: "fresh_ok fresh" and rel: "env_rel DR env ab" and ok: "call_ok (OpenKeySpace a name ks_hd)"
  shows "\<exists>env'. api_step host init D fresh (OpenKeySpace a name ks_hd) env = Returns (fst (abs_step (OpenKeySpace a name ks_hd) ab), env')
    \<and> env_rel DR env' (snd (abs_step (OpenKeySpace a name ks_hd) ab))"
proof (cases "\<exists>i nm. a = Some i \<and> name = Some nm \<and> ks_hd")
  case False
  with rel show ?thesis by (auto simp: kvs_open_key_space_def split: option.splits)
next
  case True
  then obtain i nm where n: "a = Some i" "name = Some nm" "ks_hd" by blast
  have len: "unat (word_of_nat (length nm) :: u16) = length nm" "ekey nm \<noteq> lkey"
    using ok n by (simp_all add: unat_of_nat take_bit_nat_eq_self)
  show ?thesis
  proof (cases "4 \<le> length nm \<and> length nm \<le> 255 \<and> ab_devs ab i \<noteq> None")
    case False
    with n rel len show ?thesis by (auto simp: kvs_open_key_space_def rel_opened [OF rel] Let_def split: option.splits)
  next
    case True
    then obtain dv where dv: "ab_devs ab i = Some dv" and l: "4 \<le> length nm" "length nm \<le> 255" by auto
    have ne: "nm \<noteq> []" using l by auto
    show ?thesis
    proof (cases "(i, nm) \<in> ran (ab_open ab)")
      case True
      with n dv rel len l ne show ?thesis
        by (simp add: kvs_open_key_space_def rel_opened [OF rel] rel_name_opened [OF rel dv] Let_def)
    next
      case False
      let ?s = "open_spec nm (ad_dir dv)" and ?k = "ab_next ab"
      from rel_on_dir [OF rel dv open_refines [OF _ f _ l len(2)]] obtain env1 where
        e: "on_driver i (open_on_device D fresh nm) env = Returns (fst ?s, env1)"
        "env_rel DR env1 (set_dev i (dv\<lparr>ad_dir := snd ?s\<rparr>) ab)" by blast
      then have k: "next_handle env1 = ?k" by (simp add: env_rel_def)
      show ?thesis
      proof (cases "has_record nm (ad_dir dv)")
        case True
        from rel_insert_ks [OF e(2), of i _ nm] l len(2) True
        have "env_rel DR (env1\<lparr>ks_handles := (ks_handles env1)(?k \<mapsto> ks_handle (i, nm)),
            device_handles := (device_handles env1)(i := map_option (\<lambda>h. h\<lparr>dvh_open_ks_hds := dvh_open_ks_hds h @ [?k]\<rparr>) (device_handles env1 i)),
            ge_list_open_ks := ge_list_open_ks env1 @ [?k], next_handle := Suc ?k\<rparr>)
          (set_dev i (dv\<lparr>ad_dir := set_opened 1 (ad_dir dv)\<rparr>) (ab\<lparr>ab_open := (ab_open ab)(?k \<mapsto> (i, nm)), ab_next := Suc ?k\<rparr>))"
          by (simp add: name_ok_def open_spec_def set_dev_commute)
        with True False n dv len l ne e(1) k show ?thesis
          by (simp add: kvs_open_key_space_def rel_opened [OF rel] rel_name_opened [OF rel dv] open_spec_def ks_handle_def Let_def)
      next
        case no: False
        with False n dv len l ne e show ?thesis
          by (simp add: kvs_open_key_space_def rel_opened [OF rel] rel_name_opened [OF rel dv] open_spec_def set_dev_same Let_def)
      qed
    qed
  qed
qed

lemma rel_ks_handle:
  assumes "env_rel DR env ab" and "abs_ks k ab = Inr (a, nm)"
  obtains i dv where "k = Some i" and "ab_open ab i = Some (a, nm)" and "ab_devs ab a = Some dv" and "4 \<le> length nm" and "length nm \<le> 255"
    and "ekey nm \<noteq> lkey"
proof -
  obtain i where i: "k = Some i" "ab_open ab i = Some (a, nm)" using assms(2) by (auto simp: abs_ks_open)
  from rel_open [OF assms(1) i(2)] obtain dv where "ab_devs ab a = Some dv" "name_ok nm" by blast
  then show ?thesis using that [OF i] unfolding name_ok_def by blast
qed

lemma rel_close_ks:
  assumes f: "fresh_ok fresh" and rel: "env_rel DR env ab"
  shows "\<exists>env'. api_step host init D fresh (CloseKeySpace k) env = Returns (fst (abs_step (CloseKeySpace k) ab), env')
    \<and> env_rel DR env' (snd (abs_step (CloseKeySpace k) ab))"
proof (cases "abs_ks k ab")
  case (Inl r)
  with rel show ?thesis by (auto simp: kvs_close_key_space_def rel_check [OF rel] split: option.splits)
next
  case (Inr p)
  obtain a nm where p: "p = (a, nm)" by (cases p)
  obtain i dv where i: "k = Some i" "ab_open ab i = Some (a, nm)" "ab_devs ab a = Some dv" "4 \<le> length nm" "length nm \<le> 255" "ekey nm \<noteq> lkey"
    using rel_ks_handle [OF rel Inr [unfolded p]] by metis
  let ?s = "close_spec nm (ad_dir dv)"
  from rel_on_dir [OF rel i(3) close_refines [OF _ f _ i(4-6)]] obtain env1 where
    e: "on_driver a (close_key_space D fresh nm) env = Returns (fst ?s, env1)"
    "env_rel DR env1 (set_dev a (dv\<lparr>ad_dir := snd ?s\<rparr>) ab)" by blast
  show ?thesis
  proof (cases "has_record nm (ad_dir dv)")
    case True
    from rel_remove_ks [OF e(2), of i a nm] i(2) True
    have "env_rel DR (env1\<lparr>device_handles := (device_handles env1)(a := map_option (\<lambda>h. h\<lparr>dvh_open_ks_hds := removeAll i (dvh_open_ks_hds h)\<rparr>)
          (device_handles env1 a)),
        ge_list_open_ks := removeAll i (ge_list_open_ks env1), ks_handles := (ks_handles env1)(i := None)\<rparr>)
      (set_dev a (dv\<lparr>ad_dir := set_opened 0 (ad_dir dv)\<rparr>) (ab\<lparr>ab_open := (ab_open ab)(i := None)\<rparr>))"
      by (simp add: close_spec_def set_dev_commute)
    with True Inr p i(1,3) e(1) show ?thesis
      by (simp add: kvs_close_key_space_def rel_check [OF rel] ks_handle_def close_spec_def Let_def)
  next
    case False
    with Inr p i(1,3) e show ?thesis
      by (simp add: kvs_close_key_space_def rel_check [OF rel] ks_handle_def close_spec_def set_dev_same Let_def)
  qed
qed

lemma rel_info:
  assumes f: "fresh_ok fresh" and rel: "env_rel DR env ab"
  shows "\<exists>env'. api_step host init D fresh (KeySpaceInfo k ks) env = Returns (fst (abs_step (KeySpaceInfo k ks) ab), env')
    \<and> env_rel DR env' (snd (abs_step (KeySpaceInfo k ks) ab))"
proof (cases "abs_ks k ab")
  case (Inl r)
  with rel show ?thesis by (auto simp: kvs_get_key_space_info_def rel_check [OF rel])
next
  case (Inr p)
  obtain a nm where p: "p = (a, nm)" by (cases p)
  obtain i dv where i: "ab_devs ab a = Some dv" "4 \<le> length nm" "length nm \<le> 255" "ekey nm \<noteq> lkey"
    using rel_ks_handle [OF rel Inr [unfolded p]] by metis
  let ?f = "\<lambda>d. andThen (retrieve_key_space_metadata D fresh nm ks_metadata_zero d) (\<lambda>(ret, m, d'). Returns ((ret, m), d'))"
  let ?r = "if has_record nm (ad_dir dv) then (KVS_SUCCESS, snd (the (ad_dir dv))) else (KVS_ERR_KEY_NOT_EXIST, ks_metadata_zero)"
  have "\<exists>d'. ?f d = Returns (?r, d') \<and> inv d' \<and> meta_rep (contents d') (ad_dir dv) \<and> contents d' 1 = contents d 1"
    if "inv d" "meta_rep (contents d) (ad_dir dv)" for d
    using retrieve_rep [OF that(1) f that(2) i(2-4), of ks_metadata_zero] that by auto
  from rel_on_dir [OF rel i(1) this] obtain env' where "on_driver a ?f env = Returns (?r, env')" "env_rel DR env' ab"
    using i(1) by (auto simp: set_dev_same)
  with rel Inr p i show ?thesis
    by (auto simp: kvs_get_key_space_info_def rel_check [OF rel] ks_handle_def Let_def)
qed

text \<open>One name at most is listed.\<close>

lemma names_one:
  assumes "0 \<notin> set nm"
    and ns: "sz div 16 \<noteq> 0 \<Longrightarrow> \<exists>b. ns \<noteq> [] \<and> ksn_name (ns ! 0) = Some b \<and> unat (ksn_name_len (ns ! 0)) < length b"
  shows "list_names 1 0 (sz div 16) (ks_entries (one_list nm 1)) ns 0 = Some (key_space_names ns sz (Some (nm, md)))"
proof (cases "sz div 16 = 0")
  case False
  then obtain b where b: "ns \<noteq> []" "ksn_name (ns ! 0) = Some b" "unat (ksn_name_len (ns ! 0)) < length b" using ns by blast
  have c: "cstr (names_buffer (ks_entries (one_list nm 1) ! 0)) = nm" "ks_entries (one_list nm 1) \<noteq> []"
    using cstr_name_bytes [OF assms(1)] by (simp_all add: one_list_def)
  have m1: "1 + n = 0 \<longleftrightarrow> n = - 1" for n :: u32 by (metis add_eq_0_iff minus_minus)
  have wrap: "unat (n + 1) = 0 \<longleftrightarrow> n = - 1" "n \<noteq> - 1 \<Longrightarrow> unat (n + 1) = Suc (unat n)" for n :: u32
    using unatSuc [of n] m1 [of n] by (simp_all add: unat_eq_zero add.commute)
  show ?thesis
    using False b c
    by (cases "length nm > unat (ksn_name_len (ns ! 0))"; cases "ksn_name_len (ns ! 0) = - 1")
      (auto simp: key_space_names_def snprintf_s_def Let_def word_le_nat_alt unat_gt_0 wrap)
qed (simp add: key_space_names_def)

lemma rel_list:
  assumes f: "fresh_ok fresh" and rel: "env_rel DR env ab" and ok: "call_ok (ListKeySpaces a index sz names cnt)"
  shows "\<exists>env'. api_step host init D fresh (ListKeySpaces a index sz names cnt) env =
      Returns (fst (abs_step (ListKeySpaces a index sz names cnt) ab), env')
    \<and> env_rel DR env' (snd (abs_step (ListKeySpaces a index sz names cnt) ab))"
proof (cases "\<exists>i ns n dv. a = Some i \<and> names = Some ns \<and> cnt = Some n \<and> index = 1 \<and> ab_devs ab i = Some dv")
  case False
  have "unat index < 1 \<or> 1 < unat index \<longleftrightarrow> index \<noteq> 1" by (auto simp: word_unat_eq_iff)
  with False rel show ?thesis by (auto simp: kvs_list_key_spaces_def rel_opened [OF rel] split: option.splits)
next
  case True
  then obtain i ns n dv where n: "a = Some i" "names = Some ns" "cnt = Some n" "index = 1" and dv: "ab_devs ab i = Some dv" by blast
  let ?l = "case ad_dir dv of None \<Rightarrow> ks_list_zero | Some p \<Rightarrow> one_list (fst p) 1"
  let ?f = "\<lambda>d. andThen (retreive_key_space_list D fresh ks_list_zero d) (\<lambda>(ret, l, d'). Returns ((ret, l), d'))"
  have "\<exists>d'. ?f d = Returns ((KVS_SUCCESS, ?l), d') \<and> inv d' \<and> meta_rep (contents d') (ad_dir dv) \<and> contents d' 1 = contents d 1"
    if "inv d" "meta_rep (contents d) (ad_dir dv)" for d
  proof -
    have "list_rec (contents d) (map_option fst (ad_dir dv))" using that(2) by (simp add: meta_rep_def)
    from retrieve_list [OF that(1) f this] that show ?thesis by (cases "ad_dir dv") auto
  qed
  from rel_on_dir [OF rel dv this] obtain env' where e: "on_driver i ?f env = Returns ((KVS_SUCCESS, ?l), env')" "env_rel DR env' ab"
    using dv by (auto simp: set_dev_same)
  have l: "list_names (unat (ks_num ?l)) 0 (sz div 16) (ks_entries ?l) ns 0 = Some (key_space_names ns sz (ad_dir dv))"
  proof (cases "ad_dir dv")
    case (Some p)
    obtain h where "handle_rel DR ab i h dv" using rel_handle [OF rel dv] by blast
    then have "DR (dvh_driver h) dv" by (simp add: handle_rel_def)
    with Some have "0 \<notin> set (fst p)" by (cases p) (auto simp: dev_rel_def meta_rep_def list_rec_def)
    moreover have "\<exists>b. ns \<noteq> [] \<and> ksn_name (ns ! 0) = Some b \<and> unat (ksn_name_len (ns ! 0)) < length b" if "sz div 16 \<noteq> 0"
      using ok n that by (cases ns) (auto simp: unat_eq_zero split: option.splits)
    ultimately show ?thesis using names_one [of "fst p" sz ns "snd p"] Some by (simp add: one_list_def)
  qed (simp add: ks_list_zero_def key_space_names_def)
  have "\<not> 1 < unat (ks_num ?l)" by (cases "ad_dir dv") (simp_all add: ks_list_zero_def one_list_def)
  with n dv e l show ?thesis
    by (auto simp: kvs_list_key_spaces_def rel_opened [OF rel] ks_list_zero_def one_list_def case_prod_beta split: option.splits)
qed

end

section \<open>Key-value pairs\<close>

text \<open>A request that the API accepts is accepted by the device library.\<close>

lemma request_validates:
  assumes "validate_request (Some k) vo = KVS_SUCCESS"
  shows "validate_key_value k vo = KV_SUCCESS" and "4 \<le> unat (key_length k)"
  using assms
  by (auto simp: validate_request_def validate_kv_pair_def validate_key_value_def Let_def split: option.splits if_splits)

lemma key_list_validates:
  "validate_key_list n ks = Some KVS_SUCCESS \<Longrightarrow> validate_keys n ks = Some KV_SUCCESS"
proof (induction n ks rule: validate_key_list.induct)
  case (3 n k ks)
  then have "validate_kv_pair (Some k) None 0 = KVS_SUCCESS" by (auto split: if_splits)
  then have "validate_key_value k None = KV_SUCCESS"
    by (auto simp: validate_kv_pair_def validate_key_value_def Let_def split: if_splits)
  with 3 show ?case by (simp split: if_splits)
qed simp_all

lemma key_list_total_le: "n \<le> length ks \<Longrightarrow> \<exists>r. validate_key_list n ks = Some r"
  by (induction n ks rule: validate_key_list.induct) auto

lemma key_list_total: "length ks = n \<Longrightarrow> \<exists>r. validate_key_list n ks = Some r"
  by (rule key_list_total_le) simp

text \<open>The specifications of the driver read and write one key space.\<close>

lemma meta_rep_same: "C' 0 = C 0 \<Longrightarrow> meta_rep C' dir = meta_rep C dir"
  by (simp add: meta_rep_def list_rec_def cong: option.case_cong)

lemma store_spec_data:
  assumes "validate_request (Some k) (Some v) = KVS_SUCCESS"
  shows "fst (store_spec 1 k v st C) = fst (data_store (Some k) (Some v) (Some st) (C 1))"
    and "snd (store_spec 1 k v st C) 1 = snd (snd (data_store (Some k) (Some v) (Some st) (C 1)))"
  using assms request_validates(1) [OF assms]
  by (cases st; simp add: store_spec_def data_store_def trans_store_cmd_opt_def spec_store_def contents_upd_def ks_id_invalid_def
      convert_return_code_def)+

lemma delete_spec_data:
  assumes "validate_request (Some k) None = KVS_SUCCESS"
  shows "fst (delete_spec 1 k err C) = fst (data_delete (Some k) (Some err) (C 1))"
    and "snd (delete_spec 1 k err C) 1 = snd (snd (data_delete (Some k) (Some err) (C 1)))"
  using assms request_validates(1) [OF assms]
  by (cases err; simp add: delete_spec_def data_delete_def spec_delete_def contents_upd_def ks_id_invalid_def convert_return_code_def)+

lemma retrieve_spec_data: "retrieve_spec 1 k v del C = retrieve_spec 1 k v del (\<lambda>_. C 1)"
  by (simp add: retrieve_spec_def spec_retrieve_def)

lemma exist_spec_data:
  assumes "validate_key_list (unat cnt) ks = Some KVS_SUCCESS" and "unat cnt = length ks" and "cnt \<noteq> 0" and "el_length l \<noteq> 0"
    and "el_result_buffer l = Some buf"
  shows "(fst (exist_spec 1 cnt ks (el_length l) buf C), Some (l\<lparr>el_result_buffer := Some (snd (exist_spec 1 cnt ks (el_length l) buf C))\<rparr>), C 1)
    = data_exist cnt ks l (C 1)"
  using assms key_list_validates [OF assms(1)]
  by (simp add: exist_spec_def data_exist_def spec_exist_def ks_id_invalid_def convert_return_code_def Let_def)

context kvs_driver_api
begin

lemma rel_store:
  assumes rel: "env_rel DR env ab" and ok: "call_ok (StoreKvp k key val opt)"
  shows "\<exists>env'. api_step host init D fresh (StoreKvp k key val opt) env = Returns (fst (abs_step (StoreKvp k key val opt) ab), env')
    \<and> env_rel DR env' (snd (abs_step (StoreKvp k key val opt) ab))"
proof -
  let ?f = "\<lambda>ksid d. case (key, val, opt) of
         (Some _, Some _, Some st) \<Rightarrow>
           if \<not> True \<and> \<not> False then Returns (KVS_ERR_PARAM_INVALID, (), d)
           else if validate_request key val \<noteq> KVS_SUCCESS then Returns (validate_request key val, (), d)
           else andThen (store_tuple D ksid key val st True d) (\<lambda>(r, d'). Returns (r, (), d'))
       | _ \<Rightarrow> Returns (KVS_ERR_PARAM_INVALID, (), d)"
  let ?g = "data_store key val opt"
  have "\<exists>d'. ?f 1 d = Returns (fst (?g (ad_data dv)), fst (snd (?g (ad_data dv))), d') \<and> DR d' (dv\<lparr>ad_data := snd (snd (?g (ad_data dv)))\<rparr>)"
    if r: "DR d dv" for d dv
  proof (cases "\<exists>kk v st. key = Some kk \<and> val = Some v \<and> opt = Some st \<and> validate_request key val = KVS_SUCCESS")
    case False
    with r show ?thesis by (auto simp: data_store_def split: option.splits)
  next
    case True
    then obtain kk v st where p: "key = Some kk" "val = Some v" "opt = Some st" "validate_request (Some kk) (Some v) = KVS_SUCCESS" by blast
    have "inv d" "key_readable kk" "value_readable v" using r ok p by (simp_all add: dev_rel_def)
    from store_law [OF this, of 1 st] obtain d' where d': "store_tuple D 1 (Some kk) (Some v) st True d = Returns (fst (store_spec 1 kk v st (contents d)), d')"
      "inv d'" "contents d' = snd (store_spec 1 kk v st (contents d))" by blast
    have "meta_rep (contents d') (ad_dir dv)"
      using r meta_rep_same [of "contents d'" "contents d"] by (simp add: d'(3) spec_contents_other dev_rel_def)
    with p d' r show ?thesis by (simp add: store_spec_data dev_rel_def)
  qed
  from rel_on_key_space [where f = ?f and g = ?g and R = DR and unset = "()" and k = k, OF rel this] show ?thesis
    by (auto simp: kvs_store_kvp_def store_kvp_def case_prod_beta)
qed

lemma rel_retrieve:
  assumes rel: "env_rel DR env ab" and ok: "call_ok (RetrieveKvp k key opt val)"
  shows "\<exists>env'. api_step host init D fresh (RetrieveKvp k key opt val) env = Returns (fst (abs_step (RetrieveKvp k key opt val) ab), env')
    \<and> env_rel DR env' (snd (abs_step (RetrieveKvp k key opt val) ab))"
proof -
  let ?f = "\<lambda>ksid d. case (key, val, opt) of
         (Some _, Some v, Some del) \<Rightarrow>
           if \<not> True \<and> \<not> False then Returns (KVS_ERR_PARAM_INVALID, val, d)
           else if validate_request key val \<noteq> KVS_SUCCESS then Returns (validate_request key val, val, d)
           else if value_length v AND (4 - 1) \<noteq> 0 then Returns (KVS_ERR_PARAM_INVALID, val, d)
           else retrieve_tuple D ksid key val del True d
       | _ \<Rightarrow> Returns (KVS_ERR_PARAM_INVALID, val, d)"
  let ?g = "data_retrieve key opt val"
  have "\<exists>d'. ?f 1 d = Returns (fst (?g (ad_data dv)), fst (snd (?g (ad_data dv))), d') \<and> DR d' (dv\<lparr>ad_data := snd (snd (?g (ad_data dv)))\<rparr>)"
    if r: "DR d dv" for d dv
  proof (cases "\<exists>kk v del. key = Some kk \<and> val = Some v \<and> opt = Some del \<and> validate_request key val = KVS_SUCCESS \<and> value_length v AND (4 - 1) = 0")
    case False
    with r show ?thesis by (auto simp: data_retrieve_def split: option.splits)
  next
    case True
    then obtain kk v del where p: "key = Some kk" "val = Some v" "opt = Some del" "validate_request (Some kk) (Some v) = KVS_SUCCESS"
      "value_length v AND (4 - 1) = 0" by blast
    have "inv d" "key_readable kk" "value_readable v" using r ok p by (simp_all add: dev_rel_def)
    from retrieve_law [OF this, of 1 del] p r show ?thesis
      by (auto simp: data_retrieve_def dev_rel_def retrieve_spec_data [of _ _ _ "contents d"])
  qed
  from rel_on_key_space [where f = ?f and g = ?g and R = DR and unset = val and k = k, OF rel this] show ?thesis
    by (auto simp: kvs_retrieve_kvp_def retrieve_kvp_def case_prod_beta)
qed

lemma rel_delete:
  assumes rel: "env_rel DR env ab" and ok: "call_ok (DeleteKvp k key opt)"
  shows "\<exists>env'. api_step host init D fresh (DeleteKvp k key opt) env = Returns (fst (abs_step (DeleteKvp k key opt) ab), env')
    \<and> env_rel DR env' (snd (abs_step (DeleteKvp k key opt) ab))"
proof -
  let ?f = "\<lambda>ksid d. case (key, opt) of
         (Some _, Some err) \<Rightarrow>
           if \<not> True \<and> \<not> False then Returns (KVS_ERR_PARAM_INVALID, (), d)
           else if validate_request key None \<noteq> KVS_SUCCESS then Returns (validate_request key None, (), d)
           else andThen (delete_tuple D ksid key err True d) (\<lambda>(r, d'). Returns (r, (), d'))
       | _ \<Rightarrow> Returns (KVS_ERR_PARAM_INVALID, (), d)"
  let ?g = "data_delete key opt"
  have "\<exists>d'. ?f 1 d = Returns (fst (?g (ad_data dv)), fst (snd (?g (ad_data dv))), d') \<and> DR d' (dv\<lparr>ad_data := snd (snd (?g (ad_data dv)))\<rparr>)"
    if r: "DR d dv" for d dv
  proof (cases "\<exists>kk err. key = Some kk \<and> opt = Some err \<and> validate_request key None = KVS_SUCCESS")
    case False
    with r show ?thesis by (auto simp: data_delete_def split: option.splits)
  next
    case True
    then obtain kk err where p: "key = Some kk" "opt = Some err" "validate_request (Some kk) None = KVS_SUCCESS" by blast
    have "inv d" "key_readable kk" using r ok p by (simp_all add: dev_rel_def)
    from delete_law [OF this, of 1 err] obtain d' where d': "delete_tuple D 1 (Some kk) err True d = Returns (fst (delete_spec 1 kk err (contents d)), d')"
      "inv d'" "contents d' = snd (delete_spec 1 kk err (contents d))" by blast
    have "meta_rep (contents d') (ad_dir dv)"
      using r meta_rep_same [of "contents d'" "contents d"] by (simp add: d'(3) spec_contents_other dev_rel_def)
    with p d' r show ?thesis by (simp add: delete_spec_data dev_rel_def)
  qed
  from rel_on_key_space [where f = ?f and g = ?g and R = DR and unset = "()" and k = k, OF rel this] show ?thesis
    by (auto simp: kvs_delete_kvp_def delete_kvp_def case_prod_beta)
qed

lemma rel_exist:
  assumes rel: "env_rel DR env ab" and ok: "call_ok (ExistKvPairs k cnt keys l)"
  shows "\<exists>env'. api_step host init D fresh (ExistKvPairs k cnt keys l) env = Returns (fst (abs_step (ExistKvPairs k cnt keys l) ab), env')
    \<and> env_rel DR env' (snd (abs_step (ExistKvPairs k cnt keys l) ab))"
proof (cases "\<exists>ks el b. keys = Some ks \<and> l = Some el \<and> cnt \<noteq> 0 \<and> el_result_buffer el = Some b")
  case False
  with rel show ?thesis by (auto simp: kvs_exist_kv_pairs_def exist_kv_pairs_def split: option.splits)
next
  case True
  then obtain ks el b where p: "keys = Some ks" "l = Some el" "cnt \<noteq> 0" "el_result_buffer el = Some b" by blast
  then have o: "unat cnt = length ks" "unat cnt < 2 ^ 31" "list_all key_readable ks" "unat (el_length el) \<le> length b" using ok by simp_all
  obtain r where r: "validate_key_list (unat cnt) ks = Some r" using key_list_total [of ks "unat cnt"] o(1) by auto
  show ?thesis
  proof (cases "r = KVS_SUCCESS")
    case False
    with p r rel show ?thesis by (simp add: kvs_exist_kv_pairs_def exist_kv_pairs_def)
  next
    case True
    let ?el = "el\<lparr>el_keys := ks, el_num_keys := cnt\<rparr>"
    let ?f = "\<lambda>ksid d. if el_length ?el = 0 then Returns (KVS_ERR_BUFFER_SMALL, Some ?el, d)
                else andThen (exist_tuple D ksid cnt keys ?el True d) (\<lambda>(r, el2, d'). Returns (r, Some el2, d'))"
    let ?g = "data_exist cnt ks ?el"
    have "\<exists>d'. ?f 1 d = Returns (fst (?g (ad_data dv)), fst (snd (?g (ad_data dv))), d') \<and> DR d' (dv\<lparr>ad_data := snd (snd (?g (ad_data dv)))\<rparr>)"
      if q: "DR d dv" for d dv
    proof (cases "el_length el = 0")
      case True
      with q show ?thesis by (simp add: data_exist_def)
    next
      case False
      have d: "inv d" "contents d 1 = ad_data dv" using q by (simp_all add: dev_rel_def)
      note e = exist_spec_data [of cnt ks ?el b "contents d", symmetric, unfolded d(2)]
      from exist_law [OF d(1) o(3,1,2), of ?el b 1] p o(4) obtain d' where
        "exist_tuple D 1 cnt (Some ks) ?el True d = Returns (fst (exist_spec 1 cnt ks (el_length ?el) b (contents d)),
            ?el\<lparr>el_result_buffer := Some (snd (exist_spec 1 cnt ks (el_length ?el) b (contents d)))\<rparr>, d')"
        "inv d'" "contents d' = contents d" by auto
      with False q p o r True e show ?thesis by (auto simp: dev_rel_def)
    qed
    from rel_on_key_space [where f = ?f and g = ?g and R = DR and unset = "Some ?el" and k = k, OF rel this] p r True show ?thesis
      by (auto simp: kvs_exist_kv_pairs_def exist_kv_pairs_def case_prod_beta Let_def)
  qed
qed

theorem api_step_refines:
  assumes "host_ok host" and "init_ok inv contents init" and "fresh_ok fresh" and "env_rel DR env ab" and "call_ok c"
  shows "\<exists>env'. api_step host init D fresh c env = Returns (fst (abs_step c ab), env') \<and> env_rel DR env' (snd (abs_step c ab))"
proof (cases c)
  case (OpenDevice uri b)
  show ?thesis unfolding OpenDevice by (rule rel_open_device [OF assms(1,2,4)])
next
  case (CloseDevice a)
  show ?thesis unfolding CloseDevice by (rule rel_close_device [OF assms(4)]) (simp add: dev_rel_def end_law)
next
  case (CreateKeySpace a name sz key_ordering)
  show ?thesis unfolding CreateKeySpace by (rule rel_create [OF assms(3-5) [unfolded CreateKeySpace]])
next
  case (DeleteKeySpace a name)
  show ?thesis unfolding DeleteKeySpace by (rule rel_delete_ks [OF assms(3-5) [unfolded DeleteKeySpace]])
next
  case (ListKeySpaces a index sz names cnt)
  show ?thesis unfolding ListKeySpaces by (rule rel_list [OF assms(3-5) [unfolded ListKeySpaces]])
next
  case (OpenKeySpace a name b)
  show ?thesis unfolding OpenKeySpace by (rule rel_open_ks [OF assms(3-5) [unfolded OpenKeySpace]])
next
  case (CloseKeySpace k)
  show ?thesis unfolding CloseKeySpace by (rule rel_close_ks [OF assms(3,4)])
next
  case (KeySpaceInfo k b)
  show ?thesis unfolding KeySpaceInfo by (rule rel_info [OF assms(3,4)])
next
  case (StoreKvp k key val opt)
  show ?thesis unfolding StoreKvp by (rule rel_store [OF assms(4,5) [unfolded StoreKvp]])
next
  case (RetrieveKvp k key opt val)
  show ?thesis unfolding RetrieveKvp by (rule rel_retrieve [OF assms(4,5) [unfolded RetrieveKvp]])
next
  case (DeleteKvp k key opt)
  show ?thesis unfolding DeleteKvp by (rule rel_delete [OF assms(4,5) [unfolded DeleteKvp]])
next
  case (ExistKvPairs k cnt keys l)
  show ?thesis unfolding ExistKvPairs by (rule rel_exist [OF assms(4,5) [unfolded ExistKvPairs]])
qed

theorem api_run_refines:
  assumes "host_ok host" and "init_ok inv contents init" and "fresh_ok fresh" and "env_rel DR env ab" and "list_all call_ok cs"
  shows "\<exists>env'. api_run host init D fresh cs env = Returns (fst (abs_run cs ab), env') \<and> env_rel DR env' (snd (abs_run cs ab))"
  using assms(4,5)
proof (induction cs arbitrary: env ab)
  case (Cons c cs)
  then obtain env1 where e: "api_step host init D fresh c env = Returns (fst (abs_step c ab), env1)" "env_rel DR env1 (snd (abs_step c ab))"
    using api_step_refines [OF assms(1-3), of env ab c] by auto
  from Cons.IH [OF e(2)] Cons.prems(2) obtain env2 where
    "api_run host init D fresh cs env1 = Returns (fst (abs_run cs (snd (abs_step c ab))), env2)"
    "env_rel DR env2 (snd (abs_run cs (snd (abs_step c ab))))" by auto
  with e show ?case by (simp add: case_prod_beta)
qed simp

end

end
