(* ===== verification/Kv_Api_Properties.thy ===== *)
theory Kv_Api_Properties
  imports Kv_Api_Correct
begin

text \<open>
  The KV API on the emulator: what a program sees that opens devices and key spaces and works
  with key-value pairs, from \<open>cfrontend.cpp\<close> down to the ordered maps of the emulator.
\<close>

section \<open>The API on the emulator\<close>

text \<open>
  What is around the API: the buffers of the queues, the utilisation function, the memory of a
  new command, the host with its settings, the allocator, the configuration files, and the
  arguments of the device library when a device is opened.
\<close>

record 'b platform =
  pf_buffer :: "('b, io_cmd) circular_buffer"
  pf_util :: "u64 \<Rightarrow> u64 \<Rightarrow> u16"
  pf_ctx :: io_ctx_t
  pf_host :: host_env
  pf_fresh :: "nat \<Rightarrow> byte list"
  pf_cfgs :: "string \<Rightarrow> kv_config"
  pf_purging :: bool
  pf_history :: kv_history
  pf_qid :: "string \<Rightarrow> int"
  pf_library :: "string \<Rightarrow> 'b device_class"

text \<open>The host has valid settings, and a device comes up with some capacity and is not polled.\<close>

definition platform_ok :: "('b \<Rightarrow> io_cmd list) \<Rightarrow> ('b \<Rightarrow> nat) \<Rightarrow> 'b platform \<Rightarrow> bool" where
  "platform_ok content capacity S \<longleftrightarrow>
     circular_buffer_laws (pf_buffer S) content capacity \<and> host_ok (pf_host S) \<and> fresh_ok (pf_fresh S) \<and>
     (\<forall>cf p. \<exists>dev0 :: 'b kv_device_internal.
        kv_device_internal_new (pf_cfgs S cf) False (s_next_devid (pf_library S p)) = Some dev0 \<and> m_capacity dev0 \<noteq> 0 \<and> \<not> m_is_poll dev0)"

abbreviation (input) emul_init :: "'b platform \<Rightarrow> string \<Rightarrow> string \<Rightarrow> int \<Rightarrow> (kvs_result \<times> 'b KvEmulator) call" where
  "emul_init S \<equiv> select_driver_init (pf_buffer S) (pf_cfgs S) (pf_purging S) (pf_history S) (pf_qid S) (pf_library S)"

abbreviation (input) emul_D :: "'b platform \<Rightarrow> 'b KvEmulator KvsDriver" where
  "emul_D S \<equiv> emulator_driver (pf_buffer S) (pf_util S) (pf_ctx S)"

abbreviation (input) emul_rel :: "('b \<Rightarrow> io_cmd list) \<Rightarrow> ('b \<Rightarrow> nat) \<Rightarrow> 'b platform \<Rightarrow> 'b KvEmulator g_env \<Rightarrow> abs_env \<Rightarrow> bool" where
  "emul_rel content capacity S \<equiv> env_rel (dev_rel (drv_ok (pf_buffer S) content capacity) drv_contents)"

text \<open>A run of the API on the emulator, and the environments a program can get to.\<close>

definition emul_run :: "'b platform \<Rightarrow> api_call list \<Rightarrow> (api_reply list \<times> 'b KvEmulator g_env) call" where
  "emul_run S cs = api_run (pf_host S) (emul_init S) (emul_D S) (pf_fresh S) cs g_env_start"

definition reachable :: "'b platform \<Rightarrow> 'b KvEmulator g_env \<Rightarrow> bool" where
  "reachable S env \<longleftrightarrow> (\<exists>cs rs. list_all call_ok cs \<and> emul_run S cs = Returns (rs, env))"

lemma select_driver_ok:
  fixes S :: "'b platform"
  assumes "platform_ok content capacity S"
  shows "init_ok (drv_ok (pf_buffer S) content capacity) drv_contents (emul_init S)"
  unfolding init_ok_def
proof (intro allI impI)
  fix path cf and depth :: int
  assume depth: "\<not> 65536 dvd depth"
  obtain dev0 :: "'b kv_device_internal" where
    "kv_device_internal_new (pf_cfgs S cf) False (s_next_devid (pf_library S path)) = Some dev0" "m_capacity dev0 \<noteq> 0" "\<not> m_is_poll dev0"
    using assms unfolding platform_ok_def by blast
  moreover have "circular_buffer_laws (pf_buffer S) content capacity" using assms by (simp add: platform_ok_def)
  ultimately show "\<exists>d. emul_init S path cf depth = Returns (KVS_SUCCESS, d)
      \<and> drv_ok (pf_buffer S) content capacity d \<and> drv_contents d = contents_empty"
    using init_drv_ok [of "pf_buffer S" content capacity "pf_cfgs S cf" "pf_library S path" dev0 depth "pf_purging S" "pf_history S"
        "pf_qid S path"] depth
    by (auto simp: select_driver_init_def)
qed

lemma emulator_step_refines:
  assumes S: "platform_ok content capacity S" and rel: "emul_rel content capacity S env ab" and c: "call_ok c"
  shows "\<exists>env'. api_step (pf_host S) (emul_init S) (emul_D S) (pf_fresh S) c env = Returns (fst (abs_step c ab), env')
    \<and> emul_rel content capacity S env' (snd (abs_step c ab))"
  using S by (intro emul_drv.api_step_refines [OF _ select_driver_ok [OF S] _ rel c]) (simp_all add: platform_ok_def)

lemma emulator_run_refines:
  assumes S: "platform_ok content capacity S" and cs: "list_all call_ok cs"
  shows "\<exists>env. emul_run S cs = Returns (fst (abs_run cs abs_start), env) \<and> emul_rel content capacity S env (snd (abs_run cs abs_start))"
  using S unfolding emul_run_def
  by (intro emul_drv.api_run_refines [OF _ select_driver_ok [OF S] _ env_rel_start cs]) (simp_all add: platform_ok_def)

lemma reachable_rel:
  assumes "platform_ok content capacity S" and "reachable S env"
  obtains cs where "emul_rel content capacity S env (snd (abs_run cs abs_start))" and "list_all call_ok cs"
proof -
  obtain cs rs where c: "list_all call_ok cs" "emul_run S cs = Returns (rs, env)" using assms(2) by (auto simp: reachable_def)
  with emulator_run_refines [OF assms(1) c(1)] have "emul_rel content capacity S env (snd (abs_run cs abs_start))" by auto
  then show ?thesis using that c(1) by blast
qed

section \<open>Paths and names are open once\<close>

definition abs_inv :: "abs_env \<Rightarrow> bool" where
  "abs_inv ab \<longleftrightarrow>
     (\<forall>a b x y. ab_devs ab a = Some x \<longrightarrow> ab_devs ab b = Some y \<longrightarrow> ad_path x = ad_path y \<longrightarrow> a = b) \<and>
     (\<forall>k l p. ab_open ab k = Some p \<longrightarrow> ab_open ab l = Some p \<longrightarrow> k = l) \<and>
     (\<forall>k a nm. ab_open ab k = Some (a, nm) \<longrightarrow> ab_devs ab a \<noteq> None) \<and>
     (\<forall>a. ab_devs ab a \<noteq> None \<longrightarrow> a < ab_next ab) \<and> (\<forall>k. ab_open ab k \<noteq> None \<longrightarrow> k < ab_next ab)"

lemma inv_set_dev:
  assumes "abs_inv ab" and "ab_devs ab a = Some dv" and "ad_path dv' = ad_path dv"
  shows "abs_inv (set_dev a dv' ab)"
  using assms unfolding abs_inv_def set_dev_simps by (simp, metis)

lemma inv_ks:
  assumes "abs_inv ab" and "abs_ks k ab = Inr (a, nm)"
  obtains dv where "ab_devs ab a = Some dv"
  using assms unfolding abs_ks_open abs_inv_def by blast

lemma inv_on_data:
  assumes "abs_inv ab"
  shows "abs_inv (snd (snd (abs_on_data k u g ab)))"
proof (cases "abs_ks k ab")
  case (Inr p)
  obtain a nm where p: "p = (a, nm)" by (cases p)
  obtain dv where "ab_devs ab a = Some dv" using inv_ks [OF assms Inr [unfolded p]] by blast
  with Inr p inv_set_dev [OF assms this, of "dv\<lparr>ad_data := snd (snd (g (ad_data dv)))\<rparr>"] show ?thesis
    by (simp add: abs_on_data_def case_prod_beta Let_def)
qed (simp add: abs_on_data_def assms)

lemma inv_open_device:
  assumes "abs_inv ab" and "p \<notin> ad_path ` ran (ab_devs ab)" and "ad_path dv = p"
  shows "abs_inv (set_dev (ab_next ab) dv (ab\<lparr>ab_next := Suc (ab_next ab)\<rparr>))"
proof -
  have p: "ad_path x \<noteq> ad_path dv" if "ab_devs ab a = Some x" for a x
    using assms(2,3) that by (metis imageI ranI)
  show ?thesis
    using assms(1) unfolding abs_inv_def by (auto simp: less_Suc_eq dest: p p [THEN not_sym])
qed

lemma inv_open_ks:
  assumes "abs_inv ab" and "ab_devs ab a = Some dv" and "(a, nm) \<notin> ran (ab_open ab)"
  shows "abs_inv (ab\<lparr>ab_open := (ab_open ab)(ab_next ab \<mapsto> (a, nm)), ab_next := Suc (ab_next ab)\<rparr>)"
proof -
  have "ab_open ab k \<noteq> Some (a, nm)" for k using assms(3) by (auto simp: ran_def)
  then show ?thesis
    using assms(1,2) unfolding abs_inv_def by (auto simp: less_Suc_eq)
qed

lemma inv_step: "abs_inv ab \<Longrightarrow> abs_inv (snd (abs_step c ab))"
proof (induction c ab rule: abs_step.induct)
  case (1 uri dev_hd ab)
  then show ?case using inv_open_device [OF 1] by (simp split: option.split)
next
  case (2 dev_hd ab)
  then show ?case by (auto simp: abs_inv_def split: option.split)
next
  case (3 dev_hd name sz key_ordering ab)
  then show ?case using inv_set_dev [OF 3] by (simp add: case_prod_beta split: option.split)
next
  case (4 dev_hd name ab)
  then show ?case using inv_set_dev [OF 4] by (simp add: case_prod_beta split: option.split)
next
  case (5 dev_hd index sz names cnt ab)
  then show ?case by (simp add: case_prod_beta split: option.split)
next
  case (6 dev_hd name ks_hd ab)
  have "abs_inv (set_dev a (dv\<lparr>ad_dir := set_opened 1 (ad_dir dv)\<rparr>)
      (ab\<lparr>ab_open := (ab_open ab)(ab_next ab \<mapsto> (a, nm)), ab_next := Suc (ab_next ab)\<rparr>))"
    if "ab_devs ab a = Some dv" "(a, nm) \<notin> ran (ab_open ab)" for a nm dv
    using inv_set_dev [OF inv_open_ks [OF 6 that], of a dv] that by simp
  with 6 show ?case by (simp split: option.split)
next
  case (7 k ab)
  have "abs_inv (set_dev a (dv\<lparr>ad_dir := x\<rparr>) (ab\<lparr>ab_open := (ab_open ab)(i := None)\<rparr>))" if "ab_devs ab a = Some dv" for a dv i x
    by (rule inv_set_dev [of _ _ dv]) (use 7 that in \<open>auto simp: abs_inv_def\<close>)
  with 7 show ?case by (auto simp: Let_def split: sum.split elim: inv_ks)
next
  case (12 k cnt keys l ab)
  then show ?case using inv_on_data [OF 12] by (auto simp: case_prod_beta Let_def split: option.split)
qed (use inv_on_data in \<open>simp_all add: case_prod_beta Let_def split: sum.split\<close>)

lemma inv_run: "abs_inv ab \<Longrightarrow> abs_inv (snd (abs_run cs ab))"
  by (induction cs arbitrary: ab) (simp_all add: case_prod_beta inv_step)

lemma inv_start: "abs_inv abs_start"
  by (simp add: abs_inv_def abs_start_def)

section \<open>A sample platform\<close>

definition sample_host :: host_env where
  "sample_host = \<lparr>h_getenv = (\<lambda>_. None), h_cfg = Map.empty, h_exists = (\<lambda>_. True), h_readable = (\<lambda>_. True)\<rparr>"

definition sample_platform :: "(io_cmd list \<times> nat) platform" where
  "sample_platform = \<lparr>pf_buffer = list_buffer, pf_util = (\<lambda>_ _. 0), pf_ctx = ioctx sample_cmd, pf_host = sample_host,
     pf_fresh = (\<lambda>n. replicate n 7), pf_cfgs = (\<lambda>_. Map.empty), pf_purging = False, pf_history = sample_history,
     pf_qid = (\<lambda>_. -1), pf_library = (\<lambda>_. sample_class)\<rparr>"

lemma sample_host_ok: "host_ok sample_host"
  by (simp add: host_ok_def sample_host_def init_env_from_environ_def init_env_from_cfgfile_def init_default_option_def
      getkv_def atoi_def scan_number_def)

lemma sample_platform_ok: "platform_ok fst snd sample_platform"
  using list_buffer_laws sample_host_ok default_device
  by (simp add: platform_ok_def sample_platform_def fresh_ok_def sample_class_def)

definition sample_name :: "byte list" where
  "sample_name = map of_char ''data''"

definition sample_target :: kv_value where
  "sample_target = \<lparr>value_ptr = Some [0, 0, 0, 0], value_length = 4, actual_value_size = 0, value_offset = 0\<rparr>"

lemma sample_name_ok: "length sample_name = 4" "0 \<notin> set sample_name" "ekey sample_name \<noteq> lkey"
  by (simp_all add: sample_name_def ekey_def lkey_def KEY_SPACE_LIST_KEY_NAME_def of_char_def)

lemma sample_request:
  "validate_request (Some sample_key) (Some sample_value) = KVS_SUCCESS" "validate_request (Some sample_key) (Some sample_target) = KVS_SUCCESS"
  "key_readable sample_key" "value_readable sample_value" "value_readable sample_target"
  by (simp_all add: validate_request_def validate_kv_pair_def sample_key_def sample_value_def sample_target_def key_readable_def
      value_readable_def ptr_bytes_def)

text \<open>Opening a new device, creating the key space \<open>nm\<close> and opening it as \<open>nm'\<close>.\<close>

definition key_space_calls :: "string \<Rightarrow> byte list \<Rightarrow> u64 \<Rightarrow> byte list \<Rightarrow> api_call list" where
  "key_space_calls p nm sz nm' =
     [OpenDevice (Some p) True,
      CreateKeySpace (Some 0) (Some \<lparr>ksn_name_len = word_of_nat (length nm), ksn_name = Some nm\<rparr>) sz KVS_KEY_ORDER_NONE,
      OpenKeySpace (Some 0) (Some nm') True]"

definition one_key_space :: "string \<Rightarrow> byte list \<Rightarrow> u64 \<Rightarrow> byte list \<Rightarrow> (byte list \<rightharpoonup> byte list) \<Rightarrow> abs_env" where
  "one_key_space p nm sz nm' m =
     \<lparr>ab_devs = [0 \<mapsto> \<lparr>ad_path = p,
        ad_dir = Some (nm, \<lparr>md_keyspace_id = 1, md_opened = 1, md_key_order = 0, md_capacity = sz, md_free_size = 0, md_kv_count = 0\<rparr>),
        ad_data = m\<rparr>],
      ab_open = [1 \<mapsto> (0, nm')], ab_next = 2\<rparr>"

lemma abs_run_append [simp]:
  "abs_run (xs @ ys) ab = (fst (abs_run xs ab) @ fst (abs_run ys (snd (abs_run xs ab))), snd (abs_run ys (snd (abs_run xs ab))))"
  by (induction xs arbitrary: ab) (simp_all add: case_prod_beta)

lemma unat_length_name [simp]: "length nm \<le> 255 \<Longrightarrow> unat (word_of_nat (length nm) :: u32) = length nm"
  by (simp add: unat_of_nat take_bit_nat_eq_self)

lemma key_space_calls_run:
  assumes p: "p \<noteq> []" "length p \<le> 255" and nm: "4 \<le> length nm" "length nm \<le> 255" "ekey nm \<noteq> lkey"
    and nm': "4 \<le> length nm'" "length nm' \<le> 255" "ekey nm' = ekey nm"
  shows "abs_run (key_space_calls p nm sz nm') abs_start =
    ([NewHandle KVS_SUCCESS (Some 0), Status KVS_SUCCESS, NewHandle KVS_SUCCESS (Some 1)], one_key_space p nm sz nm' Map.empty)"
proof -
  have "nm \<noteq> []" using nm by auto
  with assms show ?thesis
    by (simp add: key_space_calls_def abs_start_def create_spec_def has_record_def set_opened_def one_key_space_def set_dev_def)
qed

lemma key_space_calls_ok:
  assumes "length nm \<le> 255" "0 \<notin> set nm" "length nm' \<le> 255" "ekey nm' \<noteq> lkey"
  shows "list_all call_ok (key_space_calls p nm sz nm')"
  using assms by (simp add: key_space_calls_def)

definition sample_calls :: "api_call list" where
  "sample_calls = key_space_calls ''/dev/kvemul'' sample_name 0 sample_name @
     [StoreKvp (Some 1) (Some sample_key) (Some sample_value) (Some KVS_STORE_POST),
      RetrieveKvp (Some 1) (Some sample_key) (Some False) (Some sample_target)]"

text \<open>Storing and retrieving on the abstract state.\<close>

lemma data_retrieve_stored:
  assumes "validate_request (Some k) (Some w) = KVS_SUCCESS" and "value_offset w = 0" and "value_length w AND 3 = 0"
    and "m (key_bytes k) = Some x" and "length x \<le> unat (value_length w)" and "value_ptr w = Some b"
  shows "data_retrieve (Some k) (Some False) (Some w) m =
    (KVS_SUCCESS, Some (w\<lparr>value_ptr := Some (mem_write b 0 x), value_length := word_of_nat (length x),
        actual_value_size := word_of_nat (length x)\<rparr>), m)"
  using assms request_validates(1) [OF assms(1)]
  by (simp add: data_retrieve_def retrieve_spec_def spec_retrieve_def ks_id_invalid_def convert_return_code_def Let_def)

lemma retrieved_bytes:
  assumes "length x \<le> length b" and "length x < 2 ^ 32"
  shows "value_bytes (w\<lparr>value_ptr := Some (mem_write b 0 x), value_length := word_of_nat (length x), actual_value_size := n\<rparr>) = x"
  using assms by (simp add: value_bytes_def ptr_bytes_def mem_write_def unat_of_nat take_bit_nat_eq_self)

lemma sample_retrieve:
  "data_retrieve (Some sample_key) (Some False) (Some sample_target) [[1, 2, 3, 4, 5] \<mapsto> [9, 8, 7]] =
    (KVS_SUCCESS, Some \<lparr>value_ptr = Some [9, 8, 7, 0], value_length = 3, actual_value_size = 3, value_offset = 0\<rparr>,
     [[1, 2, 3, 4, 5] \<mapsto> [9, 8, 7]])"
  using data_retrieve_stored [OF sample_request(2), of "[[1, 2, 3, 4, 5] \<mapsto> [9, 8, 7]]" "[9, 8, 7]" "[0, 0, 0, 0]"]
  by (simp add: sample_target_def mem_write_def)

lemma andThen_Returns: "andThen c f = Returns y \<longleftrightarrow> (\<exists>x. c = Returns x \<and> f x = Returns y)"
  by (cases c) simp_all

lemma sample_env:
  obtains env where "reachable sample_platform env"
    and "emul_rel fst snd sample_platform env (one_key_space ''/dev/kvemul'' sample_name 0 sample_name Map.empty)"
proof -
  let ?cs = "key_space_calls ''/dev/kvemul'' sample_name 0 sample_name"
  have cs: "list_all call_ok ?cs" using sample_name_ok key_space_calls_ok by simp
  obtain env where e: "emul_run sample_platform ?cs = Returns (fst (abs_run ?cs abs_start), env)"
    "emul_rel fst snd sample_platform env (snd (abs_run ?cs abs_start))"
    using emulator_run_refines [OF sample_platform_ok cs] by blast
  have "reachable sample_platform env" using e(1) cs unfolding reachable_def by blast
  then show ?thesis using that e(2) sample_name_ok by (simp add: key_space_calls_run)
qed

text \<open>The calls on a key space handle that is not open.\<close>

lemma closed_key_space:
  assumes "check_key_space_handle (Some k) env = Returns (KVS_ERR_KS_NOT_OPEN, None)"
  shows "kvs_close_key_space D fresh (Some k) env = Returns (KVS_ERR_KS_NOT_OPEN, env)"
    and "kvs_get_key_space_info D fresh (Some k) True env = Returns (KVS_ERR_KS_NOT_OPEN, None, env)"
    and "store_kvp D syncio (Some k) key val opt cb env = Returns (KVS_ERR_KS_NOT_OPEN, (), env)"
    and "retrieve_kvp D syncio (Some k) key del val cb env = Returns (KVS_ERR_KS_NOT_OPEN, val, env)"
    and "delete_kvp D syncio (Some k) key err cb env = Returns (KVS_ERR_KS_NOT_OPEN, (), env)"
    and "kvs_get_kvp_info D fresh (Some k) key info env = Returns (KVS_ERR_KS_NOT_OPEN, None, env)"
    and "kvs_create_iterator D (Some k) ty fltr ih env = Returns (KVS_ERR_KS_NOT_OPEN, ih, env)"
    and "kvs_delete_iterator D (Some k) i env = Returns (KVS_ERR_KS_NOT_OPEN, (), env)"
    and "\<exists>r \<in> {KVS_ERR_PARAM_INVALID, KVS_ERR_KS_NOT_OPEN}. iterate_next D syncio (Some k) i l buffer cb env = Returns (r, l, env)"
    and "unat cnt \<le> length ks \<Longrightarrow> \<exists>r el'. exist_kv_pairs D syncio (Some k) cnt (Some ks) el cb env = Returns (r, el', env) \<and> r \<noteq> KVS_SUCCESS"
proof -
  show "\<exists>r el'. exist_kv_pairs D syncio (Some k) cnt (Some ks) el cb env = Returns (r, el', env) \<and> r \<noteq> KVS_SUCCESS" if n: "unat cnt \<le> length ks"
  proof -
    obtain r where "validate_key_list (unat cnt) ks = Some r" using key_list_total_le [OF n] by blast
    then show ?thesis using assms by (cases el) (auto simp: exist_kv_pairs_def on_key_space_def Let_def)
  qed
qed (use assms in \<open>auto simp: kvs_close_key_space_def kvs_get_key_space_info_def store_kvp_def retrieve_kvp_def delete_kvp_def
    kvs_get_kvp_info_def kvs_create_iterator_def kvs_delete_iterator_def iterate_next_def on_key_space_def split: option.splits\<close>)

text \<open>A pair that is stored through one handle of a device and retrieved through another one.\<close>

lemma store_retrieve_rel:
  assumes S: "platform_ok content capacity S" and rel: "emul_rel content capacity S env ab"
    and o: "ab_open ab i = Some (a, nm)" "ab_open ab j = Some (a, nm')"
    and rd: "key_readable k" "value_readable v" "value_readable w"
    and val: "validate_request (Some k) (Some v) = KVS_SUCCESS" "validate_request (Some k) (Some w) = KVS_SUCCESS"
    and w: "value_ptr w = Some b" "value_offset w = 0" "value_length w AND 3 = 0" "value_length v \<le> value_length w"
  shows "\<exists>env1 env2 w'. kvs_store_kvp (emul_D S) (Some i) (Some k) (Some v) (Some KVS_STORE_POST) env = Returns (KVS_SUCCESS, (), env1)
    \<and> kvs_retrieve_kvp (emul_D S) (Some j) (Some k) (Some False) (Some w) env1 = Returns (KVS_SUCCESS, Some w', env2)
    \<and> value_bytes w' = value_bytes v \<and> actual_value_size w' = value_length v"
proof -
  obtain dv where dv: "ab_devs ab a = Some dv" using rel_open [OF rel o(1)] by blast
  let ?m = "(ad_data dv)(key_bytes k \<mapsto> value_bytes v)" let ?ab = "set_dev a (dv\<lparr>ad_data := ?m\<rparr>) ab"
  have len: "length (value_bytes v) = unat (value_length v)" "length (value_bytes v) \<le> unat (value_length w)" "unat (value_length w) \<le> length b"
    using rd(2,3) w(1,4) by (simp_all add: value_bytes_def value_readable_def ptr_bytes_def word_le_nat_alt)
  define w' where "w' = w\<lparr>value_ptr := Some (mem_write b 0 (value_bytes v)), value_length := word_of_nat (length (value_bytes v)),
        actual_value_size := word_of_nat (length (value_bytes v))\<rparr>"
  have s: "abs_step (StoreKvp (Some i) (Some k) (Some v) (Some KVS_STORE_POST)) ab = (Status KVS_SUCCESS, ?ab)"
    using o(1) dv val(1) by (simp add: abs_on_data_def abs_ks_def data_store_def Let_def)
  have r: "abs_step (RetrieveKvp (Some j) (Some k) (Some False) (Some w)) ?ab = (Val KVS_SUCCESS (Some w'), ?ab)"
    using o(2) dv data_retrieve_stored [OF val(2) w(2,3), of ?m "value_bytes v" b] len(2) w(1)
    by (simp add: abs_on_data_def abs_ks_def w'_def Let_def set_dev_def)
  obtain env1 where e1: "kvs_store_kvp (emul_D S) (Some i) (Some k) (Some v) (Some KVS_STORE_POST) env = Returns (KVS_SUCCESS, (), env1)"
    "emul_rel content capacity S env1 ?ab"
    using emulator_step_refines [OF S rel, of "StoreKvp (Some i) (Some k) (Some v) (Some KVS_STORE_POST)"] s rd(1,2)
    by (auto simp: andThen_Returns)
  obtain env2 where "kvs_retrieve_kvp (emul_D S) (Some j) (Some k) (Some False) (Some w) env1 = Returns (KVS_SUCCESS, Some w', env2)"
    using emulator_step_refines [OF S e1(2), of "RetrieveKvp (Some j) (Some k) (Some False) (Some w)"] r rd(1,3)
    by (auto simp: andThen_Returns)
  moreover have "value_bytes w' = value_bytes v"
    unfolding w'_def using len unsigned_less [of "value_length v", where ?'a = nat] by (intro retrieved_bytes) simp_all
  moreover have "actual_value_size w' = value_length v" by (simp add: w'_def len(1))
  ultimately show ?thesis using e1(1) by blast
qed

section \<open>Properties\<close>



text \<open>
  C23. The API keeps its tables consistent. In every environment a program can get to, the count
  of open devices is right, every open device and key space has its handle and no handle is left
  over, every key space handle names the user key space of an open device and is in the list of
  that device, and no list has anything else.
\<close>

theorem api_handles_consistent:
  assumes "platform_ok content capacity S" and "reachable S env"
  shows "distinct (ge_open_devices env) \<and> ge_opened_device_num env = int (length (ge_open_devices env))
    \<and> dom (device_handles env) = set (ge_open_devices env) \<and> dom (ks_handles env) = set (ge_list_open_ks env)
    \<and> distinct (ge_list_open_ks env)
    \<and> (\<forall>k h. ks_handles env k = Some h \<longrightarrow> kh_keyspace_id h = 1
        \<and> (\<exists>dh. device_handles env (kh_dev h) = Some dh \<and> k \<in> set (dvh_open_ks_hds dh)))
    \<and> (\<forall>a dh k. device_handles env a = Some dh \<longrightarrow> k \<in> set (dvh_open_ks_hds dh) \<longrightarrow>
        (\<exists>h. ks_handles env k = Some h \<and> kh_dev h = a))"
proof -
  obtain cs where "emul_rel content capacity S env (snd (abs_run cs abs_start))" using reachable_rel [OF assms] by blast
  then obtain ab where rel: "emul_rel content capacity S env ab" by blast
  note d = env_relD [OF rel]
  have dev: "device_handles env a = None \<longleftrightarrow> ab_devs ab a = None" for a using d(9) [of a] by (auto elim: option.rel_cases)
  have kh: "ks_handles env k = Some h \<longleftrightarrow> (\<exists>p. ab_open ab k = Some p \<and> h = ks_handle p)" for k h unfolding d(8) by auto
  have dh: "k \<in> set (dvh_open_ks_hds dh) \<longleftrightarrow> (\<exists>nm. ab_open ab k = Some (a, nm))" if "device_handles env a = Some dh" for a dh k
    using d(9) [of a] that by (auto simp: handle_rel_def option_rel_Some1)
  have open_dev: "\<exists>dh. device_handles env a = Some dh" if "ab_open ab k = Some (a, nm)" for k a nm
    using rel_open [OF rel that] dev [of a] by (metis not_None_eq)
  have "dom (device_handles env) = set (ge_open_devices env)" "dom (ks_handles env) = set (ge_list_open_ks env)"
    using d(4,7) dev by (auto simp: dom_def d(8))
  moreover have "kh_keyspace_id h = 1 \<and> (\<exists>dh. device_handles env (kh_dev h) = Some dh \<and> k \<in> set (dvh_open_ks_hds dh))"
    if "ks_handles env k = Some h" for k h
    using that kh open_dev dh by (fastforce simp: ks_handle_def)
  moreover have "\<exists>h. ks_handles env k = Some h \<and> kh_dev h = a" if "device_handles env a = Some dh" "k \<in> set (dvh_open_ks_hds dh)" for a dh k
    using that dh by (auto simp: kh ks_handle_def)
  ultimately show ?thesis using d(3,5,6) by blast
qed

theorem api_handles_consistent_witness:
  "\<exists>env. reachable sample_platform env \<and> ge_opened_device_num env = 1 \<and> dom (device_handles env) = {0} \<and> dom (ks_handles env) = {1}"
proof -
  obtain env where e: "reachable sample_platform env"
    "emul_rel fst snd sample_platform env (one_key_space ''/dev/kvemul'' sample_name 0 sample_name Map.empty)"
    using sample_env by blast
  have "set (ge_open_devices env) = {0}" "set (ge_list_open_ks env) = {1}" "distinct (ge_open_devices env)"
    using env_relD(3,4,7) [OF e(2)] by (simp_all add: one_key_space_def)
  moreover from this have "length (ge_open_devices env) = 1" using distinct_card by fastforce
  ultimately show ?thesis using api_handles_consistent [OF sample_platform_ok e(1)] e(1) by auto
qed

text \<open>
  C24. No device path and no key space name of a device is open twice.
\<close>

theorem api_opened_once:
  assumes "platform_ok content capacity S" and "reachable S env"
  shows "(\<forall>a b x y. device_handles env a = Some x \<longrightarrow> device_handles env b = Some y \<longrightarrow> dvh_path x = dvh_path y \<longrightarrow> a = b)
    \<and> (\<forall>k l x y. ks_handles env k = Some x \<longrightarrow> ks_handles env l = Some y \<longrightarrow> kh_dev x = kh_dev y \<longrightarrow> kh_name x = kh_name y \<longrightarrow> k = l)"
proof -
  obtain cs where rel: "emul_rel content capacity S env (snd (abs_run cs abs_start))" using reachable_rel [OF assms] by blast
  define ab where "ab = snd (abs_run cs abs_start)"
  note d = env_relD [OF rel, folded ab_def] and i = inv_run [OF inv_start, of cs, folded ab_def, unfolded abs_inv_def]
  have "\<exists>dv. ab_devs ab a = Some dv \<and> dvh_path x = ad_path dv" if "device_handles env a = Some x" for a x
    using d(9) [of a] that by (auto simp: handle_rel_def option_rel_Some1)
  moreover have "ab_open ab k = Some (kh_dev x, kh_name x)" if "ks_handles env k = Some x" for k x
    using that by (auto simp: d(8) ks_handle_def)
  ultimately show ?thesis using i by metis
qed

theorem api_opened_once_witness:
  "\<exists>env. reachable sample_platform env \<and> (\<exists>x. device_handles env 0 = Some x \<and> dvh_path x = ''/dev/kvemul''
      \<and> (\<forall>b y. device_handles env b = Some y \<longrightarrow> dvh_path y = ''/dev/kvemul'' \<longrightarrow> b = 0))"
proof -
  obtain env where e: "reachable sample_platform env"
    "emul_rel fst snd sample_platform env (one_key_space ''/dev/kvemul'' sample_name 0 sample_name Map.empty)"
    using sample_env by blast
  have "\<exists>x. device_handles env 0 = Some x \<and> dvh_path x = ''/dev/kvemul''"
    using env_relD(9) [OF e(2), of 0] by (auto simp: one_key_space_def option_rel_Some2 handle_rel_def)
  then show ?thesis using api_opened_once [OF sample_platform_ok e(1)] e(1) by metis
qed



text \<open>
  C25. Closing a device closes its key spaces. It succeeds on every open device, with or without open
  key spaces. Afterwards the device cannot be closed again, and no call on one of its key spaces
  does anything to the environment: closing it, storing, retrieving, deleting, creating and deleting
  an iterator and asking for a pair are refused with \<open>KVS_ERR_KS_NOT_OPEN\<close>, and so is asking for
  its information when there is a place for the answer. A step of an iteration is refused for its
  arguments or with \<open>KVS_ERR_KS_NOT_OPEN\<close>. An existence check, which looks at its other arguments
  first and puts the keys into the list of the caller, fails as well. Synchronous and asynchronous
  calls (\<open>syncio\<close>) do the same.
\<close>

theorem api_closed_device:
  assumes "platform_ok content capacity S" and "reachable S env" and "device_handles env a = Some h"
  shows "\<exists>env'. kvs_close_device (emulator_driver (pf_buffer S) (pf_util S) (pf_ctx S)) (Some a) env = Returns (KVS_SUCCESS, env')
    \<and> kvs_close_device D (Some a) env' = Returns (KVS_ERR_DEV_NOT_OPENED, env')
    \<and> (\<forall>k \<in> set (dvh_open_ks_hds h).
        kvs_close_key_space D fresh (Some k) env' = Returns (KVS_ERR_KS_NOT_OPEN, env')
      \<and> kvs_get_key_space_info D fresh (Some k) True env' = Returns (KVS_ERR_KS_NOT_OPEN, None, env')
      \<and> store_kvp D syncio (Some k) key val opt cb env' = Returns (KVS_ERR_KS_NOT_OPEN, (), env')
      \<and> retrieve_kvp D syncio (Some k) key del val cb env' = Returns (KVS_ERR_KS_NOT_OPEN, val, env')
      \<and> delete_kvp D syncio (Some k) key err cb env' = Returns (KVS_ERR_KS_NOT_OPEN, (), env')
      \<and> kvs_get_kvp_info D fresh (Some k) key info env' = Returns (KVS_ERR_KS_NOT_OPEN, None, env')
      \<and> kvs_create_iterator D (Some k) ty fltr ih env' = Returns (KVS_ERR_KS_NOT_OPEN, ih, env')
      \<and> kvs_delete_iterator D (Some k) i env' = Returns (KVS_ERR_KS_NOT_OPEN, (), env')
      \<and> (\<exists>r \<in> {KVS_ERR_PARAM_INVALID, KVS_ERR_KS_NOT_OPEN}. iterate_next D syncio (Some k) i l buffer cb env' = Returns (r, l, env'))
      \<and> (\<forall>ks el. unat cnt \<le> length ks \<longrightarrow>
          (\<exists>r el'. exist_kv_pairs D syncio (Some k) cnt (Some ks) el cb env' = Returns (r, el', env') \<and> r \<noteq> KVS_SUCCESS)))"
proof -
  obtain cs where "emul_rel content capacity S env (snd (abs_run cs abs_start))" using reachable_rel [OF assms(1,2)] by blast
  then obtain ab where rel: "emul_rel content capacity S env ab" by blast
  have dv: "ab_devs ab a \<noteq> None" using env_relD(9) [OF rel, of a] assms(3) by (auto simp: option_rel_Some1)
  have k: "map_option fst (ab_open ab k) = Some a" if "k \<in> set (dvh_open_ks_hds h)" for k
    using env_relD(9) [OF rel, of a] assms(3) that by (auto simp: option_rel_Some1 handle_rel_def)
  obtain env' where e: "kvs_close_device (emul_D S) (Some a) env = Returns (KVS_SUCCESS, env')"
    "emul_rel content capacity S env' (snd (abs_step (CloseDevice (Some a)) ab))"
    using emulator_step_refines [OF assms(1) rel, of "CloseDevice (Some a)"] dv by (auto simp: andThen_Returns)
  have "check_key_space_handle (Some k) env' = Returns (KVS_ERR_KS_NOT_OPEN, None)" if "k \<in> set (dvh_open_ks_hds h)" for k
    using k [OF that] dv rel_check [OF e(2), of "Some k"] by (auto simp: abs_ks_def)
  note c = closed_key_space [OF this]
  have "kvs_close_device D (Some a) env' = Returns (KVS_ERR_DEV_NOT_OPENED, env')"
    using rel_opened [OF e(2), of a] dv by (simp add: kvs_close_device_def)
  then show ?thesis by (intro exI [of _ env'] conjI ballI allI impI) (assumption | rule e(1) c)+
qed

theorem api_closed_device_witness:
  "\<exists>env env'. reachable sample_platform env
    \<and> kvs_close_device (emulator_driver list_buffer (\<lambda>_ _. 0) (ioctx sample_cmd)) (Some 0) env = Returns (KVS_SUCCESS, env')
    \<and> delete_kvp (emulator_driver list_buffer (\<lambda>_ _. 0) (ioctx sample_cmd)) True (Some 1) None None False env' = Returns (KVS_ERR_KS_NOT_OPEN, (), env')
    \<and> (\<exists>r el'. exist_kv_pairs (emulator_driver list_buffer (\<lambda>_ _. 0) (ioctx sample_cmd)) True (Some 1) 1 (Some [sample_key]) None False env'
        = Returns (r, el', env') \<and> r \<noteq> KVS_SUCCESS)"
proof -
  obtain env where e: "reachable sample_platform env"
    "emul_rel fst snd sample_platform env (one_key_space ''/dev/kvemul'' sample_name 0 sample_name Map.empty)"
    using sample_env by blast
  obtain h where h: "device_handles env 0 = Some h" "1 \<in> set (dvh_open_ks_hds h)"
    using env_relD(9) [OF e(2), of 0] by (auto simp: one_key_space_def option_rel_Some2 handle_rel_def)
  let ?D = "emulator_driver list_buffer (\<lambda>_ _. 0) (ioctx sample_cmd)"
  have D: "emulator_driver (pf_buffer sample_platform) (pf_util sample_platform) (pf_ctx sample_platform) = ?D"
    by (simp add: sample_platform_def)
  obtain env' where c: "kvs_close_device ?D (Some 0) env = Returns (KVS_SUCCESS, env')"
    "delete_kvp ?D True (Some 1) None None False env' = Returns (KVS_ERR_KS_NOT_OPEN, (), env')"
    "\<forall>ks el. unat (1 :: u32) \<le> length ks \<longrightarrow>
      (\<exists>r el'. exist_kv_pairs ?D True (Some 1) 1 (Some ks) el False env' = Returns (r, el', env') \<and> r \<noteq> KVS_SUCCESS)"
    using api_closed_device [OF sample_platform_ok e(1) h(1), unfolded D, where D = ?D and syncio = True and cnt = 1 and cb = False
      and key = None and err = None and val = None and opt = None and del = None and info = False and ty = None and fltr = None
      and ih = None and i = 0 and l = None and buffer = False and fresh = "\<lambda>_. []"] h(2) by blast
  have "unat (1 :: u32) \<le> length [sample_key]" by simp
  with c(3) have "\<exists>r el'. exist_kv_pairs ?D True (Some 1) 1 (Some [sample_key]) None False env' = Returns (r, el', env') \<and> r \<noteq> KVS_SUCCESS"
    by blast
  with e(1) c(1,2) show ?thesis by blast
qed

text \<open>The information about an open key space that was created with the capacity \<open>sz\<close>.\<close>

definition open_info :: "u64 \<Rightarrow> byte list \<Rightarrow> kvs_key_space" where
  "open_info sz name = \<lparr>ks_is_opened = True, ks_capacity = sz, ks_free_size = 0, ks_count = 0, ks_name = name\<rparr>"

text \<open>
  C39. Names that differ in the last character only stand for the same key space: after the key
  space \<open>nm\<close> was created, every other name of the same length with the same characters but the last
  one can be opened, and the key space itself next to it. Both handles have the same key space of
  the same device, the information about both has the capacity with which \<open>nm\<close> was created, and a
  pair that is stored through the handle of the alias is retrieved through the other one.
\<close>

theorem key_space_alias:
  assumes "platform_ok content capacity S" and "p \<noteq> []" and "length p \<le> 255"
    and "4 \<le> length nm" and "length nm \<le> 255" and "0 \<notin> set nm" and "butlast nm \<noteq> KEY_SPACE_LIST_KEY_NAME"
    and "length nm' = length nm" and "butlast nm' = butlast nm" and "nm' \<noteq> nm"
    and "key_readable k" and "value_readable v" and "value_readable w"
    and "validate_request (Some k) (Some v) = KVS_SUCCESS" and "validate_request (Some k) (Some w) = KVS_SUCCESS"
    and "value_ptr w = Some b" and "value_offset w = 0" and "value_length w AND 3 = 0" and "value_length v \<le> value_length w"
  shows "\<exists>env env1 env2 w'. emul_run S (key_space_calls p nm sz nm' @
        [OpenKeySpace (Some 0) (Some nm) True, KeySpaceInfo (Some 1) True, KeySpaceInfo (Some 2) True]) =
      Returns ([NewHandle KVS_SUCCESS (Some 0), Status KVS_SUCCESS, NewHandle KVS_SUCCESS (Some 1), NewHandle KVS_SUCCESS (Some 2),
        Info KVS_SUCCESS (Some (open_info sz nm')), Info KVS_SUCCESS (Some (open_info sz nm))], env)
    \<and> ks_handles env 1 = Some \<lparr>kh_keyspace_id = 1, kh_dev = 0, kh_name = nm'\<rparr>
    \<and> ks_handles env 2 = Some \<lparr>kh_keyspace_id = 1, kh_dev = 0, kh_name = nm\<rparr>
    \<and> kvs_store_kvp (emulator_driver (pf_buffer S) (pf_util S) (pf_ctx S)) (Some 1) (Some k) (Some v) (Some KVS_STORE_POST) env
        = Returns (KVS_SUCCESS, (), env1)
    \<and> kvs_retrieve_kvp (emulator_driver (pf_buffer S) (pf_util S) (pf_ctx S)) (Some 2) (Some k) (Some False) (Some w) env1
        = Returns (KVS_SUCCESS, Some w', env2)
    \<and> value_bytes w' = value_bytes v"
proof -
  let ?cs = "key_space_calls p nm sz nm' @ [OpenKeySpace (Some 0) (Some nm) True, KeySpaceInfo (Some 1) True, KeySpaceInfo (Some 2) True]"
  have e: "ekey nm \<noteq> lkey" "ekey nm' = ekey nm" using assms(7,9) by (simp_all add: ekey_def lkey_def)
  then have ok: "list_all call_ok ?cs" using assms(4-6,8) key_space_calls_ok [of nm nm' p sz] by simp
  have r: "abs_run ?cs abs_start =
      ([NewHandle KVS_SUCCESS (Some 0), Status KVS_SUCCESS, NewHandle KVS_SUCCESS (Some 1), NewHandle KVS_SUCCESS (Some 2),
        Info KVS_SUCCESS (Some (open_info sz nm')), Info KVS_SUCCESS (Some (open_info sz nm))],
       (one_key_space p nm sz nm' Map.empty)\<lparr>ab_open := [1 \<mapsto> (0, nm'), 2 \<mapsto> (0, nm)], ab_next := 3\<rparr>)"
    unfolding abs_run_append using key_space_calls_run [OF assms(2-5) e(1), of nm' sz] assms(4,5,8,10) e(2)
    by (simp add: one_key_space_def has_record_def set_opened_def set_dev_def abs_ks_def open_info_def Let_def fun_upd_twist)
  from emulator_run_refines [OF assms(1) ok] obtain env where env: "emul_run S ?cs = Returns (fst (abs_run ?cs abs_start), env)"
    "emul_rel content capacity S env (snd (abs_run ?cs abs_start))" by blast
  have kh: "ks_handles env 1 = Some \<lparr>kh_keyspace_id = 1, kh_dev = 0, kh_name = nm'\<rparr>"
    "ks_handles env 2 = Some \<lparr>kh_keyspace_id = 1, kh_dev = 0, kh_name = nm\<rparr>"
    using env_relD(8) [OF env(2)] unfolding r by (simp_all add: ks_handle_def)
  have "ab_open (snd (abs_run ?cs abs_start)) 1 = Some (0, nm')" "ab_open (snd (abs_run ?cs abs_start)) 2 = Some (0, nm)"
    unfolding r by simp_all
  from store_retrieve_rel [OF assms(1) env(2) this assms(11-19)] env(1) [unfolded r] kh show ?thesis by auto
qed

theorem key_space_alias_witness:
  "\<exists>env env1 env2 w'. emul_run sample_platform (key_space_calls ''/dev/kvemul'' (map of_char ''user1'') 0 (map of_char ''user2'') @
        [OpenKeySpace (Some 0) (Some (map of_char ''user1'')) True, KeySpaceInfo (Some 1) True, KeySpaceInfo (Some 2) True]) =
      Returns ([NewHandle KVS_SUCCESS (Some 0), Status KVS_SUCCESS, NewHandle KVS_SUCCESS (Some 1), NewHandle KVS_SUCCESS (Some 2),
        Info KVS_SUCCESS (Some (open_info 0 (map of_char ''user2''))), Info KVS_SUCCESS (Some (open_info 0 (map of_char ''user1'')))], env)
    \<and> kvs_store_kvp (emulator_driver list_buffer (\<lambda>_ _. 0) (ioctx sample_cmd)) (Some 1) (Some sample_key) (Some sample_value) (Some KVS_STORE_POST) env
        = Returns (KVS_SUCCESS, (), env1)
    \<and> kvs_retrieve_kvp (emulator_driver list_buffer (\<lambda>_ _. 0) (ioctx sample_cmd)) (Some 2) (Some sample_key) (Some False) (Some sample_target) env1
        = Returns (KVS_SUCCESS, Some w', env2)
    \<and> value_bytes w' = value_bytes sample_value"
proof -
  have D: "emulator_driver (pf_buffer sample_platform) (pf_util sample_platform) (pf_ctx sample_platform) =
      emulator_driver list_buffer (\<lambda>_ _. 0) (ioctx sample_cmd)" by (simp add: sample_platform_def)
  have n: "''/dev/kvemul'' \<noteq> []" "length ''/dev/kvemul'' \<le> 255" "4 \<le> length (map of_char ''user1'' :: byte list)"
    "length (map of_char ''user1'' :: byte list) \<le> 255" "0 \<notin> set (map of_char ''user1'' :: byte list)"
    "butlast (map of_char ''user1'') \<noteq> KEY_SPACE_LIST_KEY_NAME"
    "length (map of_char ''user2'' :: byte list) = length (map of_char ''user1'' :: byte list)"
    "butlast (map of_char ''user2'' :: byte list) = butlast (map of_char ''user1'')" "map of_char ''user2'' \<noteq> (map of_char ''user1'' :: byte list)"
    by (simp_all add: of_char_def KEY_SPACE_LIST_KEY_NAME_def)
  have t: "value_ptr sample_target = Some [0, 0, 0, 0]" "value_offset sample_target = 0" "value_length sample_target AND 3 = 0"
    "value_length sample_value \<le> value_length sample_target" by (simp_all add: sample_target_def sample_value_def)
  from key_space_alias [OF sample_platform_ok n sample_request(3-5,1,2) t, of 0, unfolded D] show ?thesis by blast
qed

text \<open>
  A device has one key space: creating a second one fails with \<open>KVS_ERR_SYS_IO\<close>, whether it
  has the name of the first one or another one.
\<close>

theorem second_key_space_refused:
  assumes "platform_ok content capacity S" and "p \<noteq> []" and "length p \<le> 255"
    and "4 \<le> length nm" and "length nm \<le> 255" and "0 \<notin> set nm" and "butlast nm \<noteq> KEY_SPACE_LIST_KEY_NAME"
    and "nm' \<noteq> []" and "length nm' \<le> 255" and "0 \<notin> set nm'"
  shows "\<exists>env. emul_run S (key_space_calls p nm sz nm @
      [CreateKeySpace (Some 0) (Some \<lparr>ksn_name_len = word_of_nat (length nm'), ksn_name = Some nm'\<rparr>) sz' KVS_KEY_ORDER_NONE]) =
    Returns ([NewHandle KVS_SUCCESS (Some 0), Status KVS_SUCCESS, NewHandle KVS_SUCCESS (Some 1), Status KVS_ERR_SYS_IO], env)"
proof -
  let ?c = "CreateKeySpace (Some 0) (Some \<lparr>ksn_name_len = word_of_nat (length nm'), ksn_name = Some nm'\<rparr>) sz' KVS_KEY_ORDER_NONE"
  have k: "ekey nm \<noteq> lkey" using assms(7) by (simp add: ekey_def lkey_def)
  then have "list_all call_ok (key_space_calls p nm sz nm @ [?c])" using assms key_space_calls_ok [of nm nm p sz] by simp
  from emulator_run_refines [OF assms(1) this] key_space_calls_run [OF assms(2-5) k assms(4,5) refl, of sz] assms(8,9)
  show ?thesis by (auto simp: one_key_space_def create_spec_def)
qed

theorem second_key_space_refused_witness:
  "\<exists>env. emul_run sample_platform (key_space_calls ''/dev/kvemul'' sample_name 0 sample_name @
      [CreateKeySpace (Some 0) (Some \<lparr>ksn_name_len = word_of_nat (length sample_name), ksn_name = Some sample_name\<rparr>) 0 KVS_KEY_ORDER_NONE]) =
    Returns ([NewHandle KVS_SUCCESS (Some 0), Status KVS_SUCCESS, NewHandle KVS_SUCCESS (Some 1), Status KVS_ERR_SYS_IO], env)"
  by (rule second_key_space_refused [OF sample_platform_ok]) (use sample_name_ok in \<open>auto simp: ekey_def lkey_def\<close>)

text \<open>Storing a pair, closing and deleting the key space, and looking for the pair in a new one.\<close>

definition recreate_calls :: "byte list \<Rightarrow> byte list \<Rightarrow> u64 \<Rightarrow> kv_key \<Rightarrow> kv_value \<Rightarrow> kv_value \<Rightarrow> api_call list" where
  "recreate_calls nm nm' sz k v w =
      [StoreKvp (Some 1) (Some k) (Some v) (Some KVS_STORE_POST), CloseKeySpace (Some 1),
       DeleteKeySpace (Some 0) (Some \<lparr>ksn_name_len = word_of_nat (length nm), ksn_name = Some nm\<rparr>),
       CreateKeySpace (Some 0) (Some \<lparr>ksn_name_len = word_of_nat (length nm'), ksn_name = Some nm'\<rparr>) sz KVS_KEY_ORDER_NONE,
       OpenKeySpace (Some 0) (Some nm') True, RetrieveKvp (Some 2) (Some k) (Some False) (Some w)]"

lemma recreate_calls_run:
  assumes nm: "4 \<le> length nm" "length nm \<le> 255" and nm': "4 \<le> length nm'" "length nm' \<le> 255" "ekey nm' \<noteq> lkey"
    and v: "validate_request (Some k) (Some v) = KVS_SUCCESS"
    and r: "data_retrieve (Some k) (Some False) (Some w) [key_bytes k \<mapsto> value_bytes v] = (KVS_SUCCESS, Some w', m)"
  shows "fst (abs_run (recreate_calls nm nm' sz' k v w) (one_key_space p nm sz nm Map.empty)) =
    [Status KVS_SUCCESS, Status KVS_SUCCESS, Status KVS_SUCCESS, Status KVS_SUCCESS, NewHandle KVS_SUCCESS (Some 2), Val KVS_SUCCESS (Some w')]"
proof -
  have "nm' \<noteq> []" using nm' by auto
  with assms show ?thesis
    by (simp add: recreate_calls_def one_key_space_def abs_on_data_def abs_ks_def data_store_def has_record_def set_opened_def
        remove_spec_def create_spec_def ran_def Let_def)
qed

text \<open>
  C40. Deleting a key space leaves its pairs on the device: a pair that was stored before can be
  retrieved from the key space that is created next, whatever its name.
\<close>

theorem deleted_key_space_keeps_pairs:
  assumes "platform_ok content capacity S" and "p \<noteq> []" and "length p \<le> 255"
    and "4 \<le> length nm" and "length nm \<le> 255" and "0 \<notin> set nm" and "butlast nm \<noteq> KEY_SPACE_LIST_KEY_NAME"
    and "4 \<le> length nm'" and "length nm' \<le> 255" and "0 \<notin> set nm'" and "butlast nm' \<noteq> KEY_SPACE_LIST_KEY_NAME"
    and "key_readable k" and "value_readable v" and "value_readable w"
    and "validate_request (Some k) (Some v) = KVS_SUCCESS" and "validate_request (Some k) (Some w) = KVS_SUCCESS"
    and "value_ptr w = Some b" and "value_offset w = 0" and "value_length w AND 3 = 0" and "value_length v \<le> value_length w"
  shows "\<exists>env w'. emul_run S (key_space_calls p nm sz nm @ recreate_calls nm nm' sz' k v w) =
    Returns ([NewHandle KVS_SUCCESS (Some 0), Status KVS_SUCCESS, NewHandle KVS_SUCCESS (Some 1), Status KVS_SUCCESS, Status KVS_SUCCESS,
      Status KVS_SUCCESS, Status KVS_SUCCESS, NewHandle KVS_SUCCESS (Some 2), Val KVS_SUCCESS (Some w')], env)
    \<and> value_bytes w' = value_bytes v"
proof -
  let ?cs = "key_space_calls p nm sz nm @ recreate_calls nm nm' sz' k v w"
  have e: "ekey nm \<noteq> lkey" "ekey nm' \<noteq> lkey" using assms(7,11) by (simp_all add: ekey_def lkey_def)
  have ok: "list_all call_ok ?cs"
    using key_space_calls_ok [OF assms(5,6,5) e(1)] assms(5,9,10,12-14) e(2) by (simp add: recreate_calls_def)
  have len: "length (value_bytes v) \<le> unat (value_length w)" "unat (value_length w) \<le> length b" "length (value_bytes v) < 2 ^ 32"
    using assms(13,14,17,20) unsigned_less [of "value_length v", where ?'a = nat]
    by (simp_all add: value_bytes_def value_readable_def ptr_bytes_def word_le_nat_alt)
  define w' where "w' = w\<lparr>value_ptr := Some (mem_write b 0 (value_bytes v)), value_length := word_of_nat (length (value_bytes v)),
        actual_value_size := word_of_nat (length (value_bytes v))\<rparr>"
  have r: "data_retrieve (Some k) (Some False) (Some w) [key_bytes k \<mapsto> value_bytes v] = (KVS_SUCCESS, Some w', [key_bytes k \<mapsto> value_bytes v])"
    using data_retrieve_stored [OF assms(16,18,19) _ len(1) assms(17), of "[key_bytes k \<mapsto> value_bytes v]"] by (simp add: w'_def)
  have "value_bytes w' = value_bytes v" unfolding w'_def using len by (intro retrieved_bytes) simp_all
  with emulator_run_refines [OF assms(1) ok] recreate_calls_run [OF assms(4,5,8,9) e(2) assms(15) r, of sz' p sz]
    key_space_calls_run [OF assms(2-5) e(1) assms(4,5) refl, of sz] show ?thesis by auto
qed

theorem deleted_key_space_keeps_pairs_witness:
  "\<exists>env w'. emul_run sample_platform (key_space_calls ''/dev/kvemul'' sample_name 0 sample_name
      @ recreate_calls sample_name (map of_char ''other'') 0 sample_key sample_value sample_target) =
    Returns ([NewHandle KVS_SUCCESS (Some 0), Status KVS_SUCCESS, NewHandle KVS_SUCCESS (Some 1), Status KVS_SUCCESS, Status KVS_SUCCESS,
      Status KVS_SUCCESS, Status KVS_SUCCESS, NewHandle KVS_SUCCESS (Some 2), Val KVS_SUCCESS (Some w')], env)
    \<and> value_bytes w' = value_bytes sample_value"
  by (rule deleted_key_space_keeps_pairs [OF sample_platform_ok, where b = "[0, 0, 0, 0]"])
    (use sample_name_ok sample_request in \<open>auto simp: ekey_def lkey_def of_char_def KEY_SPACE_LIST_KEY_NAME_def sample_target_def sample_value_def\<close>)

text \<open>The steps of the initialisation that set the queue depth.\<close>

lemma environ_depth:
  assumes "init_env_from_environ host options = Some o1"
  shows "opt_queuedepth o1 = (case h_getenv host ''KVSSD_QUEUE_DEPTH'' of None \<Rightarrow> opt_queuedepth options
      | Some s \<Rightarrow> word_of_int (the (atoi s)))"
  using assms by (auto simp: init_env_from_environ_def bind_eq_Some_conv split: option.splits if_splits)

lemma cfgfile_depth:
  assumes "init_env_from_cfgfile host options = Some o1" and "atoi (getkv (h_cfg host) ''aio'' ''queue_depth'') = Some c"
  shows "opt_queuedepth o1 = (if c = 0 then opt_queuedepth options else word_of_int c)"
  using assms by (auto simp: init_env_from_cfgfile_def bind_eq_Some_conv Let_def split: if_splits)

lemma init_env_depth:
  assumes "kvs_init_env host (Some options) env = Some (KVS_SUCCESS, env')" and "\<not> ge_initialized env"
  shows "ge_queuedepth env' = (if opt_queuedepth options = 0 then 256 else sint (opt_queuedepth options))"
  using assms by (auto simp: kvs_init_env_def Let_def word_gt_0 split: option.splits if_splits)

lemma depth_word:
  assumes "0 \<le> n" and "n < 2 ^ 31"
  shows "sint (word_of_int n :: u32) = n" and "(word_of_int n :: u32) = 0 \<longleftrightarrow> n = 0"
  using assms by (simp_all add: int_word_sint word_of_int_eq_0_iff) (auto dest: zdvd_imp_le)

text \<open>
  The queue depth comes from the configuration file if it has one there, from
  the environment variable \<open>KVSSD_QUEUE_DEPTH\<close> otherwise, and is 64 without either. A depth of 0 in
  the environment is replaced by 256.
\<close>

theorem queue_depth_settings:
  assumes "\<not> ge_initialized env" and "init_env host env = Some (KVS_SUCCESS, env')"
    and "atoi (getkv (h_cfg host) ''aio'' ''queue_depth'') = Some c" and "0 \<le> c" and "c < 2 ^ 31"
    and "\<forall>s. h_getenv host ''KVSSD_QUEUE_DEPTH'' = Some s \<longrightarrow> atoi s = Some e" and "0 \<le> e" and "e < 2 ^ 31"
  shows "ge_queuedepth env' =
    (if c \<noteq> 0 then c else if h_getenv host ''KVSSD_QUEUE_DEPTH'' = None then 64 else if e = 0 then 256 else e)"
proof -
  obtain o1 o2 env1 where o: "init_env_from_environ host init_default_option = Some o1" "init_env_from_cfgfile host o1 = Some o2"
    "kvs_init_env host (Some o2) env = Some (KVS_SUCCESS, env1)" "ge_queuedepth env' = ge_queuedepth env1"
    using assms(1,2) by (auto simp: init_env_def bind_eq_Some_conv split: if_splits)
  have "opt_queuedepth o1 = (if h_getenv host ''KVSSD_QUEUE_DEPTH'' = None then 64 else word_of_int e)"
    using environ_depth [OF o(1)] assms(6) by (auto simp: init_default_option_def)
  moreover note cfgfile_depth [OF o(2) assms(3)] init_env_depth [OF o(3) assms(1)] depth_word [OF assms(4,5)] depth_word [OF assms(7,8)]
  ultimately show ?thesis by (simp add: o(4))
qed

theorem queue_depth_settings_witness:
  "\<exists>env'. init_env (sample_host\<lparr>h_cfg := [''aio/queue_depth'' \<mapsto> ''128''], h_getenv := (\<lambda>_. Some ''32'')\<rparr>) (g_env_start :: unit g_env) =
      Some (KVS_SUCCESS, env') \<and> ge_queuedepth env' = 128"
proof -
  let ?host = "sample_host\<lparr>h_cfg := [''aio/queue_depth'' \<mapsto> ''128''], h_getenv := (\<lambda>_. Some ''32'')\<rparr>"
  have n: "atoi ''128'' = Some 128" "atoi ''32'' = Some 32" "atoi [] = Some 0" by code_simp+
  have g: "getkv (h_cfg ?host) ''aio'' ''queue_depth'' = ''128''" by (simp add: getkv_def)
  obtain env' where e: "init_env ?host (g_env_start :: unit g_env) = Some (KVS_SUCCESS, env')"
    using n by (simp add: init_env_def init_env_from_environ_def init_env_from_cfgfile_def init_default_option_def kvs_init_env_def
        getkv_def sample_host_def g_env_start_def)
  have "ge_queuedepth env' = 128"
    using queue_depth_settings [OF _ e, of 128 32] n g by (simp add: g_env_start_def)
  with e show ?thesis by blast
qed

text \<open>
  Once the key space was deleted, a name made of \<open>key_space_list\<close> and one more character opens
  the metadata key space: the empty list is taken for the record of a key space, the id of the
  handle is that of the metadata key space, and the list is overwritten.
\<close>

theorem list_name_opens_metadata:
  assumes "drv_ok B content capacity d" and "fresh_ok fresh" and "meta_rep (drv_contents d) (Some (nm, md))"
    and "nm' \<noteq> []" and "butlast nm' = KEY_SPACE_LIST_KEY_NAME"
  shows "\<exists>d1 d2 x. delete_on_device (emulator_driver B util c0) fresh nm d = Returns (KVS_SUCCESS, d1)
    \<and> open_on_device (emulator_driver B util c0) fresh nm' d1 = Returns ((KVS_SUCCESS, META_DATA_KEYSPACE_ID), d2)
    \<and> drv_contents d1 0 (KEY_SPACE_LIST_KEY_NAME @ [0]) = Some [0] \<and> drv_contents d2 0 (KEY_SPACE_LIST_KEY_NAME @ [0]) = Some x \<and> length x = 27"
proof -
  have "length nm \<le> 255" using assms(3) by (simp add: meta_rep_def list_rec_def)
  from emul_drv.remove_effect [OF assms(1-3) this, of util c0] obtain d1 where
    d1: "delete_on_device (emulator_driver B util c0) fresh nm d = Returns (KVS_SUCCESS, d1)" "drv_ok B content capacity d1"
    "drv_contents d1 0 lkey = Some [0]"
    by (auto simp: remove_spec_def)
  have "length (butlast nm') = 14" unfolding assms(5) by (simp add: KEY_SPACE_LIST_KEY_NAME_def)
  then have "length nm' = 15" by simp
  then have n: "ekey nm' = lkey" "4 \<le> length nm'" "length nm' \<le> 255" using assms(5) by (simp_all add: ekey_def lkey_def)
  from emul_drv.open_list_name [OF d1(2) assms(2) d1(3) n, of util c0] d1(1,3) show ?thesis unfolding lkey_def by blast
qed

theorem list_name_opens_metadata_witness:
  "\<exists>d d1 d2. delete_on_device (emulator_driver list_buffer (\<lambda>_ _. 0) (ioctx sample_cmd)) (\<lambda>n. replicate n 7) sample_name d = Returns (KVS_SUCCESS, d1)
    \<and> open_on_device (emulator_driver list_buffer (\<lambda>_ _. 0) (ioctx sample_cmd)) (\<lambda>n. replicate n 7) (map of_char ''key_space_list1'') d1 =
        Returns ((KVS_SUCCESS, META_DATA_KEYSPACE_ID), d2)"
proof -
  have f: "fresh_ok (\<lambda>n. replicate n 7)" by (simp add: fresh_ok_def)
  have e: "meta_rep (drv_contents sample_driver) None"
    by (simp add: sample_driver_ok(2) meta_rep_def list_rec_def contents_empty_def)
  have n: "sample_name \<noteq> []" "length sample_name \<le> 255" using sample_name_ok by auto
  obtain d where d: "drv_ok list_buffer fst snd d" "meta_rep (drv_contents d) (snd (create_spec sample_name 0 None))"
    using emul_drv.create_refines [OF sample_driver_ok(1) f e n sample_name_ok(2)] by blast
  have c: "\<exists>md. snd (create_spec sample_name 0 None) = Some (sample_name, md)" using sample_name_ok by (simp add: create_spec_def)
  have "butlast (map of_char ''key_space_list1'' :: byte list) = KEY_SPACE_LIST_KEY_NAME" by (simp add: KEY_SPACE_LIST_KEY_NAME_def)
  with list_name_opens_metadata [OF d(1) f, of sample_name _ "map of_char ''key_space_list1''"] d(2) c show ?thesis by fastforce
qed

end
