(* ===== verification/Kv_Nvme.thy ===== *)
theory Kv_Nvme
  imports Kv_Adi_Types
begin

text \<open>
  The part of the NVMe kernel driver that carries key-value commands
  (\<open>PDK/driver/PCIe/kernel_driver/kernel_v4.15.18-041518-ubuntu-18_04\<close>: \<open>core.c\<close>, \<open>nvme.h\<close>,
  \<open>linux_nvme.h\<close>, \<open>linux_nvme_ioctl.h\<close>): the structures of its \<open>ioctl\<close> interface, the translation
  of a command of a process into a command for the drive, and the contexts through which
  asynchronous commands are completed.

  Addresses in the memory of the process are 64-bit words and the memory is a function from
  addresses to bytes. What the drive answers, and whether the block layer takes a request, are
  arguments. Reserved fields are left out.
\<close>

section \<open>Commands of a process\<close>

text \<open>\<open>pc_key\<close> is the 16 bytes of the union of \<open>key_addr\<close>, \<open>key\<close> and \<open>cdw12\<close> to \<open>cdw15\<close>.\<close>

record nvme_passthru_kv_cmd =
  pc_opcode :: u8
  pc_flags :: u8
  pc_nsid :: u32
  pc_cdw3 :: u32
  pc_cdw4 :: u32
  pc_cdw5 :: u32
  pc_data_addr :: u64
  pc_data_length :: u32
  pc_key_length :: u32
  pc_cdw10 :: u32
  pc_cdw11 :: u32
  pc_key :: "byte list"
  pc_timeout_ms :: u32
  pc_result :: u32
  pc_status :: u32
  pc_ctxid :: u32
  pc_reqid :: u64

text \<open>The structure after \<open>memset\<close>.\<close>

definition kv_cmd_zero :: nvme_passthru_kv_cmd where
  "kv_cmd_zero = \<lparr>pc_opcode = 0, pc_flags = 0, pc_nsid = 0, pc_cdw3 = 0, pc_cdw4 = 0, pc_cdw5 = 0,
     pc_data_addr = 0, pc_data_length = 0, pc_key_length = 0, pc_cdw10 = 0, pc_cdw11 = 0,
     pc_key = replicate 16 0, pc_timeout_ms = 0, pc_result = 0, pc_status = 0, pc_ctxid = 0, pc_reqid = 0\<rparr>"

text \<open>The members of the union.\<close>

definition set_key_addr :: "u64 \<Rightarrow> nvme_passthru_kv_cmd \<Rightarrow> nvme_passthru_kv_cmd" where
  "set_key_addr a c = c\<lparr>pc_key := mem_write (pc_key c) 0 (le_bytes 8 (unat a))\<rparr>"

definition key_addr :: "nvme_passthru_kv_cmd \<Rightarrow> u64" where
  "key_addr c = word_of_nat (le_val (take 8 (pc_key c)))"

definition set_cdw12 :: "u32 \<Rightarrow> nvme_passthru_kv_cmd \<Rightarrow> nvme_passthru_kv_cmd" where
  "set_cdw12 w c = c\<lparr>pc_key := mem_write (pc_key c) 0 (u32_bytes w)\<rparr>"

definition set_cdw13 :: "u32 \<Rightarrow> nvme_passthru_kv_cmd \<Rightarrow> nvme_passthru_kv_cmd" where
  "set_cdw13 w c = c\<lparr>pc_key := mem_write (pc_key c) 4 (u32_bytes w)\<rparr>"

definition cdw12 :: "nvme_passthru_kv_cmd \<Rightarrow> u32" where
  "cdw12 c = read_u32 (pc_key c)"

definition cdw13 :: "nvme_passthru_kv_cmd \<Rightarrow> u32" where
  "cdw13 c = read_u32 (drop 4 (pc_key c))"

abbreviation (input) nvme_cmd_kv_store :: u8 where "nvme_cmd_kv_store \<equiv> 0x81"
abbreviation (input) nvme_cmd_kv_append :: u8 where "nvme_cmd_kv_append \<equiv> 0x83"
abbreviation (input) nvme_cmd_kv_retrieve :: u8 where "nvme_cmd_kv_retrieve \<equiv> 0x90"
abbreviation (input) nvme_cmd_kv_delete :: u8 where "nvme_cmd_kv_delete \<equiv> 0xA1"
abbreviation (input) nvme_cmd_kv_iter_req :: u8 where "nvme_cmd_kv_iter_req \<equiv> 0xB1"
abbreviation (input) nvme_cmd_kv_iter_read :: u8 where "nvme_cmd_kv_iter_read \<equiv> 0xB2"
abbreviation (input) nvme_cmd_kv_exist :: u8 where "nvme_cmd_kv_exist \<equiv> 0xB3"

definition is_kv_cmd :: "u8 \<Rightarrow> bool" where
  "is_kv_cmd opcode \<longleftrightarrow>
     opcode = nvme_cmd_kv_store \<or> opcode = nvme_cmd_kv_append \<or> opcode = nvme_cmd_kv_retrieve \<or>
     opcode = nvme_cmd_kv_delete \<or> opcode = nvme_cmd_kv_iter_req \<or> opcode = nvme_cmd_kv_iter_read \<or>
     opcode = nvme_cmd_kv_exist"

section \<open>Commands for the drive\<close>

text \<open>
  The structures of the union \<open>nvme_command\<close> for key-value commands, flattened: a command has the
  fields of its kind, the others stay 0. A key of more than 16 bytes is not in the command; the
  drive gets its address and length as metadata.
\<close>

record nvme_command =
  nc_opcode :: u8
  nc_flags :: u8
  nc_nsid :: u32
  nc_offset :: u32
  nc_value_len :: u32
  nc_key_len :: u8
  nc_option :: u8
  nc_invalid_byte :: u8
  nc_key :: "byte list"
  nc_iter_handle :: u8
  nc_iter_val :: u32
  nc_iter_bitmask :: u32

definition nvme_command_zero :: nvme_command where
  "nvme_command_zero = \<lparr>nc_opcode = 0, nc_flags = 0, nc_nsid = 0, nc_offset = 0, nc_value_len = 0, nc_key_len = 0,
     nc_option = 0, nc_invalid_byte = 0, nc_key = replicate 16 0, nc_iter_handle = 0, nc_iter_val = 0,
     nc_iter_bitmask = 0\<rparr>"

abbreviation (input) KVCMD_INLINE_KEY_MAX :: nat where "KVCMD_INLINE_KEY_MAX \<equiv> 16"
abbreviation (input) KVCMD_MAX_KEY_SIZE :: nat where "KVCMD_MAX_KEY_SIZE \<equiv> 255"
abbreviation (input) KVCMD_MIN_KEY_SIZE :: nat where "KVCMD_MIN_KEY_SIZE \<equiv> 4"
abbreviation (input) EINTR :: int where "EINTR \<equiv> 4"
abbreviation (input) EBADF :: int where "EBADF \<equiv> 9"
abbreviation (input) EACCES :: int where "EACCES \<equiv> 13"
abbreviation (input) EINVAL :: int where "EINVAL \<equiv> 22"
abbreviation (input) EMFILE :: int where "EMFILE \<equiv> 24"

text \<open>
  A request for the drive: the command, where its key is when it is not in the command (address
  and length, 0 and 0 otherwise), and where its data is.
\<close>

record nvme_kv_request =
  rq_cmd :: nvme_command
  rq_metadata :: u64
  rq_meta_len :: u32
  rq_ubuffer :: u64
  rq_bufflen :: u32

definition keyed :: "nvme_passthru_kv_cmd \<Rightarrow> nvme_command \<Rightarrow> nvme_kv_request" where
  "keyed cmd c =
     (let c' = c\<lparr>nc_key_len := ucast (pc_key_length cmd - 1), nc_option := ucast (pc_cdw4 cmd AND 0xff)\<rparr>;
          far = unat (pc_key_length cmd) > KVCMD_INLINE_KEY_MAX
      in \<lparr>rq_cmd = (if far then c' else c'\<lparr>nc_key := mem_write (nc_key c') 0 (take (unat (pc_key_length cmd)) (pc_key cmd))\<rparr>),
          rq_metadata = (if far then key_addr cmd else 0),
          rq_meta_len = (if far then pc_key_length cmd else 0),
          rq_ubuffer = pc_data_addr cmd, rq_bufflen = pc_data_length cmd\<rparr>)"

definition unkeyed :: "nvme_passthru_kv_cmd \<Rightarrow> nvme_command \<Rightarrow> nvme_kv_request" where
  "unkeyed cmd c = \<lparr>rq_cmd = c, rq_metadata = 0, rq_meta_len = 0, rq_ubuffer = pc_data_addr cmd, rq_bufflen = pc_data_length cmd\<rparr>"

text \<open>
  \<open>nvme_user_kv_cmd\<close> up to the submission: the request, or the error and the command with the
  result that goes back to the process. \<open>capable\<close> is the permission of the process. The name
  space of the command is the key space (\<open>KSID_SUPPORT\<close>).
\<close>

definition nvme_user_kv_cmd :: "bool \<Rightarrow> nvme_passthru_kv_cmd \<Rightarrow> (int \<times> nvme_passthru_kv_cmd) + nvme_kv_request" where
  "nvme_user_kv_cmd capable cmd =
     (let opcode = pc_opcode cmd;
          bad_key = unat (pc_key_length cmd) > KVCMD_MAX_KEY_SIZE \<or> unat (pc_key_length cmd) < KVCMD_MIN_KEY_SIZE;
          err = Inl (- EINVAL, cmd\<lparr>pc_result := word_of_int (- 23)\<rparr>);
          c = nvme_command_zero\<lparr>nc_opcode := opcode, nc_flags := pc_flags cmd, nc_nsid := pc_cdw3 cmd\<rparr>
      in if \<not> capable then Inl (- EACCES, cmd)
         else if pc_flags cmd \<noteq> 0 then Inl (- EINVAL, cmd)
         else if \<not> is_kv_cmd opcode then Inl (- EINVAL, cmd)
         else if opcode = nvme_cmd_kv_store \<or> opcode = nvme_cmd_kv_append then
           if bad_key then err
           else Inr (keyed cmd (c\<lparr>nc_offset := pc_cdw5 cmd,
             nc_value_len := (if pc_data_length cmd mod 4 \<noteq> 0 then drop_bit 2 (pc_data_length cmd) + 1
                              else drop_bit 2 (pc_data_length cmd)),
             nc_invalid_byte := (if pc_data_length cmd mod 4 \<noteq> 0 then 4 - ucast (pc_data_length cmd mod 4) else 0)\<rparr>))
         else if opcode = nvme_cmd_kv_retrieve then
           if bad_key then err
           else Inr (keyed cmd (c\<lparr>nc_offset := pc_cdw5 cmd, nc_value_len := drop_bit 2 (pc_data_length cmd)\<rparr>))
         else if opcode = nvme_cmd_kv_delete \<or> opcode = nvme_cmd_kv_exist then
           if bad_key then err else Inr (keyed cmd c)
         else if opcode = nvme_cmd_kv_iter_req then
           Inr (unkeyed cmd (c\<lparr>nc_iter_handle := ucast (pc_cdw5 cmd AND 0xff), nc_option := ucast (pc_cdw4 cmd AND 0xff),
             nc_iter_val := cdw12 cmd, nc_iter_bitmask := cdw13 cmd\<rparr>))
         else Inr (unkeyed cmd (c\<lparr>nc_iter_handle := ucast (pc_cdw5 cmd AND 0xff), nc_option := ucast (pc_cdw4 cmd AND 0xff),
             nc_value_len := drop_bit 2 (pc_data_length cmd)\<rparr>)))"

text \<open>The bytes at an address, and the key the drive reads for a request.\<close>

definition mem_read :: "(u64 \<Rightarrow> byte) \<Rightarrow> u64 \<Rightarrow> nat \<Rightarrow> byte list" where
  "mem_read m a n = map (\<lambda>i. m (a + word_of_nat i)) [0..<n]"

definition request_key :: "(u64 \<Rightarrow> byte) \<Rightarrow> nvme_kv_request \<Rightarrow> byte list" where
  "request_key m r =
     (if rq_meta_len r \<noteq> 0 then mem_read m (rq_metadata r) (unat (rq_meta_len r))
      else take (unat (nc_key_len (rq_cmd r)) + 1) (nc_key (rq_cmd r)))"

text \<open>
  A synchronous command. The drive is an argument: the request could not be made, or it ended,
  perhaps since it was cancelled, with a status, a result and bytes for the buffer of the process.
\<close>

datatype kv_outcome = Refused int | Finished bool u16 u32 "byte list"

definition mem_put :: "(u64 \<Rightarrow> byte) \<Rightarrow> u64 \<Rightarrow> byte list \<Rightarrow> u64 \<Rightarrow> byte" where
  "mem_put m a bs = (\<lambda>x. if unat (x - a) < length bs then bs ! unat (x - a) else m x)"

definition nvme_submit_sync ::
    "bool \<Rightarrow> kv_outcome \<Rightarrow> nvme_passthru_kv_cmd \<Rightarrow> (u64 \<Rightarrow> byte) \<Rightarrow> int \<times> nvme_passthru_kv_cmd \<times> (u64 \<Rightarrow> byte)" where
  "nvme_submit_sync capable out cmd m =
     (case nvme_user_kv_cmd capable cmd of
        Inl (e, cmd') \<Rightarrow> (e, cmd', m)
      | Inr rq \<Rightarrow>
          (case out of
             Refused e \<Rightarrow> (e, cmd, m)
           | Finished cancelled status result bytes \<Rightarrow>
               (if cancelled then - EINTR else int (unat status),
                cmd\<lparr>pc_result := result, pc_status := ucast status\<rparr>,
                mem_put m (rq_ubuffer rq) (take (unat (rq_bufflen rq)) bytes))))"

section \<open>Asynchronous contexts\<close>

record nvme_aioevent =
  ev_reqid :: u64
  ev_ctxid :: u32
  ev_result :: u32
  ev_status :: u16

text \<open>
  A context has the descriptor of its event counter and the list of its completed commands.
  \<open>eventfd_count\<close> holds the counters. \<open>tb_locked\<close> says that the lock of the table was taken and not
  released. \<open>kv_inflight\<close> has the commands that are at the drive or on the way back: \<open>nvme_kaiocb\<close>
  with its event, the result and status of which the completion fills in.
\<close>

record nvme_kaioctx =
  kx_eventfd :: u32
  kaiocb_list :: "nvme_aioevent list"

record nvme_kaiocb =
  kb_event :: nvme_aioevent
  kb_request :: nvme_kv_request

record nvme_kernel =
  g_kaioctx_tb :: "nvme_kaioctx option list"
  aio_context_id :: u32
  tb_locked :: bool
  eventfd_count :: "u32 \<Rightarrow> u64"
  kv_inflight :: "nvme_kaiocb list"

abbreviation (input) AIOCTX_MAX :: nat where "AIOCTX_MAX \<equiv> 1024"

text \<open>The driver when it is loaded; the event counters belong to the rest of the kernel.\<close>

definition aio_service_init :: "(u32 \<Rightarrow> u64) \<Rightarrow> nvme_kernel" where
  "aio_service_init counters = \<lparr>g_kaioctx_tb = replicate AIOCTX_MAX None, aio_context_id = 1, tb_locked = False,
     eventfd_count = counters, kv_inflight = []\<rparr>"

text \<open>The first free entry of the table.\<close>

fun free_entry :: "'a option list \<Rightarrow> nat" where
  "free_entry [] = 0"
| "free_entry (None # xs) = 0"
| "free_entry (Some x # xs) = Suc (free_entry xs)"

text \<open>
  \<open>nvme_set_aioctx\<close> for the descriptor \<open>efd\<close>; \<open>valid\<close> says that it is an event counter. The result is
  the code and the id of the new context. When the table is full the lock stays taken.
\<close>

definition nvme_set_aioctx :: "bool \<Rightarrow> bool \<Rightarrow> u32 \<Rightarrow> nvme_kernel \<Rightarrow> (int \<times> u32 option \<times> nvme_kernel) option" where
  "nvme_set_aioctx capable valid efd k =
     (if \<not> capable then Some (- EACCES, None, k)
      else if \<not> valid then Some (- EBADF, None, k)
      else if tb_locked k then None
      else
        do { require (unat (aio_context_id k) < length (g_kaioctx_tb k));
             let i = (if g_kaioctx_tb k ! unat (aio_context_id k) \<noteq> None then free_entry (g_kaioctx_tb k)
                      else unat (aio_context_id k));
             if i \<ge> AIOCTX_MAX then Some (- EMFILE, None, k\<lparr>tb_locked := True\<rparr>)
             else Some (0, Some (word_of_nat i),
               k\<lparr>g_kaioctx_tb := (g_kaioctx_tb k)[i := Some \<lparr>kx_eventfd = efd, kaiocb_list = []\<rparr>],
                 aio_context_id := (if Suc i = AIOCTX_MAX then 0 else word_of_nat (Suc i))\<rparr>) })"

text \<open>\<open>nvme_del_aioctx\<close>. The id comes from the process and is not checked against the table.\<close>

definition nvme_del_aioctx :: "u32 \<Rightarrow> nvme_kernel \<Rightarrow> (int \<times> nvme_kernel) option" where
  "nvme_del_aioctx ctxid k =
     (if tb_locked k then None
      else do { require (unat ctxid < length (g_kaioctx_tb k));
                Some (0, k\<lparr>g_kaioctx_tb := (g_kaioctx_tb k)[unat ctxid := None]\<rparr>) })"

definition find_kaioctx :: "u32 \<Rightarrow> nvme_kernel \<Rightarrow> nvme_kaioctx option option" where
  "find_kaioctx ctxid k =
     do { require (unat ctxid < length (g_kaioctx_tb k)); Some (g_kaioctx_tb k ! unat ctxid) }"

text \<open>
  The asynchronous part of \<open>__nvme_submit_kv_user_cmd\<close>: the request goes to the drive, unless it
  cannot be made (\<open>refused\<close>, a negative code).
\<close>

definition nvme_submit_aio :: "bool \<Rightarrow> int option \<Rightarrow> nvme_passthru_kv_cmd \<Rightarrow> nvme_kernel \<Rightarrow> int \<times> nvme_kernel" where
  "nvme_submit_aio capable refused cmd k =
     (case nvme_user_kv_cmd capable cmd of
        Inl (e, cmd') \<Rightarrow> (e, k)
      | Inr rq \<Rightarrow>
          (case refused of
             Some e \<Rightarrow> (e, k)
           | None \<Rightarrow>
               (0, k\<lparr>kv_inflight := kv_inflight k @ [\<lparr>kb_event = \<lparr>ev_reqid = pc_reqid cmd, ev_ctxid = pc_ctxid cmd,
                       ev_result = 0, ev_status = 0\<rparr>, kb_request = rq\<rparr>]\<rparr>)))"

text \<open>
  The completion of the \<open>i\<close>-th command under way: \<open>kv_async_completion\<close> fills in the result and the
  status, \<open>kv_complete_aio_fn\<close> and \<open>set_aioctx_event\<close> append the event to the list of its context. The
  signal for the event counter is a step of its own. An event without a context is dropped.
\<close>

definition set_aioctx_event :: "nvme_aioevent \<Rightarrow> nvme_kernel \<Rightarrow> (bool \<times> nvme_kernel) option" where
  "set_aioctx_event ev k =
     do { c \<leftarrow> find_kaioctx (ev_ctxid ev) k;
          case c of
            None \<Rightarrow> Some (False, k)
          | Some x \<Rightarrow> Some (True, k\<lparr>g_kaioctx_tb := (g_kaioctx_tb k)
              [unat (ev_ctxid ev) := Some (x\<lparr>kaiocb_list := kaiocb_list x @ [ev]\<rparr>)]\<rparr>) }"

definition kv_complete_aio :: "nat \<Rightarrow> u16 \<Rightarrow> u32 \<Rightarrow> nvme_kernel \<Rightarrow> (bool \<times> nvme_kernel) option" where
  "kv_complete_aio i status result k =
     do { require (i < length (kv_inflight k));
          let ev = (kb_event (kv_inflight k ! i))\<lparr>ev_result := result, ev_status := status\<rparr>;
          set_aioctx_event ev (k\<lparr>kv_inflight := take i (kv_inflight k) @ drop (Suc i) (kv_inflight k)\<rparr>) }"

definition eventfd_signal :: "u32 \<Rightarrow> nvme_kernel \<Rightarrow> nvme_kernel" where
  "eventfd_signal efd k = k\<lparr>eventfd_count := (eventfd_count k)(efd := eventfd_count k efd + 1)\<rparr>"

text \<open>
  \<open>nvme_get_ioevents\<close>: at most \<open>nr\<close> events leave the list of the context. They are moved to the
  front of a second list one by one, which is copied to the process: the latest comes first.
\<close>

definition nvme_get_ioevents ::
    "bool \<Rightarrow> u16 \<Rightarrow> u32 \<Rightarrow> nvme_kernel \<Rightarrow> (int \<times> nvme_aioevent list \<times> nvme_kernel) option" where
  "nvme_get_ioevents capable nr ctxid k =
     (if \<not> capable then Some (- EACCES, [], k)
      else if nr = 0 \<or> unat nr > 128 then Some (- EINVAL, [], k)
      else
        do { c \<leftarrow> find_kaioctx ctxid k;
             case c of
               None \<Rightarrow> Some (0, [], k)
             | Some x \<Rightarrow>
                 Some (0, rev (take (unat nr) (kaiocb_list x)),
                   k\<lparr>g_kaioctx_tb := (g_kaioctx_tb k)[unat ctxid := Some (x\<lparr>kaiocb_list := drop (unat nr) (kaiocb_list x)\<rparr>)]\<rparr>) })"

end
