(* ===== verification/Kv_Kadi.thy ===== *)
theory Kv_Kadi
  imports Kv_Nvme
begin

text \<open>
  The kernel driver adapter: the class \<open>KADI\<close>
  (\<open>PDK/core/src/device_abstract_layer/kernel_driver_adapter/kadi.cpp\<close> and \<open>kadi.h\<close>). It turns
  requests into commands for the NVMe driver of the kernel, keeps a context for each command that
  is under way, and calls back when the kernel reports the command complete.

  Contexts live at addresses. Pointers to keys, values and buffers are addresses in the memory of
  the process; key and value structures are looked up at their address, and an address without one
  makes the access undefined. A callback is its pointer, and the calls made are a list. Result
  codes are the integers of the C type, since codes of three enumerations and of the drive meet
  here.
\<close>

section \<open>State\<close>

record kadi_key =
  kk_key :: u64
  kk_length :: u16

record kadi_value =
  va_value :: u64
  va_length :: u32
  va_actual_value_size :: u32
  va_offset :: u32

record aio_cmd_ctx =
  ac_index :: u32
  ac_key :: u64
  ac_value :: u64
  ac_buf :: u64
  ac_post_fn :: u64
  ac_post_data :: u64
  ac_cmd :: nvme_passthru_kv_cmd

text \<open>The object with the memory of the process and the kernel it talks to.\<close>

record KADI =
  ka_capacity :: u64
  ka_started :: bool
  ka_fd :: int
  ka_nsid :: u32
  free_cmdctxs :: "nat list"
  pending_cmdctxs :: "u32 \<rightharpoonup> nat"
  ka_qdepth :: int
  ka_ctxid :: u32
  ka_eventfd :: u32
  ka_ctxs :: "nat \<rightharpoonup> aio_cmd_ctx"
  p_mem :: "u64 \<Rightarrow> byte"
  p_keys :: "u64 \<rightharpoonup> kadi_key"
  p_values :: "u64 \<rightharpoonup> kadi_value"
  kernel :: nvme_kernel

text \<open>The part of \<open>kv_io_context\<close> the adapter fills; a field that is not written is \<open>None\<close>.\<close>

record kadi_io_context =
  io_opcode :: u8
  io_retcode :: int
  io_key :: u64
  io_value :: u64
  io_private_data :: u64
  io_iter_id :: "u8 option"
  io_iter_end :: "bool option"
  io_iter_buf :: "u64 option"
  io_iter_buflength :: "u32 option"

type_synonym kadi_calls = "(u64 \<times> kadi_io_context) list"

text \<open>The code of a result, and the codes of \<open>kadi.h\<close>.\<close>

definition rc :: "kv_result \<Rightarrow> int" where
  "rc r = int (kv_result_code r)"

abbreviation (input) KADI_ERR_IO :: int where "KADI_ERR_IO \<equiv> - 10"
abbreviation (input) KADI_ERR_MEMORY :: int where "KADI_ERR_MEMORY \<equiv> - 13"
abbreviation (input) KADI_ERR_NULL_INPUT :: int where "KADI_ERR_NULL_INPUT \<equiv> - 14"

section \<open>Opening and closing\<close>

text \<open>
  The loop of \<open>open\<close> that allocates the contexts; \<open>ptrs\<close> are the addresses the allocator gives.
\<close>

definition new_ctx :: "u32 \<Rightarrow> aio_cmd_ctx" where
  "new_ctx i = \<lparr>ac_index = i, ac_key = 0, ac_value = 0, ac_buf = 0, ac_post_fn = 0, ac_post_data = 0, ac_cmd = kv_cmd_zero\<rparr>"

fun alloc_ctxs :: "nat \<Rightarrow> nat list \<Rightarrow> KADI \<Rightarrow> KADI" where
  "alloc_ctxs i [] d = d"
| "alloc_ctxs i (p # ps) d =
     alloc_ctxs (Suc i) ps (d\<lparr>ka_ctxs := (ka_ctxs d)(p \<mapsto> new_ctx (word_of_nat i)), free_cmdctxs := free_cmdctxs d @ [p]\<rparr>)"

text \<open>
  \<open>KADI::open\<close>. The descriptor of the device, its id and the descriptor of the event counter are
  what the kernel returns; \<open>valid\<close> and \<open>capable\<close> go to the kernel. \<open>None\<close>: the kernel never returns.
\<close>

definition kadi_open :: "bool \<Rightarrow> bool \<Rightarrow> int \<Rightarrow> u32 \<Rightarrow> int \<Rightarrow> nat list \<Rightarrow> KADI \<Rightarrow> (int \<times> KADI) option" where
  "kadi_open capable valid fd nsid efd ptrs d =
     (let d1 = d\<lparr>ka_fd := fd\<rparr> in
      if fd < 0 then Some (fd, d1)
      else let d2 = d1\<lparr>ka_nsid := nsid\<rparr> in
      if nsid = - 1 then Some (rc KV_ERR_SYS_IO, d2)
      else let d3 = alloc_ctxs 0 (take (nat (ka_qdepth d)) ptrs) d2 in
      if efd < 0 then Some (- 1, d3)
      else
        do { (ret, ctxid, k) \<leftarrow> nvme_set_aioctx capable valid (word_of_int efd) (kernel d3);
             let d4 = d3\<lparr>ka_eventfd := word_of_int efd, ka_ctxid := (case ctxid of None \<Rightarrow> 0 | Some i \<Rightarrow> i), kernel := k\<rparr>;
             if ret < 0 then Some (rc KV_ERR_SYS_IO, d4) else Some (0, d4) })"

fun free_ctxs :: "nat list \<Rightarrow> KADI \<Rightarrow> KADI option" where
  "free_ctxs [] d = Some d"
| "free_ctxs (p # ps) d =
     do { require (ka_ctxs d p \<noteq> None); free_ctxs ps (d\<lparr>ka_ctxs := (ka_ctxs d)(p := None)\<rparr>) }"

definition kadi_close :: "KADI \<Rightarrow> (int \<times> KADI) option" where
  "kadi_close d =
     (if ka_fd d > 0 then
        do { d1 \<leftarrow> free_ctxs (free_cmdctxs d) (d\<lparr>ka_started := False\<rparr>);
             (ret, k) \<leftarrow> nvme_del_aioctx (ka_ctxid d1) (kernel d1);
             let d2 = d1\<lparr>kernel := k\<rparr>;
             if ret < 0 then Some (KADI_ERR_IO, d2) else Some (0, d2\<lparr>ka_fd := - 1\<rparr>) }
      else Some (0, d))"

definition start_cbthread :: "KADI \<Rightarrow> KADI" where
  "start_cbthread d = d\<lparr>ka_started := True\<rparr>"

section \<open>Contexts\<close>

text \<open>
  \<open>get_cmd_ctx\<close> waits while no context is free. A callback is a pair of a function and its data.
\<close>

definition get_cmd_ctx :: "(u64 \<times> u64) option \<Rightarrow> KADI \<Rightarrow> (nat \<times> KADI) call" where
  "get_cmd_ctx cb d =
     (if free_cmdctxs d = [] then Waits
      else let p = last (free_cmdctxs d) in
      case ka_ctxs d p of
        None \<Rightarrow> Undefined
      | Some c \<Rightarrow>
          let c' = (case cb of
                      Some (post_fn, private_data) \<Rightarrow> c\<lparr>ac_post_fn := post_fn, ac_post_data := private_data\<rparr>
                    | None \<Rightarrow> c\<lparr>ac_post_fn := 0, ac_post_data := 0\<rparr>)
          in Returns (p, d\<lparr>free_cmdctxs := butlast (free_cmdctxs d), ka_ctxs := (ka_ctxs d)(p \<mapsto> c'),
               pending_cmdctxs := (if pending_cmdctxs d (ac_index c) = None
                 then (pending_cmdctxs d)(ac_index c \<mapsto> p) else pending_cmdctxs d)\<rparr>))"

definition release_cmd_ctx :: "nat \<Rightarrow> KADI \<Rightarrow> KADI option" where
  "release_cmd_ctx p d =
     do { c \<leftarrow> ka_ctxs d p;
          Some (d\<lparr>pending_cmdctxs := (pending_cmdctxs d)(ac_index c := None), free_cmdctxs := free_cmdctxs d @ [p]\<rparr>) }"

definition get_cmdctx :: "u64 \<Rightarrow> KADI \<Rightarrow> nat option" where
  "get_cmdctx reqid d = pending_cmdctxs d (ucast reqid)"

section \<open>Commands\<close>

text \<open>A key of at most 16 bytes is copied into the command, of a longer one the address.\<close>

definition put_key :: "(u64 \<Rightarrow> byte) \<Rightarrow> kadi_key \<Rightarrow> nvme_passthru_kv_cmd \<Rightarrow> nvme_passthru_kv_cmd" where
  "put_key m k c =
     (if unat (kk_length k) > KVCMD_INLINE_KEY_MAX then set_key_addr (kk_key k) c
      else c\<lparr>pc_key := mem_write (pc_key c) 0 (mem_read m (kk_key k) (unat (kk_length k)))\<rparr>)"

definition store_cmd :: "u32 \<Rightarrow> (u64 \<Rightarrow> byte) \<Rightarrow> u8 \<Rightarrow> kadi_key \<Rightarrow> kadi_value \<Rightarrow> u32 \<Rightarrow> nvme_passthru_kv_cmd" where
  "store_cmd nsid m ks_id key v opt =
     (put_key m key kv_cmd_zero)
       \<lparr>pc_opcode := nvme_cmd_kv_store, pc_nsid := nsid, pc_cdw3 := ucast ks_id, pc_cdw5 := va_offset v,
        pc_key_length := ucast (kk_length key), pc_cdw4 := opt, pc_cdw11 := ucast (kk_length key) - 1,
        pc_data_addr := va_value v, pc_data_length := va_length v, pc_cdw10 := drop_bit 2 (va_length v)\<rparr>"

definition retrieve_cmd :: "u32 \<Rightarrow> (u64 \<Rightarrow> byte) \<Rightarrow> u8 \<Rightarrow> kadi_key \<Rightarrow> kadi_value \<Rightarrow> nvme_passthru_kv_cmd" where
  "retrieve_cmd nsid m ks_id key v =
     (put_key m key kv_cmd_zero)
       \<lparr>pc_opcode := nvme_cmd_kv_retrieve, pc_nsid := nsid, pc_cdw3 := ucast ks_id, pc_cdw4 := 0, pc_cdw5 := va_offset v,
        pc_data_addr := va_value v, pc_data_length := va_length v, pc_key_length := ucast (kk_length key)\<rparr>"

definition delete_cmd :: "u32 \<Rightarrow> (u64 \<Rightarrow> byte) \<Rightarrow> u8 \<Rightarrow> kadi_key \<Rightarrow> u32 \<Rightarrow> nvme_passthru_kv_cmd" where
  "delete_cmd nsid m ks_id key check_exist =
     (put_key m key kv_cmd_zero)
       \<lparr>pc_opcode := nvme_cmd_kv_delete, pc_nsid := nsid, pc_cdw3 := ucast ks_id, pc_cdw4 := check_exist,
        pc_key_length := ucast (kk_length key)\<rparr>"

definition exist_cmd :: "u32 \<Rightarrow> (u64 \<Rightarrow> byte) \<Rightarrow> u8 \<Rightarrow> kadi_key \<Rightarrow> nvme_passthru_kv_cmd" where
  "exist_cmd nsid m ks_id key =
     (put_key m key kv_cmd_zero)
       \<lparr>pc_opcode := nvme_cmd_kv_exist, pc_nsid := nsid, pc_cdw3 := ucast ks_id, pc_key_length := ucast (kk_length key)\<rparr>"

text \<open>
  The end of an asynchronous call: the command gets the context's ids and goes to the kernel. When
  the kernel refuses it the context is released.
\<close>

definition kadi_issue ::
    "bool \<Rightarrow> int option \<Rightarrow> nat \<Rightarrow> (aio_cmd_ctx \<Rightarrow> aio_cmd_ctx) \<Rightarrow> nvme_passthru_kv_cmd \<Rightarrow> KADI \<Rightarrow> (int \<times> KADI) call" where
  "kadi_issue capable refused p f cmd d =
     (case ka_ctxs d p of
        None \<Rightarrow> Undefined
      | Some c \<Rightarrow>
          let cmd' = cmd\<lparr>pc_ctxid := ka_ctxid d, pc_reqid := ucast (ac_index c)\<rparr>;
              d1 = d\<lparr>ka_ctxs := (ka_ctxs d)(p \<mapsto> (f c)\<lparr>ac_cmd := cmd'\<rparr>)\<rparr>
          in (case nvme_submit_aio capable refused cmd' (kernel d) of (ret, k) \<Rightarrow>
                if ret < 0 then andThen (defined (release_cmd_ctx p (d1\<lparr>kernel := k\<rparr>))) (\<lambda>d2. Returns (rc KV_ERR_SYS_IO, d2))
                else Returns (0, d1\<lparr>kernel := k\<rparr>)))"

definition kadi_kv_store ::
    "bool \<Rightarrow> int option \<Rightarrow> u8 \<Rightarrow> u64 \<Rightarrow> u64 \<Rightarrow> u32 \<Rightarrow> (u64 \<times> u64) option \<Rightarrow> KADI \<Rightarrow> (int \<times> KADI) call" where
  "kadi_kv_store capable refused ks_id key val opt cb d =
     (if key = 0 then Returns (KADI_ERR_NULL_INPUT, d)
      else andThen (defined (p_keys d key)) (\<lambda>k.
        if kk_key k = 0 \<or> val = 0 then Returns (KADI_ERR_NULL_INPUT, d)
        else andThen (get_cmd_ctx cb d) (\<lambda>(p, d1).
          andThen (defined (p_values d1 val)) (\<lambda>v.
            kadi_issue capable refused p (\<lambda>c. c\<lparr>ac_key := key, ac_value := val\<rparr>)
              (store_cmd (ka_nsid d1) (p_mem d1) ks_id k v opt) d1))))"

definition kadi_kv_retrieve ::
    "bool \<Rightarrow> int option \<Rightarrow> u8 \<Rightarrow> u64 \<Rightarrow> u64 \<Rightarrow> (u64 \<times> u64) option \<Rightarrow> KADI \<Rightarrow> (int \<times> KADI) call" where
  "kadi_kv_retrieve capable refused ks_id key val cb d =
     (if key = 0 then Returns (KADI_ERR_NULL_INPUT, d)
      else andThen (defined (p_keys d key)) (\<lambda>k.
        if kk_key k = 0 \<or> val = 0 then Returns (KADI_ERR_NULL_INPUT, d)
        else andThen (get_cmd_ctx cb d) (\<lambda>(p, d1).
          andThen (defined (p_values d1 val)) (\<lambda>v.
            kadi_issue capable refused p (\<lambda>c. c\<lparr>ac_key := key, ac_value := val\<rparr>)
              (retrieve_cmd (ka_nsid d1) (p_mem d1) ks_id k v) d1))))"

definition kadi_kv_delete ::
    "bool \<Rightarrow> int option \<Rightarrow> u8 \<Rightarrow> u64 \<Rightarrow> u32 \<Rightarrow> (u64 \<times> u64) option \<Rightarrow> KADI \<Rightarrow> (int \<times> KADI) call" where
  "kadi_kv_delete capable refused ks_id key check_exist cb d =
     (if key = 0 then Returns (KADI_ERR_NULL_INPUT, d)
      else andThen (defined (p_keys d key)) (\<lambda>k.
        if kk_key k = 0 then Returns (KADI_ERR_NULL_INPUT, d)
        else andThen (get_cmd_ctx cb d) (\<lambda>(p, d1).
          kadi_issue capable refused p (\<lambda>c. c\<lparr>ac_key := key, ac_value := 0\<rparr>)
            (delete_cmd (ka_nsid d1) (p_mem d1) ks_id k check_exist) d1)))"

text \<open>
  \<open>exist\<close>: without a callback the command is synchronous. The result is a truth value, and so is
  the error code of an asynchronous command that was refused. The context keeps the key, the value
  and the buffer of the request it served before.
\<close>

definition kadi_exist ::
    "bool \<Rightarrow> int option \<Rightarrow> kv_outcome \<Rightarrow> u8 \<Rightarrow> u64 \<Rightarrow> (u64 \<times> u64) option \<Rightarrow> KADI \<Rightarrow> (bool \<times> KADI) call" where
  "kadi_exist capable refused out ks_id key cb d =
     andThen (defined (p_keys d key)) (\<lambda>k.
       andThen (get_cmd_ctx cb d) (\<lambda>(p, d1).
         let cmd = exist_cmd (ka_nsid d1) (p_mem d1) ks_id k in
         case cb of
           None \<Rightarrow>
             andThen (defined (ka_ctxs d1 p)) (\<lambda>c.
               let cmd' = cmd\<lparr>pc_ctxid := ka_ctxid d1, pc_reqid := ucast (ac_index c)\<rparr> in
               case nvme_submit_sync capable out cmd' (p_mem d1) of (ret, cmd2, m) \<Rightarrow>
                 andThen (defined (release_cmd_ctx p (d1\<lparr>ka_ctxs := (ka_ctxs d1)(p \<mapsto> c\<lparr>ac_cmd := cmd2\<rparr>), p_mem := m\<rparr>)))
                   (\<lambda>d2. Returns (ret = 0, d2)))
         | Some _ \<Rightarrow> andThen (kadi_issue capable refused p (\<lambda>c. c) cmd d1) (\<lambda>(r, d2).
             Returns (if r \<noteq> 0 then KADI_ERR_IO \<noteq> 0 else True, d2))))"

text \<open>\<open>kv_retrieve_sync\<close>: the copy of a short key into the command is commented out.\<close>

definition retrieve_sync_cmd :: "u32 \<Rightarrow> u8 \<Rightarrow> kadi_key \<Rightarrow> kadi_value \<Rightarrow> nvme_passthru_kv_cmd" where
  "retrieve_sync_cmd nsid ks_id key v =
     (if unat (kk_length key) \<le> KVCMD_INLINE_KEY_MAX then kv_cmd_zero else set_key_addr (kk_key key) kv_cmd_zero)
       \<lparr>pc_opcode := nvme_cmd_kv_retrieve, pc_nsid := nsid, pc_cdw3 := ucast ks_id, pc_cdw4 := 0, pc_cdw5 := va_offset v,
        pc_data_addr := va_value v, pc_data_length := va_length v, pc_key_length := ucast (kk_length key)\<rparr>"

definition kadi_kv_retrieve_sync :: "bool \<Rightarrow> kv_outcome \<Rightarrow> u8 \<Rightarrow> u64 \<Rightarrow> u64 \<Rightarrow> KADI \<Rightarrow> (int \<times> KADI) option" where
  "kadi_kv_retrieve_sync capable out ks_id key val d =
     (if key = 0 then Some (KADI_ERR_NULL_INPUT, d)
      else do { k \<leftarrow> p_keys d key;
                if kk_key k = 0 \<or> val = 0 then Some (KADI_ERR_NULL_INPUT, d)
                else do { v \<leftarrow> p_values d val;
                          if va_value v = 0 then Some (KADI_ERR_NULL_INPUT, d)
                          else case nvme_submit_sync capable out (retrieve_sync_cmd (ka_nsid d) ks_id k v) (p_mem d) of
                            (ret, cmd, m) \<Rightarrow>
                              let d1 = d\<lparr>p_mem := m\<rparr> in
                              if ret = 0 then
                                Some (0, d1\<lparr>p_values := (p_values d1)(val \<mapsto>
                                  v\<lparr>va_actual_value_size := pc_result cmd, va_length := min (pc_result cmd) (va_length v)\<rparr>)\<rparr>)
                              else Some (rc KV_ERR_SYS_IO, d1) } })"

section \<open>Iterators\<close>

record kv_iter_context =
  ic_handle :: u8
  ic_prefix :: u32
  ic_bitmask :: u32
  ic_buf :: u64
  ic_buflen :: int
  ic_byteswritten :: int
  ic_end :: bool

abbreviation (input) ITER_OPTION_OPEN :: u32 where "ITER_OPTION_OPEN \<equiv> 1"
abbreviation (input) ITER_OPTION_CLOSE :: u32 where "ITER_OPTION_CLOSE \<equiv> 2"
abbreviation (input) ITER_OPTION_KEY_ONLY :: u32 where "ITER_OPTION_KEY_ONLY \<equiv> 4"
abbreviation (input) ITER_OPTION_KEY_VALUE :: u32 where "ITER_OPTION_KEY_VALUE \<equiv> 8"
abbreviation (input) ITER_OPTION_DEL_KEY_VALUE :: u32 where "ITER_OPTION_DEL_KEY_VALUE \<equiv> 16"

definition iter_open_cmd :: "u32 \<Rightarrow> u8 \<Rightarrow> kv_iter_context \<Rightarrow> u32 \<Rightarrow> nvme_passthru_kv_cmd" where
  "iter_open_cmd nsid ks_id ctx opt =
     set_cdw13 (ic_bitmask ctx) (set_cdw12 (ic_prefix ctx)
       (kv_cmd_zero\<lparr>pc_opcode := nvme_cmd_kv_iter_req, pc_cdw3 := ucast ks_id, pc_nsid := nsid, pc_cdw4 := (ITER_OPTION_OPEN OR opt)\<rparr>))"

definition iter_open :: "bool \<Rightarrow> kv_outcome \<Rightarrow> u8 \<Rightarrow> kv_iter_context \<Rightarrow> u32 \<Rightarrow> KADI \<Rightarrow> int \<times> kv_iter_context \<times> KADI" where
  "iter_open capable out ks_id ctx opt d =
     (case nvme_submit_sync capable out (iter_open_cmd (ka_nsid d) ks_id ctx opt) (p_mem d) of (ret, cmd, m) \<Rightarrow>
        let d1 = d\<lparr>p_mem := m\<rparr> in
        if ret < 0 then (rc KV_ERR_SYS_IO, ctx, d1)
        else (sint (pc_status cmd), ctx\<lparr>ic_handle := ucast (pc_result cmd AND 0xff), ic_end := False\<rparr>, d1))"

definition iter_close :: "bool \<Rightarrow> kv_outcome \<Rightarrow> kv_iter_context \<Rightarrow> KADI \<Rightarrow> int \<times> KADI" where
  "iter_close capable out ctx d =
     (case nvme_submit_sync capable out
         (kv_cmd_zero\<lparr>pc_opcode := nvme_cmd_kv_iter_req, pc_nsid := ka_nsid d, pc_cdw4 := ITER_OPTION_CLOSE, pc_cdw5 := ucast (ic_handle ctx)\<rparr>)
         (p_mem d) of (ret, cmd, m) \<Rightarrow>
        if ret < 0 then (rc KV_ERR_SYS_IO, d\<lparr>p_mem := m\<rparr>) else (sint (pc_status cmd), d\<lparr>p_mem := m\<rparr>))"

definition iter_read_cmd :: "u32 \<Rightarrow> kv_iter_context \<Rightarrow> nvme_passthru_kv_cmd" where
  "iter_read_cmd nsid ctx = kv_cmd_zero\<lparr>pc_opcode := nvme_cmd_kv_iter_read, pc_nsid := nsid, pc_cdw5 := ucast (ic_handle ctx),
     pc_data_addr := ic_buf ctx, pc_data_length := word_of_int (ic_buflen ctx)\<rparr>"

definition iter_read_async :: "bool \<Rightarrow> int option \<Rightarrow> kv_iter_context \<Rightarrow> (u64 \<times> u64) option \<Rightarrow> KADI \<Rightarrow> (int \<times> KADI) call" where
  "iter_read_async capable refused ctx cb d =
     andThen (get_cmd_ctx cb d) (\<lambda>(p, d1).
       kadi_issue capable refused p (\<lambda>c. c\<lparr>ac_buf := ic_buf ctx\<rparr>) (iter_read_cmd (ka_nsid d1) ctx) d1)"

text \<open>The status 0x393 says that the scan is finished; the data is valid.\<close>

definition iter_read :: "bool \<Rightarrow> kv_outcome \<Rightarrow> kv_iter_context \<Rightarrow> KADI \<Rightarrow> int \<times> kv_iter_context \<times> KADI" where
  "iter_read capable out ctx d =
     (case nvme_submit_sync capable out (iter_read_cmd (ka_nsid d) ctx) (p_mem d) of (ret, cmd, m) \<Rightarrow>
        let d1 = d\<lparr>p_mem := m\<rparr> in
        if ret < 0 then (rc KV_ERR_SYS_IO, ctx, d1)
        else let ctx1 = ctx\<lparr>ic_byteswritten := int (unat (pc_result cmd AND 0xffff))\<rparr> in
          if ic_byteswritten ctx1 > ic_buflen ctx1 then (- 1, ctx1, d1)
          else (sint (pc_status cmd), ctx1\<lparr>ic_end := (pc_status cmd = 0x393)\<rparr>, d1))"

text \<open>
  \<open>iter_readall\<close>: the loop looks only at \<open>end\<close>, and never returns when no read sets it. The drive is a
  function of a state, \<open>alloc\<close> gives the addresses of the buffers. The result is the list of the
  buffers with the number of bytes in them.
\<close>

partial_function (option) readall_loop ::
    "bool \<Rightarrow> ('v \<Rightarrow> kv_outcome \<times> 'v) \<Rightarrow> (nat \<Rightarrow> u64) \<Rightarrow> nat \<Rightarrow> kv_iter_context \<Rightarrow> (u64 \<times> int) list \<Rightarrow> 'v \<Rightarrow> KADI \<Rightarrow>
     (kv_iter_context \<times> (u64 \<times> int) list \<times> 'v \<times> KADI) option" where
  "readall_loop capable drive alloc n ctx buflist v d =
     (if ic_end ctx then Some (ctx, buflist, v, d)
      else let ctx1 = ctx\<lparr>ic_byteswritten := 0, ic_buf := alloc n\<rparr>;
               d1 = d\<lparr>p_mem := mem_put (p_mem d) (alloc n) (replicate (nat (ic_buflen ctx)) 0)\<rparr>
           in case drive v of (out, v1) \<Rightarrow>
                case iter_read capable out ctx1 d1 of (r, ctx2, d2) \<Rightarrow>
                  readall_loop capable drive alloc (Suc n) ctx2
                    (if ic_byteswritten ctx2 > 0 then buflist @ [(ic_buf ctx2, ic_byteswritten ctx2)] else buflist) v1 d2)"

definition iter_readall ::
    "bool \<Rightarrow> ('v \<Rightarrow> kv_outcome \<times> 'v) \<Rightarrow> (nat \<Rightarrow> u64) \<Rightarrow> u8 \<Rightarrow> kv_iter_context \<Rightarrow> u32 \<Rightarrow> 'v \<Rightarrow> KADI \<Rightarrow>
     (int \<times> kv_iter_context \<times> (u64 \<times> int) list \<times> 'v \<times> KADI) option" where
  "iter_readall capable drive alloc ks_id ctx opt v d =
     (case drive v of (out, v1) \<Rightarrow>
        case iter_open capable out ks_id ctx opt d of (r, ctx1, d1) \<Rightarrow>
          if r \<noteq> 0 then Some (r, ctx1, [], v1, d1)
          else do { (ctx2, buflist, v2, d2) \<leftarrow> readall_loop capable drive alloc 0 ctx1 [] v1 d1;
                    case drive v2 of (out2, v3) \<Rightarrow>
                      case iter_close capable out2 ctx2 d2 of (r2, d3) \<Rightarrow> Some (r2, ctx2, buflist, v3, d3) })"

section \<open>Log pages and identification\<close>

text \<open>
  The administration commands return a code and the page of the drive, which are arguments.
  \<open>iter_list\<close> reports the first entries of the page, open or not; patterns and masks are turned
  into the byte order of the KV API.
\<close>

definition iterator_option_of :: "u8 \<Rightarrow> kv_iterator_option" where
  "iterator_option_of t =
     (if t = 0 then KV_ITERATOR_OPT_KEY else if t = 1 then KV_ITERATOR_OPT_KV
      else if t = 2 then KV_ITERATOR_OPT_KV_WITH_DELETE else KV_ITERATOR_OPT_OTHER)"

definition iter_list_entry :: "byte list \<Rightarrow> nat \<Rightarrow> kv_iterator" where
  "iter_list_entry logbuf i =
     (let e = drop (i * 16) logbuf in
      \<lparr>it_handle_id = e ! 0, it_status = e ! 1, it_type = iterator_option_of (e ! 2 - 1 + 0), it_keyspace_id = e ! 3,
       it_prefix = htobe32 (read_u32 (drop 4 e)), it_bitmask = htobe32 (read_u32 (drop 8 e)), it_is_eof = e ! 12\<rparr>)"

definition iter_list :: "int \<Rightarrow> byte list \<Rightarrow> u32 \<Rightarrow> int \<times> kv_iterator list \<times> u32" where
  "iter_list ret page count =
     (if count = 0 then (rc KV_ERR_BUFFER_SMALL, [], count)
      else if ret \<noteq> 0 then (rc KV_ERR_SYS_IO, [], count)
      else let logbuf = take 512 (page @ replicate 512 0); n = min SAMSUNG_MAX_ITERATORS (unat count)
           in (rc KV_SUCCESS, map (iter_list_entry logbuf) [0..<n], word_of_nat n))"

definition get_dev_waf :: "int \<Rightarrow> byte list \<Rightarrow> u32" where
  "get_dev_waf ret page = (if ret \<noteq> 0 then word_of_int (rc KV_ERR_SYS_IO) else read_u32 (drop 256 (take 512 (page @ replicate 512 0))))"

text \<open>\<open>get_freespace\<close> gives the bytes used, the capacity and, as the pair it is the quotient of, the utilization.\<close>

definition read_u64 :: "byte list \<Rightarrow> u64" where
  "read_u64 bs = word_of_nat (le_val (take 8 bs))"

definition get_freespace :: "int \<Rightarrow> byte list \<Rightarrow> int \<times> (u64 \<times> u64 \<times> u64 \<times> u64) option" where
  "get_freespace ret page =
     (if ret < 0 then (rc KV_ERR_SYS_IO, None)
      else let bs = take 4096 (page @ replicate 4096 0); namespace_size = read_u64 bs; namespace_utilization = read_u64 (drop 16 bs)
           in (0, Some (namespace_utilization * 512, namespace_size * 512, namespace_utilization, namespace_size)))"

definition update_capacity :: "int \<Rightarrow> byte list \<Rightarrow> KADI \<Rightarrow> int \<times> KADI" where
  "update_capacity ret page d =
     (case get_freespace ret page of
        (r, Some (used, cap, _)) \<Rightarrow> if r \<noteq> 0 then (- 1, d) else (r, d\<lparr>ka_capacity := cap\<rparr>)
      | (r, None) \<Rightarrow> (- 1, d))"

section \<open>Completion\<close>

text \<open>\<open>fill_ioresult\<close>; a retrieved value gets its sizes.\<close>

definition fill_ioresult ::
    "aio_cmd_ctx \<Rightarrow> nvme_aioevent \<Rightarrow> (u64 \<rightharpoonup> kadi_value) \<Rightarrow> (kadi_io_context \<times> (u64 \<rightharpoonup> kadi_value)) option" where
  "fill_ioresult c event vals =
     (let opcode = pc_opcode (ac_cmd c);
          r = \<lparr>io_opcode = opcode, io_retcode = int (unat (ev_status event)), io_key = ac_key c, io_value = ac_value c,
               io_private_data = ac_post_data c, io_iter_id = None, io_iter_end = None, io_iter_buf = None,
               io_iter_buflength = None\<rparr>
      in if ev_status event = 0x393 \<and> opcode = nvme_cmd_kv_iter_read then
           Some (r\<lparr>io_iter_buf := Some (ac_buf c), io_iter_buflength := Some (ev_result event AND 0xffff),
             io_iter_end := Some True, io_retcode := 0\<rparr>, vals)
         else if ev_status event \<noteq> 0 then Some (r, vals)
         else if opcode = nvme_cmd_kv_retrieve then
           if ac_value c = 0 then Some (r, vals)
           else do { v \<leftarrow> vals (ac_value c);
                     let size = ev_result event - va_offset v;
                     Some (r, vals(ac_value c \<mapsto> v\<lparr>va_actual_value_size := size, va_length := min size (va_length v)\<rparr>)) }
         else if opcode = nvme_cmd_kv_iter_req then
           if pc_cdw4 (ac_cmd c) AND ITER_OPTION_OPEN \<noteq> 0 then
             Some (r\<lparr>io_iter_id := Some (ucast (ev_result event AND 0xff)), io_iter_end := Some False\<rparr>, vals)
           else Some (r, vals)
         else if opcode = nvme_cmd_kv_iter_read then
           if ac_buf c \<noteq> 0 then
             Some (r\<lparr>io_iter_buf := Some (ac_buf c), io_iter_buflength := Some (ev_result event AND 0xffff),
               io_iter_end := Some False\<rparr>, vals)
           else Some (r\<lparr>io_iter_end := Some False\<rparr>, vals)
         else Some (r, vals))"

definition call_post_fn :: "aio_cmd_ctx \<Rightarrow> kadi_io_context \<Rightarrow> kadi_calls" where
  "call_post_fn c r = (if ac_post_fn c \<noteq> 0 then [(ac_post_fn c, r)] else [])"

text \<open>One event: its context must be pending.\<close>

definition poll_event :: "nvme_aioevent \<Rightarrow> KADI \<Rightarrow> (kadi_calls \<times> KADI) option" where
  "poll_event event d =
     do { p \<leftarrow> get_cmdctx (ev_reqid event) d;
          c \<leftarrow> ka_ctxs d p;
          (r, vals) \<leftarrow> fill_ioresult c event (p_values d);
          d' \<leftarrow> release_cmd_ctx p (d\<lparr>p_values := vals\<rparr>);
          Some (call_post_fn c r, d') }"

fun poll_events :: "nvme_aioevent list \<Rightarrow> KADI \<Rightarrow> (kadi_calls \<times> KADI) option" where
  "poll_events [] d = Some ([], d)"
| "poll_events (e # es) d =
     do { (calls, d1) \<leftarrow> poll_event e d; (calls', d2) \<leftarrow> poll_events es d1; Some (calls @ calls', d2) }"

text \<open>
  The number of events the loop asks the kernel for: the counter read as an \<open>int\<close>, at most
  \<open>MAX_AIO_EVENTS\<close> and the depth of the queue.
\<close>

definition check_nr :: "u64 \<Rightarrow> KADI \<Rightarrow> int" where
  "check_nr eftd_ctx d = min (min (sint (ucast eftd_ctx :: u32)) 128) (ka_qdepth d)"

partial_function (option) kadi_poll_loop ::
    "bool \<Rightarrow> u64 \<Rightarrow> u32 \<Rightarrow> kadi_calls \<Rightarrow> KADI \<Rightarrow> (int \<times> u32 \<times> kadi_calls \<times> KADI) option" where
  "kadi_poll_loop capable eftd_ctx num_events calls d =
     (if eftd_ctx = 0 then Some (0, num_events, calls, d)
      else let nr = check_nr eftd_ctx d; num1 = num_events + word_of_int nr in
        Option.bind (nvme_get_ioevents capable (word_of_int nr) (ka_ctxid d) (kernel d)) (\<lambda>(ret, events, k).
          if ret < 0 then Some (KADI_ERR_IO, num1, calls, d\<lparr>kernel := k\<rparr>)
          else Option.bind (poll_events events (d\<lparr>kernel := k\<rparr>)) (\<lambda>(calls', d').
            kadi_poll_loop capable (eftd_ctx - word_of_int nr) num1 (calls @ calls') d')))"

text \<open>
  \<open>kadi_poll_completion\<close>. \<open>interrupted\<close> is a \<open>select\<close> that fails; otherwise it finds the event counter
  readable if it is not 0, and reading it sets it to 0.
\<close>

definition kadi_poll_completion :: "bool \<Rightarrow> bool \<Rightarrow> u32 \<Rightarrow> KADI \<Rightarrow> (int \<times> u32 \<times> kadi_calls \<times> KADI) option" where
  "kadi_poll_completion capable interrupted num_events d =
     (let n = eventfd_count (kernel d) (ka_eventfd d) in
      if interrupted \<or> n = 0 then Some (0, 0, [], d)
      else kadi_poll_loop capable n num_events [] (d\<lparr>kernel := (kernel d)\<lparr>eventfd_count := (eventfd_count (kernel d))(ka_eventfd d := 0)\<rparr>\<rparr>))"

end
