(* ===== verification/Kv_Kdd.thy ===== *)
theory Kv_Kdd
  imports Kv_Kadi Kv_Driver
begin

text \<open>
  The KV API on the kernel driver: the C interface over the adapter
  (\<open>PDK/core/src/device_abstract_layer/kernel_driver_adapter/kvs_adi.cpp\<close>, prefix \<open>kd\<close>) and the driver
  class \<open>KDDriver\<close> (\<open>PDK/core/src/api/src/driver_adapter/kvkdd.cpp\<close>, prefix \<open>kdd\<close>).

  Queue and name space handles only carry the adapter, so a handle is the question whether it is
  there. Structures of the application are looked up at their addresses, like those of the adapter.
  A synchronous call runs on the schedule on which its command is the only one under way: the drive
  answers it, the kernel queues and signals its event, and the polling thread calls back.
\<close>

section \<open>The C interface: devices\<close>

text \<open>
  What the system gives to an initialization: the address of the new object, what the kernel returns
  to \<open>KADI::open\<close>, the addresses of the contexts, the error number that is left, the answer to the
  identification command, and the bits found in the memory of \<open>aioctx\<close>, which the constructor leaves.
\<close>

record kd_open_env =
  oe_addr :: nat
  oe_capable :: bool
  oe_valid :: bool
  oe_fd :: int
  oe_nsid :: u32
  oe_efd :: int
  oe_ptrs :: "nat list"
  oe_errno :: int
  oe_page :: "int \<times> byte list"
  oe_ctxid :: u32

definition kadi_new :: "int \<Rightarrow> u32 \<Rightarrow> KADI \<Rightarrow> KADI" where
  "kadi_new queuedepth ctxid d = d\<lparr>ka_capacity := 0, ka_started := False, ka_fd := - 1, free_cmdctxs := [],
     pending_cmdctxs := Map.empty, ka_qdepth := queuedepth, ka_ctxid := ctxid\<rparr>"

text \<open>
  A handle is the address of its object, here with the object; \<open>devs\<close> is \<open>g_devices\<close>. The object that
  is returned after it was deleted is the memory and the kernel it leaves behind.
\<close>

definition kd_cleanup_device :: "(nat \<times> KADI) option \<Rightarrow> nat set \<Rightarrow> (kv_result \<times> KADI option \<times> nat set) option" where
  "kd_cleanup_device dev_hdl devs =
     (case dev_hdl of
        None \<Rightarrow> Some (KV_ERR_PARAM_INVALID, None, devs)
      | Some (a, d) \<Rightarrow> do { (r, d') \<leftarrow> kadi_close d; Some (KV_SUCCESS, Some d', devs - {a}) })"

text \<open>\<open>dev_hdl\<close> is \<open>None\<close> for a null pointer and otherwise the handle it points to.\<close>

definition kd_initialize_device ::
    "kd_open_env \<Rightarrow> int \<Rightarrow> (nat \<times> KADI) option option \<Rightarrow> KADI \<Rightarrow> nat set \<Rightarrow>
     (kv_result \<times> (nat \<times> KADI) option \<times> KADI \<times> nat set) option" where
  "kd_initialize_device env queuedepth dev_hdl w devs =
     (case dev_hdl of
        None \<Rightarrow> Some (KV_ERR_PARAM_INVALID, None, w, devs)
      | Some (Some h) \<Rightarrow> Some (KV_ERR_DEV_INITIALIZED, Some h, w, devs)
      | Some None \<Rightarrow>
          let a = oe_addr env; d = kadi_new queuedepth (oe_ctxid env) w in
          if a \<in> devs then
            do { (r, d', devs') \<leftarrow> kd_cleanup_device (Some (a, d)) devs; Some (KV_ERR_DEV_INIT, None, the d', devs') }
          else
            do { (ret, d1) \<leftarrow> kadi_open (oe_capable env) (oe_valid env) (oe_fd env) (oe_nsid env) (oe_efd env) (oe_ptrs env) d;
                 let devs1 = insert a devs;
                 if ret = 0 then
                   let d2 = snd (update_capacity (fst (oe_page env)) (snd (oe_page env)) d1) in Some (KV_SUCCESS, Some (a, d2), d2, devs1)
                 else
                   let e = (if oe_errno env = 2 then KV_ERR_DEV_NOT_EXIST else if oe_errno env = 13 then KV_ERR_PERMISSION
                            else KV_ERR_UNCORRECTIBLE)
                   in do { (r, d2, devs2) \<leftarrow> kd_cleanup_device (Some (a, d1)) devs1; Some (e, None, the d2, devs2) } })"

text \<open>
  Information about the device and its only name space; \<open>util\<close> is the rounded quotient. A handle is
  \<open>None\<close> for a null pointer, and otherwise has its field \<open>dev\<close>. Only \<open>kv_get_device_info\<close> looks for a
  null handle, the others dereference it.
\<close>

record kd_device_info =
  kdi_capacity :: u64
  kdi_max_queues :: u32
  kdi_max_namespaces :: u32
  kdi_min_value_len :: nat
  kdi_max_value_len :: nat
  kdi_min_key_len :: nat
  kdi_max_key_len :: nat

definition get_kadi_from_hdl :: "KADI option option \<Rightarrow> KADI option option" where
  "get_kadi_from_hdl dev_hdl = do { dev \<leftarrow> dev_hdl; Some dev }"

definition kd_get_device_info :: "bool \<Rightarrow> KADI option option \<Rightarrow> kv_result \<times> kd_device_info option" where
  "kd_get_device_info devinfo dev_hdl =
     (if \<not> devinfo then (KV_ERR_PARAM_INVALID, None)
      else case dev_hdl of
        None \<Rightarrow> (KV_ERR_PARAM_INVALID, None)
      | Some None \<Rightarrow> (KV_ERR_DEV_NOT_EXIST, None)
      | Some (Some d) \<Rightarrow> (KV_SUCCESS, Some \<lparr>kdi_capacity = ka_capacity d, kdi_max_queues = 1, kdi_max_namespaces = 1,
          kdi_min_value_len = SAMSUNG_KV_MIN_VALUE_LEN, kdi_max_value_len = SAMSUNG_KV_MAX_VALUE_LEN,
          kdi_min_key_len = SAMSUNG_KV_MIN_KEY_LEN, kdi_max_key_len = SAMSUNG_KV_MAX_KEY_LEN\<rparr>))"

definition kd_get_device_waf :: "int \<times> byte list \<Rightarrow> KADI option option \<Rightarrow> (kv_result \<times> u32 option) option" where
  "kd_get_device_waf page dev_hdl =
     do { dev \<leftarrow> get_kadi_from_hdl dev_hdl;
          case dev of
            None \<Rightarrow> Some (KV_ERR_DEV_NOT_EXIST, None)
          | Some d \<Rightarrow> Some (KV_SUCCESS, Some (get_dev_waf (fst page) (snd page))) }"

definition kd_get_device_stat ::
    "(u64 \<Rightarrow> u64 \<Rightarrow> u16) \<Rightarrow> int \<times> byte list \<Rightarrow> bool \<Rightarrow> KADI option option \<Rightarrow> (kv_result \<times> u16 option) option" where
  "kd_get_device_stat util page dev_st dev_hdl =
     (if \<not> dev_st then Some (KV_ERR_PARAM_INVALID, None)
      else do { dev \<leftarrow> get_kadi_from_hdl dev_hdl;
                case dev of
                  None \<Rightarrow> Some (KV_ERR_DEV_NOT_EXIST, None)
                | Some d \<Rightarrow>
                    (case get_freespace (fst page) (snd page) of
                       (r, Some (used, cap, nu, ns)) \<Rightarrow>
                         if r \<noteq> 0 then Some (KV_ERR_SYS_IO, None) else Some (KV_SUCCESS, Some (util nu ns))
                     | (r, None) \<Rightarrow> Some (KV_ERR_SYS_IO, None)) })"

definition kd_get_namespace_stat :: "int \<times> byte list \<Rightarrow> KADI option option \<Rightarrow> (kv_result \<times> u64 option) option" where
  "kd_get_namespace_stat page dev_hdl =
     do { dev \<leftarrow> get_kadi_from_hdl dev_hdl;
          case dev of
            None \<Rightarrow> Some (KV_ERR_DEV_NOT_EXIST, None)
          | Some d \<Rightarrow>
              (case get_freespace (fst page) (snd page) of
                 (r, Some (used, cap, _)) \<Rightarrow>
                   if r \<noteq> 0 then Some (KV_ERR_SYS_IO, None) else Some (KV_SUCCESS, Some (cap - used))
               | (r, None) \<Rightarrow> Some (KV_ERR_SYS_IO, None)) }"

section \<open>The C interface: requests\<close>

definition kd_kv_store ::
    "bool \<Rightarrow> int option \<Rightarrow> bool \<Rightarrow> bool \<Rightarrow> u8 \<Rightarrow> u64 \<Rightarrow> u64 \<Rightarrow> kv_store_option \<Rightarrow> (u64 \<times> u64) option \<Rightarrow> KADI \<Rightarrow> (int \<times> KADI) call" where
  "kd_kv_store capable refused que_hdl ns_hdl ks_id key val opt post d =
     (if \<not> que_hdl \<or> \<not> ns_hdl \<or> key = 0 \<or> val = 0 then Returns (rc KV_ERR_PARAM_INVALID, d)
      else case opt of
        KV_STORE_OPT_DEFAULT \<Rightarrow> kadi_kv_store capable refused ks_id key val 0 post d
      | KV_STORE_OPT_COMPRESS \<Rightarrow> kadi_kv_store capable refused ks_id key val 1 post d
      | KV_STORE_OPT_IDEMPOTENT \<Rightarrow> kadi_kv_store capable refused ks_id key val 2 post d
      | KV_STORE_OPT_UPDATE_ONLY \<Rightarrow> kadi_kv_store capable refused ks_id key val 8 post d
      | _ \<Rightarrow> Returns (rc KV_ERR_OPTION_INVALID, d))"

text \<open>The option of a retrieve is not passed on.\<close>

definition kd_kv_retrieve ::
    "bool \<Rightarrow> int option \<Rightarrow> bool \<Rightarrow> bool \<Rightarrow> u8 \<Rightarrow> u64 \<Rightarrow> kv_retrieve_option \<Rightarrow> u64 \<Rightarrow> (u64 \<times> u64) option \<Rightarrow> KADI \<Rightarrow> (int \<times> KADI) call" where
  "kd_kv_retrieve capable refused que_hdl ns_hdl ks_id key opt val post d =
     (if \<not> que_hdl \<or> \<not> ns_hdl \<or> key = 0 \<or> val = 0 then Returns (rc KV_ERR_PARAM_INVALID, d)
      else kadi_kv_retrieve capable refused ks_id key val post d)"

definition kd_kv_retrieve_sync ::
    "bool \<Rightarrow> kv_outcome \<Rightarrow> bool \<Rightarrow> bool \<Rightarrow> u8 \<Rightarrow> u64 \<Rightarrow> u64 \<Rightarrow> KADI \<Rightarrow> (int \<times> KADI) option" where
  "kd_kv_retrieve_sync capable out que_hdl ns_hdl ks_id key val d =
     (if \<not> que_hdl \<or> \<not> ns_hdl \<or> key = 0 \<or> val = 0 then Some (rc KV_ERR_PARAM_INVALID, d)
      else kadi_kv_retrieve_sync capable out ks_id key val d)"

definition delete_option_code :: "kv_delete_option \<Rightarrow> u32" where
  "delete_option_code opt = (case opt of KV_DELETE_OPT_DEFAULT \<Rightarrow> 0 | KV_DELETE_OPT_ERROR \<Rightarrow> 1 | KV_DELETE_OPT_OTHER \<Rightarrow> 2)"

definition kd_kv_delete ::
    "bool \<Rightarrow> int option \<Rightarrow> bool \<Rightarrow> bool \<Rightarrow> u8 \<Rightarrow> u64 \<Rightarrow> kv_delete_option \<Rightarrow> (u64 \<times> u64) option \<Rightarrow> KADI \<Rightarrow> (int \<times> KADI) call" where
  "kd_kv_delete capable refused que_hdl ns_hdl ks_id key opt post d =
     (if \<not> que_hdl \<or> \<not> ns_hdl \<or> key = 0 then Returns (rc KV_ERR_PARAM_INVALID, d)
      else kadi_kv_delete capable refused ks_id key (delete_option_code opt) post d)"

text \<open>\<open>validate_key_value\<close> without a value, on the structure at an address.\<close>

definition validate_kadi_key :: "kadi_key \<Rightarrow> kv_result" where
  "validate_kadi_key k =
     (if kk_key k = 0 then KV_ERR_KEY_INVALID
      else if unat (kk_length k) > SAMSUNG_KV_MAX_KEY_LEN \<or> unat (kk_length k) < SAMSUNG_KV_MIN_KEY_LEN then KV_ERR_KEY_LENGTH_INVALID
      else KV_SUCCESS)"

definition kd_kv_exist ::
    "bool \<Rightarrow> int option \<Rightarrow> kv_outcome \<Rightarrow> bool \<Rightarrow> bool \<Rightarrow> u8 \<Rightarrow> u64 \<Rightarrow> u32 \<Rightarrow> u32 \<Rightarrow> u64 \<Rightarrow> (u64 \<times> u64) option \<Rightarrow> KADI \<Rightarrow> (int \<times> KADI) call" where
  "kd_kv_exist capable refused out que_hdl ns_hdl ks_id keys key_cnt buffer_size buffer post d =
     (if \<not> que_hdl \<or> \<not> ns_hdl \<or> key_cnt = 0 then Returns (rc KV_ERR_PARAM_INVALID, d)
      else andThen (defined (p_keys d keys)) (\<lambda>k.
        if validate_kadi_key k \<noteq> KV_SUCCESS then Returns (rc (validate_kadi_key k), d)
        else andThen (kadi_exist capable refused out ks_id keys post d) (\<lambda>(e, d1).
          if post = None then
            Returns (rc KV_SUCCESS, if buffer \<noteq> 0 \<and> buffer_size > 0 then d1\<lparr>p_mem := (p_mem d1)(buffer := of_bool e)\<rparr> else d1)
          else if \<not> e then Returns (rc KV_ERR_SYS_IO, d1)
          else Returns (rc KV_SUCCESS, d1))))"

section \<open>The C interface: iterators\<close>

definition kd_open_iterator_sync ::
    "bool \<Rightarrow> kv_outcome \<Rightarrow> u8 \<Rightarrow> kv_iterator_option \<Rightarrow> kv_group_condition \<Rightarrow> u8 \<Rightarrow> KADI \<Rightarrow> int \<times> u8 \<times> KADI" where
  "kd_open_iterator_sync capable out ks_id it_op it_cond iter_handle d =
     (let ctx = \<lparr>ic_handle = 0, ic_prefix = htobe32 (gc_bit_pattern it_cond), ic_bitmask = htobe32 (gc_bitmask it_cond),
                 ic_buf = 0, ic_buflen = 32768, ic_byteswritten = 0, ic_end = False\<rparr>;
          run = (\<lambda>opt. case iter_open capable out ks_id ctx opt d of (ret, ctx1, d1) \<Rightarrow>
                   (ret, if ret = rc KV_SUCCESS then ic_handle ctx1 else iter_handle, d1))
      in case it_op of
           KV_ITERATOR_OPT_KEY \<Rightarrow> run ITER_OPTION_KEY_ONLY
         | KV_ITERATOR_OPT_KV \<Rightarrow> run ITER_OPTION_KEY_VALUE
         | KV_ITERATOR_OPT_KV_WITH_DELETE \<Rightarrow> run ITER_OPTION_DEL_KEY_VALUE
         | KV_ITERATOR_OPT_OTHER \<Rightarrow> (rc KV_ERR_OPTION_INVALID, iter_handle, d))"

definition iter_ctx_for :: "u8 \<Rightarrow> u64 \<Rightarrow> u32 \<Rightarrow> kv_iter_context" where
  "iter_ctx_for hdl buf len = \<lparr>ic_handle = hdl, ic_prefix = 0, ic_bitmask = 0, ic_buf = buf, ic_buflen = sint len,
     ic_byteswritten = 0, ic_end = False\<rparr>"

definition kd_close_iterator_sync :: "bool \<Rightarrow> kv_outcome \<Rightarrow> bool \<Rightarrow> bool \<Rightarrow> u8 \<Rightarrow> KADI \<Rightarrow> int \<times> KADI" where
  "kd_close_iterator_sync capable out que_hdl ns_hdl iter_hdl d =
     (if \<not> que_hdl \<or> \<not> ns_hdl \<or> iter_hdl = 0 then (rc KV_ERR_PARAM_INVALID, d)
      else iter_close capable out (iter_ctx_for iter_hdl 0 0) d)"

text \<open>The list of an iteration, with the address of its buffer.\<close>

record kdd_iterator_list =
  kl_num_entries :: u32
  kl_end :: bool
  kl_size :: u32
  kl_it_list :: u64

definition kd_iterator_next ::
    "bool \<Rightarrow> int option \<Rightarrow> bool \<Rightarrow> bool \<Rightarrow> u8 \<Rightarrow> kdd_iterator_list \<Rightarrow> (u64 \<times> u64) option \<Rightarrow> KADI \<Rightarrow> (int \<times> KADI) call" where
  "kd_iterator_next capable refused que_hdl ns_hdl iter_hdl l post d =
     (if \<not> que_hdl \<or> \<not> ns_hdl \<or> iter_hdl = 0 \<or> unat iter_hdl > SAMSUNG_MAX_ITERATORS then Returns (rc KV_ERR_PARAM_INVALID, d)
      else iter_read_async capable refused (iter_ctx_for iter_hdl (kl_it_list l) (kl_size l)) post d)"

definition kd_iterator_next_sync ::
    "bool \<Rightarrow> kv_outcome \<Rightarrow> bool \<Rightarrow> bool \<Rightarrow> u8 \<Rightarrow> kdd_iterator_list \<Rightarrow> KADI \<Rightarrow> int \<times> kdd_iterator_list \<times> KADI" where
  "kd_iterator_next_sync capable out que_hdl ns_hdl iter_hdl l d =
     (if \<not> que_hdl \<or> \<not> ns_hdl \<or> iter_hdl = 0 \<or> unat iter_hdl > SAMSUNG_MAX_ITERATORS then (rc KV_ERR_PARAM_INVALID, l, d)
      else case iter_read capable out (iter_ctx_for iter_hdl (kl_it_list l) (kl_size l)) d of (ret, ctx, d1) \<Rightarrow>
        if ret = rc KV_SUCCESS \<or> ret = 0x393 then
          let l1 = (if ic_byteswritten ctx > 0
                    then l\<lparr>kl_num_entries := read_u32 (mem_read (p_mem d1) (ic_buf ctx) 4), kl_size := word_of_int (ic_byteswritten ctx)\<rparr>
                    else l\<lparr>kl_num_entries := 0, kl_size := 0\<rparr>)
          in (rc KV_SUCCESS, l1\<lparr>kl_end := (if ret = rc KV_SUCCESS then ic_end ctx else True)\<rparr>, d1)
        else (ret, l, d1))"

definition kd_list_iterators_sync :: "int \<Rightarrow> byte list \<Rightarrow> bool \<Rightarrow> bool \<Rightarrow> u32 \<Rightarrow> int \<times> kv_iterator list \<times> u32" where
  "kd_list_iterators_sync ret page que_hdl ns_hdl count =
     (if \<not> que_hdl \<or> \<not> ns_hdl then (rc KV_ERR_PARAM_INVALID, [], count) else iter_list ret page count)"

definition kd_poll_completion :: "bool \<Rightarrow> bool \<Rightarrow> bool \<Rightarrow> u32 \<Rightarrow> KADI \<Rightarrow> (int \<times> u32 \<times> kadi_calls \<times> KADI) option" where
  "kd_poll_completion capable interrupted que_hdl num_events d =
     (if \<not> que_hdl then Some (rc KV_ERR_PARAM_INVALID, num_events, [], d) else kadi_poll_completion capable interrupted num_events d)"

section \<open>The driver: results\<close>

definition code_map :: "(kv_result \<times> kvs_result) list" where
  "code_map =
    [(KV_SUCCESS, KVS_SUCCESS), (KV_WRN_MORE, KVS_ERR_SYS_IO), (KV_ERR_DEV_CAPACITY, KVS_ERR_KS_CAPACITY),
     (KV_ERR_DEV_INIT, KVS_ERR_SYS_IO), (KV_ERR_DEV_INITIALIZED, KVS_ERR_SYS_IO), (KV_ERR_DEV_NOT_EXIST, KVS_ERR_DEV_NOT_EXIST),
     (KV_ERR_DEV_SANITIZE_FAILED, KVS_ERR_SYS_IO), (KV_ERR_ITERATOR_NOT_EXIST, KVS_ERR_ITERATOR_NOT_EXIST),
     (KV_ERR_ITERATOR_ALREADY_OPEN, KVS_ERR_ITERATOR_OPEN), (KV_ERR_KEY_INVALID, KVS_ERR_SYS_IO),
     (KV_ERR_KEY_LENGTH_INVALID, KVS_ERR_KEY_LENGTH_INVALID), (KV_ERR_KEY_NOT_EXIST, KVS_ERR_KEY_NOT_EXIST),
     (KV_ERR_NS_DEFAULT, KVS_ERR_SYS_IO), (KV_ERR_NS_INVALID, KVS_ERR_SYS_IO), (KV_ERR_OPTION_INVALID, KVS_ERR_OPTION_INVALID),
     (KV_ERR_PARAM_INVALID, KVS_ERR_PARAM_INVALID), (KV_ERR_PURGE_IN_PRGRESS, KVS_ERR_SYS_IO), (KV_ERR_SYS_IO, KVS_ERR_SYS_IO),
     (KV_ERR_VALUE_LENGTH_INVALID, KVS_ERR_VALUE_LENGTH_INVALID), (KV_ERR_VALUE_LENGTH_MISALIGNED, KVS_ERR_VALUE_OFFSET_MISALIGNED),
     (KV_ERR_VALUE_OFFSET_INVALID, KVS_ERR_VALUE_OFFSET_INVALID), (KV_ERR_VENDOR, KVS_ERR_SYS_IO), (KV_ERR_PERMISSION, KVS_ERR_SYS_IO),
     (KV_ERR_MISALIGNED_VALUE_OFFSET, KVS_ERR_VALUE_OFFSET_MISALIGNED), (KV_ERR_BUFFER_SMALL, KVS_ERR_BUFFER_SMALL),
     (KV_ERR_DEV_MAX_NS, KVS_ERR_SYS_IO), (KV_ERR_ITERATOR_COND_INVALID, KVS_ERR_ITERATOR_FILTER_INVALID),
     (KV_ERR_NS_ATTAHED, KVS_ERR_SYS_IO), (KV_ERR_NS_CAPACITY, KVS_ERR_KS_CAPACITY), (KV_ERR_NS_NOT_ATTACHED, KVS_ERR_SYS_IO),
     (KV_ERR_QUEUE_CQID_INVALID, KVS_ERR_SYS_IO), (KV_ERR_QUEUE_SQID_INVALID, KVS_ERR_SYS_IO),
     (KV_ERR_QUEUE_DELETION_INVALID, KVS_ERR_SYS_IO), (KV_ERR_QUEUE_MAX_QUEUE, KVS_ERR_SYS_IO),
     (KV_ERR_QUEUE_QID_INVALID, KVS_ERR_SYS_IO), (KV_ERR_QUEUE_QSIZE_INVALID, KVS_ERR_SYS_IO), (KV_ERR_TIMEOUT, KVS_ERR_SYS_IO),
     (KV_ERR_UNCORRECTIBLE, KVS_ERR_SYS_IO), (KV_ERR_QUEUE_IN_SHUTDOWN, KVS_ERR_SYS_IO), (KV_ERR_QUEUE_IS_FULL, KVS_ERR_SYS_IO),
     (KV_ERR_COMMAND_SUBMITTED, KVS_ERR_SYS_IO), (KV_ERR_TOO_MANY_ITERATORS_OPEN, KVS_ERR_ITERATOR_MAX),
     (KV_ERR_SYS_BUSY, KVS_ERR_SYS_IO), (KV_ERR_COMMAND_INITIALIZED, KVS_ERR_SYS_IO), (KV_ERR_DD_UNSUPPORTED_CMD, KVS_ERR_SYS_IO),
     (KV_ERR_ITERATE_REQUEST_FAIL, KVS_ERR_SYS_IO), (KV_ERR_DD_UNSUPPORTED, KVS_ERR_SYS_IO), (KV_ERR_KEYSPACE_INVALID, KVS_ERR_SYS_IO)]"

definition convert_code :: "int \<Rightarrow> kvs_result" where
  "convert_code n = (case find (\<lambda>(r, k). rc r = n) code_map of None \<Rightarrow> KVS_ERR_SYS_IO | Some (r, k) \<Rightarrow> k)"

datatype kvs_context =
    KVS_CMD_DELETE | KVS_CMD_DELETE_GROUP | KVS_CMD_EXIST | KVS_CMD_ITER_CREATE | KVS_CMD_ITER_DELETE | KVS_CMD_ITER_NEXT
  | KVS_CMD_RETRIEVE | KVS_CMD_STORE

text \<open>The two-argument \<open>convert_return_code\<close>: codes of the drive are read by the command.\<close>

definition convert_status :: "kvs_context \<Rightarrow> int \<Rightarrow> kvs_result" where
  "convert_status opcode n =
     (if n = 0 then KVS_SUCCESS
      else if n < 0 then KVS_ERR_SYS_IO
      else case opcode of
        KVS_CMD_ITER_NEXT \<Rightarrow>
          if n = 0x301 then KVS_ERR_BUFFER_SMALL else if n = 0x390 then KVS_ERR_ITERATOR_NOT_EXIST
          else if n = 0x308 then KVS_ERR_PARAM_INVALID else if n = 0x394 then KVS_ERR_SYS_IO
          else if n = 0x393 then KVS_SUCCESS else convert_code n
      | KVS_CMD_RETRIEVE \<Rightarrow>
          if n = 0x301 then KVS_ERR_VALUE_LENGTH_INVALID else if n = 0x302 then KVS_ERR_VALUE_OFFSET_INVALID
          else if n = 0x303 then KVS_ERR_KEY_LENGTH_INVALID else if n = 0x304 then KVS_ERR_OPTION_INVALID
          else if n = 0x308 then KVS_ERR_PARAM_INVALID else if n = 0x310 then KVS_ERR_KEY_NOT_EXIST else convert_code n
      | KVS_CMD_STORE \<Rightarrow>
          if n = 0x301 then KVS_ERR_VALUE_LENGTH_INVALID else if n = 0x303 then KVS_ERR_KEY_LENGTH_INVALID
          else if n = 0x304 then KVS_ERR_OPTION_INVALID else if n = 0x308 then KVS_ERR_PARAM_INVALID
          else if n = 0x310 then KVS_ERR_KEY_NOT_EXIST else if n = 0x311 then KVS_ERR_SYS_IO
          else if n = 0x312 then KVS_ERR_DEV_CAPAPCITY else if n = 0x380 then KVS_ERR_VALUE_UPDATE_NOT_ALLOWED else convert_code n
      | KVS_CMD_DELETE \<Rightarrow>
          if n = 0x310 then KVS_ERR_KEY_NOT_EXIST else if n = 0x304 then KVS_ERR_OPTION_INVALID else convert_code n
      | KVS_CMD_EXIST \<Rightarrow>
          if n = 0x301 then KVS_ERR_VALUE_LENGTH_INVALID else if n = 0x303 then KVS_ERR_KEY_LENGTH_INVALID
          else if n = 0x305 then KVS_ERR_SYS_IO else if n = 0x310 then KVS_SUCCESS else convert_code n
      | _ \<Rightarrow> KVS_ERR_SYS_IO)"

section \<open>The driver: iteration buffers\<close>

text \<open>
  \<open>reformat_iterbuffer\<close> moves the keys of a buffer of the drive together: the loop over the keys that
  are left, with the buffer, the offsets of \<open>current_ptr\<close> and \<open>data_buff\<close> and \<open>buffdata_len\<close>, which wraps
  around. A read or write outside of the buffer is undefined.
\<close>

primrec reformat_loop :: "nat \<Rightarrow> byte list \<Rightarrow> nat \<Rightarrow> nat \<Rightarrow> u32 \<Rightarrow> (int \<times> byte list \<times> nat) option" where
  "reformat_loop 0 buf cur src left = Some (0, buf, cur)"
| "reformat_loop (Suc n) buf cur src left =
     (if left = 0 then Some (0, buf, cur)
      else if left < 4 then Some (rc KV_ERR_SYS_IO, buf, cur)
      else
        do { require (src + 4 \<le> length buf \<and> cur + 4 \<le> length buf);
             let buf1 = mem_write buf cur (take 4 (drop src buf));
             let key_size = read_u32 (drop src buf1);
             let left1 = left - 4;
             if key_size > left1 \<or> key_size \<ge> 256 then Some (rc KV_ERR_SYS_IO, buf1, cur + 4)
             else
               do { require (src + 4 + unat key_size \<le> length buf \<and> cur + 4 + unat key_size \<le> length buf);
                    let buf2 = mem_write buf1 (cur + 4) (take (unat key_size) (drop (src + 4) buf1));
                    let padded = push_bit 2 (drop_bit 2 (key_size + 3));
                    reformat_loop n buf2 (cur + 4 + unat key_size) (src + 4 + unat padded) (left1 - padded) } })"

definition reformat_iterbuffer :: "kdd_iterator_list \<Rightarrow> byte list \<Rightarrow> (int \<times> kdd_iterator_list \<times> byte list) option" where
  "reformat_iterbuffer l buf =
     (if kl_it_list l = 0 then Some (rc KV_ERR_PARAM_INVALID, l, buf)
      else if kl_size l < 4 then Some (rc KV_ERR_SYS_IO, l\<lparr>kl_num_entries := 0, kl_size := 0\<rparr>, buf)
      else do { (ret, buf', cur) \<leftarrow> reformat_loop (unat (kl_num_entries l)) buf 0 4 (kl_size l - 4);
                Some (ret, l\<lparr>kl_size := word_of_nat cur\<rparr>, buf') })"

section \<open>The driver: contexts and callbacks\<close>

text \<open>
  \<open>KDDriver\<close> with its adapter and with the contexts and the structures of the application at their
  addresses: lists of iterations, and lists of existence checks with their length and the address
  of their result. A context keeps the result of a finished synchronous call; \<open>cx_size\<close> is the size of
  the buffer of an iteration.
\<close>

record kv_kdd_context =
  cx_context :: kvs_context
  cx_value :: u64
  cx_list :: u64
  cx_size :: nat
  cx_on_complete :: u64
  cx_done :: bool
  cx_syncio :: bool
  cx_result :: int

record KDDriver =
  kd_handle :: "nat option"
  kd_nsH :: bool
  kd_sqH :: bool
  kd_cqH :: bool
  kd_queuedepth :: int
  kd_adi :: KADI
  kd_ctxs :: "u64 \<rightharpoonup> kv_kdd_context"
  kd_lists :: "u64 \<rightharpoonup> kdd_iterator_list"
  kd_exists :: "u64 \<rightharpoonup> u32 \<times> u64"

definition prep_io_context :: "kvs_context \<Rightarrow> u64 \<Rightarrow> u64 \<Rightarrow> nat \<Rightarrow> bool \<Rightarrow> u64 \<Rightarrow> kv_kdd_context" where
  "prep_io_context opcode val lst bufsize syncio cbfn =
     \<lparr>cx_context = opcode, cx_value = val, cx_list = lst, cx_size = bufsize, cx_on_complete = cbfn, cx_done = False,
      cx_syncio = syncio, cx_result = 0\<rparr>"

text \<open>What \<open>kdd_on_io_complete\<close> does for its command: the result code and the new state.\<close>

definition kdd_complete_io :: "kv_kdd_context \<Rightarrow> kadi_io_context \<Rightarrow> KDDriver \<Rightarrow> (int \<times> KDDriver) option" where
  "kdd_complete_io ctx io s =
     (let d = kd_adi s in
      case cx_context ctx of
        KVS_CMD_RETRIEVE \<Rightarrow>
          do { w \<leftarrow> p_values d (cx_value ctx);
               v \<leftarrow> p_values d (io_value io);
               let w' = w\<lparr>va_length := va_length v, va_actual_value_size := va_actual_value_size v\<rparr>;
               Some (if va_length w' < va_actual_value_size w' then rc KV_ERR_BUFFER_SMALL else io_retcode io,
                     s\<lparr>kd_adi := d\<lparr>p_values := (p_values d)(cx_value ctx \<mapsto> w')\<rparr>\<rparr>) }
      | KVS_CMD_ITER_NEXT \<Rightarrow>
          if io_retcode io \<noteq> 0 then Some (io_retcode io, s)
          else
            do { l \<leftarrow> kd_lists s (cx_list ctx);
                 iter_end \<leftarrow> io_iter_end io;
                 buf \<leftarrow> io_iter_buf io;
                 buflength \<leftarrow> io_iter_buflength io;
                 let l1 = l\<lparr>kl_end := iter_end, kl_it_list := buf, kl_size := buflength\<rparr>;
                 if buf \<noteq> 0 \<and> buflength > 0 then
                   do { (r, l2, bytes) \<leftarrow> reformat_iterbuffer (l1\<lparr>kl_num_entries := read_u32 (mem_read (p_mem d) buf 4)\<rparr>)
                          (mem_read (p_mem d) buf (cx_size ctx));
                        Some (0, s\<lparr>kd_adi := d\<lparr>p_mem := mem_put (p_mem d) buf bytes\<rparr>, kd_lists := (kd_lists s)(cx_list ctx \<mapsto> l2)\<rparr>) }
                 else Some (0, s\<lparr>kd_lists := (kd_lists s)(cx_list ctx \<mapsto> l1\<lparr>kl_num_entries := 0\<rparr>)\<rparr>) }
      | KVS_CMD_EXIST \<Rightarrow>
          do { (len, result_buffer) \<leftarrow> kd_exists s (cx_list ctx);
               Some (io_retcode io, s\<lparr>kd_adi := d\<lparr>p_mem := (p_mem d)(result_buffer := if io_retcode io = 0x310 then 0 else 1)\<rparr>\<rparr>) }
      | _ \<Rightarrow> Some (io_retcode io, s))"

text \<open>\<open>kdd_on_io_complete\<close>; the result has the call of the callback of the application, if there is one.\<close>

definition kdd_on_io_complete :: "kadi_io_context \<Rightarrow> KDDriver \<Rightarrow> ((u64 \<times> kvs_result) list \<times> KDDriver) option" where
  "kdd_on_io_complete io s =
     do { ctx \<leftarrow> kd_ctxs s (io_private_data io);
          (retcode, s1) \<leftarrow> kdd_complete_io ctx io s;
          if cx_syncio ctx then
            Some ([], s1\<lparr>kd_ctxs := (kd_ctxs s1)(io_private_data io \<mapsto> ctx\<lparr>cx_done := True, cx_result := retcode\<rparr>)\<rparr>)
          else
            Some (if cx_on_complete ctx \<noteq> 0 then [(cx_on_complete ctx, convert_status (cx_context ctx) retcode)] else [],
                  s1\<lparr>kd_ctxs := (kd_ctxs s1)(io_private_data io := None)\<rparr>) }"

fun kdd_callbacks :: "kadi_calls \<Rightarrow> KDDriver \<Rightarrow> ((u64 \<times> kvs_result) list \<times> KDDriver) option" where
  "kdd_callbacks [] s = Some ([], s)"
| "kdd_callbacks ((f, io) # cs) s =
     do { (us, s1) \<leftarrow> kdd_on_io_complete io s; (us', s2) \<leftarrow> kdd_callbacks cs s1; Some (us @ us', s2) }"

text \<open>
  A call: what the system gives to it, and its end. \<open>kc_fn\<close> is the address of \<open>kdd_on_io_complete\<close>, \<open>kc_ctx\<close>
  that of the new context, and \<open>kc_answer\<close> the status, the result and the data with which the drive
  answers a command that the caller waits for.
\<close>

record kdd_call =
  kc_capable :: bool
  kc_refused :: "int option"
  kc_fn :: u64
  kc_ctx :: u64
  kc_answer :: "u16 \<times> u32 \<times> byte list"

definition kdd_finish :: "kdd_call \<Rightarrow> KADI \<Rightarrow> (kadi_calls \<times> KADI) call" where
  "kdd_finish c d =
     (case (kv_inflight (kernel d), kc_answer c) of
        ([], _) \<Rightarrow> Waits
      | (bs, (status, result, bytes)) \<Rightarrow>
          let rq = kb_request (last bs);
              m = mem_put (p_mem d) (rq_ubuffer rq) (take (unat (rq_bufflen rq)) bytes)
          in (case kv_complete_aio (length bs - 1) status result (kernel d) of
                None \<Rightarrow> Undefined
              | Some (False, k) \<Rightarrow> Waits
              | Some (True, k) \<Rightarrow>
                  (case kadi_poll_completion (kc_capable c) False 2048 (d\<lparr>kernel := eventfd_signal (ka_eventfd d) k, p_mem := m\<rparr>) of
                     None \<Rightarrow> Undefined
                   | Some (r, num, calls, d') \<Rightarrow> Returns (calls, d'))))"

text \<open>\<open>wait_for_io\<close>, with the result of the context, which is then deleted.\<close>

definition wait_for_io :: "kdd_call \<Rightarrow> KDDriver \<Rightarrow> (int \<times> KDDriver) call" where
  "wait_for_io c s =
     andThen (kdd_finish c (kd_adi s)) (\<lambda>(calls, d).
       andThen (defined (kdd_callbacks calls (s\<lparr>kd_adi := d\<rparr>))) (\<lambda>(us, s1).
         andThen (defined (kd_ctxs s1 (kc_ctx c))) (\<lambda>ctx.
           if cx_done ctx then Returns (cx_result ctx, s1\<lparr>kd_ctxs := (kd_ctxs s1)(kc_ctx c := None)\<rparr>) else Waits)))"

text \<open>
  The common course of the calls on pairs: the request, repeated while the queue is full, the wait
  of a synchronous call, and the translation of the result.
\<close>

definition kdd_run :: "kdd_call \<Rightarrow> kv_kdd_context \<Rightarrow> ((u64 \<times> u64) option \<Rightarrow> KADI \<Rightarrow> (int \<times> KADI) call) \<Rightarrow> KDDriver \<Rightarrow>
    (kvs_result \<times> KDDriver) call" where
  "kdd_run c ctx request s =
     (let s1 = s\<lparr>kd_ctxs := (kd_ctxs s)(kc_ctx c \<mapsto> ctx)\<rparr> in
      andThen (request (Some (kc_fn c, kc_ctx c)) (kd_adi s1)) (\<lambda>(ret, d).
        let s2 = s1\<lparr>kd_adi := d\<rparr> in
        if ret = rc KV_ERR_QUEUE_IS_FULL then Waits
        else if cx_syncio ctx \<and> ret = 0 then andThen (wait_for_io c s2) (\<lambda>(ret', s3). Returns (convert_status (cx_context ctx) ret', s3))
        else Returns (convert_status (cx_context ctx) ret, if ret \<noteq> 0 then s2\<lparr>kd_ctxs := (kd_ctxs s2)(kc_ctx c := None)\<rparr> else s2)))"

section \<open>The driver: operations\<close>

definition kdd_trans_store_cmd_opt :: "kvs_store_type \<Rightarrow> kv_store_option option" where
  "kdd_trans_store_cmd_opt st_type =
     (case st_type of
        KVS_STORE_POST \<Rightarrow> Some KV_STORE_OPT_DEFAULT
      | KVS_STORE_UPDATE_ONLY \<Rightarrow> Some KV_STORE_OPT_UPDATE_ONLY
      | KVS_STORE_NOOVERWRITE \<Rightarrow> Some KV_STORE_OPT_IDEMPOTENT
      | KVS_STORE_APPEND \<Rightarrow> Some KV_STORE_OPT_APPEND
      | KVS_STORE_OTHER \<Rightarrow> None)"

definition kdd_store_tuple ::
    "kdd_call \<Rightarrow> u8 \<Rightarrow> u64 \<Rightarrow> u64 \<Rightarrow> kvs_store_type \<Rightarrow> bool \<Rightarrow> u64 \<Rightarrow> KDDriver \<Rightarrow> (kvs_result \<times> KDDriver) call" where
  "kdd_store_tuple c ks_id key val option syncio cbfn s =
     (case kdd_trans_store_cmd_opt option of
        None \<Rightarrow> Returns (KVS_ERR_OPTION_INVALID, s)
      | Some option_adi \<Rightarrow>
          kdd_run c (prep_io_context KVS_CMD_STORE val 0 0 syncio cbfn)
            (kd_kv_store (kc_capable c) (kc_refused c) (kd_sqH s) (kd_nsH s) ks_id key val option_adi) s)"

definition kdd_retrieve_tuple ::
    "kdd_call \<Rightarrow> u8 \<Rightarrow> u64 \<Rightarrow> u64 \<Rightarrow> bool \<Rightarrow> bool \<Rightarrow> u64 \<Rightarrow> KDDriver \<Rightarrow> (kvs_result \<times> KDDriver) call" where
  "kdd_retrieve_tuple c ks_id key val retrieve_delete syncio cbfn s =
     kdd_run c (prep_io_context KVS_CMD_RETRIEVE val 0 0 syncio cbfn)
       (kd_kv_retrieve (kc_capable c) (kc_refused c) (kd_sqH s) (kd_nsH s) ks_id key
          (if \<not> retrieve_delete then KV_RETRIEVE_OPT_DEFAULT else KV_RETRIEVE_OPT_DELETE) val) s"

definition kdd_delete_tuple ::
    "kdd_call \<Rightarrow> u8 \<Rightarrow> u64 \<Rightarrow> bool \<Rightarrow> bool \<Rightarrow> u64 \<Rightarrow> KDDriver \<Rightarrow> (kvs_result \<times> KDDriver) call" where
  "kdd_delete_tuple c ks_id key delete_error syncio cbfn s =
     kdd_run c (prep_io_context KVS_CMD_DELETE 0 0 0 syncio cbfn)
       (kd_kv_delete (kc_capable c) (kc_refused c) (kd_sqH s) (kd_nsH s) ks_id key
          (if \<not> delete_error then KV_DELETE_OPT_DEFAULT else KV_DELETE_OPT_ERROR)) s"

definition kdd_exist_tuple ::
    "kdd_call \<Rightarrow> u8 \<Rightarrow> u32 \<Rightarrow> u64 \<Rightarrow> u64 \<Rightarrow> bool \<Rightarrow> u64 \<Rightarrow> KDDriver \<Rightarrow> (kvs_result \<times> KDDriver) call" where
  "kdd_exist_tuple c ks_id key_cnt keys lst syncio cbfn s =
     (if key_cnt > 1 then Returns (convert_code (rc KV_ERR_PARAM_INVALID), s)
      else andThen (defined (kd_exists s lst)) (\<lambda>(len, result_buffer).
        kdd_run c (prep_io_context KVS_CMD_EXIST 0 lst 0 syncio cbfn)
          (kd_kv_exist (kc_capable c) (kc_refused c) (Refused 0) (kd_sqH s) (kd_nsH s) ks_id keys key_cnt len result_buffer) s))"

text \<open>
  \<open>check_opened_iterators\<close>: the loop over the entries with the count of open ones. The log page of the
  drive, with the code of its command, is an argument. The result has the handle of an open
  iterator with the same filter.
\<close>

fun opened_loop :: "kv_iterator list \<Rightarrow> u32 \<Rightarrow> u32 \<Rightarrow> nat \<Rightarrow> u8 \<Rightarrow> kvs_result \<times> u8" where
  "opened_loop [] bitmask bit_pattern cnt iter_hd =
     (if cnt = SAMSUNG_MAX_ITERATORS then KVS_ERR_ITERATOR_MAX else KVS_SUCCESS, iter_hd)"
| "opened_loop (i # is) bitmask bit_pattern cnt iter_hd =
     (if it_status i = 1 then
        if it_prefix i = bit_pattern \<and> it_bitmask i = bitmask then (KVS_ERR_ITERATOR_OPEN, it_handle_id i)
        else opened_loop is bitmask bit_pattern (Suc cnt) iter_hd
      else opened_loop is bitmask bit_pattern cnt iter_hd)"

definition check_opened_iterators :: "int \<times> byte list \<Rightarrow> u32 \<Rightarrow> u32 \<Rightarrow> u8 \<Rightarrow> KDDriver \<Rightarrow> kvs_result \<times> u8" where
  "check_opened_iterators page bitmask bit_pattern iter_hd s =
     (case kd_list_iterators_sync (fst page) (snd page) (kd_sqH s) (kd_nsH s) 16 of (res, iters, count) \<Rightarrow>
        if res \<noteq> 0 then (convert_code res, iter_hd)
        else opened_loop (take (unat count) iters) bitmask bit_pattern 0 iter_hd)"

definition kdd_create_iterator ::
    "bool \<Rightarrow> int \<times> byte list \<Rightarrow> kv_outcome \<Rightarrow> u8 \<Rightarrow> kvs_iterator_type \<Rightarrow> u32 \<Rightarrow> u32 \<Rightarrow> u8 \<Rightarrow> KDDriver \<Rightarrow> kvs_result \<times> u8 \<times> KDDriver" where
  "kdd_create_iterator capable page out ks_id iter_type bitmask bit_pattern iter_hd s =
     (case check_opened_iterators page bitmask bit_pattern iter_hd s of (ret, hd1) \<Rightarrow>
        if ret \<noteq> KVS_SUCCESS then (ret, hd1, s)
        else
          case (case iter_type of KVS_ITERATOR_KEY \<Rightarrow> Some KV_ITERATOR_OPT_KEY
                  | KVS_ITERATOR_KEY_VALUE \<Rightarrow> Some KV_ITERATOR_OPT_KV | KVS_ITERATOR_OTHER \<Rightarrow> None) of
            None \<Rightarrow> (KVS_ERR_OPTION_INVALID, hd1, s)
          | Some option_adi \<Rightarrow>
              (case kd_open_iterator_sync capable out ks_id option_adi \<lparr>gc_bitmask = bitmask, gc_bit_pattern = bit_pattern\<rparr> hd1 (kd_adi s) of
                 (r, hd2, d) \<Rightarrow> (convert_code r, hd2, s\<lparr>kd_adi := d\<rparr>)))"

definition kdd_delete_iterator :: "bool \<Rightarrow> kv_outcome \<Rightarrow> u8 \<Rightarrow> KDDriver \<Rightarrow> kvs_result \<times> KDDriver" where
  "kdd_delete_iterator capable out hiter s =
     (case kd_close_iterator_sync capable out (kd_sqH s) (kd_nsH s) hiter (kd_adi s) of (r, d) \<Rightarrow> (convert_code r, s\<lparr>kd_adi := d\<rparr>))"

text \<open>
  \<open>iterator_next\<close>. The synchronous one reformats whatever the read returned. The buffer of the
  application has the size it passed in.
\<close>

definition kdd_iterator_next_sync :: "bool \<Rightarrow> kv_outcome \<Rightarrow> u8 \<Rightarrow> u64 \<Rightarrow> KDDriver \<Rightarrow> (kvs_result \<times> KDDriver) option" where
  "kdd_iterator_next_sync capable out hiter lst s =
     do { l \<leftarrow> kd_lists s lst;
          case kd_iterator_next_sync capable out (kd_sqH s) (kd_nsH s) hiter l (kd_adi s) of (ret, l1, d1) \<Rightarrow>
            do { (r, l2, bytes) \<leftarrow> reformat_iterbuffer l1 (mem_read (p_mem d1) (kl_it_list l) (unat (kl_size l)));
                 Some (convert_code ret, s\<lparr>kd_adi := d1\<lparr>p_mem := mem_put (p_mem d1) (kl_it_list l) bytes\<rparr>,
                   kd_lists := (kd_lists s)(lst \<mapsto> l2)\<rparr>) } }"

definition kdd_iterator_next_async :: "kdd_call \<Rightarrow> u8 \<Rightarrow> u64 \<Rightarrow> u64 \<Rightarrow> KDDriver \<Rightarrow> (kvs_result \<times> KDDriver) call" where
  "kdd_iterator_next_async c hiter lst cbfn s =
     andThen (defined (kd_lists s lst)) (\<lambda>l.
       let s1 = s\<lparr>kd_ctxs := (kd_ctxs s)(kc_ctx c \<mapsto> prep_io_context KVS_CMD_ITER_NEXT 0 lst (unat (kl_size l)) False cbfn)\<rparr> in
       andThen (kd_iterator_next (kc_capable c) (kc_refused c) (kd_sqH s) (kd_nsH s) hiter l (Some (kc_fn c, kc_ctx c)) (kd_adi s1))
         (\<lambda>(ret, d). let s2 = s1\<lparr>kd_adi := d\<rparr> in
           Returns (convert_status KVS_CMD_ITER_NEXT ret,
             if ret \<noteq> rc KV_SUCCESS then s2\<lparr>kd_ctxs := (kd_ctxs s2)(kc_ctx c := None)\<rparr> else s2)))"

text \<open>\<open>init\<close> and the destructor; the thread of the adapter runs unless the driver polls.\<close>

definition KDDriver_init :: "kd_open_env \<Rightarrow> int \<Rightarrow> bool \<Rightarrow> KDDriver \<Rightarrow> nat set \<Rightarrow> (kvs_result \<times> KDDriver \<times> nat set) option" where
  "KDDriver_init env queue_depth is_polling s devs =
     do { (ret, h, d, devs1) \<leftarrow> kd_initialize_device env queue_depth (Some None) (kd_adi s) devs;
          let s1 = s\<lparr>kd_handle := map_option fst h, kd_adi := d\<rparr>;
          if ret \<noteq> KV_SUCCESS then Some (convert_code (rc ret), s1, devs1)
          else Some (convert_code (rc KV_SUCCESS),
                 s1\<lparr>kd_nsH := True, kd_queuedepth := queue_depth, kd_cqH := True, kd_sqH := True,
                    kd_adi := if \<not> is_polling then start_cbthread d else d\<rparr>, devs1) }"

definition KDDriver_delete :: "KDDriver \<Rightarrow> nat set \<Rightarrow> (KDDriver \<times> nat set) option" where
  "KDDriver_delete s devs =
     do { (r, d, devs1) \<leftarrow> kd_cleanup_device (map_option (\<lambda>a. (a, kd_adi s)) (kd_handle s)) devs;
          Some (s\<lparr>kd_handle := None, kd_nsH := False, kd_sqH := False, kd_cqH := False,
            kd_adi := (case d of None \<Rightarrow> kd_adi s | Some d' \<Rightarrow> d')\<rparr>, devs1) }"

text \<open>The handle \<open>devH\<close> of the driver, null before \<open>init\<close> and after a failed one.\<close>

definition kdd_devH :: "KDDriver \<Rightarrow> KADI option option" where
  "kdd_devH s = map_option (\<lambda>_. Some (kd_adi s)) (kd_handle s)"

definition kdd_get_used_size ::
    "(u64 \<Rightarrow> u64 \<Rightarrow> u16) \<Rightarrow> int \<times> byte list \<Rightarrow> u32 \<Rightarrow> KDDriver \<Rightarrow> (kvs_result \<times> u32) option" where
  "kdd_get_used_size util page dev_util s =
     do { (ret, stat) \<leftarrow> kd_get_device_stat util page True (kdd_devH s);
          Some (convert_code (rc ret), case stat of None \<Rightarrow> dev_util | Some u \<Rightarrow> ucast u) }"

definition kdd_get_total_size :: "u64 \<Rightarrow> KDDriver \<Rightarrow> kvs_result \<times> u64" where
  "kdd_get_total_size dev_capa s =
     (case kd_get_device_info True (kdd_devH s) of
        (ret, Some i) \<Rightarrow> (convert_code (rc ret), if ret \<noteq> KV_SUCCESS then dev_capa else kdi_capacity i)
      | (ret, None) \<Rightarrow> (convert_code (rc ret), dev_capa))"

definition kdd_process_completions :: "bool \<Rightarrow> bool \<Rightarrow> KDDriver \<Rightarrow> (u32 \<times> (u64 \<times> kvs_result) list \<times> KDDriver) option" where
  "kdd_process_completions capable interrupted s =
     do { (ret, processed, calls, d) \<leftarrow> kd_poll_completion capable interrupted (kd_cqH s) 0 (kd_adi s);
          (us, s1) \<leftarrow> kdd_callbacks calls (s\<lparr>kd_adi := d\<rparr>);
          Some (processed, us, s1) }"

end
