(* ===== verification/Kv_Kadi_Threads.thy ===== *)
theory Kv_Kadi_Threads
  imports Kv_Kadi "HOL-Library.Multiset"
begin

text \<open>
  The kernel driver adapter at work: threads of the application that issue requests, the drive and
  the kernel that complete them, and threads that poll for completions, in any interleaving. The
  steps are the operations of \<open>Kv_Kadi\<close> and \<open>Kv_Nvme\<close>; \<open>kadi_poll_completion\<close> is cut at the calls of the
  kernel and after each event, so several threads may be inside of it. A request of the application
  is one step: between the lock of \<open>get_cmd_ctx\<close> and the \<open>ioctl\<close> the context belongs to its thread.

  The adapter is the only user of its kernel context. The contexts, the events and the counter are
  accounted for in every reachable state, so that no event is lost, none is delivered twice, and no
  poll touches a context that is not there.
\<close>

section \<open>The system\<close>

datatype kadi_request =
    Store u8 u64 u64 u32 "(u64 \<times> u64) option"
  | Retrieve u8 u64 u64 "(u64 \<times> u64) option"
  | Delete u8 u64 u32 "(u64 \<times> u64) option"
  | Exist u8 u64 "(u64 \<times> u64) option"
  | IterRead kv_iter_context "(u64 \<times> u64) option"

definition kadi_request_call ::
    "bool \<Rightarrow> int option \<Rightarrow> kv_outcome \<Rightarrow> kadi_request \<Rightarrow> KADI \<Rightarrow> (int \<times> KADI) call" where
  "kadi_request_call capable refused out req d =
     (case req of
        Store ks key val opt cb \<Rightarrow> kadi_kv_store capable refused ks key val opt cb d
      | Retrieve ks key val cb \<Rightarrow> kadi_kv_retrieve capable refused ks key val cb d
      | Delete ks key opt cb \<Rightarrow> kadi_kv_delete capable refused ks key opt cb d
      | Exist ks key cb \<Rightarrow> andThen (kadi_exist capable refused out ks key cb d) (\<lambda>(b, d'). Returns (of_bool b, d'))
      | IterRead ctx cb \<Rightarrow> iter_read_async capable refused ctx cb d)"

text \<open>
  A thread inside of \<open>kadi_poll_completion\<close> is at the head of the outer loop, with the count it read, or
  in the inner loop, with the events that are left.
\<close>

datatype poller = Idle | Loop u64 | Events u64 "nvme_aioevent list"

text \<open>
  \<open>unsignalled\<close> counts the events that are in the list of the kernel context and not yet in the
  event counter. \<open>submitted\<close> and \<open>delivered\<close> record the contexts of the requests the kernel accepted,
  and those of the events that were processed; \<open>calls\<close> has the callbacks that were made.
\<close>

record kadi_sys =
  obj :: KADI
  pollers :: "poller list"
  unsignalled :: nat
  submitted :: "aio_cmd_ctx list"
  delivered :: "(aio_cmd_ctx \<times> nvme_aioevent) list"
  calls :: kadi_calls

definition ctx_of :: "KADI \<Rightarrow> u32 \<Rightarrow> aio_cmd_ctx" where
  "ctx_of d i = the (ka_ctxs d (the (pending_cmdctxs d i)))"

abbreviation reqid :: "nvme_aioevent \<Rightarrow> u32" where
  "reqid e \<equiv> ucast (ev_reqid e)"

text \<open>The contexts of the commands a call added to those under way.\<close>

definition accepted :: "KADI \<Rightarrow> KADI \<Rightarrow> aio_cmd_ctx list" where
  "accepted d d' = map (\<lambda>b. ctx_of d' (reqid (kb_event b))) (drop (length (kv_inflight (kernel d))) (kv_inflight (kernel d')))"

text \<open>The steps of the drive, of the kernel and of the polling threads, and those of the application.\<close>

inductive kadi_sys_step :: "bool \<Rightarrow> kadi_sys \<Rightarrow> kadi_sys \<Rightarrow> bool" for capable :: bool where
  drive: "kv_complete_aio i status result (kernel (obj s)) = Some (queued, k) \<Longrightarrow>
    kadi_sys_step capable s (s\<lparr>obj := (obj s)\<lparr>kernel := k, p_mem := m\<rparr>, unsignalled := unsignalled s + of_bool queued\<rparr>)"
| signal: "unsignalled s > 0 \<Longrightarrow>
    kadi_sys_step capable s (s\<lparr>obj := (obj s)\<lparr>kernel := eventfd_signal (ka_eventfd (obj s)) (kernel (obj s))\<rparr>,
      unsignalled := unsignalled s - 1\<rparr>)"
| poll_read: "j < length (pollers s) \<Longrightarrow> pollers s ! j = Idle \<Longrightarrow>
    n = eventfd_count (kernel (obj s)) (ka_eventfd (obj s)) \<Longrightarrow> n \<noteq> 0 \<Longrightarrow>
    kadi_sys_step capable s (s\<lparr>obj := (obj s)\<lparr>kernel := (kernel (obj s))
        \<lparr>eventfd_count := (eventfd_count (kernel (obj s)))(ka_eventfd (obj s) := 0)\<rparr>\<rparr>,
      pollers := (pollers s)[j := Loop n]\<rparr>)"
| poll_get: "j < length (pollers s) \<Longrightarrow> pollers s ! j = Loop n \<Longrightarrow> n \<noteq> 0 \<Longrightarrow>
    nvme_get_ioevents capable (word_of_int (check_nr n (obj s))) (ka_ctxid (obj s)) (kernel (obj s)) = Some (ret, es, k) \<Longrightarrow>
    kadi_sys_step capable s (s\<lparr>obj := (obj s)\<lparr>kernel := k\<rparr>,
      pollers := (pollers s)[j := if ret < 0 then Idle else Events (n - word_of_int (check_nr n (obj s))) es]\<rparr>)"
| poll_one: "j < length (pollers s) \<Longrightarrow> pollers s ! j = Events n (e # es) \<Longrightarrow> poll_event e (obj s) = Some (cs, d') \<Longrightarrow>
    kadi_sys_step capable s (s\<lparr>obj := d', pollers := (pollers s)[j := Events n es],
      delivered := delivered s @ [(ctx_of (obj s) (reqid e), e)], calls := calls s @ cs\<rparr>)"
| poll_next: "j < length (pollers s) \<Longrightarrow> pollers s ! j = Events n [] \<Longrightarrow>
    kadi_sys_step capable s (s\<lparr>pollers := (pollers s)[j := Loop n]\<rparr>)"
| poll_done: "j < length (pollers s) \<Longrightarrow> pollers s ! j = Loop 0 \<Longrightarrow>
    kadi_sys_step capable s (s\<lparr>pollers := (pollers s)[j := Idle]\<rparr>)"

inductive kadi_step :: "bool \<Rightarrow> kadi_sys \<Rightarrow> kadi_sys \<Rightarrow> bool" for capable :: bool where
  request: "kadi_request_call capable refused out req (obj s) = Returns (r, d') \<Longrightarrow>
    (\<And>e. refused = Some e \<Longrightarrow> e < 0) \<Longrightarrow>
    kadi_step capable s (s\<lparr>obj := d', submitted := submitted s @ accepted (obj s) d'\<rparr>)"
| memory: "dom (p_values (obj s)) \<subseteq> dom vals \<Longrightarrow>
    kadi_step capable s (s\<lparr>obj := (obj s)\<lparr>p_mem := m, p_keys := keys, p_values := vals\<rparr>\<rparr>)"
| system: "kadi_sys_step capable s s' \<Longrightarrow> kadi_step capable s s'"

text \<open>An adapter that was opened, before its first request.\<close>

definition kadi_opened :: "KADI \<Rightarrow> bool" where
  "kadi_opened d \<longleftrightarrow>
     (\<exists>capable valid fd nsid efd ptrs d0.
        kadi_open capable valid fd nsid efd ptrs d0 = Some (0, d) \<and> length ptrs = nat (ka_qdepth d0) \<and> distinct ptrs \<and>
        0 < ka_qdepth d0 \<and> ka_qdepth d0 < 2 ^ 31 \<and> free_cmdctxs d0 = [] \<and> pending_cmdctxs d0 = Map.empty \<and>
        ka_ctxs d0 = Map.empty \<and> 0 \<le> efd \<and> length (g_kaioctx_tb (kernel d0)) = AIOCTX_MAX \<and>
        unat (aio_context_id (kernel d0)) < AIOCTX_MAX \<and> kv_inflight (kernel d0) = [] \<and>
        eventfd_count (kernel d0) (word_of_int efd) = 0)"

definition kadi_start :: "nat \<Rightarrow> KADI \<Rightarrow> kadi_sys" where
  "kadi_start n d = \<lparr>obj = d, pollers = replicate n Idle, unsignalled = 0, submitted = [], delivered = [], calls = []\<rparr>"

inductive kadi_reach :: "bool \<Rightarrow> nat \<Rightarrow> kadi_sys \<Rightarrow> bool" for capable :: bool and n :: nat where
  start: "kadi_opened d \<Longrightarrow> kadi_reach capable n (kadi_start n d)"
| step: "kadi_reach capable n s \<Longrightarrow> kadi_step capable s s' \<Longrightarrow> kadi_reach capable n s'"

section \<open>The invariant\<close>

text \<open>The contexts: each is either free or pending under its index, which no other has.\<close>

definition pool_ok :: "(nat \<rightharpoonup> u32) \<Rightarrow> nat list \<Rightarrow> (u32 \<rightharpoonup> nat) \<Rightarrow> int \<Rightarrow> bool" where
  "pool_ok I F P q \<longleftrightarrow>
     finite (dom I) \<and> card (dom I) = nat q \<and> 0 < q \<and> q < 2 ^ 31 \<and> distinct F \<and>
     (\<forall>p i. I p = Some i \<longrightarrow> p \<in> set F \<or> P i = Some p) \<and>
     (\<forall>p \<in> set F. \<exists>i. I p = Some i \<and> P i = None) \<and>
     (\<forall>i p. P i = Some p \<longrightarrow> I p = Some i) \<and>
     (\<forall>p q i. I p = Some i \<longrightarrow> I q = Some i \<longrightarrow> p = q)"

definition ctx_index :: "KADI \<Rightarrow> nat \<rightharpoonup> u32" where
  "ctx_index d p = map_option ac_index (ka_ctxs d p)"

definition ctxs_ok :: "KADI \<Rightarrow> bool" where
  "ctxs_ok d \<longleftrightarrow> pool_ok (ctx_index d) (free_cmdctxs d) (pending_cmdctxs d) (ka_qdepth d)"

text \<open>A pending retrieve has its value structure.\<close>

definition values_ok :: "KADI \<Rightarrow> bool" where
  "values_ok d \<longleftrightarrow>
     (\<forall>i p c. pending_cmdctxs d i = Some p \<longrightarrow> ka_ctxs d p = Some c \<longrightarrow> pc_opcode (ac_cmd c) = nvme_cmd_kv_retrieve \<longrightarrow>
        ac_value c = 0 \<or> p_values d (ac_value c) \<noteq> None)"

definition completed :: "KADI \<Rightarrow> nvme_aioevent list" where
  "completed d = (case g_kaioctx_tb (kernel d) ! unat (ka_ctxid d) of None \<Rightarrow> [] | Some x \<Rightarrow> kaiocb_list x)"

definition poller_events :: "poller \<Rightarrow> nvme_aioevent list" where
  "poller_events p = (case p of Events n es \<Rightarrow> es | _ \<Rightarrow> [])"

definition poller_count :: "poller \<Rightarrow> nat" where
  "poller_count p = (case p of Idle \<Rightarrow> 0 | Loop n \<Rightarrow> unat n | Events n es \<Rightarrow> unat n)"

text \<open>The events of the commands under way: at the drive, in the kernel, in a poll.\<close>

definition under :: "kadi_sys \<Rightarrow> nvme_aioevent list" where
  "under s = map kb_event (kv_inflight (kernel (obj s))) @ completed (obj s) @ concat (map poller_events (pollers s))"

text \<open>The context of the adapter in the kernel.\<close>

definition kernel_ok :: "KADI \<Rightarrow> bool" where
  "kernel_ok d \<longleftrightarrow>
     length (g_kaioctx_tb (kernel d)) = AIOCTX_MAX \<and> unat (ka_ctxid d) < AIOCTX_MAX \<and>
     (\<exists>x. g_kaioctx_tb (kernel d) ! unat (ka_ctxid d) = Some x \<and> kx_eventfd x = ka_eventfd d) \<and>
     (\<forall>b \<in> set (kv_inflight (kernel d)). ev_ctxid (kb_event b) = ka_ctxid d)"

text \<open>What the callback gets for an event.\<close>

definition io_result :: "aio_cmd_ctx \<Rightarrow> nvme_aioevent \<Rightarrow> kadi_io_context" where
  "io_result c e = fst (the (fill_ioresult c e (\<lambda>_. Some \<lparr>va_value = 0, va_length = 0, va_actual_value_size = 0, va_offset = 0\<rparr>)))"

definition kadi_inv :: "bool \<Rightarrow> kadi_sys \<Rightarrow> bool" where
  "kadi_inv capable s \<longleftrightarrow>
     ctxs_ok (obj s) \<and> values_ok (obj s) \<and> kernel_ok (obj s) \<and>
     distinct (map reqid (under s)) \<and> dom (pending_cmdctxs (obj s)) = set (map reqid (under s)) \<and>
     (\<not> capable \<longrightarrow> under s = []) \<and>
     length (completed (obj s)) = unat (eventfd_count (kernel (obj s)) (ka_eventfd (obj s))) + unsignalled s
       + sum_list (map poller_count (pollers s)) \<and>
     mset (submitted s) = mset (map fst (delivered s)) + mset (map (ctx_of (obj s) \<circ> reqid) (under s)) \<and>
     calls s = concat (map (\<lambda>(c, e). call_post_fn c (io_result c e)) (delivered s))"

section \<open>Requests\<close>

lemma user_kv_cmd_error: "nvme_user_kv_cmd capable cmd = Inl (e, cmd') \<Longrightarrow> e < 0"
  by (auto simp: nvme_user_kv_cmd_def Let_def split: if_splits)

lemma user_kv_cmd_capable: "nvme_user_kv_cmd capable cmd = Inr rq \<Longrightarrow> capable"
  by (auto simp: nvme_user_kv_cmd_def Let_def split: if_splits)

lemma pool_okD:
  assumes "pool_ok I F P q"
  shows "finite (dom I)" and "card (dom I) = nat q" and "0 < q" and "q < 2 ^ 31" and "distinct F"
    and "\<And>p i. I p = Some i \<Longrightarrow> p \<in> set F \<or> P i = Some p"
    and "\<And>p. p \<in> set F \<Longrightarrow> \<exists>i. I p = Some i \<and> P i = None"
    and "\<And>i p. P i = Some p \<Longrightarrow> I p = Some i"
    and "\<And>p q i. I p = Some i \<Longrightarrow> I q = Some i \<Longrightarrow> p = q"
  using assms unfolding pool_ok_def by blast+

lemma pool_not_free: "pool_ok I F P q \<Longrightarrow> P i = Some p \<Longrightarrow> p \<notin> set F"
  using pool_okD(7,8) by fastforce

lemma last_not_butlast: "distinct F \<Longrightarrow> F \<noteq> [] \<Longrightarrow> last F \<notin> set (butlast F)"
  by (metis append_butlast_last_id distinct_butlast not_distinct_conv_prefix)

lemma pool_take:
  assumes "pool_ok I F P q" and "F \<noteq> []" and "p = last F" and "I p = Some i"
  shows "pool_ok I (butlast F) (P(i \<mapsto> p)) q"
proof -
  note D = pool_okD [OF assms(1)]
  have split: "set F = insert p (set (butlast F))"
    using assms(2,3) by (metis append_butlast_last_id list.simps(15) rotate1.simps(2) set_rotate1)
  have p: "p \<notin> set (butlast F)" using last_not_butlast [OF D(5) assms(2)] assms(3) by simp
  show ?thesis
    unfolding pool_ok_def
  proof (intro conjI allI impI ballI)
    fix x assume "x \<in> set (butlast F)"
    then obtain j where "I x = Some j" "P j = None" using D(7) split by blast
    moreover have "j \<noteq> i" using D(9) assms(4) calculation(1) p \<open>x \<in> set (butlast F)\<close> by blast
    ultimately show "\<exists>j. I x = Some j \<and> (P(i \<mapsto> p)) j = None" by auto
  next
    fix x j assume "I x = Some j"
    then show "x \<in> set (butlast F) \<or> (P(i \<mapsto> p)) j = Some x"
      using D(6) [of x j] D(9) [of x j p] assms(4) split by (cases "j = i") auto
  qed (use D split p assms(4) in \<open>auto simp: distinct_butlast split: if_splits\<close>)
qed

lemma pool_give:
  assumes "pool_ok I F P q" and "P i = Some p"
  shows "pool_ok I (F @ [p]) (P(i := None)) q"
proof -
  note D = pool_okD [OF assms(1)]
  show ?thesis
    unfolding pool_ok_def
  proof (intro conjI allI impI ballI)
    show "distinct (F @ [p])" using D(5) pool_not_free [OF assms] by simp
    fix x j assume "I x = Some j"
    then show "x \<in> set (F @ [p]) \<or> (P(i := None)) j = Some x"
      using D(6) [of x j] assms(2) by (cases "j = i") auto
  next
    fix x assume "x \<in> set (F @ [p])"
    then show "\<exists>j. I x = Some j \<and> (P(i := None)) j = None"
      using D(7) [of x] D(8) [OF assms(2)] by auto
  qed (use D assms(2) in \<open>auto split: if_splits\<close>)
qed

lemma get_cmd_ctx_outcome:
  assumes "get_cmd_ctx cb d = Returns (p, d1)" and "ctxs_ok d"
  obtains c c1 where "free_cmdctxs d \<noteq> []" and "p = last (free_cmdctxs d)" and "ka_ctxs d p = Some c"
    and "ac_index c1 = ac_index c" and "pending_cmdctxs d (ac_index c) = None"
    and "d1 = d\<lparr>free_cmdctxs := butlast (free_cmdctxs d), pending_cmdctxs := (pending_cmdctxs d)(ac_index c \<mapsto> p),
      ka_ctxs := (ka_ctxs d)(p \<mapsto> c1)\<rparr>"
proof -
  have ne: "free_cmdctxs d \<noteq> []" using assms(1) by (auto simp: get_cmd_ctx_def)
  then have "last (free_cmdctxs d) \<in> set (free_cmdctxs d)" by simp
  then obtain c where c: "ka_ctxs d (last (free_cmdctxs d)) = Some c" "pending_cmdctxs d (ac_index c) = None"
    using pool_okD(7) [OF assms(2) [unfolded ctxs_ok_def]] by (fastforce simp: ctx_index_def)
  define c1 where "c1 = (case cb of Some (post_fn, private_data) \<Rightarrow> c\<lparr>ac_post_fn := post_fn, ac_post_data := private_data\<rparr>
    | None \<Rightarrow> c\<lparr>ac_post_fn := 0, ac_post_data := 0\<rparr>)"
  have "ac_index c1 = ac_index c" by (auto simp: c1_def split: option.split)
  moreover have "p = last (free_cmdctxs d)" and "d1 = d\<lparr>free_cmdctxs := butlast (free_cmdctxs d), pending_cmdctxs := (pending_cmdctxs d)(ac_index c \<mapsto> p),
      ka_ctxs := (ka_ctxs d)(p \<mapsto> c1)\<rparr>"
    using assms(1) ne c by (auto simp: get_cmd_ctx_def Let_def c1_def)
  ultimately show thesis using that ne c by metis
qed

text \<open>
  A request leaves everything as it was, gives its context back, or is under way with it.
\<close>

definition unchanged :: "KADI \<Rightarrow> KADI \<Rightarrow> bool" where
  "unchanged d d' \<longleftrightarrow> d' = d \<or>
     (\<exists>p c c' m. free_cmdctxs d \<noteq> [] \<and> p = last (free_cmdctxs d) \<and> ka_ctxs d p = Some c \<and> ac_index c' = ac_index c \<and>
        d' = d\<lparr>ka_ctxs := (ka_ctxs d)(p \<mapsto> c'), p_mem := m\<rparr>)"

definition sent :: "bool \<Rightarrow> KADI \<Rightarrow> KADI \<Rightarrow> bool" where
  "sent capable d d' \<longleftrightarrow> capable \<and>
     (\<exists>p c c' b. free_cmdctxs d \<noteq> [] \<and> p = last (free_cmdctxs d) \<and> ka_ctxs d p = Some c \<and> ac_index c' = ac_index c \<and>
        pending_cmdctxs d (ac_index c) = None \<and>
        d' = d\<lparr>free_cmdctxs := butlast (free_cmdctxs d), pending_cmdctxs := (pending_cmdctxs d)(ac_index c \<mapsto> p),
      ka_ctxs := (ka_ctxs d)(p \<mapsto> c'),
          kernel := (kernel d)\<lparr>kv_inflight := kv_inflight (kernel d) @ [b]\<rparr>\<rparr> \<and>
        kb_event b = \<lparr>ev_reqid = ucast (ac_index c), ev_ctxid = ka_ctxid d, ev_result = 0, ev_status = 0\<rparr> \<and>
        (pc_opcode (ac_cmd c') = nvme_cmd_kv_retrieve \<longrightarrow> p_values d (ac_value c') \<noteq> None))"

lemma back_unchanged:
  assumes "free_cmdctxs d \<noteq> []" and "p = last (free_cmdctxs d)" and "ka_ctxs d p = Some c" and "ac_index c' = ac_index c"
    and "pending_cmdctxs d (ac_index c) = None"
    and "release_cmd_ctx p (d\<lparr>free_cmdctxs := butlast (free_cmdctxs d), pending_cmdctxs := (pending_cmdctxs d)(ac_index c \<mapsto> p),
      ka_ctxs := (ka_ctxs d)(p \<mapsto> c'), p_mem := m\<rparr>) = Some d'"
  shows "unchanged d d'"
proof -
  have "d' = d\<lparr>ka_ctxs := (ka_ctxs d)(p \<mapsto> c'), p_mem := m\<rparr>"
    using assms by (simp add: release_cmd_ctx_def fun_upd_idem append_butlast_last_id)
  then show ?thesis unfolding unchanged_def using assms(1-4) by blast
qed

lemma issue_outcome:
  assumes "get_cmd_ctx cb d = Returns (p, d1)" and "ctxs_ok d"
    and "kadi_issue capable refused p f cmd d1 = Returns (r, d')"
    and "\<And>e. refused = Some e \<Longrightarrow> e < 0" and "\<And>c. ac_index (f c) = ac_index c"
    and "\<And>c. pc_opcode cmd = nvme_cmd_kv_retrieve \<Longrightarrow> p_values d (ac_value (f c)) \<noteq> None"
  shows "unchanged d d' \<or> sent capable d d'"
proof -
  obtain c c1 where ctx: "free_cmdctxs d \<noteq> []" "p = last (free_cmdctxs d)" "ka_ctxs d p = Some c"
      "ac_index c1 = ac_index c" "pending_cmdctxs d (ac_index c) = None"
      "d1 = d\<lparr>free_cmdctxs := butlast (free_cmdctxs d), pending_cmdctxs := (pending_cmdctxs d)(ac_index c \<mapsto> p),
      ka_ctxs := (ka_ctxs d)(p \<mapsto> c1)\<rparr>"
    by (rule get_cmd_ctx_outcome [OF assms(1,2)]) blast
  define cmd' where "cmd' = cmd\<lparr>pc_ctxid := ka_ctxid d, pc_reqid := ucast (ac_index c)\<rparr>"
  define c' where "c' = (f c1)\<lparr>ac_cmd := cmd'\<rparr>"
  have c': "ac_index c' = ac_index c" by (simp add: c'_def assms(5) ctx(4))
  have opc: "pc_opcode (ac_cmd c') = pc_opcode cmd" "ac_value c' = ac_value (f c1)" by (simp_all add: c'_def cmd'_def)
  define d2 where "d2 = d\<lparr>free_cmdctxs := butlast (free_cmdctxs d), pending_cmdctxs := (pending_cmdctxs d)(ac_index c \<mapsto> p),
      ka_ctxs := (ka_ctxs d)(p \<mapsto> c')\<rparr>"
  have run: "(case nvme_submit_aio capable refused cmd' (kernel d) of (ret, k) \<Rightarrow>
      if ret < 0 then andThen (defined (release_cmd_ctx p (d2\<lparr>kernel := k\<rparr>))) (\<lambda>d2. Returns (rc KV_ERR_SYS_IO, d2))
      else Returns (0, d2\<lparr>kernel := k\<rparr>)) = Returns (r, d')"
    unfolding d2_def c'_def cmd'_def using assms(3) by (simp add: kadi_issue_def ctx(6) ctx(4) Let_def)
  have given: "unchanged d d'" if "release_cmd_ctx p d2 = Some d'"
  proof (rule back_unchanged [OF ctx(1,2,3) c' ctx(5), where m = "p_mem d"])
    show "release_cmd_ctx p (d\<lparr>free_cmdctxs := butlast (free_cmdctxs d), pending_cmdctxs := (pending_cmdctxs d)(ac_index c \<mapsto> p),
      ka_ctxs := (ka_ctxs d)(p \<mapsto> c'), p_mem := p_mem d\<rparr>) = Some d'"
      using that by (simp add: d2_def)
  qed
  have k_same: "d2\<lparr>kernel := kernel d\<rparr> = d2" by (simp add: d2_def)
  show ?thesis
  proof (cases "nvme_user_kv_cmd capable cmd'")
    case (Inl a)
    then obtain e cm where "nvme_user_kv_cmd capable cmd' = Inl (e, cm)" by (cases a) auto
    moreover from user_kv_cmd_error [OF this] have "e < 0" .
    ultimately have "release_cmd_ctx p d2 = Some d'" using run k_same
      by (cases "release_cmd_ctx p d2") (auto simp: nvme_submit_aio_def)
    then show ?thesis using given by simp
  next
    case (Inr rq)
    show ?thesis
    proof (cases refused)
      case (Some e)
      then have "release_cmd_ctx p d2 = Some d'" using run k_same Inr assms(4)
        by (cases "release_cmd_ctx p d2") (auto simp: nvme_submit_aio_def)
      then show ?thesis using given by simp
    next
      case None
      define b where "b = \<lparr>kb_event = \<lparr>ev_reqid = ucast (ac_index c) :: u64, ev_ctxid = ka_ctxid d, ev_result = 0, ev_status = 0\<rparr>, kb_request = rq\<rparr>"
      have "d' = d2\<lparr>kernel := (kernel d)\<lparr>kv_inflight := kv_inflight (kernel d) @ [b]\<rparr>\<rparr>"
        using run Inr None by (simp add: nvme_submit_aio_def cmd'_def b_def)
      then have "d' = d\<lparr>free_cmdctxs := butlast (free_cmdctxs d), pending_cmdctxs := (pending_cmdctxs d)(ac_index c \<mapsto> p),
      ka_ctxs := (ka_ctxs d)(p \<mapsto> c'),
          kernel := (kernel d)\<lparr>kv_inflight := kv_inflight (kernel d) @ [b]\<rparr>\<rparr>" by (simp add: d2_def)
      moreover have "kb_event b = \<lparr>ev_reqid = ucast (ac_index c), ev_ctxid = ka_ctxid d, ev_result = 0, ev_status = 0\<rparr>"
        by (simp add: b_def)
      moreover have "pc_opcode (ac_cmd c') = nvme_cmd_kv_retrieve \<longrightarrow> p_values d (ac_value c') \<noteq> None"
        using assms(6) opc by simp
      ultimately have "sent capable d d'" unfolding sent_def
        using ctx(1,2,3,5) c' user_kv_cmd_capable [OF Inr] by blast
      then show ?thesis by simp
    qed
  qed
qed

lemma call_split:
  "andThen c f = Returns y \<longleftrightarrow> (\<exists>x. c = Returns x \<and> f x = Returns y)"
  "defined x = Returns y' \<longleftrightarrow> x = Some y'"
  by (cases c; simp) (cases x; simp)

lemma cmd_opcodes [simp]:
  "pc_opcode (store_cmd nsid m ks k v opt) = nvme_cmd_kv_store"
  "pc_opcode (retrieve_cmd nsid m ks k v) = nvme_cmd_kv_retrieve"
  "pc_opcode (delete_cmd nsid m ks k check) = nvme_cmd_kv_delete"
  "pc_opcode (exist_cmd nsid m ks k) = nvme_cmd_kv_exist"
  "pc_opcode (iter_read_cmd nsid ctx) = nvme_cmd_kv_iter_read"
  by (simp_all add: store_cmd_def retrieve_cmd_def delete_cmd_def exist_cmd_def iter_read_cmd_def)

lemma exist_outcome:
  assumes "kadi_exist capable refused out ks key cb d = Returns (r, d')" and "ctxs_ok d"
    and "\<And>e. refused = Some e \<Longrightarrow> e < 0"
  shows "unchanged d d' \<or> sent capable d d'"
proof -
  obtain k p d1 where k: "p_keys d key = Some k" and got: "get_cmd_ctx cb d = Returns (p, d1)"
    using assms(1) by (auto simp: kadi_exist_def call_split)
  show ?thesis
  proof (cases cb)
    case None
    obtain c c1 where ctx: "free_cmdctxs d \<noteq> []" "p = last (free_cmdctxs d)" "ka_ctxs d p = Some c"
        "ac_index c1 = ac_index c" "pending_cmdctxs d (ac_index c) = None"
        "d1 = d\<lparr>free_cmdctxs := butlast (free_cmdctxs d), pending_cmdctxs := (pending_cmdctxs d)(ac_index c \<mapsto> p),
          ka_ctxs := (ka_ctxs d)(p \<mapsto> c1)\<rparr>"
      by (rule get_cmd_ctx_outcome [OF got assms(2)]) blast
    obtain ret cmd2 m where sub: "nvme_submit_sync capable out
        ((exist_cmd (ka_nsid d1) (p_mem d1) ks k)\<lparr>pc_ctxid := ka_ctxid d1, pc_reqid := ucast (ac_index c1)\<rparr>) (p_mem d1) = (ret, cmd2, m)"
      by (metis prod_cases3)
    have "release_cmd_ctx p (d1\<lparr>ka_ctxs := (ka_ctxs d1)(p \<mapsto> c1\<lparr>ac_cmd := cmd2\<rparr>), p_mem := m\<rparr>) = Some d'"
      using assms(1) k got None sub by (auto simp: kadi_exist_def call_split ctx(6))
    then have rel: "release_cmd_ctx p (d\<lparr>free_cmdctxs := butlast (free_cmdctxs d),
        pending_cmdctxs := (pending_cmdctxs d)(ac_index c \<mapsto> p), ka_ctxs := (ka_ctxs d)(p \<mapsto> c1\<lparr>ac_cmd := cmd2\<rparr>), p_mem := m\<rparr>) = Some d'"
      by (simp add: ctx(6))
    have "ac_index (c1\<lparr>ac_cmd := cmd2\<rparr>) = ac_index c" using ctx(4) by simp
    from back_unchanged [OF ctx(1,2,3) this ctx(5) rel] show ?thesis by simp
  next
    case (Some f)
    then obtain r' where "kadi_issue capable refused p (\<lambda>c. c) (exist_cmd (ka_nsid d1) (p_mem d1) ks k) d1 = Returns (r', d')"
      using assms(1) k got by (auto simp: kadi_exist_def call_split Let_def)
    from issue_outcome [OF got assms(2) this assms(3)] show ?thesis by simp
  qed
qed

lemma request_outcome:
  assumes "kadi_request_call capable refused out req d = Returns (r, d')" and "ctxs_ok d"
    and "\<And>e. refused = Some e \<Longrightarrow> e < 0"
  shows "unchanged d d' \<or> sent capable d d'"
proof (cases req)
  case (Store ks key val opt cb)
  then consider "d' = d" | k p d1 v where "get_cmd_ctx cb d = Returns (p, d1)"
      "kadi_issue capable refused p (\<lambda>c. c\<lparr>ac_key := key, ac_value := val\<rparr>)
        (store_cmd (ka_nsid d1) (p_mem d1) ks k v opt) d1 = Returns (r, d')"
    using assms(1) by (auto simp: kadi_request_call_def kadi_kv_store_def call_split split: if_splits)
  then show ?thesis
  proof cases
    case 1 then show ?thesis by (simp add: unchanged_def)
  next
    case 2 from issue_outcome [OF this(1) assms(2) this(2) assms(3)] show ?thesis by simp
  qed
next
  case (Retrieve ks key val cb)
  then consider "d' = d" | k p d1 v where "get_cmd_ctx cb d = Returns (p, d1)" "p_values d1 val = Some v"
      "kadi_issue capable refused p (\<lambda>c. c\<lparr>ac_key := key, ac_value := val\<rparr>)
        (retrieve_cmd (ka_nsid d1) (p_mem d1) ks k v) d1 = Returns (r, d')"
    using assms(1) by (auto simp: kadi_request_call_def kadi_kv_retrieve_def call_split split: if_splits)
  then show ?thesis
  proof cases
    case 1 then show ?thesis by (simp add: unchanged_def)
  next
    case 2
    have "p_values d1 = p_values d" by (rule get_cmd_ctx_outcome [OF 2(1) assms(2)]) simp
    then have "p_values d val \<noteq> None" using 2(2) by simp
    with issue_outcome [OF 2(1) assms(2) 2(3) assms(3)] show ?thesis by simp
  qed
next
  case (Delete ks key opt cb)
  then consider "d' = d" | k p d1 where "get_cmd_ctx cb d = Returns (p, d1)"
      "kadi_issue capable refused p (\<lambda>c. c\<lparr>ac_key := key, ac_value := 0\<rparr>)
        (delete_cmd (ka_nsid d1) (p_mem d1) ks k opt) d1 = Returns (r, d')"
    using assms(1) by (auto simp: kadi_request_call_def kadi_kv_delete_def call_split split: if_splits)
  then show ?thesis
  proof cases
    case 1 then show ?thesis by (simp add: unchanged_def)
  next
    case 2 from issue_outcome [OF this(1) assms(2) this(2) assms(3)] show ?thesis by simp
  qed
next
  case (Exist ks key cb)
  then obtain b where "kadi_exist capable refused out ks key cb d = Returns (b, d')"
    using assms(1) by (auto simp: kadi_request_call_def call_split)
  from exist_outcome [OF this assms(2,3)] show ?thesis by simp
next
  case (IterRead ctx cb)
  then obtain p d1 where "get_cmd_ctx cb d = Returns (p, d1)"
      "kadi_issue capable refused p (\<lambda>c. c\<lparr>ac_buf := ic_buf ctx\<rparr>) (iter_read_cmd (ka_nsid d1) ctx) d1 = Returns (r, d')"
    using assms(1) by (auto simp: kadi_request_call_def iter_read_async_def call_split)
  from issue_outcome [OF this(1) assms(2) this(2) assms(3)] show ?thesis by simp
qed

section \<open>Preservation\<close>

abbreviation kadi_ids :: "kadi_sys \<Rightarrow> u32 list" where
  "kadi_ids s \<equiv> map reqid (under s)"

definition balanced :: "kadi_sys \<Rightarrow> bool" where
  "balanced s \<longleftrightarrow> length (completed (obj s)) = unat (eventfd_count (kernel (obj s)) (ka_eventfd (obj s))) + unsignalled s
     + sum_list (map poller_count (pollers s))"

lemma kadi_invD:
  assumes "kadi_inv capable s"
  shows "ctxs_ok (obj s)" and "values_ok (obj s)" and "kernel_ok (obj s)" and "distinct (kadi_ids s)"
    and "dom (pending_cmdctxs (obj s)) = set (kadi_ids s)" and "under s \<noteq> [] \<Longrightarrow> capable" and "balanced s"
    and "mset (submitted s) = mset (map fst (delivered s)) + mset (map (ctx_of (obj s)) (kadi_ids s))"
    and "calls s = concat (map (\<lambda>(c, e). call_post_fn c (io_result c e)) (delivered s))"
  using assms unfolding kadi_inv_def balanced_def map_map [symmetric] by blast+

lemma kadi_invI:
  assumes "ctxs_ok (obj s)" and "values_ok (obj s)" and "kernel_ok (obj s)" and "distinct (kadi_ids s)"
    and "dom (pending_cmdctxs (obj s)) = set (kadi_ids s)" and "under s \<noteq> [] \<Longrightarrow> capable" and "balanced s"
    and "mset (submitted s) = mset (map fst (delivered s)) + mset (map (ctx_of (obj s)) (kadi_ids s))"
    and "calls s = concat (map (\<lambda>(c, e). call_post_fn c (io_result c e)) (delivered s))"
  shows "kadi_inv capable s"
  using assms unfolding kadi_inv_def balanced_def map_map [symmetric] by blast

text \<open>A step that moves events around and leaves the contexts of the commands under way alone.\<close>

lemma kadi_inv_move:
  assumes inv: "kadi_inv capable s" and same: "mset (kadi_ids s') = mset (kadi_ids s)"
    and pending: "pending_cmdctxs (obj s') = pending_cmdctxs (obj s)"
    and ctx: "\<And>i. i \<in> dom (pending_cmdctxs (obj s)) \<Longrightarrow> ctx_of (obj s') i = ctx_of (obj s) i"
    and ghost: "submitted s' = submitted s" "delivered s' = delivered s" "calls s' = calls s"
    and ok: "ctxs_ok (obj s')" "values_ok (obj s')" "kernel_ok (obj s')" "balanced s'"
  shows "kadi_inv capable s'"
proof (rule kadi_invI)
  note D = kadi_invD [OF inv]
  show "distinct (kadi_ids s')" using D(4) mset_eq_imp_distinct_iff [OF same] by blast
  have set_eq: "set (kadi_ids s') = set (kadi_ids s)" using same by (rule mset_eq_setD)
  then show "dom (pending_cmdctxs (obj s')) = set (kadi_ids s')" using D(5) pending by simp
  have "length (under s') = length (under s)" using mset_eq_length [OF same] by simp
  then show capable if "under s' \<noteq> []" using that D(6) by (metis length_0_conv)
  have "map (ctx_of (obj s')) (kadi_ids s) = map (ctx_of (obj s)) (kadi_ids s)"
    using ctx D(5) by (intro map_cong) auto
  then have "mset (map (ctx_of (obj s')) (kadi_ids s')) = mset (map (ctx_of (obj s)) (kadi_ids s))"
    using same by (metis mset_map)
  then show "mset (submitted s') = mset (map fst (delivered s')) + mset (map (ctx_of (obj s')) (kadi_ids s'))"
    using D(8) ghost by (simp del: map_map)
qed (use ok ghost kadi_invD(9) [OF inv] in simp_all)

lemma sum_list_update_at:
  "j < length xs \<Longrightarrow> sum_list (map f (xs[j := y])) + (f (xs ! j) :: nat) = sum_list (map f xs) + f y"
proof (induction xs arbitrary: j)
  case (Cons x xs) then show ?case by (cases j) auto
qed simp

lemma mset_concat_update:
  "j < length xs \<Longrightarrow> mset (concat (map f (xs[j := y]))) + mset (f (xs ! j)) = mset (concat (map f xs)) + mset (f y)"
proof (induction xs arbitrary: j)
  case (Cons x xs)
  then show ?case by (cases j) (auto simp: ac_simps)
qed simp

lemma under_bound:
  assumes "kadi_inv capable s"
  shows "length (under s) \<le> nat (ka_qdepth (obj s))" and "nat (ka_qdepth (obj s)) < 2 ^ 31" and "0 < ka_qdepth (obj s)"
proof -
  note D = kadi_invD [OF assms]
  note P = pool_okD [OF D(1) [unfolded ctxs_ok_def]]
  have "length (under s) = card (dom (pending_cmdctxs (obj s)))"
    using D(4,5) by (metis distinct_card length_map)
  also have "\<dots> \<le> card (dom (ctx_index (obj s)))"
  proof (rule card_inj_on_le [OF _ _ P(1)])
    show "inj_on (\<lambda>i. the (pending_cmdctxs (obj s) i)) (dom (pending_cmdctxs (obj s)))"
    proof (rule inj_onI)
      fix x y assume "x \<in> dom (pending_cmdctxs (obj s))" "y \<in> dom (pending_cmdctxs (obj s))"
        "the (pending_cmdctxs (obj s) x) = the (pending_cmdctxs (obj s) y)"
      then obtain p where "pending_cmdctxs (obj s) x = Some p" "pending_cmdctxs (obj s) y = Some p" by auto
      then show "x = y" using P(8) [of x p] P(8) [of y p] by simp
    qed
    show "(\<lambda>i. the (pending_cmdctxs (obj s) i)) ` dom (pending_cmdctxs (obj s)) \<subseteq> dom (ctx_index (obj s))"
      using P(8) by fastforce
  qed
  finally show "length (under s) \<le> nat (ka_qdepth (obj s))" using P(2) by simp
  show "nat (ka_qdepth (obj s)) < 2 ^ 31" and "0 < ka_qdepth (obj s)" using P(3,4) by auto
qed

lemma completed_bound:
  assumes "kadi_inv capable s"
  shows "length (completed (obj s)) \<le> nat (ka_qdepth (obj s))"
  using under_bound(1) [OF assms] by (simp add: under_def)

lemma ctx_of_free:
  assumes "ctxs_ok d" and "p \<in> set (free_cmdctxs d)" and "i \<in> dom (pending_cmdctxs d)"
  shows "the (pending_cmdctxs d i) \<noteq> p"
  using assms pool_not_free [OF assms(1) [unfolded ctxs_ok_def]] by auto

text \<open>Requests.\<close>

lemma reqid_index: "ucast (ucast (i :: u32) :: u64) = i"
  by (rule bit_word_eqI) (simp add: bit_simps)

lemma ctxs_ok_index:
  assumes "ctxs_ok d" and "ctx_index d' = ctx_index d" and "free_cmdctxs d' = free_cmdctxs d"
    and "pending_cmdctxs d' = pending_cmdctxs d" and "ka_qdepth d' = ka_qdepth d"
  shows "ctxs_ok d'"
  using assms by (simp add: ctxs_ok_def)

lemma step_unchanged:
  assumes inv: "kadi_inv capable s" and un: "unchanged (obj s) d'"
  shows "kadi_inv capable (s\<lparr>obj := d', submitted := submitted s @ accepted (obj s) d'\<rparr>)"
proof (cases "d' = obj s")
  case True
  then show ?thesis using inv by (simp add: accepted_def)
next
  case False
  then obtain p c c' m where p: "free_cmdctxs (obj s) \<noteq> []" "p = last (free_cmdctxs (obj s))" "ka_ctxs (obj s) p = Some c"
      "ac_index c' = ac_index c" and d': "d' = (obj s)\<lparr>ka_ctxs := (ka_ctxs (obj s))(p \<mapsto> c'), p_mem := m\<rparr>"
    using un by (auto simp: unchanged_def)
  note D = kadi_invD [OF inv]
  have free: "p \<in> set (free_cmdctxs (obj s))" using p(1,2) by simp
  have other: "q \<noteq> p" if "pending_cmdctxs (obj s) i = Some q" for i q
    using ctx_of_free [OF D(1) free, of i] that by auto
  have idx: "ctx_index d' = ctx_index (obj s)" using p d' by (auto simp: ctx_index_def)
  let ?s = "s\<lparr>obj := d', submitted := submitted s @ accepted (obj s) d'\<rparr>"
  have acc: "accepted (obj s) d' = []" by (simp add: accepted_def d')
  have und: "under ?s = under s" by (simp add: under_def completed_def d')
  show ?thesis
  proof (rule kadi_inv_move [OF inv])
    show "mset (kadi_ids ?s) = mset (kadi_ids s)" by (simp only: und)
    show "submitted ?s = submitted s" by (simp add: acc)
    show "ctxs_ok (obj ?s)" using ctxs_ok_index [OF D(1) idx] by (simp add: d')
    show "values_ok (obj ?s)" using D(2) other by (auto simp: values_ok_def d' split: if_splits)
    show "kernel_ok (obj ?s)" using D(3) by (simp add: kernel_ok_def d')
    show "balanced ?s" using D(7) by (simp add: balanced_def completed_def d')
    fix i assume "i \<in> dom (pending_cmdctxs (obj s))"
    then obtain q where "pending_cmdctxs (obj s) i = Some q" by auto
    then show "ctx_of (obj ?s) i = ctx_of (obj s) i" using other [of i q] by (simp add: ctx_of_def d')
  qed (simp_all add: d')
qed

lemma step_sent:
  assumes inv: "kadi_inv capable s" and sent: "sent capable (obj s) d'"
  shows "kadi_inv capable (s\<lparr>obj := d', submitted := submitted s @ accepted (obj s) d'\<rparr>)"
proof -
  define d where "d = obj s"
  obtain p c c' b where p: "free_cmdctxs d \<noteq> []" "p = last (free_cmdctxs d)" "ka_ctxs d p = Some c"
      "ac_index c' = ac_index c" "pending_cmdctxs d (ac_index c) = None"
    and d': "d' = d\<lparr>free_cmdctxs := butlast (free_cmdctxs d), pending_cmdctxs := (pending_cmdctxs d)(ac_index c \<mapsto> p),
      ka_ctxs := (ka_ctxs d)(p \<mapsto> c'), kernel := (kernel d)\<lparr>kv_inflight := kv_inflight (kernel d) @ [b]\<rparr>\<rparr>"
    and b: "kb_event b = \<lparr>ev_reqid = ucast (ac_index c), ev_ctxid = ka_ctxid d, ev_result = 0, ev_status = 0\<rparr>"
    and val: "pc_opcode (ac_cmd c') = nvme_cmd_kv_retrieve \<longrightarrow> p_values d (ac_value c') \<noteq> None" and cap: capable
    using sent unfolding sent_def d_def by blast
  note D = kadi_invD [OF inv, folded d_def]
  let ?i = "ac_index c" and ?s = "s\<lparr>obj := d', submitted := submitted s @ accepted d d'\<rparr>"
  have rid: "reqid (kb_event b) = ?i" by (simp add: b reqid_index)
  have free: "p \<in> set (free_cmdctxs d)" using p(1,2) by simp
  have other: "q \<noteq> p" if "pending_cmdctxs d i = Some q" for i q using ctx_of_free [OF D(1) free, of i] that by auto
  have idx: "ctx_index d' = ctx_index d" using p d' by (auto simp: ctx_index_def)
  have new: "ctx_of d' ?i = c'" by (simp add: ctx_of_def d')
  have old: "ctx_of d' i = ctx_of d i" if i: "i \<in> dom (pending_cmdctxs d)" for i
  proof -
    obtain q where "pending_cmdctxs d i = Some q" using i by auto
    moreover from this have "i \<noteq> ?i" using p(5) by auto
    ultimately show ?thesis using other [of i q] by (simp add: ctx_of_def d')
  qed
  have acc: "accepted d d' = [c']" by (simp add: accepted_def d' rid new [unfolded d'])
  have ids: "mset (kadi_ids ?s) = add_mset ?i (mset (kadi_ids s))"
    using rid by (simp add: under_def completed_def d' d_def [symmetric])
  have fresh: "?i \<notin> set (kadi_ids s)" using D(5) p(5) by auto
  have "kadi_inv capable ?s"
  proof (rule kadi_invI)
    show "ctxs_ok (obj ?s)"
      using pool_take [OF D(1) [unfolded ctxs_ok_def] p(1,2), of ?i] p(3) idx by (simp add: ctxs_ok_def ctx_index_def d')
    show "values_ok (obj ?s)" using D(2) other val by (auto simp: values_ok_def d' split: if_splits)
    show "kernel_ok (obj ?s)" using D(3) by (auto simp: kernel_ok_def d' b)
    show "balanced ?s" using D(7) by (simp add: balanced_def completed_def d' d_def [symmetric])
    have "distinct (?i # kadi_ids s)" using D(4) fresh by simp
    moreover have mset_ids: "mset (kadi_ids ?s) = mset (?i # kadi_ids s)" using ids by simp
    ultimately show "distinct (kadi_ids ?s)" using mset_eq_imp_distinct_iff by blast
    show "dom (pending_cmdctxs (obj ?s)) = set (kadi_ids ?s)"
      using mset_eq_setD [OF mset_ids] D(5) by (simp add: d')
    show capable by (rule cap)
    have "map (ctx_of d') (kadi_ids s) = map (ctx_of d) (kadi_ids s)" using old D(5) by (intro map_cong) auto
    then have same: "image_mset (ctx_of d') (mset (kadi_ids s)) = image_mset (ctx_of d) (mset (kadi_ids s))"
      by (simp only: mset_map [symmetric])
    have "mset (map (ctx_of d') (kadi_ids ?s)) = add_mset c' (mset (map (ctx_of d) (kadi_ids s)))"
      unfolding mset_map [of "ctx_of d'"] mset_map [of "ctx_of d"] ids by (simp only: image_mset_add_mset new same)
    then show "mset (submitted ?s) = mset (map fst (delivered ?s)) + mset (map (ctx_of (obj ?s)) (kadi_ids ?s))"
      using D(8) acc by (simp del: map_map)
    show "calls ?s = concat (map (\<lambda>(c, e). call_post_fn c (io_result c e)) (delivered ?s))" using D(9) by simp
  qed
  then show ?thesis by (simp add: d_def)
qed

text \<open>The application, the drive and the kernel.\<close>

lemma step_memory:
  assumes inv: "kadi_inv capable s" and dom: "dom (p_values (obj s)) \<subseteq> dom vals"
  shows "kadi_inv capable (s\<lparr>obj := (obj s)\<lparr>p_mem := m, p_keys := keys, p_values := vals\<rparr>\<rparr>)" (is "kadi_inv _ ?s")
proof (rule kadi_inv_move [OF inv])
  note D = kadi_invD [OF inv]
  show "mset (kadi_ids ?s) = mset (kadi_ids s)" by (simp add: under_def completed_def)
  show "ctxs_ok (obj ?s)" by (rule ctxs_ok_index [OF D(1)]) (auto simp: ctx_index_def)
  show "values_ok (obj ?s)" using D(2) dom by (fastforce simp: values_ok_def)
  show "kernel_ok (obj ?s)" using D(3) by (simp add: kernel_ok_def)
  show "balanced ?s" using D(7) by (simp add: balanced_def completed_def)
qed (simp_all add: ctx_of_def)

lemma kernel_ok_entry:
  assumes "kernel_ok d"
  obtains x where "unat (ka_ctxid d) < length (g_kaioctx_tb (kernel d))"
    and "g_kaioctx_tb (kernel d) ! unat (ka_ctxid d) = Some x" and "kx_eventfd x = ka_eventfd d" and "kaiocb_list x = completed d"
  using assms by (auto simp: kernel_ok_def completed_def)

lemma remove_nth: "i < length xs \<Longrightarrow> add_mset (xs ! i) (mset (take i xs @ drop (Suc i) xs)) = mset xs"
  by (metis add_mset_add_single id_take_nth_drop mset_append mset.simps(2) union_mset_add_mset_right)

lemma step_drive:
  assumes inv: "kadi_inv capable s" and comp: "kv_complete_aio i status result (kernel (obj s)) = Some (queued, k)"
  shows "kadi_inv capable (s\<lparr>obj := (obj s)\<lparr>kernel := k, p_mem := m\<rparr>, unsignalled := unsignalled s + of_bool queued\<rparr>)"
    (is "kadi_inv _ ?s")
proof -
  note D = kadi_invD [OF inv]
  define d where "d = obj s"
  obtain x where x: "unat (ka_ctxid d) < length (g_kaioctx_tb (kernel d))" "g_kaioctx_tb (kernel d) ! unat (ka_ctxid d) = Some x"
      "kx_eventfd x = ka_eventfd d" "kaiocb_list x = completed d"
    using kernel_ok_entry [OF D(3), folded d_def] by blast
  let ?b = "kv_inflight (kernel d) ! i" and ?rest = "take i (kv_inflight (kernel d)) @ drop (Suc i) (kv_inflight (kernel d))"
  let ?ev = "(kb_event ?b)\<lparr>ev_result := result, ev_status := status\<rparr>"
  have i: "i < length (kv_inflight (kernel d))" using comp by (auto simp: kv_complete_aio_def d_def split: if_splits)
  then have b: "ev_ctxid (kb_event ?b) = ka_ctxid d" using D(3) by (auto simp: kernel_ok_def d_def)
  have q: queued and k: "k = (kernel d)\<lparr>kv_inflight := ?rest,
      g_kaioctx_tb := (g_kaioctx_tb (kernel d))[unat (ka_ctxid d) := Some (x\<lparr>kaiocb_list := completed d @ [?ev]\<rparr>)]\<rparr>"
    using comp i x b by (auto simp: kv_complete_aio_def set_aioctx_event_def find_kaioctx_def Let_def d_def [symmetric])
  have comp': "completed (obj ?s) = completed d @ [?ev]" using x(1) by (simp add: completed_def k d_def [symmetric])
  have rest: "add_mset (reqid (kb_event ?b)) (image_mset (reqid \<circ> kb_event) (mset ?rest))
      = image_mset (reqid \<circ> kb_event) (mset (kv_inflight (kernel d)))"
    using arg_cong [OF remove_nth [OF i], of "image_mset (reqid \<circ> kb_event)"] by simp
  show ?thesis
  proof (rule kadi_inv_move [OF inv])
    show "mset (kadi_ids ?s) = mset (kadi_ids s)"
      unfolding under_def comp' using rest by (simp add: k d_def [symmetric] ac_simps)
    show "ctxs_ok (obj ?s)" by (rule ctxs_ok_index [OF D(1)]) (auto simp: ctx_index_def)
    show "values_ok (obj ?s)" using D(2) by (simp add: values_ok_def)
    have "set ?rest \<subseteq> set (kv_inflight (kernel d))" by (auto dest: in_set_takeD in_set_dropD)
    then show "kernel_ok (obj ?s)" using D(3) x by (auto simp: kernel_ok_def k d_def [symmetric])
    show "balanced ?s" using D(7) comp' q by (simp add: balanced_def k d_def [symmetric])
  qed (simp_all add: ctx_of_def)
qed

lemma unat_suc_bound: "unat (n :: u64) < 2 ^ 31 \<Longrightarrow> unat (n + 1) = unat n + 1"
  by (rule unat_word_ariths(1) [THEN trans]) simp

lemma step_signal:
  assumes inv: "kadi_inv capable s" and pos: "unsignalled s > 0"
  shows "kadi_inv capable (s\<lparr>obj := (obj s)\<lparr>kernel := eventfd_signal (ka_eventfd (obj s)) (kernel (obj s))\<rparr>,
      unsignalled := unsignalled s - 1\<rparr>)" (is "kadi_inv _ ?s")
proof (rule kadi_inv_move [OF inv])
  note D = kadi_invD [OF inv]
  show "mset (kadi_ids ?s) = mset (kadi_ids s)" by (simp add: under_def completed_def eventfd_signal_def)
  show "ctxs_ok (obj ?s)" by (rule ctxs_ok_index [OF D(1)]) (auto simp: ctx_index_def)
  show "values_ok (obj ?s)" using D(2) by (simp add: values_ok_def)
  show "kernel_ok (obj ?s)" using D(3) by (simp add: kernel_ok_def eventfd_signal_def)
  have "unat (eventfd_count (kernel (obj s)) (ka_eventfd (obj s))) < 2 ^ 31"
    using D(7) completed_bound [OF inv] under_bound(2) [OF inv] by (simp add: balanced_def)
  then show "balanced ?s" using D(7) pos by (simp add: balanced_def completed_def eventfd_signal_def unat_suc_bound)
qed (simp_all add: ctx_of_def)

text \<open>The polls.\<close>

lemma balanced_poller:
  assumes "balanced s" and "j < length (pollers s)"
  shows "unat (eventfd_count (kernel (obj s)) (ka_eventfd (obj s))) + unsignalled s
     + sum_list (map poller_count ((pollers s)[j := y])) + poller_count (pollers s ! j) = length (completed (obj s)) + poller_count y"
  using assms sum_list_update_at [OF assms(2), of poller_count y] by (simp add: balanced_def)

lemma step_poll_read:
  assumes inv: "kadi_inv capable s" and j: "j < length (pollers s)" "pollers s ! j = Idle"
    and n: "n = eventfd_count (kernel (obj s)) (ka_eventfd (obj s))"
  shows "kadi_inv capable (s\<lparr>obj := (obj s)\<lparr>kernel := (kernel (obj s))
        \<lparr>eventfd_count := (eventfd_count (kernel (obj s)))(ka_eventfd (obj s) := 0)\<rparr>\<rparr>,
      pollers := (pollers s)[j := Loop n]\<rparr>)" (is "kadi_inv _ ?s")
proof (rule kadi_inv_move [OF inv])
  note D = kadi_invD [OF inv]
  have "mset (concat (map poller_events ((pollers s)[j := Loop n]))) = mset (concat (map poller_events (pollers s)))"
    using mset_concat_update [OF j(1), of poller_events "Loop n"] j(2) by (simp add: poller_events_def)
  then show "mset (kadi_ids ?s) = mset (kadi_ids s)" unfolding under_def mset_map mset_append by (simp add: completed_def)
  show "ctxs_ok (obj ?s)" by (rule ctxs_ok_index [OF D(1)]) (auto simp: ctx_index_def)
  show "values_ok (obj ?s)" using D(2) by (simp add: values_ok_def)
  show "kernel_ok (obj ?s)" using D(3) by (simp add: kernel_ok_def)
  show "balanced ?s"
    using balanced_poller [OF D(7) j(1), of "Loop n"] j(2) n by (simp add: balanced_def completed_def poller_count_def)
qed (simp_all add: ctx_of_def)

lemma sint_ucast_small:
  assumes "unat (n :: u64) < 2 ^ 31"
  shows "sint (ucast n :: u32) = int (unat n)"
proof -
  have n: "unat (ucast n :: u32) = unat n"
    unfolding unsigned_ucast_eq unsigned_take_bit_eq using assms by (intro take_bit_nat_eq_self) simp
  then have "int (unat (ucast n :: u32)) < int (2 ^ 31)" using assms by (simp only: of_nat_less_iff)
  then have "uint (ucast n :: u32) < 2 ^ 31" by simp
  then have "signed_take_bit 31 (uint (ucast n :: u32)) = uint (ucast n :: u32)"
    by (rule signed_take_bit_int_eq_self [rotated]) (rule order_trans [OF _ uint_nonnegative], simp)
  then have "sint (ucast n :: u32) = uint (ucast n :: u32)" unfolding sint_uint by simp
  also have "\<dots> = int (unat (ucast n :: u32))" by simp
  finally show ?thesis by (simp only: n)
qed

lemma check_nr_eq:
  assumes inv: "kadi_inv capable s" and j: "j < length (pollers s)" "pollers s ! j = Loop n"
  shows "check_nr n (obj s) = int (min (unat n) 128)" and "unat n \<le> length (completed (obj s))"
proof -
  have "poller_count (Loop n) \<le> sum_list (map poller_count (pollers s))"
  proof (rule member_le_sum_list)
    show "poller_count (Loop n) \<in> set (map poller_count (pollers s))" using nth_mem [OF j(1)] j(2) by force
  qed simp
  then show le: "unat n \<le> length (completed (obj s))" using kadi_invD(7) [OF inv] by (simp add: balanced_def poller_count_def)
  then have small: "unat n \<le> nat (ka_qdepth (obj s))" using completed_bound [OF inv] by simp
  then have "unat n < 2 ^ 31" using under_bound(2) [OF inv] by simp
  then have "sint (ucast n :: u32) = int (unat n)" by (rule sint_ucast_small)
  moreover have "int (unat n) \<le> ka_qdepth (obj s)" using small under_bound(3) [OF inv] by (metis le_nat_iff less_imp_le)
  moreover have "min (min (int u) 128) q = int (min u 128)" if "int u \<le> q" for u q using that by (auto simp: min_def)
  ultimately show "check_nr n (obj s) = int (min (unat n) 128)" unfolding check_nr_def by metis
qed

lemma step_poll_get:
  assumes inv: "kadi_inv capable s" and j: "j < length (pollers s)" "pollers s ! j = Loop n" and n: "n \<noteq> 0"
    and get: "nvme_get_ioevents capable (word_of_int (check_nr n (obj s))) (ka_ctxid (obj s)) (kernel (obj s)) = Some (ret, es, k)"
  shows "kadi_inv capable (s\<lparr>obj := (obj s)\<lparr>kernel := k\<rparr>,
      pollers := (pollers s)[j := if ret < 0 then Idle else Events (n - word_of_int (check_nr n (obj s))) es]\<rparr>)"
    (is "kadi_inv _ ?s")
    and "length es = nat (check_nr n (obj s))" and "0 < check_nr n (obj s)" and "ret = 0"
proof -
  note D = kadi_invD [OF inv]
  define d where "d = obj s"
  define c where "c = min (unat n) 128"
  have n_pos: "0 < unat n" using n by (simp add: unat_gt_0)
  have nr: "check_nr n (obj s) = int c" and le: "c \<le> length (completed d)" "unat n \<le> length (completed d)" "0 < c" "c \<le> 128" "c \<le> unat n"
    using check_nr_eq [OF inv j] n_pos by (auto simp: c_def d_def)
  have word_c: "unat (word_of_int (int c) :: u16) = c" "unat (word_of_int (int c) :: u64) = c"
    using le(4) by (simp_all add: unat_of_nat)
  have "under s \<noteq> []" using le(1,3) by (auto simp: under_def d_def)
  then have cap: capable by (rule D(6))
  obtain x where x: "unat (ka_ctxid d) < length (g_kaioctx_tb (kernel d))" "g_kaioctx_tb (kernel d) ! unat (ka_ctxid d) = Some x"
      "kx_eventfd x = ka_eventfd d" "kaiocb_list x = completed d"
    using kernel_ok_entry [OF D(3), folded d_def] by blast
  have nz: "(word_of_int (int c) :: u16) \<noteq> 0" using word_c(1) le(3) by (metis less_irrefl unat_0)
  have res: "ret = 0" "es = rev (take c (completed d))" "k = (kernel d)\<lparr>g_kaioctx_tb := (g_kaioctx_tb (kernel d))
      [unat (ka_ctxid d) := Some (x\<lparr>kaiocb_list := drop c (completed d)\<rparr>)]\<rparr>"
    using get [unfolded nr, folded d_def] cap x nz le(4) word_c by (auto simp: nvme_get_ioevents_def find_kaioctx_def)
  show "ret = 0" by (rule res)
  show "length es = nat (check_nr n (obj s))" and "0 < check_nr n (obj s)" using res(2) le nr by simp_all
  let ?e = "Events (n - word_of_int (int c)) es"
  have poll: "pollers ?s = (pollers s)[j := ?e]" using res(1) nr by simp
  have comp: "completed (obj ?s) = drop c (completed d)" using x(1) by (simp add: completed_def res(3) d_def [symmetric])
  have ev: "mset (concat (map poller_events ((pollers s)[j := ?e]))) = mset (concat (map poller_events (pollers s))) + mset (take c (completed d))"
    using mset_concat_update [OF j(1), of poller_events ?e] j(2) res(2) by (simp add: poller_events_def)
  have parts: "mset (completed d) = mset (take c (completed d)) + mset (drop c (completed d))"
    by (metis append_take_drop_id mset_append)
  show "kadi_inv capable ?s"
  proof (rule kadi_inv_move [OF inv])
    show "mset (kadi_ids ?s) = mset (kadi_ids s)"
      unfolding under_def poll comp mset_map mset_append ev unfolding d_def [symmetric] parts by (simp add: res(3) d_def ac_simps)
    show "ctxs_ok (obj ?s)" by (rule ctxs_ok_index [OF D(1)]) (auto simp: ctx_index_def)
    show "values_ok (obj ?s)" using D(2) by (simp add: values_ok_def)
    show "kernel_ok (obj ?s)" using D(3) x by (auto simp: kernel_ok_def res(3) d_def)
    have "word_of_int (int c) \<le> n" using word_c(2) le(5) by (simp add: word_le_nat_alt)
    then have "unat (n - word_of_int (int c)) = unat n - c" using word_c(2) by (simp only: unat_sub)
    then show "balanced ?s"
      using balanced_poller [OF D(7) j(1), of ?e] j(2) le unfolding balanced_def poll comp
      by (simp add: res(3) poller_count_def d_def)
  qed (simp_all add: ctx_of_def)
qed

lemma fill_defined:
  assumes "pc_opcode (ac_cmd c) = nvme_cmd_kv_retrieve \<Longrightarrow> ac_value c = 0 \<or> vals (ac_value c) \<noteq> None"
  obtains vals' where "fill_ioresult c e vals = Some (io_result c e, vals')" and "dom vals \<subseteq> dom vals'"
proof -
  have "\<exists>vals'. fill_ioresult c e vals = Some (io_result c e, vals') \<and> dom vals \<subseteq> dom vals'"
    using assms by (auto simp: fill_ioresult_def io_result_def Let_def)
  then show thesis using that by blast
qed

lemma poll_event_defined:
  assumes "ctxs_ok d" and "values_ok d" and "pending_cmdctxs d (reqid e) = Some p"
  obtains vals where "poll_event e d = Some (call_post_fn (ctx_of d (reqid e)) (io_result (ctx_of d (reqid e)) e),
      d\<lparr>free_cmdctxs := free_cmdctxs d @ [p], pending_cmdctxs := (pending_cmdctxs d)(reqid e := None), p_values := vals\<rparr>)"
    and "dom (p_values d) \<subseteq> dom vals"
proof -
  obtain c where c: "ka_ctxs d p = Some c" "ac_index c = reqid e"
    using pool_okD(8) [OF assms(1) [unfolded ctxs_ok_def] assms(3)] by (auto simp: ctx_index_def)
  have "ctx_of d (reqid e) = c" by (simp add: ctx_of_def assms(3) c)
  moreover obtain vals where "fill_ioresult c e (p_values d) = Some (io_result c e, vals)" "dom (p_values d) \<subseteq> dom vals"
    using fill_defined [of c "p_values d" e] assms(2,3) c unfolding values_ok_def by blast
  ultimately show thesis using c assms(3)
    by (intro that [of vals]) (simp_all add: poll_event_def get_cmdctx_def release_cmd_ctx_def)
qed

lemma poller_event_pending:
  assumes inv: "kadi_inv capable s" and j: "j < length (pollers s)" "pollers s ! j = Events n (e # es)"
  obtains p where "pending_cmdctxs (obj s) (reqid e) = Some p"
proof -
  have "e \<in> set (concat (map poller_events (pollers s)))"
    using j nth_mem [OF j(1)] by (auto simp: poller_events_def split: poller.splits intro!: bexI [of _ "pollers s ! j"])
  then have "reqid e \<in> set (kadi_ids s)" by (auto simp: under_def)
  then show thesis using kadi_invD(5) [OF inv] that by blast
qed

lemma step_poll_one:
  assumes inv: "kadi_inv capable s" and j: "j < length (pollers s)" "pollers s ! j = Events n (e # es)"
    and ev: "poll_event e (obj s) = Some (cs, d')"
  shows "kadi_inv capable (s\<lparr>obj := d', pollers := (pollers s)[j := Events n es],
      delivered := delivered s @ [(ctx_of (obj s) (reqid e), e)], calls := calls s @ cs\<rparr>)" (is "kadi_inv _ ?s")
proof -
  note D = kadi_invD [OF inv]
  define d where "d = obj s"
  obtain p where p: "pending_cmdctxs d (reqid e) = Some p" using poller_event_pending [OF inv j, folded d_def] by blast
  obtain vals where run: "poll_event e d = Some (call_post_fn (ctx_of d (reqid e)) (io_result (ctx_of d (reqid e)) e),
      d\<lparr>free_cmdctxs := free_cmdctxs d @ [p], pending_cmdctxs := (pending_cmdctxs d)(reqid e := None), p_values := vals\<rparr>)"
    and vals: "dom (p_values d) \<subseteq> dom vals"
    by (rule poll_event_defined [OF D(1,2) [folded d_def] p])
  have cs: "cs = call_post_fn (ctx_of d (reqid e)) (io_result (ctx_of d (reqid e)) e)"
    and d': "d' = d\<lparr>free_cmdctxs := free_cmdctxs d @ [p], pending_cmdctxs := (pending_cmdctxs d)(reqid e := None), p_values := vals\<rparr>"
    using ev [folded d_def] run by simp_all
  have "mset (concat (map poller_events (pollers s))) = add_mset e (mset (concat (map poller_events ((pollers s)[j := Events n es]))))"
    using mset_concat_update [OF j(1), of poller_events "Events n es"] j(2) by (simp add: poller_events_def)
  then have und: "mset (under s) = add_mset e (mset (under ?s))"
    unfolding under_def mset_append by (simp add: completed_def d' d_def)
  then have ids: "mset (kadi_ids s) = mset (reqid e # kadi_ids ?s)" by simp
  then have dist: "distinct (reqid e # kadi_ids ?s)" using D(4) mset_eq_imp_distinct_iff by blast
  have same: "map (ctx_of d') (kadi_ids ?s) = map (ctx_of d) (kadi_ids ?s)"
  proof (rule map_cong [OF refl])
    fix i assume "i \<in> set (kadi_ids ?s)"
    then have "i \<noteq> reqid e" using dist by (metis distinct.simps(2))
    then show "ctx_of d' i = ctx_of d i" by (simp add: ctx_of_def d')
  qed
  show ?thesis
  proof (rule kadi_invI)
    show "ctxs_ok (obj ?s)"
    proof -
      have "ctx_index d' = ctx_index d" by (rule ext) (simp add: ctx_index_def d')
      then show ?thesis using pool_give [OF D(1) [unfolded ctxs_ok_def, folded d_def] p] by (simp add: ctxs_ok_def d')
    qed
    show "values_ok (obj ?s)" using D(2) vals by (fastforce simp: values_ok_def d' d_def split: if_splits)
    show "kernel_ok (obj ?s)" using D(3) by (simp add: kernel_ok_def d' d_def)
    show "balanced ?s" using balanced_poller [OF D(7) j(1), of "Events n es"] j(2)
      by (simp add: balanced_def completed_def poller_count_def d' d_def)
    show "distinct (kadi_ids ?s)" using dist by simp
    show "dom (pending_cmdctxs (obj ?s)) = set (kadi_ids ?s)"
    proof -
      have "dom (pending_cmdctxs d') = set (kadi_ids s) - {reqid e}" unfolding D(5) [folded d_def, symmetric] by (simp add: d')
      also have "\<dots> = insert (reqid e) (set (kadi_ids ?s)) - {reqid e}"
        unfolding mset_eq_setD [OF ids] by (simp only: list.simps(15))
      also have "\<dots> = set (kadi_ids ?s)"
        using dist by (intro Diff_insert_absorb) (simp only: distinct.simps not_False_eq_True)
      finally show ?thesis by simp
    qed
    have "under s \<noteq> []" using und by (metis add_mset_not_empty mset_zero_iff)
    then show capable by (rule D(6))
    have "mset (map (ctx_of d) (kadi_ids s)) = add_mset (ctx_of d (reqid e)) (mset (map (ctx_of d') (kadi_ids ?s)))"
      unfolding same mset_map [of "ctx_of d"] ids by simp
    then show "mset (submitted ?s) = mset (map fst (delivered ?s)) + mset (map (ctx_of (obj ?s)) (kadi_ids ?s))"
      using D(8) by (simp add: d_def del: map_map)
    show "calls ?s = concat (map (\<lambda>(c, e). call_post_fn c (io_result c e)) (delivered ?s))" using D(9) by (simp add: cs d_def)
  qed
qed

lemma step_poll_same:
  assumes inv: "kadi_inv capable s" and j: "j < length (pollers s)"
    and "poller_events (pollers s ! j) = poller_events y" and "poller_count (pollers s ! j) = poller_count y"
  shows "kadi_inv capable (s\<lparr>pollers := (pollers s)[j := y]\<rparr>)" (is "kadi_inv _ ?s")
proof (rule kadi_inv_move [OF inv])
  note D = kadi_invD [OF inv]
  have "mset (concat (map poller_events ((pollers s)[j := y]))) = mset (concat (map poller_events (pollers s)))"
    using mset_concat_update [OF j, of poller_events y] assms(3) by simp
  then show "mset (kadi_ids ?s) = mset (kadi_ids s)" unfolding under_def mset_map mset_append by simp
  show "balanced ?s" using balanced_poller [OF D(7) j, of y] assms(4) by (simp add: balanced_def)
qed (use kadi_invD [OF inv] in simp_all)

lemma kadi_sys_step_inv:
  assumes "kadi_sys_step capable s s'" and "kadi_inv capable s"
  shows "kadi_inv capable s'"
  using assms
proof (cases rule: kadi_sys_step.cases)
  case drive
  then show ?thesis using step_drive assms(2) by blast
next
  case signal
  then show ?thesis using step_signal assms(2) by blast
next
  case poll_read
  then show ?thesis using step_poll_read assms(2) by blast
next
  case poll_get
  then show ?thesis using step_poll_get(1) assms(2) by blast
next
  case poll_one
  then show ?thesis using step_poll_one assms(2) by blast
next
  case poll_next
  then show ?thesis using step_poll_same [OF assms(2)] by (simp add: poller_events_def poller_count_def)
next
  case poll_done
  then show ?thesis using step_poll_same [OF assms(2)] by (simp add: poller_events_def poller_count_def)
qed

lemma kadi_step_inv:
  assumes "kadi_step capable s s'" and "kadi_inv capable s"
  shows "kadi_inv capable s'"
  using assms
proof (cases rule: kadi_step.cases)
  case (request refused out req r d')
  then show ?thesis
    using request_outcome [OF request(2) kadi_invD(1) [OF assms(2)] request(3)] step_unchanged step_sent assms(2) by blast
next
  case memory
  then show ?thesis using step_memory assms(2) by blast
next
  case system
  then show ?thesis using kadi_sys_step_inv assms(2) by blast
qed

section \<open>The start\<close>

definition fresh_ctxs :: "nat \<Rightarrow> nat list \<Rightarrow> nat \<rightharpoonup> aio_cmd_ctx" where
  "fresh_ctxs i ptrs = map_of (zip ptrs (map (\<lambda>j. new_ctx (word_of_nat j)) [i..<i + length ptrs]))"

lemma fresh_ctxs_Cons: "fresh_ctxs i (p # ps) = (fresh_ctxs (Suc i) ps)(p \<mapsto> new_ctx (word_of_nat i))"
proof -
  have "[i..<i + length (p # ps)] = i # [Suc i..<Suc i + length ps]" by (simp add: upt_conv_Cons del: upt_Suc)
  then show ?thesis unfolding fresh_ctxs_def by (simp del: upt_Suc)
qed

lemma dom_fresh_ctxs: "dom (fresh_ctxs i ptrs) = set ptrs"
  by (simp add: fresh_ctxs_def)

lemma alloc_ctxs_eq:
  "distinct ptrs \<Longrightarrow> alloc_ctxs i ptrs d =
     d\<lparr>free_cmdctxs := free_cmdctxs d @ ptrs, ka_ctxs := ka_ctxs d ++ fresh_ctxs i ptrs\<rparr>"
proof (induction ptrs arbitrary: i d)
  case Nil
  then show ?case by (simp add: fresh_ctxs_def)
next
  case (Cons p ps)
  have "((ka_ctxs d)(p \<mapsto> new_ctx (word_of_nat i))) ++ fresh_ctxs (Suc i) ps = ka_ctxs d ++ fresh_ctxs i (p # ps)"
    using Cons.prems dom_fresh_ctxs [of "Suc i" ps] by (simp add: fresh_ctxs_Cons map_add_upd_left)
  then show ?case using Cons by simp
qed

lemma fresh_ctxs_nth:
  assumes "distinct ptrs" and "j < length ptrs"
  shows "fresh_ctxs 0 ptrs (ptrs ! j) = Some (new_ctx (word_of_nat j))"
  using assms by (simp add: fresh_ctxs_def map_of_zip_nth)

lemma pool_start:
  assumes "distinct ptrs" and "length ptrs = nat q" and "0 < q" and "q < 2 ^ 31"
  shows "pool_ok (map_option ac_index \<circ> fresh_ctxs 0 ptrs) ptrs Map.empty q"
proof -
  let ?I = "map_option ac_index \<circ> fresh_ctxs 0 ptrs"
  have dom: "dom ?I = set ptrs" using dom_fresh_ctxs [of 0 ptrs] by (auto simp: dom_def)
  have at: "?I (ptrs ! j) = Some (word_of_nat j)" if "j < length ptrs" for j
    using fresh_ctxs_nth [OF assms(1) that] by (simp add: new_ctx_def)
  have inj: "x = y" if "?I x = Some i" "?I y = Some i" for x y i
  proof -
    have "x \<in> set ptrs" and "y \<in> set ptrs" using that dom by (auto simp: domI)
    then obtain a b where ab: "x = ptrs ! a" "a < length ptrs" "y = ptrs ! b" "b < length ptrs" by (metis in_set_conv_nth)
    then have "Some (word_of_nat a :: u32) = Some (word_of_nat b)" using that at [of a] at [of b] by metis
    then have "(word_of_nat a :: u32) = word_of_nat b" by simp
    moreover have "a < 2 ^ 32" "b < 2 ^ 32" using ab assms by auto
    ultimately have "a = b" by (simp add: word_of_nat_eq_iff take_bit_nat_eq_self)
    then show ?thesis using ab by simp
  qed
  show ?thesis
    unfolding pool_ok_def dom
  proof (intro conjI allI impI ballI)
    show "card (set ptrs) = nat q" using distinct_card [OF assms(1)] assms(2) by simp
    show "\<exists>i. ?I p = Some i \<and> Map.empty i = None" if "p \<in> set ptrs" for p using that dom by (auto simp: dom_def)
    show "p \<in> set ptrs \<or> Map.empty i = Some p" if "?I p = Some i" for p i using that dom by blast
  qed (use assms inj in auto)
qed

lemma set_aioctx_success:
  assumes "nvme_set_aioctx capable valid efd k = Some (ret, ctxid, k')" and "\<not> ret < 0"
    and "length (g_kaioctx_tb k) = AIOCTX_MAX" and "unat (aio_context_id k) < AIOCTX_MAX"
  obtains i where "i < AIOCTX_MAX" and "ctxid = Some (word_of_nat i)"
    and "g_kaioctx_tb k' = (g_kaioctx_tb k)[i := Some \<lparr>kx_eventfd = efd, kaiocb_list = []\<rparr>]"
    and "eventfd_count k' = eventfd_count k" and "kv_inflight k' = kv_inflight k"
proof -
  define i where "i = (if g_kaioctx_tb k ! unat (aio_context_id k) \<noteq> None then free_entry (g_kaioctx_tb k) else unat (aio_context_id k))"
  have "i < AIOCTX_MAX" and "ctxid = Some (word_of_nat i)"
    and "k' = k\<lparr>g_kaioctx_tb := (g_kaioctx_tb k)[i := Some \<lparr>kx_eventfd = efd, kaiocb_list = []\<rparr>],
      aio_context_id := (if Suc i = AIOCTX_MAX then 0 else word_of_nat (Suc i))\<rparr>"
    using assms unfolding nvme_set_aioctx_def i_def [symmetric] by (auto simp: Let_def split: if_splits)
  then show thesis using that by simp
qed

lemma kadi_start_inv:
  assumes "kadi_opened d"
  shows "kadi_inv capable (kadi_start n d)"
proof -
  obtain cap valid fd nsid efd ptrs d0 where op: "kadi_open cap valid fd nsid efd ptrs d0 = Some (0, d)"
    and ptrs: "length ptrs = nat (ka_qdepth d0)" "distinct ptrs" "0 < ka_qdepth d0" "ka_qdepth d0 < 2 ^ 31"
    and d0: "free_cmdctxs d0 = []" "pending_cmdctxs d0 = Map.empty" "ka_ctxs d0 = Map.empty" "0 \<le> efd"
    and k0: "length (g_kaioctx_tb (kernel d0)) = AIOCTX_MAX" "unat (aio_context_id (kernel d0)) < AIOCTX_MAX"
      "kv_inflight (kernel d0) = []" "eventfd_count (kernel d0) (word_of_int efd) = 0"
    using assms unfolding kadi_opened_def by blast
  define d3 where "d3 = d0\<lparr>ka_fd := fd, ka_nsid := nsid, free_cmdctxs := ptrs, ka_ctxs := fresh_ctxs 0 ptrs\<rparr>"
  have al: "alloc_ctxs 0 ptrs (d0\<lparr>ka_fd := fd, ka_nsid := nsid\<rparr>) = d3"
    using ptrs(2) d0 by (simp add: alloc_ctxs_eq d3_def)
  obtain ret ctxid k where set: "nvme_set_aioctx cap valid (word_of_int efd) (kernel d0) = Some (ret, ctxid, k)" and ok: "\<not> ret < 0"
    and d: "d = d3\<lparr>ka_eventfd := word_of_int efd, ka_ctxid := (case ctxid of None \<Rightarrow> 0 | Some i \<Rightarrow> i), kernel := k\<rparr>"
    using op ptrs(1) d0(4) al
    by (auto simp: kadi_open_def Let_def d3_def rc_def bind_eq_Some_conv split: if_splits)
  obtain i where i: "i < AIOCTX_MAX" "ctxid = Some (word_of_nat i)"
    and k: "g_kaioctx_tb k = (g_kaioctx_tb (kernel d0))[i := Some \<lparr>kx_eventfd = word_of_int efd, kaiocb_list = []\<rparr>]"
      "eventfd_count k = eventfd_count (kernel d0)" "kv_inflight k = kv_inflight (kernel d0)"
    by (rule set_aioctx_success [OF set ok k0(1,2)])
  have ui: "unat (word_of_nat i :: u32) = i" using i(1) by (simp add: unat_of_nat)
  have comp: "completed d = []" using i k k0(1) ui by (simp add: completed_def d)
  have und: "under (kadi_start n d) = []"
    using comp k k0(3) by (simp add: under_def kadi_start_def d poller_events_def)
  show ?thesis
  proof (rule kadi_invI)
    have "ctx_index d = map_option ac_index \<circ> fresh_ctxs 0 ptrs" by (rule ext) (simp add: ctx_index_def d d3_def)
    then show "ctxs_ok (obj (kadi_start n d))"
      using pool_start [OF ptrs(2,1,3,4)] d0 by (simp add: ctxs_ok_def kadi_start_def d d3_def)
    show "values_ok (obj (kadi_start n d))" using d0 by (simp add: values_ok_def kadi_start_def d d3_def)
    show "kernel_ok (obj (kadi_start n d))" using i k k0 ui by (simp add: kernel_ok_def kadi_start_def d)
    show "balanced (kadi_start n d)"
      using comp k(2) k0(4) by (simp add: balanced_def kadi_start_def d poller_count_def sum_list_replicate)
  qed (use und d0 in \<open>simp_all add: kadi_start_def d d3_def\<close>)
qed

lemma kadi_reach_inv: "kadi_reach capable n s \<Longrightarrow> kadi_inv capable s"
  by (induction rule: kadi_reach.induct) (auto intro: kadi_start_inv kadi_step_inv)

end
