(* ===== verification/Kv_Kadi_Properties.thy ===== *)
theory Kv_Kadi_Properties
  imports Kv_Kadi_Threads
begin

text \<open>
  What the kernel driver adapter does, on its own and with its threads: commands reach the drive
  with the key and the data of the request, every accepted request is called back exactly once,
  polls end and are never undefined, and the threads finish all requests in whatever order they run;
  and the places where it does something else.
\<close>

section \<open>Commands\<close>

lemma length_mem_read [simp]: "length (mem_read m a n) = n"
  by (simp add: mem_read_def)

lemma key_addr_set: "length (pc_key c) = 16 \<Longrightarrow> key_addr (set_key_addr a c) = a"
  using unsigned_less [of a, where ?'a = nat]
  by (simp add: key_addr_def set_key_addr_def mem_write_def)

lemma key_len_word:
  assumes "4 \<le> unat (n :: u16)" and "unat n \<le> 255"
  shows "unat (ucast n :: u32) = unat n" and "unat (ucast (ucast n - 1 :: u32) :: u8) + 1 = unat n"
proof -
  show n: "unat (ucast n :: u32) = unat n"
    unfolding unsigned_ucast_eq unsigned_take_bit_eq using assms by (intro take_bit_nat_eq_self) simp
  have "1 \<le> (ucast n :: u32)" using n assms by (simp add: word_le_nat_alt)
  then have "unat (ucast n - 1 :: u32) = unat n - 1" using n by (simp add: unat_sub)
  moreover have "unat n - 1 < 2 ^ 8" using assms by simp
  ultimately have "unat (ucast (ucast n - 1 :: u32) :: u8) = unat n - 1"
    unfolding unsigned_ucast_eq unsigned_take_bit_eq by (simp add: take_bit_nat_eq_self)
  then show "unat (ucast (ucast n - 1 :: u32) :: u8) + 1 = unat n" using assms by simp
qed

text \<open>The key a keyed command carries to the drive is the key of the request.\<close>

lemma keyed_request_key:
  assumes len: "4 \<le> unat (kk_length k)" "unat (kk_length k) \<le> 255"
    and cmd: "pc_key_length cmd = ucast (kk_length k)" "pc_key cmd = pc_key (put_key m k kv_cmd_zero)"
    and c: "nc_key c = replicate 16 0"
  shows "request_key m (keyed cmd c) = mem_read m (kk_key k) (unat (kk_length k))"
proof (cases "unat (kk_length k) > 16")
  case True
  have "key_addr cmd = key_addr (set_key_addr (kk_key k) kv_cmd_zero)" using True cmd(2) by (simp add: key_addr_def put_key_def)
  also have "\<dots> = kk_key k" by (rule key_addr_set) (simp add: kv_cmd_zero_def)
  finally have "key_addr cmd = kk_key k" .
  moreover have "(ucast (kk_length k) :: u32) \<noteq> 0" using key_len_word(1) [OF len] len(1) by (metis not_numeral_le_zero unat_0)
  ultimately show ?thesis using True cmd(1) key_len_word [OF len] by (simp add: request_key_def keyed_def Let_def)
next
  case False
  have "pc_key cmd = mem_write (replicate 16 0) 0 (mem_read m (kk_key k) (unat (kk_length k)))"
    using False cmd(2) by (simp add: put_key_def kv_cmd_zero_def)
  then have "take (unat (kk_length k)) (pc_key cmd) = mem_read m (kk_key k) (unat (kk_length k))" by (simp add: mem_write_def)
  then show ?thesis
    using False cmd(1) key_len_word [OF len] c by (simp add: request_key_def keyed_def Let_def mem_write_def)
qed

lemma option_byte: "ucast ((w :: u32) AND 0xff) = (ucast w :: u8)"
proof -
  have "w AND 0xff = take_bit 8 w" unfolding take_bit_eq_mask by (simp add: mask_eq_exp_minus_1)
  then show ?thesis by (intro bit_word_eqI) (simp add: bit_simps)
qed

text \<open>The size of a value in words, and the bytes of the last word that do not belong to it.\<close>

lemma value_words:
  fixes w :: u32
  defines "len \<equiv> if w mod 4 \<noteq> 0 then drop_bit 2 w + 1 else drop_bit 2 w"
    and "bytes \<equiv> if w mod 4 \<noteq> 0 then 4 - ucast (w mod 4) else 0 :: u8"
  shows "4 * unat len = unat w + unat bytes" and "unat (drop_bit 2 w) = unat w div 4"
proof -
  have m: "unat (w mod 4) = unat w mod 4" by (simp add: unat_mod)
  have lt: "unat w mod 4 < 4" by simp
  have u: "unat (ucast (w mod 4) :: u8) = unat w mod 4"
    unfolding unsigned_ucast_eq unsigned_take_bit_eq m by (rule take_bit_nat_eq_self) (rule less_trans [OF lt], simp)
  show d: "unat (drop_bit 2 w) = unat w div 4" 
  proof -
    have "take_bit 32 (unat w) = unat w" using unsigned_less [of w, where ?'a = nat] by (intro take_bit_nat_eq_self) simp
    then show ?thesis unfolding unsigned_drop_bit_eq by (simp add: drop_bit_eq_div)
  qed
  show "4 * unat len = unat w + unat bytes"
  proof (cases "w mod 4 = 0")
    case True
    then have "unat w mod 4 = 0" using m by simp
    then have "4 * (unat w div 4) = unat w" by presburger
    then show ?thesis using True d by (simp add: len_def bytes_def)
  next
    case False
    then have "unat w mod 4 \<noteq> 0" using m by (simp add: unat_eq_0 flip: m)
    have "unat w div 4 < 2 ^ 30" using unsigned_less [of w, where ?'a = nat] by simp
    then have "unat (drop_bit 2 w + 1) = unat w div 4 + 1" using d by (simp add: unat_word_ariths)
    moreover have "(ucast (w mod 4) :: u8) \<le> 4" using u lt by (simp add: word_le_nat_alt)
    then have "unat (4 - ucast (w mod 4) :: u8) = 4 - unat w mod 4" using u by (simp add: unat_sub)
    moreover have "4 * (unat w div 4 + 1) = unat w + (4 - unat w mod 4)" using \<open>unat w mod 4 \<noteq> 0\<close> by presburger
    ultimately show ?thesis using False by (simp add: len_def bytes_def)
  qed
qed

definition key_at :: "(u64 \<Rightarrow> byte) \<Rightarrow> kadi_key \<Rightarrow> byte list" where
  "key_at m k = mem_read m (kk_key k) (unat (kk_length k))"

definition short_key_ok :: "kadi_key \<Rightarrow> bool" where
  "short_key_ok k \<longleftrightarrow> 4 \<le> unat (kk_length k) \<and> unat (kk_length k) \<le> 255"

text \<open>The translation of each command.\<close>

definition value_fields :: "kadi_value \<Rightarrow> nvme_command \<Rightarrow> nvme_command" where
  "value_fields v c = c\<lparr>nc_offset := va_offset v,
     nc_value_len := (if va_length v mod 4 \<noteq> 0 then drop_bit 2 (va_length v) + 1 else drop_bit 2 (va_length v)),
     nc_invalid_byte := (if va_length v mod 4 \<noteq> 0 then 4 - ucast (va_length v mod 4) else 0)\<rparr>"

lemma put_key_fields:
  "pc_flags (put_key m k kv_cmd_zero) = 0" "pc_cdw4 (put_key m k kv_cmd_zero) = 0" "pc_cdw5 (put_key m k kv_cmd_zero) = 0"
  "pc_data_length (put_key m k kv_cmd_zero) = 0"
  by (simp_all add: put_key_def set_key_addr_def kv_cmd_zero_def)

lemma user_kv_store:
  assumes "short_key_ok k"
  shows "nvme_user_kv_cmd True (store_cmd nsid m ks k v opt) = Inr (keyed (store_cmd nsid m ks k v opt)
     (value_fields v (nvme_command_zero\<lparr>nc_opcode := nvme_cmd_kv_store, nc_flags := 0, nc_nsid := ucast ks\<rparr>)))"
  using assms key_len_word(1) [of "kk_length k"]
  by (simp add: nvme_user_kv_cmd_def is_kv_cmd_def store_cmd_def put_key_fields short_key_ok_def value_fields_def not_less)

lemma user_kv_retrieve:
  assumes "short_key_ok k"
  shows "nvme_user_kv_cmd True (retrieve_cmd nsid m ks k v) = Inr (keyed (retrieve_cmd nsid m ks k v)
     (nvme_command_zero\<lparr>nc_opcode := nvme_cmd_kv_retrieve, nc_flags := 0, nc_nsid := ucast ks, nc_offset := va_offset v,
       nc_value_len := drop_bit 2 (va_length v)\<rparr>))"
  using assms key_len_word(1) [of "kk_length k"]
  by (simp add: nvme_user_kv_cmd_def is_kv_cmd_def retrieve_cmd_def put_key_fields short_key_ok_def not_less)

lemma user_kv_delete:
  assumes "short_key_ok k"
  shows "nvme_user_kv_cmd True (delete_cmd nsid m ks k opt) = Inr (keyed (delete_cmd nsid m ks k opt)
     (nvme_command_zero\<lparr>nc_opcode := nvme_cmd_kv_delete, nc_flags := 0, nc_nsid := ucast ks\<rparr>))"
  using assms key_len_word(1) [of "kk_length k"]
  by (simp add: nvme_user_kv_cmd_def is_kv_cmd_def delete_cmd_def put_key_fields short_key_ok_def not_less)

lemma user_kv_exist:
  assumes "short_key_ok k"
  shows "nvme_user_kv_cmd True (exist_cmd nsid m ks k) = Inr (keyed (exist_cmd nsid m ks k)
     (nvme_command_zero\<lparr>nc_opcode := nvme_cmd_kv_exist, nc_flags := 0, nc_nsid := ucast ks\<rparr>))"
  using assms key_len_word(1) [of "kk_length k"]
  by (simp add: nvme_user_kv_cmd_def is_kv_cmd_def exist_cmd_def put_key_fields short_key_ok_def not_less)

lemma keyed_fields:
  "nc_opcode (rq_cmd (keyed cmd c)) = nc_opcode c" "nc_nsid (rq_cmd (keyed cmd c)) = nc_nsid c"
  "nc_option (rq_cmd (keyed cmd c)) = ucast (pc_cdw4 cmd)" "nc_offset (rq_cmd (keyed cmd c)) = nc_offset c"
  "nc_value_len (rq_cmd (keyed cmd c)) = nc_value_len c" "nc_invalid_byte (rq_cmd (keyed cmd c)) = nc_invalid_byte c"
  "rq_ubuffer (keyed cmd c) = pc_data_addr cmd" "rq_bufflen (keyed cmd c) = pc_data_length cmd"
  by (simp_all add: keyed_def Let_def option_byte)

text \<open>
  C11. A store, retrieve, delete or exist command of the adapter passes the checks of the kernel, and
  the drive gets the key of the request, whether it is in the command or at an address, the key
  space, the option, the offset and the buffer of the value. The size of a stored value is rounded
  up to words with the number of bytes in excess; that of a retrieve is rounded down.
\<close>

theorem kadi_commands_reach_drive:
  assumes "short_key_ok k"
  shows "(\<exists>rq. nvme_user_kv_cmd True (store_cmd nsid m ks k v opt) = Inr rq \<and> request_key m rq = key_at m k \<and>
       nc_opcode (rq_cmd rq) = nvme_cmd_kv_store \<and> nc_nsid (rq_cmd rq) = ucast ks \<and> nc_option (rq_cmd rq) = ucast opt \<and>
       nc_offset (rq_cmd rq) = va_offset v \<and> rq_ubuffer rq = va_value v \<and> rq_bufflen rq = va_length v \<and>
       4 * unat (nc_value_len (rq_cmd rq)) = unat (va_length v) + unat (nc_invalid_byte (rq_cmd rq)))
    \<and> (\<exists>rq. nvme_user_kv_cmd True (retrieve_cmd nsid m ks k v) = Inr rq \<and> request_key m rq = key_at m k \<and>
       nc_opcode (rq_cmd rq) = nvme_cmd_kv_retrieve \<and> nc_nsid (rq_cmd rq) = ucast ks \<and>
       nc_offset (rq_cmd rq) = va_offset v \<and> rq_ubuffer rq = va_value v \<and> rq_bufflen rq = va_length v \<and>
       unat (nc_value_len (rq_cmd rq)) = unat (va_length v) div 4)
    \<and> (\<exists>rq. nvme_user_kv_cmd True (delete_cmd nsid m ks k opt) = Inr rq \<and> request_key m rq = key_at m k \<and>
       nc_opcode (rq_cmd rq) = nvme_cmd_kv_delete \<and> nc_nsid (rq_cmd rq) = ucast ks \<and> nc_option (rq_cmd rq) = ucast opt)
    \<and> (\<exists>rq. nvme_user_kv_cmd True (exist_cmd nsid m ks k) = Inr rq \<and> request_key m rq = key_at m k \<and>
       nc_opcode (rq_cmd rq) = nvme_cmd_kv_exist \<and> nc_nsid (rq_cmd rq) = ucast ks)"
proof -
  have len: "4 \<le> unat (kk_length k)" "unat (kk_length k) \<le> 255" using assms(1) by (simp_all add: short_key_ok_def)
  have key: "request_key m (keyed cmd c) = key_at m k"
    if "pc_key_length cmd = ucast (kk_length k)" "pc_key cmd = pc_key (put_key m k kv_cmd_zero)" "nc_key c = replicate 16 0" for cmd c
    unfolding key_at_def by (rule keyed_request_key [OF len that])
  note run = user_kv_store [OF assms(1)] user_kv_retrieve [OF assms(1)] user_kv_delete [OF assms(1)] user_kv_exist [OF assms(1)]
  have words: "4 * unat (nc_value_len (value_fields v c)) = unat (va_length v) + unat (nc_invalid_byte (value_fields v c))" for c
    using value_words(1) [of "va_length v"] by (simp add: value_fields_def)
  have cmd: "pc_key_length (store_cmd nsid m ks k v opt) = ucast (kk_length k)"
    "pc_key (store_cmd nsid m ks k v opt) = pc_key (put_key m k kv_cmd_zero)"
    "pc_key_length (retrieve_cmd nsid m ks k v) = ucast (kk_length k)"
    "pc_key (retrieve_cmd nsid m ks k v) = pc_key (put_key m k kv_cmd_zero)"
    "pc_key_length (delete_cmd nsid m ks k opt) = ucast (kk_length k)"
    "pc_key (delete_cmd nsid m ks k opt) = pc_key (put_key m k kv_cmd_zero)"
    "pc_key_length (exist_cmd nsid m ks k) = ucast (kk_length k)"
    "pc_key (exist_cmd nsid m ks k) = pc_key (put_key m k kv_cmd_zero)"
    by (simp_all add: store_cmd_def retrieve_cmd_def delete_cmd_def exist_cmd_def)
  have zero: "nc_key nvme_command_zero = replicate 16 0" "nc_key (value_fields v c) = nc_key c" for c
    by (simp_all add: nvme_command_zero_def value_fields_def)
  show ?thesis
    unfolding run
    by (simp add: key cmd zero keyed_fields words value_words(2))
      (simp add: value_fields_def store_cmd_def retrieve_cmd_def delete_cmd_def nvme_command_zero_def)
qed

text \<open>
  The synchronous retrieve does not copy a key of at most 16 bytes into its command: the drive looks
  for a key of as many zero bytes.
\<close>

lemma retrieve_sync_key:
  assumes "short_key_ok k" and "unat (kk_length k) \<le> 16"
  shows "\<exists>rq. nvme_user_kv_cmd True (retrieve_sync_cmd nsid ks k v) = Inr rq \<and> request_key m rq = replicate (unat (kk_length k)) 0"
proof -
  have len: "4 \<le> unat (kk_length k)" "unat (kk_length k) \<le> 255" using assms(1) by (simp_all add: short_key_ok_def)
  show ?thesis
    using assms(2) len key_len_word [OF len]
    by (simp add: nvme_user_kv_cmd_def is_kv_cmd_def retrieve_sync_cmd_def kv_cmd_zero_def request_key_def keyed_def
        nvme_command_zero_def mem_write_def not_less min_def)
qed

text \<open>
  C34. The synchronous retrieve of the adapter reads the wrong pair: for a key of at most 16 bytes the
  drive is asked for the key of as many zero bytes, whatever the key is.
\<close>

theorem retrieve_sync_ignores_key:
  assumes "short_key_ok k" and "unat (kk_length k) \<le> 16"
    and "p_keys d key = Some k" and "p_values d val = Some v" and "key \<noteq> 0" and "val \<noteq> 0" and "kk_key k \<noteq> 0" and "va_value v \<noteq> 0"
  shows "\<exists>rq. nvme_user_kv_cmd True (retrieve_sync_cmd (ka_nsid d) ks k v) = Inr rq
    \<and> request_key (p_mem d) rq = replicate (unat (kk_length k)) 0
    \<and> kadi_kv_retrieve_sync True (Finished False 0 n bytes) ks key val d =
        Some (0, d\<lparr>p_mem := mem_put (p_mem d) (va_value v) (take (unat (va_length v)) bytes),
          p_values := (p_values d)(val \<mapsto> v\<lparr>va_actual_value_size := n, va_length := min n (va_length v)\<rparr>)\<rparr>)"
proof -
  obtain rq where rq: "nvme_user_kv_cmd True (retrieve_sync_cmd (ka_nsid d) ks k v) = Inr rq"
      "request_key (p_mem d) rq = replicate (unat (kk_length k)) 0"
    using retrieve_sync_key [OF assms(1,2)] by blast
  have "rq_ubuffer rq = va_value v" "rq_bufflen rq = va_length v"
    using rq(1) by (auto simp: nvme_user_kv_cmd_def is_kv_cmd_def retrieve_sync_cmd_def kv_cmd_zero_def set_key_addr_def keyed_def Let_def
        split: if_splits)
  then show ?thesis using rq assms(3-) by (simp add: kadi_kv_retrieve_sync_def nvme_submit_sync_def)
qed

text \<open>
  An asynchronous exist command that the kernel refuses is reported as accepted: the error code
  is returned as a truth value. Its callback is never called.
\<close>

lemma exist_refused_reported:
  assumes "ctxs_ok d" and "free_cmdctxs d \<noteq> []" and "p_keys d key = Some k" and "e < 0"
  shows "\<exists>d'. kadi_exist True (Some e) out ks key (Some cb) d = Returns (True, d') \<and> kernel d' = kernel d
    \<and> pending_cmdctxs d' = pending_cmdctxs d"
proof -
  obtain c where c: "ka_ctxs d (last (free_cmdctxs d)) = Some c" "pending_cmdctxs d (ac_index c) = None"
    using pool_okD(7) [OF assms(1) [unfolded ctxs_ok_def], of "last (free_cmdctxs d)"] assms(2) by (auto simp: ctx_index_def)
  obtain f a where cb: "cb = (f, a)" by (cases cb)
  have sub: "\<exists>x. x < 0 \<and> nvme_submit_aio True (Some e) cmd k' = (x, k')" for cmd k'
  proof (cases "nvme_user_kv_cmd True cmd")
    case (Inl z)
    then show ?thesis using user_kv_cmd_error [of True cmd "fst z" "snd z"] by (auto simp: nvme_submit_aio_def split: prod.splits)
  qed (use assms(4) in \<open>simp add: nvme_submit_aio_def\<close>)
  define c1 where "c1 = c\<lparr>ac_post_fn := f, ac_post_data := a\<rparr>"
  define d1 where "d1 = d\<lparr>free_cmdctxs := butlast (free_cmdctxs d), ka_ctxs := (ka_ctxs d)(last (free_cmdctxs d) \<mapsto> c1),
    pending_cmdctxs := (pending_cmdctxs d)(ac_index c \<mapsto> last (free_cmdctxs d))\<rparr>"
  define cmd where "cmd = (exist_cmd (ka_nsid d) (p_mem d) ks k)\<lparr>pc_ctxid := ka_ctxid d, pc_reqid := ucast (ac_index c)\<rparr>"
  have get: "get_cmd_ctx (Some cb) d = Returns (last (free_cmdctxs d), d1)"
    using c assms(2) cb by (simp add: get_cmd_ctx_def Let_def c1_def d1_def)
  obtain x where x: "x < 0" "nvme_submit_aio True (Some e) cmd (kernel d) = (x, kernel d)" using sub by blast
  define d2 where "d2 = d\<lparr>ka_ctxs := (ka_ctxs d)(last (free_cmdctxs d) \<mapsto> c1\<lparr>ac_cmd := cmd\<rparr>)\<rparr>"
  have "kadi_issue True (Some e) (last (free_cmdctxs d)) (\<lambda>c. c) (exist_cmd (ka_nsid d1) (p_mem d1) ks k) d1 = Returns (rc KV_ERR_SYS_IO, d2)"
    using x assms(2) c by (simp add: kadi_issue_def d1_def d2_def c1_def cmd_def [unfolded c1_def] release_cmd_ctx_def fun_upd_idem)
  then have "kadi_exist True (Some e) out ks key (Some cb) d = Returns (True, d2)"
    using assms(3) get by (simp add: kadi_exist_def rc_def)
  then show ?thesis by (auto simp: d2_def)
qed

section \<open>The threads\<close>

lemma pool_count:
  assumes "pool_ok I F P q"
  shows "length F + card (dom P) = nat q"
proof -
  note D = pool_okD [OF assms]
  let ?Q = "(\<lambda>i. the (P i)) ` dom P"
  have "inj_on (\<lambda>i. the (P i)) (dom P)"
  proof (rule inj_onI)
    fix x y assume "x \<in> dom P" "y \<in> dom P" "the (P x) = the (P y)"
    then obtain p where "P x = Some p" "P y = Some p" by auto
    then show "x = y" using D(8) [of x p] D(8) [of y p] by simp
  qed
  then have "card ?Q = card (dom P)" by (rule card_image)
  moreover have union: "dom I = set F \<union> ?Q"
  proof (intro subset_antisym subsetI)
    fix p assume "p \<in> dom I"
    then obtain i where "I p = Some i" by auto
    then have "p \<in> set F \<or> P i = Some p" by (rule D(6))
    then show "p \<in> set F \<union> ?Q" by (metis UnCI domI imageI option.sel)
  next
    fix p assume "p \<in> set F \<union> ?Q"
    then consider "p \<in> set F" | i where "P i = Some p" by auto
    then show "p \<in> dom I" using D(7) [of p] D(8) by cases (blast, metis domI)
  qed
  moreover have "set F \<inter> ?Q = {}" using pool_not_free [OF assms] by auto
  moreover have "finite ?Q" using D(1) union by simp
  ultimately show ?thesis using D(2) distinct_card [OF D(5)] by (simp add: card_Un_disjoint)
qed

text \<open>
  C5. Exactly once: whatever the threads do, the requests the kernel accepted are those that were
  processed and those under way, each once; the callbacks made are those of the processed requests,
  with the key, the value and the data of the request and the status of its completion; and every
  context is free or belongs to one request under way.
\<close>

theorem kadi_exactly_once:
  assumes "kadi_reach capable n s"
  shows "mset (submitted s) = mset (map fst (delivered s)) + mset (map (ctx_of (obj s)) (kadi_ids s))
    \<and> calls s = concat (map (\<lambda>(c, e). call_post_fn c (io_result c e)) (delivered s))
    \<and> distinct (kadi_ids s) \<and> length (free_cmdctxs (obj s)) + length (under s) = nat (ka_qdepth (obj s))"
proof -
  note D = kadi_invD [OF kadi_reach_inv [OF assms]]
  have "length (under s) = card (dom (pending_cmdctxs (obj s)))" using D(4,5) by (metis distinct_card length_map)
  then show ?thesis using D(4,8,9) pool_count [OF D(1) [unfolded ctxs_ok_def]] by simp
qed

lemma poll_get_defined:
  assumes inv: "kadi_inv capable s" and j: "j < length (pollers s)" "pollers s ! j = Loop m" "m \<noteq> 0"
  shows "\<exists>es k. nvme_get_ioevents capable (word_of_int (check_nr m (obj s))) (ka_ctxid (obj s)) (kernel (obj s)) = Some (0, es, k)
    \<and> length es = nat (check_nr m (obj s)) \<and> 0 < check_nr m (obj s)"
proof -
  obtain x where "unat (ka_ctxid (obj s)) < length (g_kaioctx_tb (kernel (obj s)))"
      "g_kaioctx_tb (kernel (obj s)) ! unat (ka_ctxid (obj s)) = Some x"
    by (rule kernel_ok_entry [OF kadi_invD(3) [OF inv]])
  then have "nvme_get_ioevents capable (word_of_int (check_nr m (obj s))) (ka_ctxid (obj s)) (kernel (obj s)) \<noteq> None"
    by (simp add: nvme_get_ioevents_def find_kaioctx_def)
  then obtain ret es k where
    "nvme_get_ioevents capable (word_of_int (check_nr m (obj s))) (ka_ctxid (obj s)) (kernel (obj s)) = Some (ret, es, k)"
    by auto
  with step_poll_get(2,3,4) [OF inv j this] show ?thesis by blast
qed

text \<open>
  C16. A polling thread is never undefined: it asks the kernel for at least one event, gets as many as
  it asks for, and each of them has its pending context.
\<close>

theorem kadi_poll_safe:
  assumes "kadi_reach capable n s" and "j < length (pollers s)"
  shows "case pollers s ! j of
      Idle \<Rightarrow> True
    | Loop m \<Rightarrow> m \<noteq> 0 \<longrightarrow> (\<exists>es k. nvme_get_ioevents capable (word_of_int (check_nr m (obj s))) (ka_ctxid (obj s)) (kernel (obj s))
          = Some (0, es, k) \<and> length es = nat (check_nr m (obj s)) \<and> 0 < check_nr m (obj s))
    | Events m es \<Rightarrow> es \<noteq> [] \<longrightarrow> poll_event (hd es) (obj s) \<noteq> None"
proof -
  note inv = kadi_reach_inv [OF assms(1)]
  have event: "poll_event e (obj s) \<noteq> None" if ev: "pollers s ! j = Events m (e # es)" for m e es
  proof -
    obtain p where p: "pending_cmdctxs (obj s) (reqid e) = Some p" by (rule poller_event_pending [OF inv assms(2) ev])
    show ?thesis by (rule poll_event_defined [OF kadi_invD(1,2) [OF inv] p]) simp
  qed
  show ?thesis
  proof (cases "pollers s ! j")
    case (Loop m)
    then show ?thesis using poll_get_defined [OF inv assms(2) Loop] by simp
  next
    case (Events m es)
    then show ?thesis using event [of m "hd es" "tl es"] by (cases es) auto
  qed simp
qed

text \<open>The steps the system still has to make.\<close>

definition poller_work :: "poller \<Rightarrow> nat" where
  "poller_work p = (case p of Idle \<Rightarrow> 0 | Loop n \<Rightarrow> 1 | Events n es \<Rightarrow> length es + 2)"

definition kadi_work :: "kadi_sys \<Rightarrow> nat" where
  "kadi_work s = 7 * length (kv_inflight (kernel (obj s))) + 3 * length (completed (obj s)) + 3 * unsignalled s
     + 2 * unat (eventfd_count (kernel (obj s)) (ka_eventfd (obj s))) + sum_list (map poller_work (pollers s))"

lemma poller_work_update:
  "j < length ps \<Longrightarrow> sum_list (map poller_work (ps[j := y])) + poller_work (ps ! j) = sum_list (map poller_work ps) + poller_work y"
  by (rule sum_list_update_at)

lemma complete_aio_effect:
  assumes "kernel_ok d" and "kv_complete_aio i status result (kernel d) = Some (queued, k)"
  shows "queued" and "Suc (length (kv_inflight k)) = length (kv_inflight (kernel d))" and "eventfd_count k = eventfd_count (kernel d)"
    and "length (completed (d\<lparr>kernel := k, p_mem := m\<rparr>)) = Suc (length (completed d))"
proof -
  obtain x where x: "unat (ka_ctxid d) < length (g_kaioctx_tb (kernel d))"
      "g_kaioctx_tb (kernel d) ! unat (ka_ctxid d) = Some x" "kaiocb_list x = completed d"
    by (rule kernel_ok_entry [OF assms(1)])
  let ?b = "kv_inflight (kernel d) ! i"
  have i: "i < length (kv_inflight (kernel d))" using assms(2) by (auto simp: kv_complete_aio_def split: if_splits)
  then have b: "ev_ctxid (kb_event ?b) = ka_ctxid d" using assms(1) by (simp add: kernel_ok_def)
  have "queued \<and> k = (kernel d)\<lparr>kv_inflight := take i (kv_inflight (kernel d)) @ drop (Suc i) (kv_inflight (kernel d)),
      g_kaioctx_tb := (g_kaioctx_tb (kernel d))[unat (ka_ctxid d) :=
        Some (x\<lparr>kaiocb_list := completed d @ [(kb_event ?b)\<lparr>ev_result := result, ev_status := status\<rparr>]\<rparr>)]\<rparr>"
    using assms(2) i x b by (auto simp: kv_complete_aio_def set_aioctx_event_def find_kaioctx_def Let_def)
  then have q: queued and k: "k = (kernel d)\<lparr>kv_inflight := take i (kv_inflight (kernel d)) @ drop (Suc i) (kv_inflight (kernel d)),
      g_kaioctx_tb := (g_kaioctx_tb (kernel d))[unat (ka_ctxid d) :=
        Some (x\<lparr>kaiocb_list := completed d @ [(kb_event ?b)\<lparr>ev_result := result, ev_status := status\<rparr>]\<rparr>)]\<rparr>" by auto
  show queued by (rule q)
  show "Suc (length (kv_inflight k)) = length (kv_inflight (kernel d))" using i by (simp add: k)
  show "eventfd_count k = eventfd_count (kernel d)" by (simp add: k)
  have "completed (d\<lparr>kernel := k, p_mem := m\<rparr>) = completed d @ [(kb_event ?b)\<lparr>ev_result := result, ev_status := status\<rparr>]"
    unfolding completed_def [of "d\<lparr>kernel := k, p_mem := m\<rparr>"] using x(1) by (simp add: k)
  then show "length (completed (d\<lparr>kernel := k, p_mem := m\<rparr>)) = Suc (length (completed d))" by simp
qed

lemma kadi_sys_step_work:
  assumes "kadi_sys_step capable s s'" and inv: "kadi_inv capable s"
  shows "kadi_work s' < kadi_work s" and "submitted s' = submitted s" and "length (pollers s') = length (pollers s)"
proof -
  have "kadi_work s' < kadi_work s \<and> submitted s' = submitted s \<and> length (pollers s') = length (pollers s)"
    using assms(1)
  proof (cases rule: kadi_sys_step.cases)
    case (drive i status result queued k m)
    then show ?thesis
      using complete_aio_effect(1,2,3,4) [OF kadi_invD(3) [OF inv] drive(2)] by (simp add: kadi_work_def)
  next
    case signal
    have "unat (eventfd_count (kernel (obj s)) (ka_eventfd (obj s))) < 2 ^ 31"
      using kadi_invD(7) [OF inv] completed_bound [OF inv] under_bound(2) [OF inv] by (simp add: balanced_def)
    then show ?thesis using signal by (simp add: kadi_work_def completed_def eventfd_signal_def unat_suc_bound)
  next
    case (poll_read j n)
    have "0 < unat n" using poll_read(5) by (simp add: unat_gt_0)
    then show ?thesis using poll_read(1-4) poller_work_update [OF poll_read(2), of "Loop n"]
      by (simp add: kadi_work_def completed_def poller_work_def)
  next
    case (poll_get j n ret es k)
    define c where "c = check_nr n (obj s)"
    have ret: "ret = 0" "length es = nat c" "0 < c"
      using step_poll_get(2,3,4) [OF inv poll_get(2,3,4,5)] by (simp_all add: c_def)
    obtain x where x: "unat (ka_ctxid (obj s)) < length (g_kaioctx_tb (kernel (obj s)))"
        "g_kaioctx_tb (kernel (obj s)) ! unat (ka_ctxid (obj s)) = Some x" "kaiocb_list x = completed (obj s)"
      by (rule kernel_ok_entry [OF kadi_invD(3) [OF inv]])
    have "kv_inflight k = kv_inflight (kernel (obj s)) \<and> eventfd_count k = eventfd_count (kernel (obj s))
        \<and> length es + length (completed ((obj s)\<lparr>kernel := k\<rparr>)) = length (completed (obj s))"
      using poll_get(5) ret(1) x by (auto simp: nvme_get_ioevents_def find_kaioctx_def completed_def split: if_splits)
    moreover obtain e0 es0 where es: "es = e0 # es0" using ret by (cases es) auto
    ultimately show ?thesis
      using poll_get(1) ret(1) poller_work_update [OF poll_get(2), of "Events (n - word_of_int (check_nr n (obj s))) es"] poll_get(3)
      by (simp add: kadi_work_def poller_work_def es)
  next
    case (poll_one j n e es cs d')
    have "kernel d' = kernel (obj s) \<and> ka_eventfd d' = ka_eventfd (obj s) \<and> ka_ctxid d' = ka_ctxid (obj s)"
      using poll_one(4) by (auto simp: poll_event_def release_cmd_ctx_def bind_eq_Some_conv)
    then show ?thesis using poll_one(1-3) poller_work_update [OF poll_one(2), of "Events n es"]
      by (simp add: kadi_work_def completed_def poller_work_def)
  next
    case (poll_next j n)
    then show ?thesis using poller_work_update [OF poll_next(2), of "Loop n"] by (simp add: kadi_work_def poller_work_def)
  next
    case (poll_done j)
    then show ?thesis using poller_work_update [OF poll_done(2), of Idle] by (simp add: kadi_work_def poller_work_def)
  qed
  then show "kadi_work s' < kadi_work s" and "submitted s' = submitted s" and "length (pollers s') = length (pollers s)" by auto
qed

lemma kadi_sys_progress:
  assumes inv: "kadi_inv capable s" and "0 < length (pollers s)" and stuck: "\<And>t. \<not> kadi_sys_step capable s t"
  shows "under s = []"
proof -
  note D = kadi_invD [OF inv]
  have none: "kv_inflight (kernel (obj s)) = []"
  proof (rule ccontr)
    assume "kv_inflight (kernel (obj s)) \<noteq> []"
    then have "0 < length (kv_inflight (kernel (obj s)))" by simp
    moreover obtain x where "unat (ka_ctxid (obj s)) < length (g_kaioctx_tb (kernel (obj s)))"
        "g_kaioctx_tb (kernel (obj s)) ! unat (ka_ctxid (obj s)) = Some x"
      by (rule kernel_ok_entry [OF D(3)])
    moreover have "ev_ctxid (kb_event (kv_inflight (kernel (obj s)) ! 0)) = ka_ctxid (obj s)"
      using D(3) calculation(1) by (simp add: kernel_ok_def)
    ultimately have "kv_complete_aio 0 0 0 (kernel (obj s)) \<noteq> None"
      by (simp add: kv_complete_aio_def set_aioctx_event_def find_kaioctx_def Let_def)
    then show False using stuck kadi_sys_step.drive by fastforce
  qed
  have quiet: "unsignalled s = 0" using stuck kadi_sys_step.signal by blast
  have idle: "p = Idle" if p: "p \<in> set (pollers s)" for p
  proof -
    obtain j where j: "j < length (pollers s)" "pollers s ! j = p" using p by (metis in_set_conv_nth)
    show ?thesis
    proof (cases p)
      case (Loop m)
      show ?thesis
      proof (cases "m = 0")
        case True
        then show ?thesis using stuck kadi_sys_step.poll_done [OF j(1)] j(2) Loop by blast
      next
        case False
        have pj: "pollers s ! j = Loop m" using j(2) Loop by simp
        show ?thesis using poll_get_defined [OF inv j(1) pj False] stuck kadi_sys_step.poll_get [OF j(1) pj False] by blast
      qed
    next
      case (Events m es)
      show ?thesis
      proof (cases es)
        case Nil
        then show ?thesis using stuck kadi_sys_step.poll_next [OF j(1)] j(2) Events by blast
      next
        case (Cons e es')
        then have ev: "pollers s ! j = Events m (e # es')" using j(2) Events by simp
        obtain p' where p': "pending_cmdctxs (obj s) (reqid e) = Some p'" by (rule poller_event_pending [OF inv j(1) ev])
        have "poll_event e (obj s) \<noteq> None" by (rule poll_event_defined [OF D(1,2) p']) simp
        then obtain cs d' where "poll_event e (obj s) = Some (cs, d')" by auto
        from kadi_sys_step.poll_one [OF j(1) ev this] show ?thesis using stuck by blast
      qed
    qed simp
  qed
  have "pollers s ! 0 = Idle" using idle assms(2) by simp
  then have zero: "eventfd_count (kernel (obj s)) (ka_eventfd (obj s)) = 0"
    using stuck kadi_sys_step.poll_read [OF assms(2) _ refl] by blast
  have all_idle: "pollers s = replicate (length (pollers s)) Idle" using idle by (simp add: replicate_eqI)
  have "sum_list (map poller_count (pollers s)) = 0" by (subst all_idle) (simp add: poller_count_def sum_list_replicate)
  then have "length (completed (obj s)) = 0" using D(7) quiet zero unfolding balanced_def by (simp only: unat_0)
  then have "completed (obj s) = []" by simp
  moreover have "concat (map poller_events (pollers s)) = []" by (subst all_idle) (simp add: poller_events_def)
  ultimately show ?thesis using none by (simp add: under_def)
qed

lemma kadi_sys_run:
  assumes "(kadi_sys_step capable ^^ k) s s'" and "kadi_inv capable s"
  shows "kadi_inv capable s' \<and> k + kadi_work s' \<le> kadi_work s \<and> submitted s' = submitted s \<and> length (pollers s') = length (pollers s)"
  using assms
proof (induction k arbitrary: s')
  case (Suc k)
  then obtain t where t: "(kadi_sys_step capable ^^ k) s t" "kadi_sys_step capable t s'" by auto
  then have IH: "kadi_inv capable t \<and> k + kadi_work t \<le> kadi_work s \<and> submitted t = submitted s \<and> length (pollers t) = length (pollers s)"
    using Suc by blast
  then show ?case using kadi_sys_step_work [OF t(2)] kadi_sys_step_inv [OF t(2)] by fastforce
qed simp

lemma kadi_step_pollers: "kadi_step capable s s' \<Longrightarrow> length (pollers s') = length (pollers s)"
  by (auto elim!: kadi_step.cases kadi_sys_step.cases)

lemma kadi_reach_pollers: "kadi_reach capable n s \<Longrightarrow> length (pollers s) = n"
  by (induction rule: kadi_reach.induct) (auto simp: kadi_start_def kadi_step_pollers)

text \<open>
  C9. Every request is finished: from any reachable state the drive, the kernel and the polling
  threads can only make a bounded number of steps, in whatever order, and when none of them has a
  step left, every accepted request was processed, its callback was called if it has one, and all
  contexts are free.
\<close>

theorem kadi_drains:
  assumes "kadi_reach capable n s" and "0 < n" and "(kadi_sys_step capable ^^ k) s s'"
  shows "k \<le> kadi_work s
    \<and> ((\<exists>t. kadi_sys_step capable s' t) \<or>
       mset (map fst (delivered s')) = mset (submitted s) \<and>
       calls s' = concat (map (\<lambda>(c, e). call_post_fn c (io_result c e)) (delivered s')) \<and>
       length (free_cmdctxs (obj s')) = nat (ka_qdepth (obj s')))"
proof -
  have run: "kadi_inv capable s'" "k + kadi_work s' \<le> kadi_work s" "submitted s' = submitted s" "0 < length (pollers s')"
    using kadi_sys_run [OF assms(3) kadi_reach_inv [OF assms(1)]] kadi_reach_pollers [OF assms(1)] assms(2) by auto
  note D = kadi_invD [OF run(1)]
  show ?thesis
  proof (cases "\<exists>t. kadi_sys_step capable s' t")
    case False
    then have "under s' = []" using kadi_sys_progress [OF run(1,4)] by blast
    moreover from this have "card (dom (pending_cmdctxs (obj s'))) = 0" using D(5) by simp
    ultimately show ?thesis using D(8,9) run pool_count [OF D(1) [unfolded ctxs_ok_def]] by simp
  qed (use run in simp)
qed

section \<open>A poll without interruption\<close>

text \<open>\<open>poll_events\<close> and \<open>kadi_poll_loop\<close> are runs of the steps of one polling thread.\<close>

lemma poll_events_run:
  assumes "kadi_inv capable s" and "j < length (pollers s)" and "pollers s ! j = Events m es"
  shows "\<exists>cs s'. poll_events es (obj s) = Some (cs, obj s') \<and> (kadi_sys_step capable)\<^sup>*\<^sup>* s s' \<and> kadi_inv capable s' \<and>
    pollers s' = (pollers s)[j := Events m []] \<and> calls s' = calls s @ cs \<and>
    length (delivered s') = length (delivered s) + length es"
  using assms
proof (induction es arbitrary: s)
  case Nil
  then have "pollers s = (pollers s)[j := Events m []]" by (metis list_update_id)
  then show ?case using Nil(1) by (intro exI [of _ "[]"] exI [of _ s]) simp
next
  case (Cons e es)
  obtain p where p: "pending_cmdctxs (obj s) (reqid e) = Some p" by (rule poller_event_pending [OF Cons(2,3,4)])
  have "poll_event e (obj s) \<noteq> None" by (rule poll_event_defined [OF kadi_invD(1,2) [OF Cons(2)] p]) simp
  then obtain cs d where ev: "poll_event e (obj s) = Some (cs, d)" by auto
  define t where "t = s\<lparr>obj := d, pollers := (pollers s)[j := Events m es],
      delivered := delivered s @ [(ctx_of (obj s) (reqid e), e)], calls := calls s @ cs\<rparr>"
  have step: "kadi_sys_step capable s t" unfolding t_def by (rule kadi_sys_step.poll_one [OF Cons(3,4) ev])
  have t: "kadi_inv capable t" "j < length (pollers t)" "pollers t ! j = Events m es"
    using kadi_sys_step_inv [OF step Cons(2)] Cons(3) by (simp_all add: t_def)
  obtain cs' s' where run: "poll_events es (obj t) = Some (cs', obj s')" "(kadi_sys_step capable)\<^sup>*\<^sup>* t s'" "kadi_inv capable s'"
      "pollers s' = (pollers t)[j := Events m []]" "calls s' = calls t @ cs'" "length (delivered s') = length (delivered t) + length es"
    using Cons(1) [OF t] by blast
  have "poll_events (e # es) (obj s) = Some (cs @ cs', obj s')" using ev run(1) by (simp add: t_def)
  moreover have "(kadi_sys_step capable)\<^sup>*\<^sup>* s s'" using step run(2) by (rule converse_rtranclp_into_rtranclp)
  ultimately show ?case using run(3-6) by (intro exI [of _ "cs @ cs'"] exI [of _ s']) (simp add: t_def)
qed

lemma poll_loop_run:
  assumes "kadi_inv capable s" and "j < length (pollers s)" and "pollers s ! j = Loop m"
  shows "\<exists>cs s'. kadi_poll_loop capable m num acc (obj s) = Some (0, num + word_of_nat (unat m), acc @ cs, obj s') \<and>
    (kadi_sys_step capable)\<^sup>*\<^sup>* s s' \<and> calls s' = calls s @ cs \<and> length (delivered s') = length (delivered s) + unat m"
  using assms
proof (induction "unat m" arbitrary: m s num acc rule: less_induct)
  case less
  show ?case
  proof (cases "m = 0")
    case True
    then show ?thesis by (intro exI [of _ "[]"] exI [of _ s]) (simp add: kadi_poll_loop.simps)
  next
    case False
    define c where "c = check_nr m (obj s)"
    obtain es k where get: "nvme_get_ioevents capable (word_of_int c) (ka_ctxid (obj s)) (kernel (obj s)) = Some (0, es, k)"
        "length es = nat c" "0 < c"
      using poll_get_defined [OF less(2,3,4) False] by (auto simp: c_def)
    have c: "c = int (min (unat m) 128)" using check_nr_eq(1) [OF less(2,3,4)] by (simp add: c_def)
    define m' where "m' = m - word_of_int c"
    have "unat (word_of_int c :: u64) = nat c" unfolding c by (simp add: unat_of_nat)
    moreover from this have "word_of_int c \<le> m" unfolding word_le_nat_alt c by simp
    ultimately have m': "unat m' = unat m - nat c" unfolding m'_def by (simp only: unat_sub)
    have cm: "nat c \<le> unat m" "0 < nat c" using c get(3) by auto
    define t where "t = s\<lparr>obj := (obj s)\<lparr>kernel := k\<rparr>, pollers := (pollers s)[j := Events m' es]\<rparr>"
    have step: "kadi_sys_step capable s t"
      using kadi_sys_step.poll_get [OF less(3,4) False get(1) [unfolded c_def]] by (simp add: t_def m'_def c_def)
    have t: "kadi_inv capable t" "j < length (pollers t)" "pollers t ! j = Events m' es"
      using kadi_sys_step_inv [OF step less(2)] less(3) by (simp_all add: t_def)
    obtain cs1 s1 where r1: "poll_events es (obj t) = Some (cs1, obj s1)" "(kadi_sys_step capable)\<^sup>*\<^sup>* t s1" "kadi_inv capable s1"
        "pollers s1 = (pollers t)[j := Events m' []]" "calls s1 = calls t @ cs1" "length (delivered s1) = length (delivered t) + length es"
      using poll_events_run [OF t] by blast
    have j1: "j < length (pollers s1)" "pollers s1 ! j = Events m' []" using r1(4) t(2) by simp_all
    define s2 where "s2 = s1\<lparr>pollers := (pollers s1)[j := Loop m']\<rparr>"
    have step2: "kadi_sys_step capable s1 s2" unfolding s2_def by (rule kadi_sys_step.poll_next [OF j1])
    have s2: "kadi_inv capable s2" "j < length (pollers s2)" "pollers s2 ! j = Loop m'"
      using kadi_sys_step_inv [OF step2 r1(3)] j1(1) by (simp_all add: s2_def)
    have "unat m' < unat m" using m' cm by simp
    from less(1) [OF this s2, of "num + word_of_int c" "acc @ cs1"]
    obtain cs2 s' where r2: "kadi_poll_loop capable m' (num + word_of_int c) (acc @ cs1) (obj s2) =
          Some (0, num + word_of_int c + word_of_nat (unat m'), (acc @ cs1) @ cs2, obj s')"
        "(kadi_sys_step capable)\<^sup>*\<^sup>* s2 s'" "calls s' = calls s2 @ cs2" "length (delivered s') = length (delivered s2) + unat m'" by blast
    have sum: "num + word_of_int c + word_of_nat (unat m') = num + word_of_nat (unat m)"
    proof -
      have "(word_of_int c :: u32) + word_of_nat (unat m') = word_of_nat (nat c + unat m')" using cm by simp
      then show ?thesis using m' cm by simp
    qed
    have "kadi_poll_loop capable m num acc (obj s) = Some (0, num + word_of_nat (unat m), acc @ cs1 @ cs2, obj s')"
      using False get(1) r1(1) r2(1) sum
      by (subst kadi_poll_loop.simps) (simp add: c_def [symmetric] m'_def [symmetric] t_def s2_def)
    moreover have "(kadi_sys_step capable)\<^sup>*\<^sup>* s s'"
      using step r1(2) step2 r2(2) by (meson converse_rtranclp_into_rtranclp rtranclp_trans)
    moreover have "length (delivered s') = length (delivered s) + unat m"
      using r2(4) r1(6) get(2) m' cm by (simp add: s2_def t_def)
    ultimately show ?thesis using r2(3) r1(5) by (intro exI [of _ "cs1 @ cs2"] exI [of _ s']) (simp add: s2_def t_def)
  qed
qed

text \<open>
  C17. \<open>kadi_poll_completion\<close> returns: its loop ends after the events the counter announced, each of them
  processed, and the number of events it reports is added to what the caller passed in. What it does
  is a run of the steps of the system of drive, kernel and polling threads.
\<close>

theorem poll_completion_returns:
  assumes "kadi_reach capable n s" and "j < length (pollers s)" and "pollers s ! j = Idle"
  defines "signals \<equiv> eventfd_count (kernel (obj s)) (ka_eventfd (obj s))"
  shows "\<exists>cs s'. kadi_poll_completion capable False num (obj s) = Some (0, if signals = 0 then 0 else num + word_of_nat (unat signals), cs, obj s')
    \<and> (kadi_sys_step capable)\<^sup>*\<^sup>* s s' \<and> calls s' = calls s @ cs \<and> length (delivered s') = length (delivered s) + unat signals"
proof (cases "signals = 0")
  case True
  then show ?thesis by (intro exI [of _ "[]"] exI [of _ s]) (simp add: kadi_poll_completion_def signals_def)
next
  case False
  note inv = kadi_reach_inv [OF assms(1)]
  define t where "t = s\<lparr>obj := (obj s)\<lparr>kernel := (kernel (obj s))
      \<lparr>eventfd_count := (eventfd_count (kernel (obj s)))(ka_eventfd (obj s) := 0)\<rparr>\<rparr>, pollers := (pollers s)[j := Loop signals]\<rparr>"
  have step: "kadi_sys_step capable s t"
    unfolding t_def using False by (intro kadi_sys_step.poll_read [OF assms(2,3)]) (simp_all add: signals_def)
  have t: "kadi_inv capable t" "j < length (pollers t)" "pollers t ! j = Loop signals"
    using kadi_sys_step_inv [OF step inv] assms(2) by (simp_all add: t_def)
  obtain cs s' where run: "kadi_poll_loop capable signals num [] (obj t) = Some (0, num + word_of_nat (unat signals), [] @ cs, obj s')"
      "(kadi_sys_step capable)\<^sup>*\<^sup>* t s'" "calls s' = calls t @ cs" "length (delivered s') = length (delivered t) + unat signals"
    using poll_loop_run [OF t] by blast
  have "(kadi_sys_step capable)\<^sup>*\<^sup>* s s'" using step run(2) by (rule converse_rtranclp_into_rtranclp)
  then show ?thesis using run False
    by (intro exI [of _ cs] exI [of _ s']) (simp add: kadi_poll_completion_def signals_def [symmetric] t_def)
qed

section \<open>Reading a whole iteration\<close>

definition read_size :: "kv_outcome \<Rightarrow> int" where
  "read_size out = (case out of Finished cancelled status n bytes \<Rightarrow> int (unat (n AND 0xffff)) | Refused e \<Rightarrow> 0)"

text \<open>The buffers of a sequence of reads that have something in them.\<close>

definition read_buffers :: "(nat \<Rightarrow> u64) \<Rightarrow> nat \<Rightarrow> kv_outcome list \<Rightarrow> (u64 \<times> int) list" where
  "read_buffers alloc n outs = filter (\<lambda>(a, size). size > 0) (zip (map alloc [n..<n + length outs]) (map read_size outs))"

lemma read_buffers_Cons:
  "read_buffers alloc n (out # outs) = (if read_size out > 0 then [(alloc n, read_size out)] else []) @ read_buffers alloc (Suc n) outs"
proof -
  have "[n..<n + length (out # outs)] = n # [Suc n..<Suc n + length outs]" by (simp add: upt_conv_Cons del: upt_Suc)
  then show ?thesis unfolding read_buffers_def by (simp del: upt_Suc)
qed

lemma iter_read_finished:
  assumes "read_size (Finished False status n bytes) \<le> ic_buflen ctx"
  shows "\<exists>m. iter_read True (Finished False status n bytes) ctx d =
    (sint (ucast status :: u32), ctx\<lparr>ic_byteswritten := read_size (Finished False status n bytes), ic_end := (status = 0x393)\<rparr>, d\<lparr>p_mem := m\<rparr>)"
proof -
  have "(ucast status = (0x393 :: u32)) = (status = 0x393)"
  proof
    assume "ucast status = (0x393 :: u32)"
    then have "(ucast (ucast status :: u32) :: u16) = ucast (0x393 :: u32)" by simp
    moreover have "(ucast (ucast status :: u32) :: u16) = status" by (rule bit_word_eqI) (simp add: bit_simps)
    ultimately show "status = 0x393" by simp
  qed simp
  then show ?thesis
    using assms by (auto simp: iter_read_def nvme_submit_sync_def nvme_user_kv_cmd_def is_kv_cmd_def iter_read_cmd_def kv_cmd_zero_def
        unkeyed_def read_size_def)
qed

lemma readall_loop_returns:
  assumes "\<And>i. i < length outs \<Longrightarrow> drive (v + i) = (outs ! i, Suc (v + i))"
    and "list_all (\<lambda>out. \<exists>n bytes. out = Finished False 0 n bytes \<and> read_size out \<le> ic_buflen ctx) (butlast outs)"
    and "outs \<noteq> []" and "last outs = Finished False 0x393 n bytes" and "read_size (last outs) \<le> ic_buflen ctx" and "\<not> ic_end ctx"
  shows "\<exists>ctx' d'. readall_loop True drive alloc k ctx acc v d = Some (ctx', acc @ read_buffers alloc k outs, v + length outs, d')
    \<and> ic_end ctx'"
  using assms
proof (induction outs arbitrary: v k ctx acc d)
  case (Cons out outs)
  let ?ctx = "ctx\<lparr>ic_byteswritten := 0, ic_buf := alloc k\<rparr>"
  let ?d = "d\<lparr>p_mem := mem_put (p_mem d) (alloc k) (replicate (nat (ic_buflen ctx)) 0)\<rparr>"
  obtain st n' bytes' where out: "out = Finished False st n' bytes'" and size: "read_size out \<le> ic_buflen ctx"
    and last: "st = 0x393 \<longleftrightarrow> outs = []"
  proof (cases "outs = []")
    case True then show thesis using that Cons.prems by simp
  next
    case False then show thesis using that Cons.prems(2) by (auto simp: butlast.simps)
  qed
  obtain m where rd: "iter_read True out ?ctx ?d = (sint (ucast st :: u32), ?ctx\<lparr>ic_byteswritten := read_size out, ic_end := (st = 0x393)\<rparr>, ?d\<lparr>p_mem := m\<rparr>)"
    using iter_read_finished [of st n' bytes' ?ctx ?d] size out by auto
  have drv: "drive v = (out, Suc v)" using Cons.prems(1) [of 0] by simp
  define ctx2 where "ctx2 = ?ctx\<lparr>ic_byteswritten := read_size out, ic_end := (st = 0x393)\<rparr>"
  define acc2 where "acc2 = (if read_size out > 0 then acc @ [(alloc k, read_size out)] else acc)"
  have unfold: "readall_loop True drive alloc k ctx acc v d = readall_loop True drive alloc (Suc k) ctx2 acc2 (Suc v) (?d\<lparr>p_mem := m\<rparr>)"
    using Cons.prems(6) drv rd by (subst readall_loop.simps) (simp add: ctx2_def acc2_def Let_def)
  have bufs: "acc @ read_buffers alloc k (out # outs) = acc2 @ read_buffers alloc (Suc k) outs"
    by (simp add: read_buffers_Cons acc2_def)
  show ?case
  proof (cases "outs = []")
    case True
    then have "readall_loop True drive alloc (Suc k) ctx2 acc2 (Suc v) (?d\<lparr>p_mem := m\<rparr>) = Some (ctx2, acc2, Suc v, ?d\<lparr>p_mem := m\<rparr>)"
      using last by (subst readall_loop.simps) (simp add: ctx2_def)
    then show ?thesis using unfold bufs True last by (simp add: read_buffers_def ctx2_def)
  next
    case False
    have "\<exists>ctx' d'. readall_loop True drive alloc (Suc k) ctx2 acc2 (Suc v) (?d\<lparr>p_mem := m\<rparr>) =
        Some (ctx', acc2 @ read_buffers alloc (Suc k) outs, Suc v + length outs, d') \<and> ic_end ctx'"
    proof (rule Cons.IH)
      show "drive (Suc v + i) = (outs ! i, Suc (Suc v + i))" if "i < length outs" for i
        using Cons.prems(1) [of "Suc i"] that by simp
      show "\<not> ic_end ctx2" using last False by (simp add: ctx2_def)
    qed (use Cons.prems False in \<open>simp_all add: ctx2_def\<close>)
    then show ?thesis using unfold bufs by simp
  qed
qed simp

text \<open>
  C21. \<open>iter_readall\<close> returns when the drive ends the iteration: if the iterator is opened, every read
  fits the buffer, and after some reads the drive reports the end of the scan, the function returns
  the result of closing the iterator and the buffers of the reads that gave data, in order.
\<close>

theorem iter_readall_returns:
  assumes "drive 0 = (Finished False 0 h opened, 1)" and "\<And>i. i < length outs \<Longrightarrow> drive (1 + i) = (outs ! i, Suc (1 + i))"
    and "list_all (\<lambda>out. \<exists>n bytes. out = Finished False 0 n bytes \<and> read_size out \<le> ic_buflen ctx) (butlast outs)"
    and "outs \<noteq> []" and "last outs = Finished False 0x393 n bytes" and "read_size (last outs) \<le> ic_buflen ctx"
    and "drive (1 + length outs) = (Finished False 0 c closed, v)"
  shows "\<exists>ctx' d'. iter_readall True drive alloc ks ctx opt 0 d = Some (0, ctx', read_buffers alloc 0 outs, v, d')"
proof -
  have cmd: "nvme_user_kv_cmd True (iter_open_cmd nsid ks ctx opt) \<noteq> Inl x" for nsid x
    by (simp add: nvme_user_kv_cmd_def is_kv_cmd_def iter_open_cmd_def kv_cmd_zero_def set_cdw12_def set_cdw13_def)
  obtain ctx1 d1 where op: "iter_open True (Finished False 0 h opened) ks ctx opt d = (0, ctx1, d1)" "\<not> ic_end ctx1" "ic_buflen ctx1 = ic_buflen ctx"
  proof (cases "nvme_user_kv_cmd True (iter_open_cmd (ka_nsid d) ks ctx opt)")
    case (Inl x) then show thesis using cmd by blast
  next
    case (Inr rq) then show thesis using that by (simp add: iter_open_def nvme_submit_sync_def)
  qed
  obtain ctx2 d2 where loop: "readall_loop True drive alloc 0 ctx1 [] 1 d1 = Some (ctx2, [] @ read_buffers alloc 0 outs, 1 + length outs, d2)"
    using readall_loop_returns [OF assms(2) assms(3) [folded op(3)] assms(4,5) assms(6) [folded op(3)] op(2)] by blast
  have "\<exists>d3. iter_close True (Finished False 0 c closed) ctx2 d2 = (0, d3)"
    by (simp add: iter_close_def nvme_submit_sync_def nvme_user_kv_cmd_def is_kv_cmd_def kv_cmd_zero_def)
  then show ?thesis using assms(1,7) op(1) loop by (auto simp: iter_readall_def)
qed

lemma iter_read_refused: "e < 0 \<Longrightarrow> iter_read True (Refused e) ctx d = (rc KV_ERR_SYS_IO, ctx, d)"
  by (simp add: iter_read_def nvme_submit_sync_def nvme_user_kv_cmd_def is_kv_cmd_def iter_read_cmd_def kv_cmd_zero_def unkeyed_def)

lemma readall_loop_stuck:
  assumes drive: "\<And>w. w \<in> W \<Longrightarrow> snd (drive w) \<in> W \<and> (\<exists>e < 0. fst (drive w) = Refused e)"
    and run: "readall_loop True drive alloc k ctx acc v d = Some r"
  shows "v \<in> W \<longrightarrow> ic_end ctx"
proof -
  have "True = True \<and> drive = drive \<longrightarrow> v \<in> W \<longrightarrow> ic_end ctx"
  proof (rule readall_loop.raw_induct [where P = "\<lambda>cap drv al k ctx acc v d r. cap = True \<and> drv = drive \<longrightarrow> v \<in> W \<longrightarrow> ic_end ctx", OF _ run])
    fix f capable and drv :: "'a \<Rightarrow> kv_outcome \<times> 'a" and al n ctx acc v d r
    assume IH: "\<And>cap drv al k ctx acc v d r. f cap drv al k ctx acc v d = Some r \<Longrightarrow> cap = True \<and> drv = drive \<longrightarrow> v \<in> W \<longrightarrow> ic_end ctx"
      and body: "(if ic_end ctx then Some (ctx, acc, v, d)
        else let ctx1 = ctx\<lparr>ic_byteswritten := 0, ic_buf := al n\<rparr>;
                 d1 = d\<lparr>p_mem := mem_put (p_mem d) (al n) (replicate (nat (ic_buflen ctx)) 0)\<rparr>
             in case drv v of (out, v1) \<Rightarrow>
                  case iter_read capable out ctx1 d1 of (r, ctx2, d2) \<Rightarrow>
                    f capable drv al (Suc n) ctx2
                      (if 0 < ic_byteswritten ctx2 then acc @ [(ic_buf ctx2, ic_byteswritten ctx2)] else acc) v1 d2) = Some r"
    show "capable = True \<and> drv = drive \<longrightarrow> v \<in> W \<longrightarrow> ic_end ctx"
    proof (intro impI, rule ccontr)
      assume *: "capable = True \<and> drv = drive" "v \<in> W" "\<not> ic_end ctx"
      obtain e w where ans: "drive v = (Refused e, w)" "e < 0" "w \<in> W" using drive [OF *(2)] by (cases "drive v") auto
      have "f True drive al (Suc n) (ctx\<lparr>ic_byteswritten := 0, ic_buf := al n\<rparr>) acc w
          (d\<lparr>p_mem := mem_put (p_mem d) (al n) (replicate (nat (ic_buflen ctx)) 0)\<rparr>) = Some r"
        using body * ans by (simp add: iter_read_refused)
      from IH [OF this] * ans show False by simp
    qed
  qed
  then show ?thesis by simp
qed

text \<open>
  C35. \<open>iter_readall\<close> does not return when reads fail: its loop looks only at the end of the scan, so
  if the iterator is opened and the kernel then refuses every read, it reads forever.
\<close>

theorem iter_readall_hangs:
  assumes "drive v = (Finished False 0 h opened, v1)" and "v1 \<in> W"
    and "\<And>w. w \<in> W \<Longrightarrow> snd (drive w) \<in> W \<and> (\<exists>e < 0. fst (drive w) = Refused e)"
  shows "iter_readall True drive alloc ks ctx opt v d = None"
proof -
  have cmd: "nvme_user_kv_cmd True (iter_open_cmd nsid ks ctx opt) \<noteq> Inl x" for nsid x
    by (simp add: nvme_user_kv_cmd_def is_kv_cmd_def iter_open_cmd_def kv_cmd_zero_def set_cdw12_def set_cdw13_def)
  obtain ctx1 d1 where op: "iter_open True (Finished False 0 h opened) ks ctx opt d = (0, ctx1, d1)" "\<not> ic_end ctx1"
  proof (cases "nvme_user_kv_cmd True (iter_open_cmd (ka_nsid d) ks ctx opt)")
    case (Inl x) then show thesis using cmd by blast
  next
    case (Inr rq) then show thesis using that by (simp add: iter_open_def nvme_submit_sync_def)
  qed
  have "readall_loop True drive alloc 0 ctx1 [] v1 d1 = None"
  proof (cases "readall_loop True drive alloc 0 ctx1 [] v1 d1")
    case (Some r)
    have "v1 \<in> W \<longrightarrow> ic_end ctx1" by (rule readall_loop_stuck [OF assms(3) Some])
    then show ?thesis using assms(2) op(2) by simp
  qed
  then show ?thesis using assms(1) op(1) by (simp add: iter_readall_def)
qed

section \<open>A sample run\<close>

text \<open>
  An adapter for two commands, opened on a fresh kernel; one store that the kernel accepts, the drive
  completes and the kernel signals.
\<close>

definition sample_tb :: "nvme_kaioctx option list" where
  "sample_tb = replicate AIOCTX_MAX None"

definition sample_kadi0 :: KADI where
  "sample_kadi0 = \<lparr>ka_capacity = 0, ka_started = False, ka_fd = - 1, ka_nsid = 0, free_cmdctxs = [], pending_cmdctxs = Map.empty,
     ka_qdepth = 2, ka_ctxid = 0, ka_eventfd = 0, ka_ctxs = Map.empty, p_mem = (\<lambda>x. ucast x),
     p_keys = [0x100 \<mapsto> \<lparr>kk_key = 0x200, kk_length = 4\<rparr>],
     p_values = [0x300 \<mapsto> \<lparr>va_value = 0x400, va_length = 10, va_actual_value_size = 0, va_offset = 0\<rparr>],
     kernel = \<lparr>g_kaioctx_tb = sample_tb, aio_context_id = 1, tb_locked = False, eventfd_count = (\<lambda>_. 0), kv_inflight = []\<rparr>\<rparr>"

lemma sample_kernel: "kernel sample_kadi0 = aio_service_init (\<lambda>_. 0)"
  by (simp only: sample_kadi0_def aio_service_init_def sample_tb_def KADI.simps)

definition sample_kadi :: KADI where
  "sample_kadi = sample_kadi0\<lparr>ka_fd := 3, ka_nsid := 1, free_cmdctxs := [10, 11], ka_ctxid := 1, ka_eventfd := 4,
     ka_ctxs := [10 \<mapsto> new_ctx 0, 11 \<mapsto> new_ctx 1],
     kernel := \<lparr>g_kaioctx_tb = sample_tb[1 := Some \<lparr>kx_eventfd = 4, kaiocb_list = []\<rparr>], aio_context_id = 2, tb_locked = False,
       eventfd_count = (\<lambda>_. 0), kv_inflight = []\<rparr>\<rparr>"

lemma sample_tb [simp]: "length sample_tb = AIOCTX_MAX" "sample_tb ! Suc 0 = None"
  by (simp_all only: sample_tb_def length_replicate nth_replicate)

lemma sample_kadi_open: "kadi_open True True 3 1 4 [10, 11] sample_kadi0 = Some (0, sample_kadi)"
  by (simp add: kadi_open_def sample_kadi_def sample_kadi0_def nvme_set_aioctx_def Let_def)

lemma sample_opened: "kadi_opened sample_kadi"
  unfolding kadi_opened_def
  by (rule exI [of _ True], rule exI [of _ True], rule exI [of _ 3], rule exI [of _ 1], rule exI [of _ 4], rule exI [of _ "[10, 11]"],
      rule exI [of _ sample_kadi0]) (simp add: sample_kadi_open, simp add: sample_kadi0_def)

definition sample_sent :: KADI where
  "sample_sent = (case kadi_kv_store True None 0 0x100 0x300 0 (Some (0x500, 0x600)) sample_kadi of Returns (r, d) \<Rightarrow> d | _ \<Rightarrow> sample_kadi)"

lemmas sample_simps = sample_kadi_def sample_kadi0_def new_ctx_def kadi_kv_store_def get_cmd_ctx_def kadi_issue_def nvme_submit_aio_def
  nvme_user_kv_cmd_def is_kv_cmd_def store_cmd_def put_key_def kv_cmd_zero_def Let_def

lemma sample_kadi_store: "kadi_kv_store True None 0 0x100 0x300 0 (Some (0x500, 0x600)) sample_kadi = Returns (0, sample_sent)"
  unfolding sample_sent_def by (simp add: sample_simps)

lemma sample_sent: "ka_eventfd sample_sent = 4" "ka_ctxid sample_sent = 1" "free_cmdctxs sample_sent = [10]"
  "eventfd_count (kernel sample_sent) = (\<lambda>_. 0)" "length (kv_inflight (kernel sample_sent)) = 1"
  "kb_event (kv_inflight (kernel sample_sent) ! 0) = \<lparr>ev_reqid = 1, ev_ctxid = 1, ev_result = 0, ev_status = 0\<rparr>"
  "g_kaioctx_tb (kernel sample_sent) = sample_tb[1 := Some \<lparr>kx_eventfd = 4, kaiocb_list = []\<rparr>]"
  unfolding sample_sent_def by (simp_all add: sample_simps)

definition sample_done :: nvme_kernel where
  "sample_done = snd (the (kv_complete_aio 0 0 0 (kernel sample_sent)))"

lemma sample_complete: "kv_complete_aio 0 0 0 (kernel sample_sent) = Some (True, sample_done)"
  by (simp add: sample_done_def kv_complete_aio_def set_aioctx_event_def find_kaioctx_def sample_sent)

lemma sample_done: "eventfd_count sample_done = (\<lambda>_. 0)"
  by (simp add: sample_done_def kv_complete_aio_def set_aioctx_event_def find_kaioctx_def sample_sent)

definition sample_sys1 :: kadi_sys where
  "sample_sys1 = (kadi_start 1 sample_kadi)\<lparr>obj := sample_sent, submitted := accepted sample_kadi sample_sent\<rparr>"

definition sample_sys2 :: kadi_sys where
  "sample_sys2 = sample_sys1\<lparr>obj := sample_sent\<lparr>kernel := sample_done, p_mem := p_mem sample_sent\<rparr>, unsignalled := 1\<rparr>"

definition sample_sys3 :: kadi_sys where
  "sample_sys3 = sample_sys2\<lparr>obj := (obj sample_sys2)\<lparr>kernel := eventfd_signal 4 sample_done\<rparr>, unsignalled := 0\<rparr>"

definition sample_sys4 :: kadi_sys where
  "sample_sys4 = sample_sys3\<lparr>obj := (obj sample_sys3)\<lparr>kernel := (kernel (obj sample_sys3))
     \<lparr>eventfd_count := (eventfd_count (kernel (obj sample_sys3)))(4 := 0)\<rparr>\<rparr>, pollers := [Loop 1]\<rparr>"

lemma sample_step1: "kadi_step True (kadi_start 1 sample_kadi) sample_sys1"
  using kadi_step.request [of True None out "Store 0 0x100 0x300 0 (Some (0x500, 0x600))" "kadi_start 1 sample_kadi" 0 sample_sent]
  by (simp add: kadi_start_def kadi_request_call_def sample_kadi_store sample_sys1_def)

lemma sample_step2: "kadi_sys_step True sample_sys1 sample_sys2"
  using kadi_sys_step.drive [of 0 0 0 sample_sys1 True sample_done True "p_mem sample_sent"]
  by (simp add: sample_sys1_def sample_sys2_def sample_complete kadi_start_def)

lemma sample_step3: "kadi_sys_step True sample_sys2 sample_sys3"
  using kadi_sys_step.signal [of sample_sys2 True] by (simp add: sample_sys3_def sample_sys2_def sample_sent)

lemma sample_step4: "kadi_sys_step True sample_sys3 sample_sys4"
  using kadi_sys_step.poll_read [of 0 sample_sys3 1 True]
  by (simp add: sample_sys4_def sample_sys3_def sample_sys2_def sample_sys1_def kadi_start_def sample_sent eventfd_signal_def sample_done)

lemma sample_reach: "kadi_reach True 1 sample_sys1" "kadi_reach True 1 sample_sys2" "kadi_reach True 1 sample_sys3" "kadi_reach True 1 sample_sys4"
proof -
  show s1: "kadi_reach True 1 sample_sys1" by (rule kadi_reach.step [OF kadi_reach.start [OF sample_opened] sample_step1])
  show s2: "kadi_reach True 1 sample_sys2" by (rule kadi_reach.step [OF s1 kadi_step.system [OF sample_step2]])
  show s3: "kadi_reach True 1 sample_sys3" by (rule kadi_reach.step [OF s2 kadi_step.system [OF sample_step3]])
  show "kadi_reach True 1 sample_sys4" by (rule kadi_reach.step [OF s3 kadi_step.system [OF sample_step4]])
qed

section \<open>Witnesses\<close>

theorem kadi_commands_reach_drive_witness:
  "short_key_ok \<lparr>kk_key = 0x200, kk_length = 20\<rparr> \<and>
   (\<exists>rq. nvme_user_kv_cmd True (store_cmd 1 (\<lambda>x. ucast x) 0 \<lparr>kk_key = 0x200, kk_length = 20\<rparr>
         \<lparr>va_value = 0x400, va_length = 10, va_actual_value_size = 0, va_offset = 0\<rparr> 0) = Inr rq
      \<and> request_key (\<lambda>x. ucast x) rq = key_at (\<lambda>x. ucast x) \<lparr>kk_key = 0x200, kk_length = 20\<rparr>
      \<and> 4 * unat (nc_value_len (rq_cmd rq)) = 10 + unat (nc_invalid_byte (rq_cmd rq)))"
proof -
  have ok: "short_key_ok \<lparr>kk_key = 0x200, kk_length = 20\<rparr>" by (simp add: short_key_ok_def)
  show ?thesis
    using ok kadi_commands_reach_drive [OF ok, of 1 "\<lambda>x. ucast x" 0 "\<lparr>va_value = 0x400, va_length = 10, va_actual_value_size = 0, va_offset = 0\<rparr>" 0]
    by auto
qed

theorem retrieve_sync_ignores_key_witness:
  "\<exists>rq. nvme_user_kv_cmd True (retrieve_sync_cmd 1 0 \<lparr>kk_key = 0x200, kk_length = 4\<rparr>
       \<lparr>va_value = 0x400, va_length = 10, va_actual_value_size = 0, va_offset = 0\<rparr>) = Inr rq
    \<and> request_key (p_mem sample_kadi) rq = [0, 0, 0, 0] \<and> p_mem sample_kadi 0x201 = 1"
proof -
  have "unat (4 :: u16) = Suc (Suc (Suc (Suc 0)))" by simp
  then have len: "replicate (unat (4 :: u16)) (0 :: byte) = [0, 0, 0, 0]" by (simp only: replicate.simps)
  show ?thesis
    using retrieve_sync_ignores_key [where k = "\<lparr>kk_key = 0x200, kk_length = 4\<rparr>" and d = sample_kadi and key = 256
      and val = 768 and v = "\<lparr>va_value = 0x400, va_length = 10, va_actual_value_size = 0, va_offset = 0\<rparr>" and ks = 0 and n = 10] len
    by (auto simp: short_key_ok_def sample_kadi_def sample_kadi0_def)
qed

theorem kadi_exactly_once_witness:
  "length (submitted sample_sys3) = 1 \<and> delivered sample_sys3 = []
    \<and> mset (submitted sample_sys3) = mset (map (ctx_of (obj sample_sys3)) (kadi_ids sample_sys3)) \<and> length (under sample_sys3) = 1"
proof -
  have "delivered sample_sys3 = []" "free_cmdctxs (obj sample_sys3) = [10]" "ka_qdepth (obj sample_sys3) = 2"
    by (simp_all add: sample_sys3_def sample_sys2_def sample_sys1_def kadi_start_def sample_sent)
      (simp add: sample_sent_def sample_simps)
  moreover have "length (submitted sample_sys3) = 1"
    by (simp add: sample_sys3_def sample_sys2_def sample_sys1_def kadi_start_def accepted_def sample_sent)
      (simp add: sample_kadi_def)
  ultimately show ?thesis using kadi_exactly_once [OF sample_reach(3)] by simp
qed

theorem kadi_poll_safe_witness:
  "pollers sample_sys4 = [Loop 1] \<and>
   (\<exists>es k. nvme_get_ioevents True (word_of_int (check_nr 1 (obj sample_sys4))) (ka_ctxid (obj sample_sys4)) (kernel (obj sample_sys4))
      = Some (0, es, k) \<and> length es = nat (check_nr 1 (obj sample_sys4)) \<and> 0 < check_nr 1 (obj sample_sys4))"
  using kadi_poll_safe [OF sample_reach(4), of 0] by (simp add: sample_sys4_def)

theorem kadi_drains_witness:
  "(kadi_sys_step True ^^ 1) sample_sys1 sample_sys2 \<and> 1 \<le> kadi_work sample_sys1"
proof -
  have run: "(kadi_sys_step True ^^ 1) sample_sys1 sample_sys2" by (subst relpowp_1) (rule sample_step2)
  show ?thesis using run kadi_drains [OF sample_reach(1) _ run] by simp
qed

theorem poll_completion_returns_witness:
  "\<exists>cs s'. kadi_poll_completion True False 0 (obj sample_sys3) = Some (0, 1, cs, obj s') \<and> (kadi_sys_step True)\<^sup>*\<^sup>* sample_sys3 s'
    \<and> length (delivered s') = 1"
proof -
  have "eventfd_count (kernel (obj sample_sys3)) (ka_eventfd (obj sample_sys3)) = 1"
    by (simp add: sample_sys3_def sample_sys2_def eventfd_signal_def sample_done sample_sent)
  moreover have "pollers sample_sys3 = [Idle]" "delivered sample_sys3 = []"
    by (simp_all add: sample_sys3_def sample_sys2_def sample_sys1_def kadi_start_def)
  ultimately show ?thesis using poll_completion_returns [OF sample_reach(3), of 0 0] by auto
qed

theorem iter_readall_returns_witness:
  "\<exists>ctx' d'. iter_readall True (\<lambda>v. (if v = 1 then Finished False 0 8 [] else if v = 2 then Finished False 0x393 4 [] else Finished False 0 1 [], Suc v))
      (\<lambda>i. 0x1000 * word_of_nat (Suc i)) 0
      \<lparr>ic_handle = 0, ic_prefix = 0, ic_bitmask = 0, ic_buf = 0, ic_buflen = 32768, ic_byteswritten = 0, ic_end = False\<rparr> 4 0 sample_kadi
    = Some (0, ctx', [(0x1000, 8), (0x2000, 4)], 4, d')"
proof -
  define drive :: "nat \<Rightarrow> kv_outcome \<times> nat" where
    "drive = (\<lambda>v. (if v = 1 then Finished False 0 8 [] else if v = 2 then Finished False 0x393 4 [] else Finished False 0 1 [], Suc v))"
  define outs where "outs = [Finished False 0 8 [], Finished False 0x393 4 []]"
  have "drive (1 + i) = (outs ! i, Suc (1 + i))" if "i < length outs" for i
    using that by (cases i) (auto simp: outs_def drive_def less_Suc_eq)
  moreover have "read_buffers (\<lambda>i. 0x1000 * word_of_nat (Suc i)) 0 outs = [(0x1000, 8), (0x2000, 4)]"
    by (simp add: outs_def read_buffers_def read_size_def)
  ultimately show ?thesis
    unfolding drive_def [symmetric]
    using iter_readall_returns [where drive = drive and outs = outs and h = 1 and opened = "[]" and n = 4 and bytes = "[]" and c = 1 and closed = "[]"
      and v = 4 and alloc = "\<lambda>i. 0x1000 * word_of_nat (Suc i)" and ks = 0 and opt = 4 and d = sample_kadi
      and ctx = "\<lparr>ic_handle = 0, ic_prefix = 0, ic_bitmask = 0, ic_buf = 0, ic_buflen = 32768, ic_byteswritten = 0, ic_end = False\<rparr>"]
    by (simp add: outs_def drive_def read_size_def)
qed

theorem iter_readall_hangs_witness:
  "iter_readall True (\<lambda>v. if v = (0 :: nat) then (Finished False 0 1 [], 1) else (Refused (- 4), v)) (\<lambda>i. 0x1000) 0
      \<lparr>ic_handle = 0, ic_prefix = 0, ic_bitmask = 0, ic_buf = 0, ic_buflen = 32768, ic_byteswritten = 0, ic_end = False\<rparr> 4 0 sample_kadi = None"
  by (rule iter_readall_hangs [where W = "{1}"]) auto

end
