(* ===== verification/Kv_Kdd_Properties.thy ===== *)
theory Kv_Kdd_Properties
  imports Kv_Kdd Kv_Kadi_Properties
begin

text \<open>
  What the KV API driver for the kernel does: the buffers of an iteration are packed, synchronous
  calls on pairs return with the result of the drive, and an open filter is not opened again; and
  the places where errors are lost, calls hang, and contexts of others are removed.
\<close>

section \<open>Buffers of an iteration\<close>

text \<open>
  What the drive writes: the number of keys, and for each key its length, its bytes and padding up to
  a multiple of four bytes; and what the application gets: the keys with their lengths.
\<close>

definition drive_entry :: "byte list \<times> byte list \<Rightarrow> byte list" where
  "drive_entry e = u32_bytes (word_of_nat (length (fst e))) @ fst e @ snd e"

definition drive_block :: "(byte list \<times> byte list) list \<Rightarrow> byte list" where
  "drive_block es = u32_bytes (word_of_nat (length es)) @ concat (map drive_entry es)"

definition packed_keys :: "byte list list \<Rightarrow> byte list" where
  "packed_keys ks = concat (map (\<lambda>k. u32_bytes (word_of_nat (length k)) @ k) ks)"

definition entry_ok :: "byte list \<times> byte list \<Rightarrow> bool" where
  "entry_ok e \<longleftrightarrow> length (fst e) < 256 \<and> length (fst e) + length (snd e) = (length (fst e) + 3) div 4 * 4"

lemma key_size_words:
  assumes "n < 256"
  shows "unat (word_of_nat n :: u32) = n" and "unat (push_bit 2 (drop_bit 2 (word_of_nat n + 3)) :: u32) = (n + 3) div 4 * 4"
proof -
  show n: "unat (word_of_nat n :: u32) = n" using assms by (simp add: unat_of_nat take_bit_nat_eq_self)
  have "unat (word_of_nat n + 3 :: u32) = n + 3" using assms n by (simp add: unat_word_ariths)
  then have d: "unat (drop_bit 2 (word_of_nat n + 3) :: u32) = (n + 3) div 4" by (simp only: unsigned_drop_bit_eq drop_bit_eq_div) (simp add: unat_div)
  show "unat (push_bit 2 (drop_bit 2 (word_of_nat n + 3)) :: u32) = (n + 3) div 4 * 4"
    unfolding unsigned_push_bit_eq using d assms by (simp add: push_bit_eq_mult take_bit_nat_eq_self)
qed

lemma length_drive_entry: "entry_ok e \<Longrightarrow> length (drive_entry e) = 4 + (length (fst e) + 3) div 4 * 4"
  by (simp add: drive_entry_def entry_ok_def)

text \<open>One round of the loop: behind the packed keys there is a gap of at least four bytes.\<close>

lemma reformat_round:
  assumes ok: "entry_ok (k, pad)" and gap: "4 \<le> length G"
    and size: "4 + (length k + 3) div 4 * 4 \<le> r" "r < 2 ^ 32"
  shows "\<exists>G'. length G' = length G + length pad \<and>
    reformat_loop (Suc n) (D @ G @ drive_entry (k, pad) @ R) (length D) (length D + length G) (word_of_nat r) =
    reformat_loop n ((D @ u32_bytes (word_of_nat (length k)) @ k) @ G' @ R) (length D + 4 + length k)
      (length D + 4 + length k + length G') (word_of_nat (r - (4 + (length k + 3) div 4 * 4)))"
proof -
  define L where "L = u32_bytes (word_of_nat (length k))"
  define buf where "buf = D @ G @ drive_entry (k, pad) @ R"
  define buf1 where "buf1 = D @ L @ drop 4 G @ L @ k @ pad @ R"
  define G' where "G' = drop (length k) (drop 4 G @ L @ k @ pad)"
  have k: "length k < 256" "length k + length pad = (length k + 3) div 4 * 4" using ok by (simp_all add: entry_ok_def)
  have L: "length L = 4" by (simp add: L_def)
  have G': "length G' = length G + length pad" using gap L by (simp add: G'_def)
  have entry: "drive_entry (k, pad) = L @ k @ pad" by (simp add: drive_entry_def L_def)
  have w1: "mem_write buf (length D) (take 4 (drop (length D + length G) buf)) = buf1"
    using gap L by (simp add: mem_write_def buf_def buf1_def entry)
  have rd: "read_u32 (drop (length D + length G) buf1) = word_of_nat (length k)"
    using gap L by (simp add: buf1_def L_def)
  have src: "take (length k) (drop (length D + length G + 4) buf1) = k" using gap L by (simp add: buf1_def)
  have w2: "mem_write buf1 (length D + 4) k = (D @ L @ k) @ G' @ R"
    using gap L by (simp add: mem_write_def buf1_def G'_def)
  define P where "P = (length k + 3) div 4 * 4"
  note ks = key_size_words [OF k(1)]
  have "P < 2 ^ 32" using k(1) by (simp add: P_def)
  then have unatP: "unat (word_of_nat P :: u32) = P" unfolding unat_of_nat by simp
  have pad: "push_bit 2 (drop_bit 2 (word_of_nat (length k) + 3)) = (word_of_nat P :: u32)"
    using ks(2) unatP by (simp only: word_unat_eq_iff P_def)
  have r: "unat (word_of_nat r :: u32) = r" using size(2) by (simp add: unat_of_nat take_bit_nat_eq_self)
  have left: "(word_of_nat r :: u32) \<noteq> 0" "\<not> (word_of_nat r :: u32) < 4" using r size(1) by (auto simp: word_less_nat_alt)
  have left1: "word_of_nat r - 4 = (word_of_nat (r - 4) :: u32)" using size(1) by (simp add: of_nat_diff)
  have left2: "word_of_nat (r - 4) - word_of_nat P = (word_of_nat (r - (4 + P)) :: u32)" using size(1) by (simp add: P_def of_nat_diff)
  have r4: "unat (word_of_nat (r - 4) :: u32) = r - 4" using size(2) unfolding unat_of_nat by simp
  have le: "\<not> (word_of_nat (length k) :: u32) > word_of_nat (r - 4)" "\<not> (word_of_nat (length k) :: u32) \<ge> 256"
    using ks(1) k(1,2) size r4 by (simp_all add: word_less_nat_alt word_le_nat_alt del: of_nat_diff)
  have len: "length buf = length D + length G + 4 + length k + length pad + length R" using L by (simp add: buf_def entry)
  have off: "length D + length G + 4 + P = length D + 4 + length k + length G'" using G' k(2) by (simp add: P_def)
  have "reformat_loop (Suc n) buf (length D) (length D + length G) (word_of_nat r) =
      reformat_loop n ((D @ L @ k) @ G' @ R) (length D + 4 + length k) (length D + 4 + length k + length G') (word_of_nat (r - (4 + P)))"
    using left le len w1 rd w2 gap unatP src ks(1) by (simp add: Let_def left1 pad left2 off require_def del: append_assoc)
  then show ?thesis using G' by (auto simp: buf_def L_def P_def)
qed

text \<open>The whole loop.\<close>

lemma reformat_loop_packs:
  assumes "list_all entry_ok es" and "4 \<le> length G" and "length (concat (map drive_entry es)) < 2 ^ 32"
  shows "\<exists>rest. reformat_loop (length es) (D @ G @ concat (map drive_entry es) @ R) (length D) (length D + length G)
      (word_of_nat (length (concat (map drive_entry es)))) =
    Some (0, D @ packed_keys (map fst es) @ rest, length D + length (packed_keys (map fst es)))"
  using assms
proof (induction es arbitrary: D G)
  case Nil
  then show ?case by (simp add: packed_keys_def)
next
  case (Cons e es)
  obtain k pad where e: "e = (k, pad)" by (cases e)
  define r where "r = length (concat (map drive_entry (e # es)))"
  have ok: "entry_ok (k, pad)" "list_all entry_ok es" using Cons.prems(1) e by simp_all
  have r: "r = 4 + (length k + 3) div 4 * 4 + length (concat (map drive_entry es))" using length_drive_entry [OF ok(1)] by (simp add: r_def e)
  have eq: "r - (4 + (length k + 3) div 4 * 4) = length (concat (map drive_entry es))" using r by simp
  obtain G' where G': "length G' = length G + length pad" and
    step: "reformat_loop (Suc (length es)) (D @ G @ drive_entry (k, pad) @ concat (map drive_entry es) @ R) (length D) (length D + length G) (word_of_nat r) =
      reformat_loop (length es) ((D @ u32_bytes (word_of_nat (length k)) @ k) @ G' @ concat (map drive_entry es) @ R) (length D + 4 + length k)
        (length D + 4 + length k + length G') (word_of_nat (r - (4 + (length k + 3) div 4 * 4)))"
    using reformat_round [OF ok(1) Cons.prems(2), of r "length es" D "concat (map drive_entry es) @ R"] r Cons.prems(3) by (auto simp: r_def)
  obtain rest where
    "reformat_loop (length es) ((D @ u32_bytes (word_of_nat (length k)) @ k) @ G' @ concat (map drive_entry es) @ R)
        (length (D @ u32_bytes (word_of_nat (length k)) @ k)) (length (D @ u32_bytes (word_of_nat (length k)) @ k) + length G')
        (word_of_nat (length (concat (map drive_entry es)))) =
      Some (0, (D @ u32_bytes (word_of_nat (length k)) @ k) @ packed_keys (map fst es) @ rest,
        length (D @ u32_bytes (word_of_nat (length k)) @ k) + length (packed_keys (map fst es)))"
    using Cons.IH [OF ok(2), of G' "D @ u32_bytes (word_of_nat (length k)) @ k"] Cons.prems(2,3) G' by auto
  then have "reformat_loop (Suc (length es)) (D @ G @ drive_entry (k, pad) @ concat (map drive_entry es) @ R) (length D) (length D + length G) (word_of_nat r) =
      Some (0, D @ packed_keys (k # map fst es) @ rest, length D + length (packed_keys (k # map fst es)))"
    unfolding step eq by (simp add: packed_keys_def add.assoc)
  moreover have "length (e # es) = Suc (length es)" "concat (map drive_entry (e # es)) @ R = drive_entry (k, pad) @ concat (map drive_entry es) @ R"
      "map fst (e # es) = k # map fst es"
    by (simp_all add: e)
  ultimately show ?case unfolding r_def by (intro exI [of _ rest]) (simp only:)
qed

text \<open>
  C12. The buffer of an iteration is packed: when the drive wrote a block of keys of less than 256
  bytes, \<open>reformat_iterbuffer\<close> stays within the buffer and leaves exactly the keys with their lengths, in
  order and without the padding; the list has the number of keys and the size of what is left.
\<close>

theorem reformat_iterbuffer_packs:
  assumes "list_all entry_ok es" and "length (drive_block es) < 2 ^ 32" and "kl_it_list l \<noteq> 0"
    and "kl_num_entries l = read_u32 (drive_block es)" and "kl_size l = word_of_nat (length (drive_block es))"
  shows "\<exists>rest. reformat_iterbuffer l (drive_block es @ R) =
    Some (0, l\<lparr>kl_size := word_of_nat (length (packed_keys (map fst es)))\<rparr>, packed_keys (map fst es) @ rest)
    \<and> kl_num_entries l = word_of_nat (length es)"
proof -
  define N where "N = length (concat (map drive_entry es))"
  have block: "length (drive_block es) = 4 + N" by (simp add: drive_block_def N_def)
  have "length es \<le> N" unfolding N_def by (induction es) (simp_all add: drive_entry_def)
  then have num: "unat (word_of_nat (length es) :: u32) = length es" "kl_num_entries l = word_of_nat (length es)"
    using assms(2,4) block by (simp_all add: unat_of_nat take_bit_nat_eq_self drive_block_def)
  have size: "unat (kl_size l) = 4 + N" using assms(2) unfolding assms(5) block unat_of_nat by simp
  have left: "kl_size l - 4 = word_of_nat N" "\<not> kl_size l < 4" using assms(5) block size by (simp_all add: word_less_nat_alt)
  obtain rest where "reformat_loop (length es) ([] @ u32_bytes (word_of_nat (length es)) @ concat (map drive_entry es) @ R) (length ([] :: byte list))
      (length ([] :: byte list) + length (u32_bytes (word_of_nat (length es)))) (word_of_nat (length (concat (map drive_entry es)))) =
      Some (0, [] @ packed_keys (map fst es) @ rest, length ([] :: byte list) + length (packed_keys (map fst es)))"
    using reformat_loop_packs [OF assms(1), of "u32_bytes (word_of_nat (length es))" "[]" R] assms(2) block by (auto simp: N_def)
  then show ?thesis
    using assms(3) left num by (auto simp: reformat_iterbuffer_def drive_block_def N_def)
qed

section \<open>Synchronous calls\<close>

text \<open>An adapter without a command under way, and with one.\<close>

definition kadi_idle :: "KADI \<Rightarrow> bool" where
  "kadi_idle d \<longleftrightarrow> ctxs_ok d \<and> pending_cmdctxs d = Map.empty \<and> kv_inflight (kernel d) = [] \<and>
     eventfd_count (kernel d) (ka_eventfd d) = 0 \<and> unat (ka_ctxid d) < length (g_kaioctx_tb (kernel d)) \<and>
     (\<exists>x. g_kaioctx_tb (kernel d) ! unat (ka_ctxid d) = Some x \<and> kaiocb_list x = [])"

definition ctx_taken :: "KADI \<Rightarrow> aio_cmd_ctx \<Rightarrow> KADI" where
  "ctx_taken d c = d\<lparr>free_cmdctxs := butlast (free_cmdctxs d), pending_cmdctxs := [ac_index c \<mapsto> last (free_cmdctxs d)],
     ka_ctxs := (ka_ctxs d)(last (free_cmdctxs d) \<mapsto> c)\<rparr>"

definition under_way :: "KADI \<Rightarrow> aio_cmd_ctx \<Rightarrow> nvme_kv_request \<Rightarrow> KADI" where
  "under_way d c rq = (ctx_taken d c)\<lparr>kernel := (kernel d)\<lparr>kv_inflight := [\<lparr>kb_event = \<lparr>ev_reqid = ucast (ac_index c), ev_ctxid = ka_ctxid d, ev_result = 0, ev_status = 0\<rparr>,
       kb_request = rq\<rparr>]\<rparr>\<rparr>"

lemma idle_context:
  assumes "kadi_idle d"
  obtains c where "free_cmdctxs d \<noteq> []" and "ka_ctxs d (last (free_cmdctxs d)) = Some c"
proof -
  have ok: "pool_ok (ctx_index d) (free_cmdctxs d) Map.empty (ka_qdepth d)" using assms by (auto simp: kadi_idle_def ctxs_ok_def)
  have "dom (ctx_index d) \<noteq> {}" using pool_okD(2,3) [OF ok] by auto
  then have "free_cmdctxs d \<noteq> []" using pool_okD(6) [OF ok] by fastforce
  moreover from this obtain i where "ctx_index d (last (free_cmdctxs d)) = Some i" using pool_okD(7) [OF ok] last_in_set by blast
  ultimately show thesis using that by (auto simp: ctx_index_def)
qed

lemma command_ids:
  "keyed (cmd\<lparr>pc_ctxid := i, pc_reqid := j\<rparr>) c = keyed cmd c" "unkeyed (cmd\<lparr>pc_ctxid := i, pc_reqid := j\<rparr>) c = unkeyed cmd c"
  "cdw12 (cmd\<lparr>pc_ctxid := i, pc_reqid := j\<rparr>) = cdw12 cmd" "cdw13 (cmd\<lparr>pc_ctxid := i, pc_reqid := j\<rparr>) = cdw13 cmd"
  by (simp_all add: keyed_def unkeyed_def key_addr_def cdw12_def cdw13_def Let_def)

lemma user_kv_cmd_ids:
  assumes "nvme_user_kv_cmd True cmd = Inr rq"
  shows "nvme_user_kv_cmd True (cmd\<lparr>pc_ctxid := i, pc_reqid := j\<rparr>) = Inr rq"
proof -
  have "nvme_user_kv_cmd True (cmd\<lparr>pc_ctxid := i, pc_reqid := j\<rparr>) =
      map_sum (\<lambda>(e, c). (e, c\<lparr>pc_ctxid := i, pc_reqid := j\<rparr>)) id (nvme_user_kv_cmd True cmd)"
    unfolding nvme_user_kv_cmd_def Let_def command_ids by simp
  then show ?thesis using assms by simp
qed

text \<open>A request that the kernel takes.\<close>

lemma issue_alone:
  assumes "kadi_idle d" and "ka_ctxs d (last (free_cmdctxs d)) = Some c" and "free_cmdctxs d \<noteq> []"
    and "nvme_user_kv_cmd True cmd = Inr rq" and "ac_index (f (c\<lparr>ac_post_fn := fn, ac_post_data := a\<rparr>)) = ac_index c"
  shows "get_cmd_ctx (Some (fn, a)) d = Returns (last (free_cmdctxs d), ctx_taken d (c\<lparr>ac_post_fn := fn, ac_post_data := a\<rparr>))"
    and "kadi_issue True None (last (free_cmdctxs d)) f cmd (ctx_taken d (c\<lparr>ac_post_fn := fn, ac_post_data := a\<rparr>)) =
      Returns (0, under_way d ((f (c\<lparr>ac_post_fn := fn, ac_post_data := a\<rparr>))\<lparr>ac_cmd := cmd\<lparr>pc_ctxid := ka_ctxid d, pc_reqid := ucast (ac_index c)\<rparr>\<rparr>) rq)"
  using assms user_kv_cmd_ids [OF assms(4)]
  by (simp_all add: get_cmd_ctx_def kadi_idle_def Let_def kadi_issue_def nvme_submit_aio_def under_way_def ctx_taken_def)

lemma fill_private: "fill_ioresult c ev vals = Some (r, vals') \<Longrightarrow> io_private_data r = ac_post_data c"
  by (auto simp: fill_ioresult_def Let_def split: if_splits bind_splits)

text \<open>The drive answers the only command under way.\<close>

lemma finish_alone:
  assumes idle: "kadi_idle d" and c0: "ka_ctxs d (last (free_cmdctxs d)) = Some c0" "free_cmdctxs d \<noteq> []" "ac_index c = ac_index c0"
    and call: "kc_capable call" "kc_answer call = (status, result, bytes)"
    and fill: "fill_ioresult c \<lparr>ev_reqid = ucast (ac_index c), ev_ctxid = ka_ctxid d, ev_result = result, ev_status = status\<rparr> (p_values d)
      = Some (r, vals)"
  shows "kdd_finish call (under_way d c rq) = Returns (call_post_fn c r, d\<lparr>ka_ctxs := (ka_ctxs d)(last (free_cmdctxs d) \<mapsto> c),
    p_mem := mem_put (p_mem d) (rq_ubuffer rq) (take (unat (rq_bufflen rq)) bytes), p_values := vals\<rparr>)"
proof -
  obtain x where x: "g_kaioctx_tb (kernel d) ! unat (ka_ctxid d) = Some x" "kaiocb_list x = []"
      "unat (ka_ctxid d) < length (g_kaioctx_tb (kernel d))" "eventfd_count (kernel d) (ka_eventfd d) = 0" "kv_inflight (kernel d) = []"
      "pending_cmdctxs d = Map.empty" "0 < ka_qdepth d"
    using idle pool_okD(3) by (auto simp: kadi_idle_def ctxs_ok_def)
  define ev where "ev = \<lparr>ev_reqid = ucast (ac_index c), ev_ctxid = ka_ctxid d, ev_result = result, ev_status = status\<rparr>"
  define d1 where "d1 = (ctx_taken d c)\<lparr>p_mem := mem_put (p_mem d) (rq_ubuffer rq) (take (unat (rq_bufflen rq)) bytes)\<rparr>"
  define k where "k = (kernel d)\<lparr>g_kaioctx_tb := (g_kaioctx_tb (kernel d))[unat (ka_ctxid d) := Some (x\<lparr>kaiocb_list := [ev]\<rparr>)]\<rparr>"
  have complete: "kv_complete_aio 0 status result (kernel (under_way d c rq)) = Some (True, k)"
    using x by (simp add: kv_complete_aio_def set_aioctx_event_def find_kaioctx_def under_way_def ctx_taken_def require_def k_def ev_def)
  have nr: "check_nr 1 (d1\<lparr>kernel := k'\<rparr>) = 1" for k' using x(7) by (simp add: check_nr_def d1_def ctx_taken_def)
  define k1 where "k1 = k\<lparr>eventfd_count := (eventfd_count k)(ka_eventfd d := 0)\<rparr>"
  have get: "nvme_get_ioevents True 1 (ka_ctxid d) k1 = Some (0, [ev], kernel d)"
  proof -
    have "x\<lparr>kaiocb_list := []\<rparr> = x" "(eventfd_count (kernel d))(ka_eventfd d := 0) = eventfd_count (kernel d)"
      using x(2,4) by (simp_all add: fun_upd_idem)
    moreover have "(g_kaioctx_tb (kernel d))[unat (ka_ctxid d) := Some x] = g_kaioctx_tb (kernel d)" using x(1) by (metis list_update_id)
    ultimately show ?thesis using x(3) by (simp add: nvme_get_ioevents_def find_kaioctx_def require_def k1_def k_def)
  qed
  have poll: "poll_event ev (d1\<lparr>kernel := kernel d\<rparr>) = Some (call_post_fn c r, d\<lparr>ka_ctxs := (ka_ctxs d)(last (free_cmdctxs d) \<mapsto> c),
      p_mem := p_mem d1, p_values := vals\<rparr>)"
    using fill x(6) c0(2)
    by (simp add: poll_event_def get_cmdctx_def release_cmd_ctx_def d1_def ctx_taken_def ev_def reqid_index)
  define d2 where "d2 = d1\<lparr>kernel := eventfd_signal (ka_eventfd d) k\<rparr>"
  have counter: "eventfd_count (kernel d2) (ka_eventfd d2) = 1"
    and cleared: "(kernel d2)\<lparr>eventfd_count := (eventfd_count (kernel d2))(ka_eventfd d2 := 0)\<rparr> = k1"
    using x(4) by (simp_all add: d2_def d1_def ctx_taken_def eventfd_signal_def k_def k1_def)
  have dev: "d2\<lparr>kernel := k1\<rparr> = d1\<lparr>kernel := k1\<rparr>" "ka_ctxid d1 = ka_ctxid d" by (simp_all add: d2_def d1_def ctx_taken_def)
  have "kadi_poll_loop True 1 2048 [] (d1\<lparr>kernel := k1\<rparr>) = Some (0, 2049, call_post_fn c r,
      d\<lparr>ka_ctxs := (ka_ctxs d)(last (free_cmdctxs d) \<mapsto> c), p_mem := p_mem d1, p_values := vals\<rparr>)"
    by (subst kadi_poll_loop.simps) (simp add: nr get poll dev Let_def kadi_poll_loop.simps [where eftd_ctx = 0])
  then have poll_all: "kadi_poll_completion True False 2048 d2 = Some (0, 2049, call_post_fn c r,
      d\<lparr>ka_ctxs := (ka_ctxs d)(last (free_cmdctxs d) \<mapsto> c), p_mem := p_mem d1, p_values := vals\<rparr>)"
    using counter cleared dev by (simp add: kadi_poll_completion_def)
  have "(under_way d c rq)\<lparr>kernel := eventfd_signal (ka_eventfd d) k, p_mem := p_mem d1\<rparr> = d2"
    by (simp add: under_way_def d2_def d1_def ctx_taken_def)
  then show ?thesis
    using call complete poll_all by (simp add: kdd_finish_def under_way_def ctx_taken_def d1_def)
qed

lemma idle_kept:
  assumes "kadi_idle d" and "ka_ctxs d p = Some c0" and "ac_index c = ac_index c0"
  shows "kadi_idle (d\<lparr>ka_ctxs := (ka_ctxs d)(p \<mapsto> c), p_mem := m, p_values := vals\<rparr>)"
proof -
  have "ctx_index (d\<lparr>ka_ctxs := (ka_ctxs d)(p \<mapsto> c), p_mem := m, p_values := vals\<rparr>) = ctx_index d"
    using assms(2,3) by (auto simp: ctx_index_def)
  then show ?thesis using assms(1) by (auto simp: kadi_idle_def ctxs_ok_def)
qed

lemma complete_io_ctxs: "kdd_complete_io ctx io s = Some (ret, s') \<Longrightarrow> kd_ctxs s' = kd_ctxs s"
  by (auto simp: kdd_complete_io_def Let_def split: kvs_context.splits if_splits bind_splits)

text \<open>A synchronous call on an idle driver, from its request to its result.\<close>

lemma run_alone:
  assumes idle: "kadi_idle (kd_adi s)" and c0: "ka_ctxs (kd_adi s) (last (free_cmdctxs (kd_adi s))) = Some c0" "free_cmdctxs (kd_adi s) \<noteq> []"
      "ac_index c = ac_index c0" "ac_post_fn c = kc_fn call" "ac_post_data c = kc_ctx call"
    and call: "kc_capable call" "kc_answer call = (status, result, bytes)" "kc_fn call \<noteq> 0"
    and request: "request (Some (kc_fn call, kc_ctx call)) (kd_adi s) = Returns (0, under_way (kd_adi s) c rq)"
    and fill: "fill_ioresult c \<lparr>ev_reqid = ucast (ac_index c), ev_ctxid = ka_ctxid (kd_adi s), ev_result = result, ev_status = status\<rparr>
      (p_values (kd_adi s)) = Some (r, vals)"
    and io: "cx_syncio ctx" "kdd_complete_io ctx r (s\<lparr>kd_ctxs := (kd_ctxs s)(kc_ctx call \<mapsto> ctx),
      kd_adi := (kd_adi s)\<lparr>ka_ctxs := (ka_ctxs (kd_adi s))(last (free_cmdctxs (kd_adi s)) \<mapsto> c),
        p_mem := mem_put (p_mem (kd_adi s)) (rq_ubuffer rq) (take (unat (rq_bufflen rq)) bytes), p_values := vals\<rparr>\<rparr>) = Some (ret, s')"
  shows "kdd_run call ctx request s = Returns (convert_status (cx_context ctx) ret, s'\<lparr>kd_ctxs := (kd_ctxs s)(kc_ctx call := None)\<rparr>)"
proof -
  note finish = finish_alone [OF idle c0(1-3) call(1,2) fill, of rq]
  have ctxs: "kd_ctxs s' = (kd_ctxs s)(kc_ctx call \<mapsto> ctx)" using complete_io_ctxs [OF io(2)] by simp
  have "io_private_data r = kc_ctx call" using fill_private [OF fill] c0(5) by simp
  then show ?thesis
    using finish request io ctxs call(3) c0(4)
    by (simp add: kdd_run_def wait_for_io_def call_post_fn_def kdd_on_io_complete_def Let_def rc_def)
qed

text \<open>
  The requests of the adapter on an idle adapter: the command is under way, in a context with the
  callback and the value of the request.
\<close>

definition carries_ctx :: "aio_cmd_ctx \<Rightarrow> aio_cmd_ctx \<Rightarrow> u64 \<times> u64 \<Rightarrow> u8 \<Rightarrow> bool" where
  "carries_ctx c c0 cb opcode \<longleftrightarrow> ac_index c = ac_index c0 \<and> ac_post_fn c = fst cb \<and> ac_post_data c = snd cb \<and> pc_opcode (ac_cmd c) = opcode"

lemma requests_alone:
  assumes idle: "kadi_idle d" and c0: "free_cmdctxs d \<noteq> []" "ka_ctxs d (last (free_cmdctxs d)) = Some c0"
    and k: "short_key_ok k" "p_keys d key = Some k" "key \<noteq> 0" "kk_key k \<noteq> 0"
  shows "p_values d val = Some v \<Longrightarrow> val \<noteq> 0 \<Longrightarrow>
      \<exists>c rq. kadi_kv_store True None ks key val opt (Some cb) d = Returns (0, under_way d c rq) \<and> carries_ctx c c0 cb nvme_cmd_kv_store"
    and "p_values d val = Some v \<Longrightarrow> val \<noteq> 0 \<Longrightarrow>
      \<exists>c rq. kadi_kv_retrieve True None ks key val (Some cb) d = Returns (0, under_way d c rq) \<and> carries_ctx c c0 cb nvme_cmd_kv_retrieve
        \<and> ac_value c = val \<and> rq_ubuffer rq = va_value v \<and> rq_bufflen rq = va_length v"
    and "\<exists>c rq. kadi_kv_delete True None ks key opt (Some cb) d = Returns (0, under_way d c rq) \<and> carries_ctx c c0 cb nvme_cmd_kv_delete"
    and "\<exists>c rq. kadi_exist True None out ks key (Some cb) d = Returns (True, under_way d c rq) \<and> carries_ctx c c0 cb nvme_cmd_kv_exist"
proof -
  obtain fn a where cb: "cb = (fn, a)" by (cases cb)
  note issue = issue_alone [OF idle c0(2,1), where fn = fn and a = a]
  have fields: "ka_nsid (ctx_taken d c) = ka_nsid d" "p_mem (ctx_taken d c) = p_mem d" "p_values (ctx_taken d c) = p_values d" for c by (simp_all add: ctx_taken_def)
  note simps = cb carries_ctx_def fields k keyed_fields
  { assume v: "p_values d val = Some v" "val \<noteq> 0"
    note st = issue [OF user_kv_store [OF k(1), of "ka_nsid d" "p_mem d" ks v opt], where f = "\<lambda>c. c\<lparr>ac_key := key, ac_value := val\<rparr>"]
    show "\<exists>c rq. kadi_kv_store True None ks key val opt (Some cb) d = Returns (0, under_way d c rq) \<and> carries_ctx c c0 cb nvme_cmd_kv_store"
      using v by (intro exI conjI) (simp add: kadi_kv_store_def simps st, simp add: simps store_cmd_def)
  next
    assume v: "p_values d val = Some v" "val \<noteq> 0"
    note rt = issue [OF user_kv_retrieve [OF k(1), of "ka_nsid d" "p_mem d" ks v], where f = "\<lambda>c. c\<lparr>ac_key := key, ac_value := val\<rparr>"]
    show "\<exists>c rq. kadi_kv_retrieve True None ks key val (Some cb) d = Returns (0, under_way d c rq) \<and> carries_ctx c c0 cb nvme_cmd_kv_retrieve
        \<and> ac_value c = val \<and> rq_ubuffer rq = va_value v \<and> rq_bufflen rq = va_length v"
      using v by (intro exI conjI) (simp add: kadi_kv_retrieve_def simps rt, simp_all add: simps retrieve_cmd_def)
  }
  note dl = issue [OF user_kv_delete [OF k(1), of "ka_nsid d" "p_mem d" ks opt], where f = "\<lambda>c. c\<lparr>ac_key := key, ac_value := 0\<rparr>"]
  show "\<exists>c rq. kadi_kv_delete True None ks key opt (Some cb) d = Returns (0, under_way d c rq) \<and> carries_ctx c c0 cb nvme_cmd_kv_delete"
    by (intro exI conjI) (simp add: kadi_kv_delete_def simps dl, simp add: simps delete_cmd_def)
  note ex = issue [OF user_kv_exist [OF k(1), of "ka_nsid d" "p_mem d" ks], where f = "\<lambda>c. c"]
  show "\<exists>c rq. kadi_exist True None out ks key (Some cb) d = Returns (True, under_way d c rq) \<and> carries_ctx c c0 cb nvme_cmd_kv_exist"
    by (intro exI conjI) (simp add: kadi_exist_def simps ex, simp add: simps exist_cmd_def)
qed

lemma fill_plain:
  assumes "pc_opcode (ac_cmd c) \<in> {nvme_cmd_kv_store, nvme_cmd_kv_delete, nvme_cmd_kv_exist} \<or>
      pc_opcode (ac_cmd c) = nvme_cmd_kv_retrieve \<and> ev_status ev \<noteq> 0"
  shows "\<exists>r. fill_ioresult c ev vals = Some (r, vals) \<and> io_retcode r = int (unat (ev_status ev)) \<and> io_value r = ac_value c"
  using assms by (auto simp: fill_ioresult_def Let_def)

lemma fill_retrieved:
  assumes "pc_opcode (ac_cmd c) = nvme_cmd_kv_retrieve" and "ev_status ev = 0" and "ac_value c \<noteq> 0" and "vals (ac_value c) = Some v"
  shows "\<exists>r. fill_ioresult c ev vals = Some (r, vals(ac_value c \<mapsto> v\<lparr>va_actual_value_size := ev_result ev - va_offset v,
      va_length := min (ev_result ev - va_offset v) (va_length v)\<rparr>)) \<and> io_retcode r = 0 \<and> io_value r = ac_value c"
  using assms by (simp add: fill_ioresult_def Let_def)

text \<open>A driver that was initialized and is idle, and a call the kernel lets through.\<close>

definition kdd_call_ok :: "kdd_call \<Rightarrow> KDDriver \<Rightarrow> bool" where
  "kdd_call_ok call s \<longleftrightarrow> kadi_idle (kd_adi s) \<and> kd_sqH s \<and> kd_nsH s \<and> kc_capable call \<and> kc_refused call = None \<and> kc_fn call \<noteq> 0"

definition kdd_key_ok :: "u64 \<Rightarrow> KADI \<Rightarrow> bool" where
  "kdd_key_ok key d \<longleftrightarrow> key \<noteq> 0 \<and> (\<exists>k. p_keys d key = Some k \<and> short_key_ok k \<and> kk_key k \<noteq> 0)"

text \<open>The end of a call: the driver is idle again and has given up the context of the call.\<close>

definition kdd_finished :: "kdd_call \<Rightarrow> KDDriver \<Rightarrow> KDDriver \<Rightarrow> bool" where
  "kdd_finished call s s' \<longleftrightarrow> kadi_idle (kd_adi s') \<and> kd_ctxs s' = (kd_ctxs s)(kc_ctx call := None)"

text \<open>
  A request that is under way, and the state in which its callback runs. The callback gives the
  result of the call and the last changes of the adapter.
\<close>

definition answered :: "kdd_call \<Rightarrow> aio_cmd_ctx \<Rightarrow> nvme_kv_request \<Rightarrow> (u64 \<rightharpoonup> kadi_value) \<Rightarrow> KDDriver \<Rightarrow> KADI" where
  "answered call c rq vals s = (kd_adi s)\<lparr>ka_ctxs := (ka_ctxs (kd_adi s))(last (free_cmdctxs (kd_adi s)) \<mapsto> c),
     p_mem := mem_put (p_mem (kd_adi s)) (rq_ubuffer rq) (take (unat (rq_bufflen rq)) (snd (snd (kc_answer call)))), p_values := vals\<rparr>"

lemma call_alone:
  assumes ok: "kdd_call_ok call s" "kc_answer call = (status, result, bytes)"
    and c0: "free_cmdctxs (kd_adi s) \<noteq> []" "ka_ctxs (kd_adi s) (last (free_cmdctxs (kd_adi s))) = Some c0"
    and c: "request (Some (kc_fn call, kc_ctx call)) (kd_adi s) = Returns (0, under_way (kd_adi s) c rq)" "carries_ctx c c0 (kc_fn call, kc_ctx call) opc"
    and fill: "fill_ioresult c \<lparr>ev_reqid = ucast (ac_index c), ev_ctxid = ka_ctxid (kd_adi s), ev_result = result, ev_status = status\<rparr>
      (p_values (kd_adi s)) = Some (r, vals)"
    and io: "\<And>t. kd_exists t = kd_exists s \<Longrightarrow> kd_adi t = answered call c rq vals s \<Longrightarrow>
      kdd_complete_io (prep_io_context opcode val lst n True cbfn) r t = Some (ret, t\<lparr>kd_adi := (kd_adi t)\<lparr>p_mem := m, p_values := vals'\<rparr>\<rparr>)"
  shows "\<exists>s'. kdd_run call (prep_io_context opcode val lst n True cbfn) request s = Returns (convert_status opcode ret, s') \<and> kdd_finished call s s'
    \<and> p_mem (kd_adi s') = m \<and> p_values (kd_adi s') = vals'"
proof -
  have idle: "kadi_idle (kd_adi s)" and call: "kc_capable call" "kc_fn call \<noteq> 0" using ok(1) by (simp_all add: kdd_call_ok_def)
  have idx: "ac_index c = ac_index c0" "ac_post_fn c = kc_fn call" "ac_post_data c = kc_ctx call" using c(2) by (simp_all add: carries_ctx_def)
  define t where "t = s\<lparr>kd_ctxs := (kd_ctxs s)(kc_ctx call \<mapsto> prep_io_context opcode val lst n True cbfn), kd_adi := answered call c rq vals s\<rparr>"
  have "kdd_run call (prep_io_context opcode val lst n True cbfn) request s = Returns (convert_status opcode ret,
      t\<lparr>kd_adi := (kd_adi t)\<lparr>p_mem := m, p_values := vals'\<rparr>, kd_ctxs := (kd_ctxs s)(kc_ctx call := None)\<rparr>)"
    using run_alone [where request = request and call = call and s = s and ctx = "prep_io_context opcode val lst n True cbfn",
        OF idle c0(2,1) idx call(1) ok(2) call(2) c(1) fill] io [of t] ok(2)
    by (simp add: t_def answered_def prep_io_context_def)
  moreover have "kadi_idle ((kd_adi t)\<lparr>p_mem := m, p_values := vals'\<rparr>)"
    using idle_kept [OF idle c0(2) idx(1), where m = m and vals = vals'] by (simp add: t_def answered_def)
  ultimately show ?thesis by (auto simp: kdd_finished_def t_def answered_def)
qed

lemma call_start:
  assumes "kdd_call_ok call s" and "kdd_key_ok key (kd_adi s)"
  obtains c0 k where "kadi_idle (kd_adi s)" "free_cmdctxs (kd_adi s) \<noteq> []" "ka_ctxs (kd_adi s) (last (free_cmdctxs (kd_adi s))) = Some c0"
    "short_key_ok k" "p_keys (kd_adi s) key = Some k" "key \<noteq> 0" "kk_key k \<noteq> 0"
proof -
  have idle: "kadi_idle (kd_adi s)" using assms(1) by (simp add: kdd_call_ok_def)
  show thesis using idle_context [OF idle] idle assms(2) that by (auto simp: kdd_key_ok_def)
qed

lemma plain_answer:
  assumes "carries_ctx c c0 cb opc" and "opc \<in> {nvme_cmd_kv_store, nvme_cmd_kv_delete, nvme_cmd_kv_exist} \<or> opc = nvme_cmd_kv_retrieve \<and> status \<noteq> 0"
  obtains r where "fill_ioresult c \<lparr>ev_reqid = ucast (ac_index c), ev_ctxid = i, ev_result = result, ev_status = status\<rparr> vals = Some (r, vals)"
    "io_retcode r = int (unat status)" "io_value r = ac_value c"
  using fill_plain [of c "\<lparr>ev_reqid = ucast (ac_index c), ev_ctxid = i, ev_result = result, ev_status = status\<rparr>" vals] assms
  by (auto simp: carries_ctx_def)

lemma store_alone:
  assumes ok: "kdd_call_ok call s" "kc_answer call = (status, result, bytes)" "kdd_key_ok key (kd_adi s)"
    and v: "p_values (kd_adi s) val = Some v" "val \<noteq> 0"
    and st: "st \<in> {KVS_STORE_POST, KVS_STORE_UPDATE_ONLY, KVS_STORE_NOOVERWRITE}"
  shows "\<exists>s'. kdd_store_tuple call ks key val st True cbfn s = Returns (convert_status KVS_CMD_STORE (int (unat status)), s') \<and> kdd_finished call s s'"
proof -
  define cb where "cb = (kc_fn call, kc_ctx call)"
  obtain c0 k where start: "kadi_idle (kd_adi s)" "free_cmdctxs (kd_adi s) \<noteq> []" "ka_ctxs (kd_adi s) (last (free_cmdctxs (kd_adi s))) = Some c0"
    "short_key_ok k" "p_keys (kd_adi s) key = Some k" "key \<noteq> 0" "kk_key k \<noteq> 0" by (rule call_start [OF ok(1,3)])
  obtain o1 where o1: "kdd_trans_store_cmd_opt st = Some o1" "o1 \<in> {KV_STORE_OPT_DEFAULT, KV_STORE_OPT_UPDATE_ONLY, KV_STORE_OPT_IDEMPOTENT}"
    using st by (auto simp: kdd_trans_store_cmd_opt_def)
  have "\<exists>opt. kd_kv_store True None True True ks key val o1 (Some cb) (kd_adi s) = kadi_kv_store True None ks key val opt (Some cb) (kd_adi s)"
    using o1(2) start(6) v(2) by (auto simp: kd_kv_store_def)
  then obtain c rq where c: "kd_kv_store True None True True ks key val o1 (Some cb) (kd_adi s) = Returns (0, under_way (kd_adi s) c rq)"
      "carries_ctx c c0 cb nvme_cmd_kv_store"
    using requests_alone(1) [OF start v, where cb = cb] by metis
  obtain r where r: "fill_ioresult c \<lparr>ev_reqid = ucast (ac_index c), ev_ctxid = ka_ctxid (kd_adi s), ev_result = result, ev_status = status\<rparr>
      (p_values (kd_adi s)) = Some (r, p_values (kd_adi s))" "io_retcode r = int (unat status)"
    by (rule plain_answer [OF c(2)]) simp
  have "\<exists>s'. kdd_run call (prep_io_context KVS_CMD_STORE val 0 0 True cbfn) (kd_kv_store True None True True ks key val o1) s =
      Returns (convert_status KVS_CMD_STORE (int (unat status)), s') \<and> kdd_finished call s s'
      \<and> p_mem (kd_adi s') = p_mem (answered call c rq (p_values (kd_adi s)) s) \<and> p_values (kd_adi s') = p_values (kd_adi s)"
    using c unfolding cb_def
    by (rule call_alone [OF ok(1,2) start(2,3) _ _ r(1)]) (simp add: kdd_complete_io_def prep_io_context_def r(2) answered_def)
  then show ?thesis using ok(1) o1(1) by (auto simp: kdd_store_tuple_def kdd_call_ok_def)
qed

lemma delete_alone:
  assumes ok: "kdd_call_ok call s" "kc_answer call = (status, result, bytes)" "kdd_key_ok key (kd_adi s)"
  shows "\<exists>s'. kdd_delete_tuple call ks key err True cbfn s = Returns (convert_status KVS_CMD_DELETE (int (unat status)), s') \<and> kdd_finished call s s'"
proof -
  obtain c0 k where start: "kadi_idle (kd_adi s)" "free_cmdctxs (kd_adi s) \<noteq> []" "ka_ctxs (kd_adi s) (last (free_cmdctxs (kd_adi s))) = Some c0"
    "short_key_ok k" "p_keys (kd_adi s) key = Some k" "key \<noteq> 0" "kk_key k \<noteq> 0" by (rule call_start [OF ok(1,3)])
  define o1 where "o1 = (if \<not> err then KV_DELETE_OPT_DEFAULT else KV_DELETE_OPT_ERROR)"
  obtain c rq where c: "kd_kv_delete True None True True ks key o1 (Some (kc_fn call, kc_ctx call)) (kd_adi s) = Returns (0, under_way (kd_adi s) c rq)"
      "carries_ctx c c0 (kc_fn call, kc_ctx call) nvme_cmd_kv_delete"
    using requests_alone(3) [OF start, where cb = "(kc_fn call, kc_ctx call)" and ks = ks and opt = "delete_option_code o1"] start(6)
    by (auto simp: kd_kv_delete_def)
  obtain r where r: "fill_ioresult c \<lparr>ev_reqid = ucast (ac_index c), ev_ctxid = ka_ctxid (kd_adi s), ev_result = result, ev_status = status\<rparr>
      (p_values (kd_adi s)) = Some (r, p_values (kd_adi s))" "io_retcode r = int (unat status)"
    by (rule plain_answer [OF c(2)]) simp
  have "\<exists>s'. kdd_run call (prep_io_context KVS_CMD_DELETE 0 0 0 True cbfn) (kd_kv_delete True None True True ks key o1) s =
      Returns (convert_status KVS_CMD_DELETE (int (unat status)), s') \<and> kdd_finished call s s'
      \<and> p_mem (kd_adi s') = p_mem (answered call c rq (p_values (kd_adi s)) s) \<and> p_values (kd_adi s') = p_values (kd_adi s)"
    using c by (rule call_alone [OF ok(1,2) start(2,3) _ _ r(1)]) (simp add: kdd_complete_io_def prep_io_context_def r(2) answered_def)
  then show ?thesis using ok(1) by (auto simp: kdd_delete_tuple_def kdd_call_ok_def o1_def)
qed

lemma exist_alone:
  assumes ok: "kdd_call_ok call s" "kc_answer call = (status, result, bytes)" "kdd_key_ok key (kd_adi s)"
    and lst: "kd_exists s lst = Some (len, res)"
  shows "\<exists>s'. kdd_exist_tuple call ks 1 key lst True cbfn s = Returns (convert_status KVS_CMD_EXIST (int (unat status)), s') \<and> kdd_finished call s s'
    \<and> p_mem (kd_adi s') res = (if status = 0x310 then 0 else 1)"
proof -
  obtain c0 k where start: "kadi_idle (kd_adi s)" "free_cmdctxs (kd_adi s) \<noteq> []" "ka_ctxs (kd_adi s) (last (free_cmdctxs (kd_adi s))) = Some c0"
    "short_key_ok k" "p_keys (kd_adi s) key = Some k" "key \<noteq> 0" "kk_key k \<noteq> 0" by (rule call_start [OF ok(1,3)])
  have "validate_kadi_key k = KV_SUCCESS" using start(4,7) by (simp add: validate_kadi_key_def short_key_ok_def)
  then obtain c rq where c: "kd_kv_exist True None (Refused 0) True True ks key 1 len res (Some (kc_fn call, kc_ctx call)) (kd_adi s) =
        Returns (0, under_way (kd_adi s) c rq)" "carries_ctx c c0 (kc_fn call, kc_ctx call) nvme_cmd_kv_exist"
    using requests_alone(4) [OF start, where cb = "(kc_fn call, kc_ctx call)" and ks = ks and out = "Refused 0"] start(5)
    by (auto simp: kd_kv_exist_def rc_def)
  obtain r where r: "fill_ioresult c \<lparr>ev_reqid = ucast (ac_index c), ev_ctxid = ka_ctxid (kd_adi s), ev_result = result, ev_status = status\<rparr>
      (p_values (kd_adi s)) = Some (r, p_values (kd_adi s))" "io_retcode r = int (unat status)"
    by (rule plain_answer [OF c(2)]) simp
  define m where "m = (p_mem (answered call c rq (p_values (kd_adi s)) s))(res := if int (unat status) = 0x310 then 0 else 1)"
  have st: "int (unat status) = 0x310 \<longleftrightarrow> status = 0x310" by (simp add: word_unat_eq_iff nat_int_comparison(1))
  have "\<exists>s'. kdd_run call (prep_io_context KVS_CMD_EXIST 0 lst 0 True cbfn) (kd_kv_exist True None (Refused 0) True True ks key 1 len res) s =
      Returns (convert_status KVS_CMD_EXIST (int (unat status)), s') \<and> kdd_finished call s s' \<and> p_mem (kd_adi s') = m \<and> p_values (kd_adi s') = p_values (kd_adi s)"
    using c by (rule call_alone [OF ok(1,2) start(2,3) _ _ r(1)])
      (simp add: kdd_complete_io_def prep_io_context_def r(2) answered_def lst m_def)
  then show ?thesis using ok(1) st lst by (auto simp: kdd_exist_tuple_def kdd_call_ok_def m_def)
qed

text \<open>A retrieve: the callback looks at the sizes of the value whatever the status is.\<close>

lemma store_other:
  assumes "kdd_call_ok call s" and "kdd_key_ok key (kd_adi s)" and "val \<noteq> 0"
    and "st \<notin> {KVS_STORE_POST, KVS_STORE_UPDATE_ONLY, KVS_STORE_NOOVERWRITE}"
  shows "\<exists>s'. kdd_store_tuple call ks key val st True cbfn s = Returns (KVS_ERR_OPTION_INVALID, s') \<and> kd_adi s' = kd_adi s
    \<and> (kd_ctxs s (kc_ctx call) = None \<longrightarrow> s' = s)"
proof (cases "kdd_trans_store_cmd_opt st")
  case None
  then show ?thesis by (auto simp: kdd_store_tuple_def)
next
  case (Some o1)
  then have o1: "o1 = KV_STORE_OPT_APPEND" using assms(4) by (cases st) (auto simp: kdd_trans_store_cmd_opt_def)
  have "kdd_store_tuple call ks key val st True cbfn s =
      Returns (KVS_ERR_OPTION_INVALID, s\<lparr>kd_ctxs := (kd_ctxs s)(kc_ctx call := None)\<rparr>)"
    using assms(1-3) by (simp add: kdd_store_tuple_def Some o1 kdd_run_def kd_kv_store_def kdd_call_ok_def kdd_key_ok_def
      prep_io_context_def rc_def convert_status_def convert_code_def code_map_def)
  then show ?thesis by (auto simp: fun_upd_idem)
qed

lemma buffer_small_status: "convert_status KVS_CMD_RETRIEVE (rc KV_ERR_BUFFER_SMALL) = KVS_ERR_BUFFER_SMALL"
  by (simp add: convert_status_def convert_code_def code_map_def rc_def)

lemma retrieve_alone:
  assumes ok: "kdd_call_ok call s" "kc_answer call = (status, result, bytes)" "kdd_key_ok key (kd_adi s)"
    and v: "p_values (kd_adi s) val = Some v" "val \<noteq> 0"
    and v': "v' = (if status = 0 then v\<lparr>va_actual_value_size := result - va_offset v, va_length := min (result - va_offset v) (va_length v)\<rparr> else v)"
  shows "\<exists>s'. kdd_retrieve_tuple call ks key val del True cbfn s =
      Returns (if va_length v' < va_actual_value_size v' then KVS_ERR_BUFFER_SMALL else convert_status KVS_CMD_RETRIEVE (int (unat status)), s')
    \<and> kdd_finished call s s' \<and> p_values (kd_adi s') val = Some v' \<and> p_mem (kd_adi s') = mem_put (p_mem (kd_adi s)) (va_value v) (take (unat (va_length v)) bytes)"
proof -
  obtain c0 k where start: "kadi_idle (kd_adi s)" "free_cmdctxs (kd_adi s) \<noteq> []" "ka_ctxs (kd_adi s) (last (free_cmdctxs (kd_adi s))) = Some c0"
    "short_key_ok k" "p_keys (kd_adi s) key = Some k" "key \<noteq> 0" "kk_key k \<noteq> 0" by (rule call_start [OF ok(1,3)])
  define o1 where "o1 = (if \<not> del then KV_RETRIEVE_OPT_DEFAULT else KV_RETRIEVE_OPT_DELETE)"
  obtain c rq where c: "kd_kv_retrieve True None True True ks key o1 val (Some (kc_fn call, kc_ctx call)) (kd_adi s) = Returns (0, under_way (kd_adi s) c rq)"
      "carries_ctx c c0 (kc_fn call, kc_ctx call) nvme_cmd_kv_retrieve" "ac_value c = val" "rq_ubuffer rq = va_value v" "rq_bufflen rq = va_length v"
    using requests_alone(2) [OF start v, where cb = "(kc_fn call, kc_ctx call)" and ks = ks] start(6) v(2)
    by (auto simp: kd_kv_retrieve_def)
  define vals where "vals = (p_values (kd_adi s))(val \<mapsto> v')"
  have "\<exists>r. fill_ioresult c \<lparr>ev_reqid = ucast (ac_index c), ev_ctxid = ka_ctxid (kd_adi s), ev_result = result, ev_status = status\<rparr>
      (p_values (kd_adi s)) = Some (r, vals) \<and> io_retcode r = int (unat status) \<and> io_value r = val"
  proof (cases "status = 0")
    case True
    then show ?thesis using fill_retrieved [of c "\<lparr>ev_reqid = ucast (ac_index c), ev_ctxid = ka_ctxid (kd_adi s), ev_result = result, ev_status = status\<rparr>"
        "p_values (kd_adi s)" v] c v v' by (auto simp: carries_ctx_def vals_def)
  next
    case False
    then have "vals = p_values (kd_adi s)" using v(1) v' by (auto simp: vals_def)
    moreover obtain r where "fill_ioresult c \<lparr>ev_reqid = ucast (ac_index c), ev_ctxid = ka_ctxid (kd_adi s), ev_result = result,
        ev_status = status\<rparr> (p_values (kd_adi s)) = Some (r, p_values (kd_adi s))" "io_retcode r = int (unat status)" "io_value r = ac_value c"
      by (rule plain_answer [OF c(2)]) (use False in simp)
    ultimately show ?thesis using c(3) by blast
  qed
  then obtain r where r: "fill_ioresult c \<lparr>ev_reqid = ucast (ac_index c), ev_ctxid = ka_ctxid (kd_adi s), ev_result = result, ev_status = status\<rparr>
      (p_values (kd_adi s)) = Some (r, vals)" "io_retcode r = int (unat status)" "io_value r = val" by blast
  have "\<exists>s'. kdd_run call (prep_io_context KVS_CMD_RETRIEVE val 0 0 True cbfn) (kd_kv_retrieve True None True True ks key o1 val) s =
      Returns (convert_status KVS_CMD_RETRIEVE (if va_length v' < va_actual_value_size v' then rc KV_ERR_BUFFER_SMALL else int (unat status)), s')
      \<and> kdd_finished call s s' \<and> p_mem (kd_adi s') = p_mem (answered call c rq vals s) \<and> p_values (kd_adi s') = vals"
    using c(1,2) by (rule call_alone [OF ok(1,2) start(2,3) _ _ r(1)])
      (simp add: kdd_complete_io_def prep_io_context_def r(2,3) answered_def vals_def)
  then show ?thesis using ok(1,2) c(4,5)
    by (auto simp: kdd_retrieve_tuple_def kdd_call_ok_def o1_def buffer_small_status vals_def answered_def)
qed

text \<open>
  C6. Synchronous calls on pairs return: on an idle driver, with a key of legal length, a value
  structure and a command the kernel takes, each of the four calls ends and leaves the driver idle,
  without the context of the call. A store of one of the three types the adapter knows, a delete and
  an existence check return the result for the status of the drive; a store of another type is
  refused as an invalid option without a command, whatever the drive would answer. An existence
  check writes 0 exactly when the status is that of a missing key (0x310), and 1 for every other
  status. A retrieve writes the data of the drive, up to the length of the buffer, and when the
  status is 0 the sizes; it reports a buffer that is too small when the size in the value structure
  then exceeds the length there, and only otherwise the result for the status of the drive.
\<close>

theorem kdd_sync_calls:
  assumes "kdd_call_ok call s" and "kc_answer call = (status, result, bytes)" and "kdd_key_ok key (kd_adi s)"
    and "p_values (kd_adi s) val = Some v" and "val \<noteq> 0" and "kd_exists s lst = Some (len, res)"
  shows "(if st \<in> {KVS_STORE_POST, KVS_STORE_UPDATE_ONLY, KVS_STORE_NOOVERWRITE}
      then \<exists>s'. kdd_store_tuple call ks key val st True cbfn s = Returns (convert_status KVS_CMD_STORE (int (unat status)), s') \<and> kdd_finished call s s'
      else \<exists>s'. kdd_store_tuple call ks key val st True cbfn s = Returns (KVS_ERR_OPTION_INVALID, s') \<and> kd_adi s' = kd_adi s
        \<and> (kd_ctxs s (kc_ctx call) = None \<longrightarrow> s' = s))
    \<and> (\<exists>s'. kdd_delete_tuple call ks key err True cbfn s = Returns (convert_status KVS_CMD_DELETE (int (unat status)), s') \<and> kdd_finished call s s')
    \<and> (\<exists>s'. kdd_exist_tuple call ks 1 key lst True cbfn s = Returns (convert_status KVS_CMD_EXIST (int (unat status)), s') \<and> kdd_finished call s s'
         \<and> p_mem (kd_adi s') res = (if status = 0x310 then 0 else 1))
    \<and> (\<exists>s' v'. v' = (if status = 0 then v\<lparr>va_actual_value_size := result - va_offset v, va_length := min (result - va_offset v) (va_length v)\<rparr> else v)
         \<and> kdd_retrieve_tuple call ks key val del True cbfn s =
           Returns (if va_length v' < va_actual_value_size v' then KVS_ERR_BUFFER_SMALL else convert_status KVS_CMD_RETRIEVE (int (unat status)), s')
         \<and> kdd_finished call s s' \<and> p_values (kd_adi s') val = Some v'
         \<and> p_mem (kd_adi s') = mem_put (p_mem (kd_adi s)) (va_value v) (take (unat (va_length v)) bytes))"
  using store_alone [OF assms(1-5)] store_other [OF assms(1,3,5)] delete_alone [OF assms(1-3)] exist_alone [OF assms(1-3,6)]
    retrieve_alone [OF assms(1-5) refl, of ks del cbfn]
  by (auto simp del: insert_iff cong: if_cong split del: if_split)

text \<open>
  C33. A retrieve of a key that does not exist is reported as a buffer that is too small when the
  value structure has a size that is greater than its length, for instance from an earlier retrieve:
  the callback compares the sizes before it looks at the status.
\<close>

theorem kdd_missing_key_masked:
  assumes "kdd_call_ok call s" and "kc_answer call = (0x310, result, bytes)" and "kdd_key_ok key (kd_adi s)"
    and "p_values (kd_adi s) val = Some v" and "val \<noteq> 0"
  shows "\<exists>s'. kdd_retrieve_tuple call ks key val del True cbfn s =
    Returns (if va_length v < va_actual_value_size v then KVS_ERR_BUFFER_SMALL else KVS_ERR_KEY_NOT_EXIST, s')"
  using retrieve_alone [OF assms refl, of ks del cbfn] by (auto simp: convert_status_def)

text \<open>
  C32. A synchronous existence check never returns when the kernel refuses its command: the adapter
  reports the refused command as accepted, and the driver waits for a callback that never comes.
\<close>

theorem kdd_exist_refused_waits:
  assumes "kadi_idle (kd_adi s)" and "kd_sqH s" and "kd_nsH s" and "kc_capable call" and "kc_refused call = Some e" and "e < 0"
    and "kdd_key_ok key (kd_adi s)" and "kd_exists s lst = Some (len, res)"
  shows "kdd_exist_tuple call ks 1 key lst True cbfn s = Waits"
proof -
  obtain k where k: "p_keys (kd_adi s) key = Some k" "short_key_ok k" "kk_key k \<noteq> 0" using assms(7) by (auto simp: kdd_key_ok_def)
  have "validate_kadi_key k = KV_SUCCESS" using k by (simp add: validate_kadi_key_def short_key_ok_def)
  moreover obtain d' where "kadi_exist True (Some e) (Refused 0) ks key (Some (kc_fn call, kc_ctx call)) (kd_adi s) = Returns (True, d')"
      "kernel d' = kernel (kd_adi s)"
    using exist_refused_reported [OF _ _ k(1) assms(6)] idle_context [OF assms(1)] assms(1) by (metis kadi_idle_def)
  ultimately show ?thesis
    using assms k by (simp add: kdd_exist_tuple_def kdd_run_def kd_kv_exist_def rc_def Let_def wait_for_io_def kdd_finish_def
      prep_io_context_def kadi_idle_def)
qed

section \<open>Opening\<close>

lemma free_alloc:
  assumes "distinct ps" and "set ps \<subseteq> dom (ka_ctxs d)"
  shows "\<exists>d'. free_ctxs ps d = Some d' \<and> kernel d' = kernel d \<and> ka_ctxid d' = ka_ctxid d"
  using assms
proof (induction ps arbitrary: d)
  case (Cons p ps)
  define d1 where "d1 = d\<lparr>ka_ctxs := (ka_ctxs d)(p := None)\<rparr>"
  have "set ps \<subseteq> dom (ka_ctxs d1)" using Cons.prems by (auto simp: d1_def)
  then obtain d' where "free_ctxs ps d1 = Some d'" "kernel d' = kernel d1" "ka_ctxid d' = ka_ctxid d1"
    using Cons.IH [of d1] Cons.prems(1) by auto
  then show ?case using Cons.prems(2) by (auto simp: require_def d1_def)
qed simp

text \<open>
  C31. A process without the privilege for contexts removes the context with the id 0 of the whole
  system: when it can open the device file, the kernel refuses it a context, and the failed
  initialization ends with deleting the context whose id is the 0 the adapter had put into its
  structure. Deleting needs no privilege and does not ask whose context it is.
\<close>

theorem failed_open_deletes_context:
  assumes "oe_addr env \<notin> devs" and "0 < oe_fd env" and "oe_nsid env \<noteq> - 1" and "0 \<le> oe_efd env" and "\<not> oe_capable env"
    and "distinct (oe_ptrs env)" and "\<not> tb_locked (kernel w)" and "g_kaioctx_tb (kernel w) \<noteq> []"
  shows "\<exists>e w' devs'. kd_initialize_device env q (Some None) w devs = Some (e, None, w', devs') \<and> e \<noteq> KV_SUCCESS
    \<and> kernel w' = (kernel w)\<lparr>g_kaioctx_tb := (g_kaioctx_tb (kernel w))[0 := None]\<rparr>"
proof -
  define ps where "ps = take (nat q) (oe_ptrs env)"
  define d where "d = (alloc_ctxs 0 ps ((kadi_new q (oe_ctxid env) w)\<lparr>ka_fd := oe_fd env, ka_nsid := oe_nsid env\<rparr>))
    \<lparr>ka_eventfd := word_of_int (oe_efd env), ka_ctxid := 0\<rparr>"
  have ps: "distinct ps" using assms(6) by (simp add: ps_def)
  have d: "free_cmdctxs d = ps" "kernel d = kernel w" "ka_ctxid d = 0" "ka_fd d = oe_fd env" "set ps \<subseteq> dom (ka_ctxs d)"
    using ps dom_fresh_ctxs [of 0 ps] by (simp_all add: d_def alloc_ctxs_eq kadi_new_def)
  obtain d1 where d1: "free_ctxs ps (d\<lparr>ka_started := False\<rparr>) = Some d1" "kernel d1 = kernel w" "ka_ctxid d1 = 0"
    using free_alloc [OF ps, of "d\<lparr>ka_started := False\<rparr>"] d by auto
  have close: "\<exists>w'. kadi_close d = Some (0, w') \<and> kernel w' = (kernel w)\<lparr>g_kaioctx_tb := (g_kaioctx_tb (kernel w))[0 := None]\<rparr>"
    using d d1 assms(2,7,8) by (simp add: kadi_close_def nvme_del_aioctx_def require_def)
  have "kadi_open False (oe_valid env) (oe_fd env) (oe_nsid env) (oe_efd env) (oe_ptrs env) (kadi_new q (oe_ctxid env) w) =
      Some (rc KV_ERR_SYS_IO, d)"
    using assms(2-4) ps d(2) by (simp add: kadi_open_def nvme_set_aioctx_def d_def ps_def alloc_ctxs_eq kadi_new_def Let_def)
  then show ?thesis
    using close assms(1,5) by (auto simp: kd_initialize_device_def kd_cleanup_device_def Let_def rc_def)
qed

section \<open>Iterators\<close>

lemma opened_loop_finds:
  assumes "e \<in> set is" and "it_status e = 1" and "it_prefix e = bit_pattern" and "it_bitmask e = bitmask"
  shows "\<exists>h. opened_loop is bitmask bit_pattern n iter_hd = (KVS_ERR_ITERATOR_OPEN, h)"
  using assms by (induction "is" arbitrary: n) auto

lemma iter_open_filter:
  "cdw12 (iter_open_cmd nsid ks ctx opt) = ic_prefix ctx" "cdw13 (iter_open_cmd nsid ks ctx opt) = ic_bitmask ctx"
  by (simp_all add: iter_open_cmd_def set_cdw12_def set_cdw13_def cdw12_def cdw13_def mem_write_def kv_cmd_zero_def)

text \<open>
  C22. A filter that is open is not opened again: if the drive lists, in any of the 16 entries of its
  page, an open iterator with the pattern and the mask that the adapter sends for this filter, the
  driver refuses to create another one, and no command is sent.
\<close>

theorem kdd_filter_opened_once:
  assumes "kd_sqH s" and "kd_nsH s" and "i < 16" and "512 \<le> length page" and "page ! (i * 16 + 1) = 1"
    and "read_u32 (drop (i * 16 + 4) page) = cdw12 (iter_open_cmd nsid ks ctx opt)"
    and "read_u32 (drop (i * 16 + 8) page) = cdw13 (iter_open_cmd nsid ks ctx opt)"
    and "ic_prefix ctx = htobe32 bit_pattern" and "ic_bitmask ctx = htobe32 bitmask"
  shows "\<exists>h. kdd_create_iterator capable (0, page) out ks iter_type bitmask bit_pattern iter_hd s = (KVS_ERR_ITERATOR_OPEN, h, s)"
proof -
  define logbuf where "logbuf = take 512 (page @ replicate 512 0)"
  have logbuf: "logbuf = take 512 page" using assms(4) by (simp add: logbuf_def)
  have word: "read_u32 (drop (i * 16 + j) logbuf) = read_u32 (drop (i * 16 + j) page)" if "j \<le> 8" for j
    using assms(3) that by (simp add: logbuf read_u32_def drop_take min_def)
  have e: "it_status (iter_list_entry logbuf i) = 1" "it_prefix (iter_list_entry logbuf i) = bit_pattern"
      "it_bitmask (iter_list_entry logbuf i) = bitmask"
    using assms(3-9) word [of 4] word [of 8] by (simp_all add: iter_list_entry_def Let_def iter_open_filter add.commute) (simp add: logbuf)
  have "iter_list_entry logbuf i \<in> set (map (iter_list_entry logbuf) [0..<16])" using assms(3) by simp
  then have "\<exists>h. opened_loop (map (iter_list_entry logbuf) [0..<16]) bitmask bit_pattern 0 iter_hd = (KVS_ERR_ITERATOR_OPEN, h)"
    by (rule opened_loop_finds [OF _ e])
  moreover have "kd_list_iterators_sync 0 page True True 16 = (0, map (iter_list_entry logbuf) [0..<16], 16)"
    by (simp add: kd_list_iterators_sync_def iter_list_def logbuf_def rc_def del: upt_rec_numeral)
  ultimately show ?thesis
    using assms(1,2) by (auto simp: kdd_create_iterator_def check_opened_iterators_def simp del: upt_rec_numeral)
qed

section \<open>Witnesses\<close>

text \<open>A driver on the sample adapter, and a call that the drive answers with a status.\<close>

definition sample_kdd :: KDDriver where
  "sample_kdd = \<lparr>kd_handle = Some 1, kd_nsH = True, kd_sqH = True, kd_cqH = True, kd_queuedepth = 2,
     kd_adi = sample_kadi\<lparr>p_values := [0x300 \<mapsto> \<lparr>va_value = 0x400, va_length = 10, va_actual_value_size = 20, va_offset = 0\<rparr>]\<rparr>,
     kd_ctxs = Map.empty, kd_lists = Map.empty, kd_exists = [0x700 \<mapsto> (1, 0x710)]\<rparr>"

definition sample_call :: "int option \<Rightarrow> u16 \<Rightarrow> kdd_call" where
  "sample_call refused status = \<lparr>kc_capable = True, kc_refused = refused, kc_fn = 0x500, kc_ctx = 0x600, kc_answer = (status, 10, [1, 2, 3])\<rparr>"

lemma sample_idle: "kadi_idle (kd_adi sample_kdd)"
proof -
  have "ctxs_ok sample_kadi"
    using kadi_invD(1) [OF kadi_reach_inv [OF kadi_reach.start [OF sample_opened]]] by (simp add: kadi_start_def)
  then show ?thesis by (simp add: sample_kdd_def kadi_idle_def ctxs_ok_def ctx_index_def [abs_def] sample_kadi_def sample_kadi0_def)
qed

lemma sample_call_ok: "kdd_call_ok (sample_call None status) sample_kdd" "kdd_key_ok 0x100 (kd_adi sample_kdd)"
  using sample_idle
  by (simp_all add: kdd_call_ok_def sample_call_def kdd_key_ok_def short_key_ok_def) (simp_all add: sample_kdd_def sample_kadi_def sample_kadi0_def)

lemma sample_kdd_value: "p_values (kd_adi sample_kdd) 0x300 = Some \<lparr>va_value = 0x400, va_length = 10, va_actual_value_size = 20, va_offset = 0\<rparr>"
  "kd_exists sample_kdd 0x700 = Some (1, 0x710)" "kc_answer (sample_call refused status) = (status, 10, [1, 2, 3])"
  by (simp_all add: sample_kdd_def sample_call_def)

theorem reformat_iterbuffer_packs_witness:
  "\<exists>rest. reformat_iterbuffer \<lparr>kl_num_entries = 2, kl_end = False, kl_size = 24, kl_it_list = 0x800\<rparr>
      (drive_block [([1, 2, 3, 4, 5], [0, 0, 0]), ([6, 7, 8, 9], [])]) =
    Some (0, \<lparr>kl_num_entries = 2, kl_end = False, kl_size = 17, kl_it_list = 0x800\<rparr>, packed_keys [[1, 2, 3, 4, 5], [6, 7, 8, 9]] @ rest)"
proof -
  have "kl_num_entries \<lparr>kl_num_entries = 2, kl_end = False, kl_size = 24, kl_it_list = 0x800\<rparr> =
      read_u32 (drive_block [([1, 2, 3, 4, 5], [0, 0, 0]), ([6, 7, 8, 9], [])])"
    by (simp add: drive_block_def)
  then show ?thesis
    using reformat_iterbuffer_packs [of "[([1, 2, 3, 4, 5], [0, 0, 0]), ([6, 7, 8, 9], [])]"
      "\<lparr>kl_num_entries = 2, kl_end = False, kl_size = 24, kl_it_list = 0x800\<rparr>" "[]"]
    by (simp add: entry_ok_def drive_block_def drive_entry_def packed_keys_def)
qed

theorem kdd_sync_calls_witness:
  "(\<exists>s'. kdd_store_tuple (sample_call None 0) 0 0x100 0x300 KVS_STORE_POST True 0 sample_kdd = Returns (KVS_SUCCESS, s')
      \<and> kdd_finished (sample_call None 0) sample_kdd s')
   \<and> kdd_store_tuple (sample_call None 0) 0 0x100 0x300 KVS_STORE_APPEND True 0 sample_kdd = Returns (KVS_ERR_OPTION_INVALID, sample_kdd)
   \<and> (\<exists>s'. kdd_retrieve_tuple (sample_call None 0) 0 0x100 0x300 False True 0 sample_kdd = Returns (KVS_SUCCESS, s')
      \<and> p_mem (kd_adi s') = mem_put (p_mem (kd_adi sample_kdd)) 0x400 [1, 2, 3])"
proof -
  note ok = kdd_sync_calls [OF sample_call_ok(1) sample_kdd_value(3) sample_call_ok(2) sample_kdd_value(1) _ sample_kdd_value(2),
    where ks = 0 and cbfn = 0 and err = False and del = False]
  have "kd_ctxs sample_kdd (kc_ctx (sample_call None 0)) = None" by (simp add: sample_kdd_def)
  with ok [where status = 0 and st = KVS_STORE_POST] ok [where status = 0 and st = KVS_STORE_APPEND] show ?thesis by (auto simp: convert_status_def)
qed

theorem kdd_missing_key_masked_witness:
  "\<exists>s'. kdd_retrieve_tuple (sample_call None 0x310) 0 0x100 0x300 False True 0 sample_kdd = Returns (KVS_ERR_BUFFER_SMALL, s')"
  using kdd_missing_key_masked [OF sample_call_ok(1) sample_kdd_value(3) sample_call_ok(2) sample_kdd_value(1), of 0 False 0] by simp

theorem kdd_exist_refused_waits_witness:
  "kdd_exist_tuple (sample_call (Some (- 12)) 0) 0 1 0x100 0x700 True 0 sample_kdd = Waits"
  using sample_idle sample_call_ok(2) sample_kdd_value(2)
  by (intro kdd_exist_refused_waits [where e = "- 12"]) (simp_all add: sample_call_def sample_kdd_def)

theorem failed_open_deletes_context_witness:
  "\<exists>e w' devs'. kd_initialize_device \<lparr>oe_addr = 1, oe_capable = False, oe_valid = True, oe_fd = 3, oe_nsid = 1, oe_efd = 4, oe_ptrs = [10, 11],
       oe_errno = 13, oe_page = (0, []), oe_ctxid = 0\<rparr> 2 (Some None)
       (sample_kadi0\<lparr>kernel := (kernel sample_kadi0)\<lparr>g_kaioctx_tb := [Some \<lparr>kx_eventfd = 9, kaiocb_list = []\<rparr>]\<rparr>\<rparr>) {} = Some (e, None, w', devs')
    \<and> g_kaioctx_tb (kernel w') = [None]"
  using failed_open_deletes_context [of "\<lparr>oe_addr = 1, oe_capable = False, oe_valid = True, oe_fd = 3, oe_nsid = 1, oe_efd = 4, oe_ptrs = [10, 11],
       oe_errno = 13, oe_page = (0, []), oe_ctxid = 0\<rparr>" "{}"
       "sample_kadi0\<lparr>kernel := (kernel sample_kadi0)\<lparr>g_kaioctx_tb := [Some \<lparr>kx_eventfd = 9, kaiocb_list = []\<rparr>]\<rparr>\<rparr>" 2]
  by (auto simp: sample_kadi0_def)

definition sample_page :: "byte list" where
  "sample_page = [7, 1, 1, 0] @ u32_bytes 0x61000000 @ u32_bytes 0xff000000 @ replicate 500 0"

theorem kdd_filter_opened_once_witness:
  "\<exists>h. kdd_create_iterator True (0, sample_page) (kv_outcome.Finished False 0 1 []) 0 KVS_ITERATOR_KEY (htobe32 0xff000000) (htobe32 0x61000000) 0 sample_kdd =
     (KVS_ERR_ITERATOR_OPEN, h, sample_kdd)"
proof -
  have page: "sample_page ! 1 = 1" "read_u32 (drop 4 sample_page) = 0x61000000" "read_u32 (drop 8 sample_page) = 0xff000000" "512 \<le> length sample_page"
    by (simp_all only: sample_page_def read_u32_u32_bytes length_append length_replicate) simp_all
  show ?thesis
    using kdd_filter_opened_once [where s = sample_kdd and i = 0 and page = sample_page and nsid = 1 and ks = 0 and opt = 4
      and ctx = "\<lparr>ic_handle = 0, ic_prefix = 0x61000000, ic_bitmask = 0xff000000, ic_buf = 0, ic_buflen = 0, ic_byteswritten = 0, ic_end = False\<rparr>"
      and bit_pattern = "htobe32 0x61000000" and bitmask = "htobe32 0xff000000"] page
    by (simp add: iter_open_filter sample_kdd_def)
qed

end
